(* ===== verification/Prelude.thy ===== *)
theory Prelude
  imports Complex_Main "HOL-Library.Monad_Syntax" "HOL-Library.Multiset"
begin

text \<open>
  Shared vocabulary of the development.

  \<^item> \<open>interfaceId\<close> and \<open>NO_PEER_ID\<close> (src/quantas/Common/Packet.hpp).
  \<^item> The two C++ integer conversions on which the simulator's arithmetic depends:
    \<open>to_size_t\<close> (a signed value read as an unsigned 64-bit one, as in a comparison of an
    \<open>int\<close> with a \<open>size_t\<close>) and \<open>to_int32\<close> (a \<open>size_t\<close> stored into an \<open>int\<close>).
  \<^item> A C++ exception that nobody catches, and an access that the language leaves undefined,
    ends the simulation: such a computation is \<open>None\<close> in the option monad.
    \<open>foldM\<close> is a loop over a list in that monad, with its invariant, frame and
    progress rules.
  \<^item> Collections of facts: \<open>monad\<close> inverts a monadic run that returned, \<open>conv\<close> evaluates the
    integer conversions in range, \<open>pres\<close> collects the frame equations of the operations.
\<close>

named_theorems monad \<open>inversion of monadic computations that returned\<close>
named_theorems conv \<open>integer conversions on values in range\<close>
named_theorems pres \<open>fields that an operation leaves unchanged\<close>

subsection \<open>Identifiers and integer conversions\<close>

type_synonym interfaceId = int

definition NO_PEER_ID :: interfaceId where
  "NO_PEER_ID = -1"

definition to_size_t :: "int \<Rightarrow> int" where
  "to_size_t a = a mod 2 ^ 64"

definition to_int32 :: "int \<Rightarrow> int" where
  "to_int32 a = (a + 2 ^ 31) mod 2 ^ 32 - 2 ^ 31"

definition INT_MAX :: int where
  "INT_MAX = 2 ^ 31 - 1"

lemma to_size_t_id [conv]: "0 \<le> a \<Longrightarrow> a < 2 ^ 64 \<Longrightarrow> to_size_t a = a"
  by (simp add: to_size_t_def)

lemma to_size_t_neg: "a < 0 \<Longrightarrow> - (2 ^ 64) \<le> a \<Longrightarrow> to_size_t a = 2 ^ 64 + a"
proof -
  assume a: "a < 0" "- (2 ^ 64) \<le> a"
  have "a mod 2 ^ 64 = (2 ^ 64 + a) mod 2 ^ 64" by (rule mod_add_self1 [symmetric])
  also have "\<dots> = 2 ^ 64 + a" by (rule mod_pos_pos_trivial) (use a in simp_all)
  finally show "to_size_t a = 2 ^ 64 + a" by (simp only: to_size_t_def)
qed

lemma to_size_t_bounds: "0 \<le> to_size_t a" "to_size_t a < 2 ^ 64"
  by (simp_all add: to_size_t_def)

lemma to_int32_id [conv]: "- (2 ^ 31) \<le> a \<Longrightarrow> a < 2 ^ 31 \<Longrightarrow> to_int32 a = a"
  by (simp add: to_int32_def)

lemma to_int32_bounds: "- (2 ^ 31) \<le> to_int32 a" "to_int32 a < 2 ^ 31"
proof -
  have "0 \<le> (a + 2 ^ 31) mod 2 ^ 32" "(a + 2 ^ 31) mod 2 ^ 32 < (2 ^ 32 :: int)"
    by (rule pos_mod_sign, simp) (rule pos_mod_bound, simp)
  then show "- (2 ^ 31) \<le> to_int32 a" "to_int32 a < 2 ^ 31"
    by (simp_all add: to_int32_def)
qed

subsection \<open>Loops in the option monad\<close>

declare Option.bind_eq_Some_conv [monad]

primrec foldM :: "('a \<Rightarrow> 's \<Rightarrow> 's option) \<Rightarrow> 'a list \<Rightarrow> 's \<Rightarrow> 's option" where
  "foldM f [] s = Some s"
| "foldM f (x # xs) s = Option.bind (f x s) (foldM f xs)"

lemma bind_foldM_Nil [simp]: "Option.bind x (foldM f []) = x"
  by (cases x) simp_all

lemma bind_SomeE:
  assumes "Option.bind x f = Some y"
  obtains z where "x = Some z" and "f z = Some y"
  using assms by (auto simp: Option.bind_eq_Some_conv)

lemma if_SomeE:
  assumes "(if b then x else y) = Some q"
  obtains "x = Some q" | "y = Some q"
  using assms by (auto split: if_splits)

lemma if_Some_condE:
  assumes "(if b then x else y) = Some q"
  obtains "b" and "x = Some q" | "\<not> b" and "y = Some q"
  using assms by (auto split: if_splits)

lemma foldM_append: "foldM f (xs @ ys) s = Option.bind (foldM f xs s) (foldM f ys)"
  by (induction xs arbitrary: s) (auto split: bind_splits)

lemma foldM_invariant:
  assumes run: "foldM f xs s = Some s'"
    and init: "I s"
    and step: "\<And>x s s'. x \<in> set xs \<Longrightarrow> I s \<Longrightarrow> f x s = Some s' \<Longrightarrow> I s'"
  shows "I s'"
  using assms
proof (induction xs arbitrary: s)
  case (Cons x xs)
  from Cons.prems(1) obtain t where t: "f x s = Some t" "foldM f xs t = Some s'"
    by (auto simp: monad)
  have "I t" using Cons.prems(2,3) t(1) by (meson list.set_intros(1))
  then show ?case using Cons.IH [OF t(2)] Cons.prems(3) by (meson list.set_intros(2))
qed auto

lemma foldM_frame:
  assumes "foldM f xs s = Some s'"
    and "\<And>x s s'. x \<in> set xs \<Longrightarrow> f x s = Some s' \<Longrightarrow> h s' = h s"
  shows "h s' = h s"
  using foldM_invariant [of f xs s s' "\<lambda>t. h t = h s"] assms by auto

lemma foldM_total:
  assumes init: "I s"
    and step: "\<And>x s. x \<in> set xs \<Longrightarrow> I s \<Longrightarrow> \<exists>s'. f x s = Some s' \<and> I s'"
  shows "\<exists>s'. foldM f xs s = Some s' \<and> I s'"
  using assms
proof (induction xs arbitrary: s)
  case (Cons x xs)
  obtain t where t: "f x s = Some t" "I t"
    using Cons.prems by (meson list.set_intros(1))
  have "\<exists>s'. foldM f xs t = Some s' \<and> I s'"
    using Cons.IH [OF t(2)] Cons.prems(2) by (meson list.set_intros(2))
  with t(1) show ?case by simp
qed simp

lemma foldM_pure: "foldM (\<lambda>x s. Some (f x s)) xs s = Some (fold f xs s)"
  by (induction xs arbitrary: s) auto

subsection \<open>Lists and ordered sets\<close>

text \<open>
  A \<open>std::set\<close> of identifiers is its elements in increasing order, the order of its iteration.
\<close>

type_synonym idset = "interfaceId list"

definition wf_idset :: "idset \<Rightarrow> bool" where
  "wf_idset xs = (sorted xs \<and> distinct xs)"

abbreviation idset_insert :: "interfaceId \<Rightarrow> idset \<Rightarrow> idset" where
  "idset_insert \<equiv> insort_insert"

definition idset_of :: "interfaceId list \<Rightarrow> idset" where
  "idset_of xs = fold idset_insert xs []"

lemma wf_idset_insert: "wf_idset xs \<Longrightarrow> wf_idset (idset_insert x xs)"
  by (simp add: wf_idset_def sorted_insort_insert distinct_insort_insert)

lemma wf_idset_remove: "wf_idset xs \<Longrightarrow> wf_idset (removeAll x xs)"
  by (auto simp: wf_idset_def distinct_removeAll removeAll_filter_not_eq intro: sorted_filter [of id, simplified])

lemma wf_idset_Nil [simp]: "wf_idset []"
  by (simp add: wf_idset_def)

lemma set_fold_idset_insert: "set (fold idset_insert xs acc) = set xs \<union> set acc"
  by (induction xs arbitrary: acc) (auto simp: set_insort_insert)

lemma set_idset_of [simp]: "set (idset_of xs) = set xs"
  by (simp add: idset_of_def set_fold_idset_insert)

lemma wf_idset_fold: "wf_idset acc \<Longrightarrow> wf_idset (fold idset_insert xs acc)"
  by (induction xs arbitrary: acc) (auto simp: wf_idset_insert)

lemma wf_idset_of [simp]: "wf_idset (idset_of xs)"
  by (simp add: idset_of_def wf_idset_fold)

lemma wf_idset_hd: "wf_idset xs \<Longrightarrow> x \<in> set xs \<Longrightarrow> hd xs \<le> x"
  by (cases xs) (auto simp: wf_idset_def)

lemma wf_idset_eq: "wf_idset xs \<Longrightarrow> wf_idset ys \<Longrightarrow> set xs = set ys \<Longrightarrow> xs = ys"
  by (simp add: wf_idset_def sorted_distinct_set_unique)

lemma fold_invariant:
  assumes "I s" and "\<And>x s. x \<in> set xs \<Longrightarrow> I s \<Longrightarrow> I (f x s)"
  shows "I (fold f xs s)"
  using assms by (induction xs arbitrary: s) auto

lemma fold_frame:
  assumes "\<And>x s. x \<in> set xs \<Longrightarrow> h (f x s) = h s"
  shows "h (fold f xs s) = h s"
  using assms by (induction xs arbitrary: s) auto

lemma length_filter_mono: "(\<And>x. x \<in> set xs \<Longrightarrow> P x \<Longrightarrow> Q x) \<Longrightarrow> length (filter P xs) \<le> length (filter Q xs)"
  by (induction xs) (auto simp: le_SucI)

lemma length_filter_less_mono:
  assumes "\<And>x. x \<in> set xs \<Longrightarrow> P x \<Longrightarrow> Q x" and "y \<in> set xs" and "Q y" and "\<not> P y"
  shows "length (filter P xs) < length (filter Q xs)"
  using assms
proof (induction xs)
  case (Cons x xs)
  show ?case
  proof (cases "x = y")
    case True
    with Cons.prems length_filter_mono [of xs P Q] show ?thesis by (simp add: le_imp_less_Suc)
  next
    case False
    with Cons show ?thesis by auto
  qed
qed simp

lemma nth_list_update_if: "i < length xs \<Longrightarrow> xs[i := v] ! j = (if i = j then v else xs ! j)"
  by (simp add: nth_list_update)

lemma map_list_update_same: "f v = f (xs ! i) \<Longrightarrow> map f (xs[i := v]) = map f xs"
proof (cases "i < length xs")
  assume "f v = f (xs ! i)" "i < length xs"
  then show ?thesis using list_update_id [of "map f xs" i] by (simp add: map_update)
qed (simp add: list_update_beyond)

lemma sum_list_map_update:
  fixes f :: "'a \<Rightarrow> 'b::comm_monoid_add"
  assumes "i < length xs"
  shows "sum_list (map f (xs[i := v])) + f (xs ! i) = sum_list (map f xs) + f v"
  using assms
proof (induction xs arbitrary: i)
  case (Cons x xs)
  then show ?case by (cases i) (simp_all add: add_ac)
qed simp

end
