(* ===== verification/RandomUtil.thy ===== *)
theory RandomUtil
  imports Prelude
begin

text \<open>
  src/quantas/Common/RandomUtil.hpp and the \<open>std::shuffle\<close> the simulator calls.

  The engine of a thread (\<open>threadLocalEngine\<close>, a \<open>std::mt19937\<close> seeded from the clock) is a
  sequence of draws; every helper consumes its prefix and returns the rest. A draw is any
  natural number and each distribution maps it onto its range, so a statement for every
  \<open>rng\<close> is a statement for every outcome the distributions can produce. A helper that throws
  \<open>std::invalid_argument\<close> is \<open>None\<close>.
\<close>

type_synonym rng = "nat \<Rightarrow> nat"

definition draw :: "rng \<Rightarrow> nat \<times> rng" where
  "draw g = (g 0, \<lambda>n. g (Suc n))"

definition uniformInt :: "int \<Rightarrow> int \<Rightarrow> rng \<Rightarrow> (int \<times> rng) option" where
  "uniformInt minVal maxVal g =
     (if minVal > maxVal then None
      else let (d, g') = draw g in Some (minVal + int d mod (maxVal - minVal + 1), g'))"

definition uniformReal :: "real \<Rightarrow> real \<Rightarrow> rng \<Rightarrow> (real \<times> rng) option" where
  "uniformReal minVal maxVal g =
     (if minVal > maxVal then None
      else let (d, g') = draw g
           in Some (minVal + (maxVal - minVal) * (real (d mod 2 ^ 53) / 2 ^ 53), g'))"

definition randMod :: "int \<Rightarrow> rng \<Rightarrow> (int \<times> rng) option" where
  "randMod exclusiveMax g =
     (if exclusiveMax \<le> 0 then None else uniformInt 0 (exclusiveMax - 1) g)"

definition trueWithProbability :: "real \<Rightarrow> rng \<Rightarrow> (bool \<times> rng) option" where
  "trueWithProbability p g =
     (if p \<le> 0 then Some (False, g)
      else if p \<ge> 1 then Some (True, g)
      else do { (u, g') \<leftarrow> uniformReal 0 1 g; Some (u < p, g') })"

definition poissonInt :: "real \<Rightarrow> rng \<Rightarrow> (int \<times> rng) option" where
  "poissonInt lam g =
     (if lam \<le> 0 then None else let (d, g') = draw g in Some (int d, g'))"

text \<open>
  \<open>std::shuffle\<close>: for every position from the second on, swap it with a position drawn
  uniformly among those up to and including it.
\<close>

definition swap :: "nat \<Rightarrow> nat \<Rightarrow> 'a list \<Rightarrow> 'a list" where
  "swap i j xs = (xs[i := xs ! j])[j := xs ! i]"

fun shuffle_from :: "nat list \<Rightarrow> 'a list \<Rightarrow> rng \<Rightarrow> 'a list \<times> rng" where
  "shuffle_from [] xs g = (xs, g)"
| "shuffle_from (i # is) xs g =
     (let (d, g') = draw g in shuffle_from is (swap i (d mod Suc i) xs) g')"

definition shuffle :: "'a list \<Rightarrow> rng \<Rightarrow> 'a list \<times> rng" where
  "shuffle xs g = shuffle_from [1..<length xs] xs g"

subsection \<open>Ranges of the draws\<close>

lemma uniformInt_range:
  assumes "uniformInt lo hi g = Some (v, g')"
  shows "lo \<le> v" "v \<le> hi"
proof -
  from assms have le: "lo \<le> hi" and v: "v = lo + int (g 0) mod (hi - lo + 1)"
    by (auto simp: uniformInt_def draw_def split: if_splits)
  have "0 \<le> int (g 0) mod (hi - lo + 1)" "int (g 0) mod (hi - lo + 1) < hi - lo + 1"
    using le by (simp, intro pos_mod_bound, simp)
  then show "lo \<le> v" "v \<le> hi" using v by simp_all
qed

lemma uniformInt_total: "lo \<le> hi \<Longrightarrow> \<exists>v g'. uniformInt lo hi g = Some (v, g')"
  by (simp add: uniformInt_def draw_def)

lemma uniformInt_single: "uniformInt a a g = Some (a, snd (draw g))"
  by (simp add: uniformInt_def draw_def)

lemma randMod_range:
  assumes "randMod n g = Some (v, g')"
  shows "0 \<le> v" "v < n"
  using assms uniformInt_range [of 0 "n - 1" g v g'] by (auto simp: randMod_def split: if_splits)

lemma randMod_total: "0 < n \<Longrightarrow> \<exists>v g'. randMod n g = Some (v, g')"
  by (simp add: randMod_def uniformInt_def draw_def)

lemma trueWithProbability_total: "\<exists>b g'. trueWithProbability p g = Some (b, g')"
  by (auto simp: trueWithProbability_def uniformReal_def draw_def)

lemma trueWithProbability_never [simp]: "p \<le> 0 \<Longrightarrow> trueWithProbability p g = Some (False, g)"
  by (simp add: trueWithProbability_def)

lemma trueWithProbability_always [simp]: "1 \<le> p \<Longrightarrow> trueWithProbability p g = Some (True, g)"
  by (simp add: trueWithProbability_def)

lemma poissonInt_nonneg: "poissonInt l g = Some (v, g') \<Longrightarrow> 0 \<le> v"
  by (auto simp: poissonInt_def draw_def split: if_splits)

subsection \<open>A shuffle is a permutation\<close>

lemma mset_swap: "i < length xs \<Longrightarrow> j < length xs \<Longrightarrow> mset (swap i j xs) = mset xs"
  by (simp add: swap_def mset_swap)

lemma length_swap [simp]: "length (swap i j xs) = length xs"
  by (simp add: swap_def)

lemma mset_shuffle_from:
  "\<forall>i \<in> set is. i < length xs \<Longrightarrow> mset (fst (shuffle_from is xs g)) = mset xs"
proof (induction "is" xs g rule: shuffle_from.induct)
  case (2 i "is" xs g)
  obtain d g' where d: "draw g = (d, g')" by fastforce
  have j: "d mod Suc i < length xs"
    using 2(2) mod_less_divisor [of "Suc i" d] by (simp del: mod_less_divisor)
  show ?case using 2 d j mset_swap [of i xs "d mod Suc i"] by simp
qed simp

lemma mset_shuffle [simp]: "mset (fst (shuffle xs g)) = mset xs"
  by (simp add: shuffle_def mset_shuffle_from)

lemma set_shuffle [simp]: "set (fst (shuffle xs g)) = set xs"
  using mset_eq_setD [OF mset_shuffle] .

lemma length_shuffle [simp]: "length (fst (shuffle xs g)) = length xs"
  using mset_eq_length [OF mset_shuffle] .

end
