(* ===== verification/Json_Value.thy ===== *)
theory Json_Value
  imports Prelude "HOL-Library.Char_ord" "HOL-Library.List_Lexorder"
begin

text \<open>
  The JSON values that configurations and messages are made of, with the operations of
  \<open>nlohmann::json\<close> the program calls (src/quantas/Common/Json.hpp).

  An object is its list of members in key order, as the \<open>std::map\<close> behind the library's
  \<open>object_t\<close>; two objects with the same members are therefore equal. Integers are unbounded and
  floating point numbers are reals. A \<open>type_error\<close> (302, 305, 306, 307) is \<open>None\<close>, and so is
  the constant \<open>operator[]\<close> on a missing key, which the library leaves undefined.

  \<open>get_int\<close> is \<open>get<int>()\<close>, \<open>get_id\<close> is \<open>get<interfaceId>()\<close> (a \<open>long\<close>, the library's own integer
  type, for which a boolean is not accepted), and \<open>value_int\<close> \dots are \<open>value(key, default)\<close>.
\<close>

datatype json =
    JNull
  | JBool bool
  | JInt int
  | JFloat real
  | JStr string
  | JArr "json list"
  | JObj "(string \<times> json) list"

fun obj_put :: "string \<Rightarrow> json \<Rightarrow> (string \<times> json) list \<Rightarrow> (string \<times> json) list" where
  "obj_put k v [] = [(k, v)]"
| "obj_put k v ((k', v') # kvs) =
     (if k = k' then (k, v) # kvs
      else if k < k' then (k, v) # (k', v') # kvs
      else (k', v') # obj_put k v kvs)"

definition jobject :: "(string \<times> json) list \<Rightarrow> json" where
  "jobject kvs = JObj (fold (\<lambda>(k, v) m. obj_put k v m) kvs [])"

fun is_object :: "json \<Rightarrow> bool" where
  "is_object (JObj _) = True"
| "is_object _ = False"

fun is_array :: "json \<Rightarrow> bool" where
  "is_array (JArr _) = True"
| "is_array _ = False"

fun is_string :: "json \<Rightarrow> bool" where
  "is_string (JStr _) = True"
| "is_string _ = False"

fun is_number_integer :: "json \<Rightarrow> bool" where
  "is_number_integer (JInt _) = True"
| "is_number_integer _ = False"

text \<open>\<open>find(key)\<close> on an object; a value of another type has no members.\<close>

fun jfind :: "string \<Rightarrow> json \<Rightarrow> json option" where
  "jfind k (JObj kvs) = map_of kvs k"
| "jfind k _ = None"

definition contains :: "json \<Rightarrow> string \<Rightarrow> bool" where
  "contains j k = (jfind k j \<noteq> None)"

text \<open>
  Reading \<open>j[k]\<close> through a constant reference, and reading \<open>j[k]\<close> through a non-constant one,
  which inserts a null member when the key is missing and turns null into an object.
\<close>

fun jat :: "json \<Rightarrow> string \<Rightarrow> json option" where
  "jat (JObj kvs) k = map_of kvs k"
| "jat _ k = None"

fun jindex :: "json \<Rightarrow> string \<Rightarrow> json option" where
  "jindex JNull k = Some JNull"
| "jindex (JObj kvs) k = Some (case map_of kvs k of None \<Rightarrow> JNull | Some v \<Rightarrow> v)"
| "jindex _ k = None"

text \<open>The assignment \<open>j[k] = v\<close>.\<close>

fun jset :: "string \<Rightarrow> json \<Rightarrow> json \<Rightarrow> json option" where
  "jset k v JNull = Some (JObj [(k, v)])"
| "jset k v (JObj kvs) = Some (JObj (obj_put k v kvs))"
| "jset k v _ = None"

fun jerase :: "string \<Rightarrow> json \<Rightarrow> json option" where
  "jerase k (JObj kvs) = Some (JObj (filter (\<lambda>(k', _). k' \<noteq> k) kvs))"
| "jerase k _ = None"

fun get_int :: "json \<Rightarrow> int option" where
  "get_int (JInt n) = Some n"
| "get_int (JFloat r) = Some (if r \<ge> 0 then \<lfloor>r\<rfloor> else \<lceil>r\<rceil>)"
| "get_int (JBool b) = Some (if b then 1 else 0)"
| "get_int _ = None"

fun get_id :: "json \<Rightarrow> interfaceId option" where
  "get_id (JInt n) = Some n"
| "get_id (JFloat r) = Some (if r \<ge> 0 then \<lfloor>r\<rfloor> else \<lceil>r\<rceil>)"
| "get_id _ = None"

fun get_real :: "json \<Rightarrow> real option" where
  "get_real (JInt n) = Some (of_int n)"
| "get_real (JFloat r) = Some r"
| "get_real _ = None"

fun get_string :: "json \<Rightarrow> string option" where
  "get_string (JStr s) = Some s"
| "get_string _ = None"

fun get_bool :: "json \<Rightarrow> bool option" where
  "get_bool (JBool b) = Some b"
| "get_bool _ = None"

text \<open>The comparison of a value with an \<open>int\<close>.\<close>

fun json_is_int :: "json \<Rightarrow> int \<Rightarrow> bool" where
  "json_is_int (JInt k) n = (k = n)"
| "json_is_int (JFloat r) n = (r = of_int n)"
| "json_is_int _ n = False"

definition value_with :: "(json \<Rightarrow> 'a option) \<Rightarrow> json \<Rightarrow> string \<Rightarrow> 'a \<Rightarrow> 'a option" where
  "value_with get j k d =
     (if is_object j then (case jfind k j of None \<Rightarrow> Some d | Some v \<Rightarrow> get v) else None)"

abbreviation value_int :: "json \<Rightarrow> string \<Rightarrow> int \<Rightarrow> int option" where
  "value_int \<equiv> value_with get_int"

abbreviation value_id :: "json \<Rightarrow> string \<Rightarrow> interfaceId \<Rightarrow> interfaceId option" where
  "value_id \<equiv> value_with get_id"

abbreviation value_real :: "json \<Rightarrow> string \<Rightarrow> real \<Rightarrow> real option" where
  "value_real \<equiv> value_with get_real"

abbreviation value_string :: "json \<Rightarrow> string \<Rightarrow> string \<Rightarrow> string option" where
  "value_string \<equiv> value_with get_string"

abbreviation value_bool :: "json \<Rightarrow> string \<Rightarrow> bool \<Rightarrow> bool option" where
  "value_bool \<equiv> value_with get_bool"

abbreviation value_json :: "json \<Rightarrow> string \<Rightarrow> json \<Rightarrow> json option" where
  "value_json \<equiv> value_with Some"

subsection \<open>Members after a write\<close>

lemma map_of_obj_put [simp]: "map_of (obj_put k v kvs) = (map_of kvs)(k \<mapsto> v)"
  by (induction k v kvs rule: obj_put.induct) (auto simp: fun_upd_twist)

lemma map_of_puts: "map_of (fold (\<lambda>(k, v) m. obj_put k v m) kvs m) = map_of m ++ map_of (rev kvs)"
  by (induction kvs arbitrary: m) (auto simp: map_add_upd_left split: prod.splits)

lemma jfind_jobject [simp]: "jfind k (jobject kvs) = map_of (rev kvs) k"
  by (simp add: jobject_def map_of_puts)

lemma is_object_jobject [simp]: "is_object (jobject kvs)"
  by (simp add: jobject_def)

lemma jat_jobject [simp]: "jat (jobject kvs) k = map_of (rev kvs) k"
  by (simp add: jobject_def map_of_puts)

lemma jindex_jobject [simp]:
  "jindex (jobject kvs) k = Some (case map_of (rev kvs) k of None \<Rightarrow> JNull | Some v \<Rightarrow> v)"
  by (simp add: jobject_def map_of_puts)

lemma jset_jobject: "jset k v (jobject kvs) = Some (jobject (kvs @ [(k, v)]))"
  by (simp add: jobject_def)

lemma jfind_jset: "jset k v j = Some j' \<Longrightarrow> jfind k' j' = (if k' = k then Some v else jfind k' j)"
  by (cases j) auto

lemma jfind_jset_same: "jset k v j = Some j' \<Longrightarrow> jfind k j' = Some v"
  by (simp add: jfind_jset)

lemma jset_is_object: "jset k v j = Some j' \<Longrightarrow> is_object j'"
  by (cases j) auto

lemma jset_total: "is_object j \<Longrightarrow> \<exists>j'. jset k v j = Some j'"
  by (cases j) auto

lemma jfind_jerase: "jerase k j = Some j' \<Longrightarrow> jfind k' j' = (if k' = k then None else jfind k' j)"
proof (cases j)
  case (JObj kvs)
  moreover assume "jerase k j = Some j'"
  moreover have "map_of (filter (\<lambda>(k', _). k' \<noteq> k) kvs) k' = (if k' = k then None else map_of kvs k')"
    by (induction kvs) auto
  ultimately show ?thesis by auto
qed auto

lemma jerase_is_object: "jerase k j = Some j' \<Longrightarrow> is_object j'"
  by (cases j) auto

lemma jerase_total: "is_object j \<Longrightarrow> \<exists>j'. jerase k j = Some j'"
  by (cases j) auto

lemma value_with_found: "is_object j \<Longrightarrow> jfind k j = Some v \<Longrightarrow> value_with get j k d = get v"
  by (simp add: value_with_def)

lemma value_with_missing: "is_object j \<Longrightarrow> jfind k j = None \<Longrightarrow> value_with get j k d = Some d"
  by (simp add: value_with_def)

lemma value_with_jobject [simp]:
  "value_with get (jobject kvs) k d =
     (case map_of (rev kvs) k of None \<Rightarrow> Some d | Some v \<Rightarrow> get v)"
  by (simp add: value_with_def)

lemma value_with_jset:
  "jset k v j = Some j' \<Longrightarrow> is_object j \<Longrightarrow>
   value_with get j' k' d = (if k' = k then get v else value_with get j k' d)"
  by (auto simp: value_with_def jfind_jset dest: jset_is_object)

lemma value_with_jerase:
  "jerase k j = Some j' \<Longrightarrow> is_object j \<Longrightarrow>
   value_with get j' k' d = (if k' = k then Some d else value_with get j k' d)"
  by (auto simp: value_with_def jfind_jerase dest: jerase_is_object)

subsection \<open>Key order\<close>

definition wf_members :: "(string \<times> json) list \<Rightarrow> bool" where
  "wf_members kvs = (sorted (map fst kvs) \<and> distinct (map fst kvs))"

lemma set_obj_put: "fst ` set (obj_put k v kvs) = insert k (fst ` set kvs)"
  by (induction k v kvs rule: obj_put.induct) auto

lemma wf_members_obj_put: "wf_members kvs \<Longrightarrow> wf_members (obj_put k v kvs)"
proof (induction k v kvs rule: obj_put.induct)
  case (2 k v k' v' kvs)
  then show ?case
    using set_obj_put [of k v kvs] by (auto simp: wf_members_def)
qed (simp add: wf_members_def)

lemma jobject_wf: "jobject kvs = JObj ms \<Longrightarrow> wf_members ms"
proof -
  have "wf_members m \<Longrightarrow> wf_members (fold (\<lambda>(k, v) m. obj_put k v m) kvs m)" for m
    by (rule fold_invariant [where I = wf_members]) (auto intro: wf_members_obj_put)
  from this [of "[]"] show "jobject kvs = JObj ms \<Longrightarrow> wf_members ms"
    by (simp add: jobject_def wf_members_def)
qed

end
