(* ===== verification/Packet.thy ===== *)
theory Packet
  imports RandomUtil Json_Value
begin

text \<open>
  The round counter (src/quantas/Common/RoundManager.hpp) and packets
  (src/quantas/Common/Packet.hpp).

  \<open>roundManager\<close> is the singleton's state. Its rounds are \<open>size_t\<close> values: natural numbers whose
  increments wrap at \<open>2 ^ 64\<close>. In asynchronous mode the current round is the number of milliseconds
  since the start, the argument \<open>elapsed\<close> of \<open>currentRound\<close>; the abstract simulator runs in
  synchronous mode. The other components receive the current round as an integer argument \<open>now\<close>.
\<close>

subsection \<open>Rounds\<close>

record roundManager =
  rm_currentRound :: nat
  rm_lastRound :: nat
  rm_synchronous :: bool

definition rm_init :: roundManager where
  "rm_init = \<lparr>rm_currentRound = 0, rm_lastRound = 0, rm_synchronous = True\<rparr>"

definition currentRound :: "nat \<Rightarrow> roundManager \<Rightarrow> nat" where
  "currentRound elapsed r = (if rm_synchronous r then rm_currentRound r else elapsed)"

definition lastRound :: "roundManager \<Rightarrow> nat" where
  "lastRound r = rm_lastRound r"

definition setLastRound :: "nat \<Rightarrow> roundManager \<Rightarrow> roundManager" where
  "setLastRound n r = r\<lparr>rm_lastRound := n\<rparr>"

definition setCurrentRound :: "nat \<Rightarrow> roundManager \<Rightarrow> roundManager" where
  "setCurrentRound n r = r\<lparr>rm_currentRound := n\<rparr>"

definition increaseRound :: "nat \<Rightarrow> roundManager \<Rightarrow> roundManager" where
  "increaseRound n r = r\<lparr>rm_currentRound := (rm_currentRound r + n) mod 2 ^ 64\<rparr>"

definition incrementRound :: "roundManager \<Rightarrow> roundManager" where
  "incrementRound r = r\<lparr>rm_currentRound := (rm_currentRound r + 1) mod 2 ^ 64\<rparr>"

definition asynchronous :: "roundManager \<Rightarrow> roundManager" where
  "asynchronous r = r\<lparr>rm_synchronous := False\<rparr>"

definition synchronous :: "roundManager \<Rightarrow> roundManager" where
  "synchronous r = r\<lparr>rm_synchronous := True\<rparr>"

subsection \<open>Packets\<close>

record packet =
  pk_targetId :: interfaceId
  pk_sourceId :: interfaceId
  pk_body :: json
  pk_delay :: int
  pk_round :: int
  pk_sendTimestamp :: int

definition new_packet :: "int \<Rightarrow> packet" where
  "new_packet now = \<lparr>pk_targetId = NO_PEER_ID, pk_sourceId = NO_PEER_ID, pk_body = JNull,
     pk_delay = 0, pk_round = to_int32 now, pk_sendTimestamp = 0\<rparr>"

definition new_packet_to :: "int \<Rightarrow> interfaceId \<Rightarrow> interfaceId \<Rightarrow> json \<Rightarrow> packet" where
  "new_packet_to now to from body = \<lparr>pk_targetId = to, pk_sourceId = from, pk_body = body,
     pk_delay = 0, pk_round = to_int32 now, pk_sendTimestamp = 0\<rparr>"

definition setDelay :: "int \<Rightarrow> int \<Rightarrow> packet \<Rightarrow> rng \<Rightarrow> (packet \<times> rng) option" where
  "setDelay maxDelay minDelay p g =
     (let maxDelay = (if maxDelay < 1 then 1 else maxDelay);
          minDelay = (if minDelay < 1 then 1 else minDelay);
          minDelay = (if minDelay > maxDelay then maxDelay else minDelay)
      in do { (d, g) \<leftarrow> uniformInt minDelay maxDelay g; Some (p\<lparr>pk_delay := d\<rparr>, g) })"

definition hasArrived :: "int \<Rightarrow> packet \<Rightarrow> bool" where
  "hasArrived now p = (now \<ge> to_size_t (pk_round p + pk_delay p))"

text \<open>Two packets that differ in their delay only.\<close>

definition same_packet :: "packet \<Rightarrow> packet \<Rightarrow> bool" where
  "same_packet p q = (p\<lparr>pk_delay := 0\<rparr> = q\<lparr>pk_delay := 0\<rparr>)"

lemma same_packet_refl [simp]: "same_packet p p"
  by (simp add: same_packet_def)

lemma same_packet_trans: "same_packet p q \<Longrightarrow> same_packet q r \<Longrightarrow> same_packet p r"
  by (simp add: same_packet_def)

lemma same_packet_fields:
  assumes "same_packet p q"
  shows "pk_targetId p = pk_targetId q" "pk_sourceId p = pk_sourceId q" "pk_body p = pk_body q"
    "pk_round p = pk_round q"
  using assms by (cases p; cases q; simp add: same_packet_def)+

lemma setDelay_total: "\<exists>q g'. setDelay dmax dmin p g = Some (q, g')"
proof -
  have "\<exists>v g'. uniformInt (min (max 1 dmin) (max 1 dmax)) (max 1 dmax) g = Some (v, g')"
    by (rule uniformInt_total) simp
  then show ?thesis
    by (auto simp: setDelay_def Let_def uniformInt_def draw_def split: if_splits)
qed

text \<open>The channel calls \<open>setDelay(d, d)\<close>: the stored delay is \<open>d\<close>, raised to 1.\<close>

lemma setDelay_exact: "setDelay d d p g = Some (p\<lparr>pk_delay := max 1 d\<rparr>, snd (draw g))"
  by (cases "d < 1") (simp_all add: setDelay_def uniformInt_single)

lemma setDelay_range:
  assumes "setDelay dmax dmin p g = Some (q, g')"
  shows "1 \<le> pk_delay q" "pk_delay q \<le> max 1 dmax" "same_packet q p"
  using assms
  by (auto simp: setDelay_def Let_def monad same_packet_def dest: uniformInt_range split: if_splits)

lemma hasArrived_iff:
  "0 \<le> pk_round p + pk_delay p \<Longrightarrow> pk_round p + pk_delay p < 2 ^ 64 \<Longrightarrow>
   hasArrived now p \<longleftrightarrow> pk_round p + pk_delay p \<le> now"
  by (simp add: hasArrived_def conv)

lemma hasArrived_mono: "hasArrived now p \<Longrightarrow> now \<le> later \<Longrightarrow> hasArrived later p"
  by (simp add: hasArrived_def)

lemma incrementRound_round: "rm_currentRound r < 2 ^ 64 - 1 \<Longrightarrow>
   rm_currentRound (incrementRound r) = Suc (rm_currentRound r)"
  by (simp add: incrementRound_def)

end
