(* ===== verification/Channel.thy ===== *)
theory Channel
  imports Packet
begin

text \<open>
  Channels (src/quantas/Common/Abstract/Channel.hpp and Channel.cpp): the properties read from the
  \<open>distribution\<close> object, the factory that shares equal properties, and the queue of packets in
  flight with its drop, delay, duplication, reordering, capacity and throughput rules.

  The properties are never written after their construction, so a channel holds them by value;
  the factory's cache keeps which distinct properties exist. \<open>push_loop\<close> is the duplication loop of
  \<open>pushPacket\<close>: each turn uses up one place of the queue, which is its termination measure.
\<close>

datatype delayStyle = DS_UNIFORM | DS_POISSON | DS_ONE

record channelProperties =
  cp_delayStyle :: delayStyle
  cp_dropProbability :: real
  cp_reorderProbability :: real
  cp_duplicateProbability :: real
  cp_maxMsgsRec :: int
  cp_size :: int
  cp_avgDelay :: int
  cp_minDelay :: int
  cp_maxDelay :: int

definition cp_initial :: channelProperties where
  "cp_initial = \<lparr>cp_delayStyle = DS_UNIFORM, cp_dropProbability = 0, cp_reorderProbability = 0,
     cp_duplicateProbability = 0, cp_maxMsgsRec = INT_MAX, cp_size = INT_MAX, cp_avgDelay = 1,
     cp_minDelay = 1, cp_maxDelay = 1\<rparr>"

definition cp_setParameters :: "json \<Rightarrow> channelProperties \<Rightarrow> channelProperties option" where
  "cp_setParameters params p = do {
     drop \<leftarrow> value_real params ''dropProbability'' 0;
     reorder \<leftarrow> value_real params ''reorderProbability'' 0;
     dup \<leftarrow> value_real params ''duplicateProbability'' 0;
     maxMsgsRec \<leftarrow> value_int params ''maxMsgsRec'' 1;
     sz \<leftarrow> value_int params ''size'' INT_MAX;
     avgDelay \<leftarrow> value_int params ''avgDelay'' 1;
     minDelay \<leftarrow> value_int params ''minDelay'' 1;
     maxDelay \<leftarrow> value_int params ''maxDelay'' 1;
     t \<leftarrow> value_string params ''type'' ''UNIFORM'';
     Some \<lparr>cp_delayStyle = (if t = ''UNIFORM'' then DS_UNIFORM
                            else if t = ''POISSON'' then DS_POISSON
                            else if t = ''ONE'' then DS_ONE else cp_delayStyle p),
           cp_dropProbability = drop, cp_reorderProbability = reorder,
           cp_duplicateProbability = dup, cp_maxMsgsRec = maxMsgsRec, cp_size = sz,
           cp_avgDelay = avgDelay, cp_minDelay = minDelay, cp_maxDelay = maxDelay\<rparr> }"

definition new_properties :: "json \<Rightarrow> channelProperties option" where
  "new_properties params = cp_setParameters params cp_initial"

definition cp_equal :: "channelProperties \<Rightarrow> channelProperties \<Rightarrow> bool" where
  "cp_equal p q =
     (cp_dropProbability p = cp_dropProbability q \<and>
      cp_reorderProbability p = cp_reorderProbability q \<and>
      cp_duplicateProbability p = cp_duplicateProbability q \<and>
      cp_maxMsgsRec p = cp_maxMsgsRec q \<and> cp_size p = cp_size q \<and>
      cp_avgDelay p = cp_avgDelay q \<and> cp_minDelay p = cp_minDelay q \<and>
      cp_maxDelay p = cp_maxDelay q \<and> cp_delayStyle p = cp_delayStyle q)"

text \<open>The factory: the cached properties, and the one the caller gets.\<close>

definition factory_create ::
  "json \<Rightarrow> channelProperties list \<Rightarrow> (channelProperties \<times> channelProperties list) option" where
  "factory_create params cache = do {
     newProps \<leftarrow> new_properties params;
     case find (\<lambda>prop. cp_equal prop newProps) cache of
       Some prop \<Rightarrow> Some (prop, cache)
     | None \<Rightarrow> Some (newProps, cache @ [newProps]) }"

record channel =
  ch_targetId :: interfaceId
  ch_targetInternalId :: interfaceId
  ch_sourceId :: interfaceId
  ch_sourceInternalId :: interfaceId
  ch_properties :: channelProperties
  ch_throughputLeft :: int
  ch_packetQueue :: "packet list"

definition throughput_budget :: "channelProperties \<Rightarrow> int \<Rightarrow> int \<Rightarrow> int" where
  "throughput_budget p lastRnd now =
     to_int32 (to_size_t (to_size_t (cp_maxMsgsRec p) * to_size_t (lastRnd - now)))"

definition ch_setParameters ::
  "json \<Rightarrow> int \<Rightarrow> int \<Rightarrow> channelProperties list \<Rightarrow> channel \<Rightarrow> (channel \<times> channelProperties list) option" where
  "ch_setParameters params lastRnd now cache ch = do {
     (props, cache) \<leftarrow> factory_create params cache;
     Some (ch\<lparr>ch_properties := props, ch_throughputLeft := throughput_budget props lastRnd now\<rparr>, cache) }"

definition new_channel ::
  "interfaceId \<Rightarrow> interfaceId \<Rightarrow> interfaceId \<Rightarrow> interfaceId \<Rightarrow> json \<Rightarrow> int \<Rightarrow> int
   \<Rightarrow> channelProperties list \<Rightarrow> (channel \<times> channelProperties list) option" where
  "new_channel tgt tgtInternal src srcInternal params lastRnd now cache =
     ch_setParameters params lastRnd now cache
       \<lparr>ch_targetId = tgt, ch_targetInternalId = tgtInternal, ch_sourceId = src,
        ch_sourceInternalId = srcInternal, ch_properties = cp_initial,
        ch_throughputLeft = INT_MAX, ch_packetQueue = []\<rparr>"

definition canSend :: "channel \<Rightarrow> bool" where
  "canSend ch = (ch_throughputLeft ch \<noteq> 0 \<and>
     to_size_t (cp_size (ch_properties ch)) > int (length (ch_packetQueue ch)))"

definition consumeThroughput :: "channel \<Rightarrow> channel" where
  "consumeThroughput ch = (if ch_throughputLeft ch > 0
     then ch\<lparr>ch_throughputLeft := ch_throughputLeft ch - 1\<rparr> else ch)"

text \<open>\<open>std::clamp\<close> with a lower bound above the upper one is undefined.\<close>

definition clamp :: "int \<Rightarrow> int \<Rightarrow> int \<Rightarrow> int option" where
  "clamp v lo hi = (if hi < lo then None else Some (if v < lo then lo else if hi < v then hi else v))"

definition computeRandomDelay :: "channelProperties \<Rightarrow> rng \<Rightarrow> (int \<times> rng) option" where
  "computeRandomDelay p g = (case cp_delayStyle p of
       DS_UNIFORM \<Rightarrow> uniformInt (cp_minDelay p) (cp_maxDelay p) g
     | DS_POISSON \<Rightarrow> do {
         (delay, g) \<leftarrow> poissonInt (of_int (cp_avgDelay p)) g;
         delay \<leftarrow> clamp delay (cp_minDelay p) (cp_maxDelay p);
         Some (delay, g) }
     | DS_ONE \<Rightarrow> Some (1, g))"

definition ch_enqueue :: "packet \<Rightarrow> channel \<Rightarrow> channel" where
  "ch_enqueue pkt ch = ch\<lparr>ch_packetQueue := ch_packetQueue ch @ [pkt]\<rparr>"

lemma consumeThroughput_frame [simp]:
  "ch_packetQueue (consumeThroughput ch) = ch_packetQueue ch"
  "ch_properties (consumeThroughput ch) = ch_properties ch"
  by (simp_all add: consumeThroughput_def)

lemma ch_enqueue_frame [simp]:
  "ch_packetQueue (ch_enqueue p ch) = ch_packetQueue ch @ [p]"
  "ch_properties (ch_enqueue p ch) = ch_properties ch"
  "ch_throughputLeft (ch_enqueue p ch) = ch_throughputLeft ch"
  by (simp_all add: ch_enqueue_def)

function push_loop :: "packet \<Rightarrow> channel \<Rightarrow> rng \<Rightarrow> (channel \<times> rng) option" where
  "push_loop pkt ch g =
     (if \<not> canSend ch then Some (ch, g)
      else do {
        (d, g) \<leftarrow> computeRandomDelay (ch_properties ch) g;
        (pkt, g) \<leftarrow> setDelay d d pkt g;
        (duplicate, g) \<leftarrow> trueWithProbability (cp_duplicateProbability (ch_properties ch)) g;
        if duplicate
        then push_loop (pkt\<lparr>pk_body := pk_body pkt\<rparr>) (ch_enqueue pkt (consumeThroughput ch)) g
        else Some (ch_enqueue pkt (consumeThroughput ch), g) })"
  by pat_completeness auto
termination
  by (relation "measure (\<lambda>(pkt, ch, g).
        nat (to_size_t (cp_size (ch_properties ch)) - int (length (ch_packetQueue ch))))")
     (auto simp: canSend_def)

declare push_loop.simps [simp del]

definition pushPacket :: "packet \<Rightarrow> channel \<Rightarrow> rng \<Rightarrow> (channel \<times> rng) option" where
  "pushPacket pkt ch g = do {
     (lost, g) \<leftarrow> trueWithProbability (cp_dropProbability (ch_properties ch)) g;
     if lost then Some (ch, g) else push_loop pkt ch g }"

definition shuffleChannel :: "channel \<Rightarrow> rng \<Rightarrow> (channel \<times> rng) option" where
  "shuffleChannel ch g =
     (if length (ch_packetQueue ch) > 1 then do {
        (reorder, g) \<leftarrow> trueWithProbability (cp_reorderProbability (ch_properties ch)) g;
        if reorder
        then (let (q, g) = shuffle (ch_packetQueue ch) g in Some (ch\<lparr>ch_packetQueue := q\<rparr>, g))
        else Some (ch, g) }
      else Some (ch, g))"

definition popPacket :: "channel \<Rightarrow> (packet \<times> channel) option" where
  "popPacket ch = (case ch_packetQueue ch of
       [] \<Rightarrow> None
     | p # q \<Rightarrow> Some (p, ch\<lparr>ch_packetQueue := q\<rparr>))"

definition frontHasArrived :: "int \<Rightarrow> channel \<Rightarrow> bool" where
  "frontHasArrived now ch = (case ch_packetQueue ch of [] \<Rightarrow> False | p # _ \<Rightarrow> hasArrived now p)"

subsection \<open>Delays\<close>

text \<open>The delay a channel may give a packet.\<close>

definition delay_in_range :: "channelProperties \<Rightarrow> int \<Rightarrow> bool" where
  "delay_in_range p d = (case cp_delayStyle p of
       DS_ONE \<Rightarrow> d = 1
     | _ \<Rightarrow> max 1 (cp_minDelay p) \<le> d \<and> d \<le> max 1 (cp_maxDelay p))"

definition valid_distribution :: "channelProperties \<Rightarrow> bool" where
  "valid_distribution p = (case cp_delayStyle p of
       DS_UNIFORM \<Rightarrow> cp_minDelay p \<le> cp_maxDelay p
     | DS_POISSON \<Rightarrow> cp_minDelay p \<le> cp_maxDelay p \<and> 0 < cp_avgDelay p
     | DS_ONE \<Rightarrow> True)"

lemma clamp_range: "clamp v lo hi = Some w \<Longrightarrow> lo \<le> w \<and> w \<le> hi"
  by (auto simp: clamp_def split: if_splits)

lemma computeRandomDelay_range:
  "computeRandomDelay p g = Some (d, g') \<Longrightarrow> delay_in_range p (max 1 d)"
  by (auto simp: computeRandomDelay_def delay_in_range_def monad
      dest: uniformInt_range clamp_range split: delayStyle.splits)

lemma computeRandomDelay_total:
  "valid_distribution p \<Longrightarrow> \<exists>d g'. computeRandomDelay p g = Some (d, g')"
  by (auto simp: computeRandomDelay_def valid_distribution_def poissonInt_def clamp_def draw_def
      intro: uniformInt_total split: delayStyle.splits)

lemma delay_in_range_pos: "delay_in_range p d \<Longrightarrow> 1 \<le> d"
  by (auto simp: delay_in_range_def split: delayStyle.splits)

subsection \<open>The effect of sending\<close>

text \<open>
  \<open>accepted pkt cs ch ch'\<close>: the channel took the copies \<open>cs\<close> of \<open>pkt\<close> at the end of its queue, each with
  a delay of its own, within its capacity, and paid one unit of a positive throughput for each.
\<close>

definition accepted :: "packet \<Rightarrow> packet list \<Rightarrow> channel \<Rightarrow> channel \<Rightarrow> bool" where
  "accepted pkt cs ch ch' =
     ((\<forall>c \<in> set cs. same_packet c pkt \<and> delay_in_range (ch_properties ch) (pk_delay c)) \<and>
      ch' = ch\<lparr>ch_packetQueue := ch_packetQueue ch @ cs,
               ch_throughputLeft := (if 0 \<le> ch_throughputLeft ch
                 then ch_throughputLeft ch - int (length cs) else ch_throughputLeft ch)\<rparr> \<and>
      (cs \<noteq> [] \<longrightarrow>
         int (length (ch_packetQueue ch) + length cs) \<le> to_size_t (cp_size (ch_properties ch))) \<and>
      (0 \<le> ch_throughputLeft ch \<longrightarrow> int (length cs) \<le> ch_throughputLeft ch))"

lemma accepted_none: "accepted pkt [] ch ch"
  by (simp add: accepted_def)

lemma accepted_one:
  assumes "canSend ch" and "delay_in_range (ch_properties ch) (pk_delay c)" and "same_packet c pkt"
  shows "accepted pkt [c] ch (ch_enqueue c (consumeThroughput ch))"
  using assms by (auto simp: accepted_def canSend_def consumeThroughput_def ch_enqueue_def)

lemma accepted_append:
  assumes "accepted pkt cs ch ch'" and "accepted pkt ds ch' ch''"
  shows "accepted pkt (cs @ ds) ch ch''"
  using assms by (cases "ds = []") (auto simp: accepted_def)

lemma accepted_fields:
  assumes "accepted pkt cs ch ch'"
  shows "ch_packetQueue ch' = ch_packetQueue ch @ cs" "ch_properties ch' = ch_properties ch"
    "ch_targetId ch' = ch_targetId ch" "ch_sourceId ch' = ch_sourceId ch"
    "ch_targetInternalId ch' = ch_targetInternalId ch"
    "ch_sourceInternalId ch' = ch_sourceInternalId ch"
  using assms by (simp_all add: accepted_def)

lemma accepted_same:
  assumes "accepted pkt cs ch ch'" and "same_packet pkt pkt'"
  shows "accepted pkt' cs ch ch'"
  using assms same_packet_trans by (auto simp: accepted_def)

lemma push_loop_accepted:
  "push_loop pkt ch g = Some (ch', g') \<Longrightarrow> \<exists>cs. accepted pkt cs ch ch'"
proof (induction pkt ch g rule: push_loop.induct)
  case (1 pkt ch g)
  show ?case
  proof (cases "canSend ch")
    case False
    then show ?thesis
      using "1.prems" accepted_none by (auto simp: push_loop.simps [of pkt ch g])
  next
    case True
    from "1.prems" True obtain d g1 p g2 dup g3 where
        d: "computeRandomDelay (ch_properties ch) g = Some (d, g1)"
      and p: "setDelay d d pkt g1 = Some (p, g2)"
      and dup: "trueWithProbability (cp_duplicateProbability (ch_properties ch)) g2 = Some (dup, g3)"
      and rest: "(if dup then push_loop (p\<lparr>pk_body := pk_body p\<rparr>) (ch_enqueue p (consumeThroughput ch)) g3
                  else Some (ch_enqueue p (consumeThroughput ch), g3)) = Some (ch', g')"
      by (auto simp: push_loop.simps [of pkt ch g] monad)
    have p': "p = pkt\<lparr>pk_delay := max 1 d\<rparr>"
      using p by (simp add: setDelay_exact)
    have same: "same_packet p pkt" by (simp add: p' same_packet_def)
    have one: "accepted pkt [p] ch (ch_enqueue p (consumeThroughput ch))"
      using True computeRandomDelay_range [OF d] same by (intro accepted_one) (simp_all add: p')
    show ?thesis
    proof (cases dup)
      case False
      then show ?thesis using rest one by auto
    next
      case dupT: True
      then obtain cs where
        "accepted (p\<lparr>pk_body := pk_body p\<rparr>) cs (ch_enqueue p (consumeThroughput ch)) ch'"
        using "1.IH" [OF _ d refl p refl dup refl] True rest by auto
      then have "accepted pkt cs (ch_enqueue p (consumeThroughput ch)) ch'"
        by (rule accepted_same) (simp add: same)
      then show ?thesis using accepted_append [OF one] by blast
    qed
  qed
qed

lemma pushPacket_accepted:
  "pushPacket pkt ch g = Some (ch', g') \<Longrightarrow> \<exists>cs. accepted pkt cs ch ch'"
  by (auto simp: pushPacket_def monad intro: push_loop_accepted accepted_none split: if_splits)

lemma push_loop_total:
  "valid_distribution (ch_properties ch) \<Longrightarrow> \<exists>ch' g'. push_loop pkt ch g = Some (ch', g')"
proof (induction pkt ch g rule: push_loop.induct)
  case (1 pkt ch g)
  obtain d g1 where d: "computeRandomDelay (ch_properties ch) g = Some (d, g1)"
    using computeRandomDelay_total [OF "1.prems"] by blast
  obtain p g2 where p: "setDelay d d pkt g1 = Some (p, g2)" using setDelay_total by blast
  obtain dup g3 where
    dup: "trueWithProbability (cp_duplicateProbability (ch_properties ch)) g2 = Some (dup, g3)"
    using trueWithProbability_total by blast
  have "\<exists>ch' g'. push_loop (p\<lparr>pk_body := pk_body p\<rparr>) (ch_enqueue p (consumeThroughput ch)) g3 = Some (ch', g')"
    if "canSend ch" "dup"
    using "1.IH" [OF _ d refl p refl dup refl] that "1.prems" by simp
  then show ?case using d p dup by (auto simp: push_loop.simps [of pkt ch g])
qed

lemma pushPacket_total:
  assumes "valid_distribution (ch_properties ch)"
  shows "\<exists>ch' g'. pushPacket pkt ch g = Some (ch', g')"
proof -
  obtain b g1 where "trueWithProbability (cp_dropProbability (ch_properties ch)) g = Some (b, g1)"
    using trueWithProbability_total by blast
  then show ?thesis using push_loop_total [OF assms] by (cases b) (auto simp: pushPacket_def)
qed

lemma mset_shuffleChannel:
  assumes "shuffleChannel ch g = Some (ch', g')"
  shows "mset (ch_packetQueue ch') = mset (ch_packetQueue ch)"
    "ch' = ch\<lparr>ch_packetQueue := ch_packetQueue ch'\<rparr>"
proof -
  have "mset q = mset (ch_packetQueue ch)" if "shuffle (ch_packetQueue ch) h = (q, h')" for q h h'
    using that mset_shuffle [of "ch_packetQueue ch" h] by simp
  then show "mset (ch_packetQueue ch') = mset (ch_packetQueue ch)"
    using assms by (auto simp: shuffleChannel_def monad split: if_splits prod.splits)
  show "ch' = ch\<lparr>ch_packetQueue := ch_packetQueue ch'\<rparr>"
    using assms by (auto simp: shuffleChannel_def monad split: if_splits prod.splits)
qed

lemma shuffleChannel_total: "\<exists>ch' g'. shuffleChannel ch g = Some (ch', g')"
proof -
  obtain b g1 where "trueWithProbability (cp_reorderProbability (ch_properties ch)) g = Some (b, g1)"
    using trueWithProbability_total by blast
  then show ?thesis by (auto simp: shuffleChannel_def split: prod.splits)
qed

lemma shuffleChannel_in_order:
  "cp_reorderProbability (ch_properties ch) \<le> 0 \<Longrightarrow> shuffleChannel ch g = Some (ch, g)"
  by (simp add: shuffleChannel_def)

lemma popPacket_Some:
  "popPacket ch = Some (p, ch') \<longleftrightarrow>
     (\<exists>q. ch_packetQueue ch = p # q \<and> ch' = ch\<lparr>ch_packetQueue := q\<rparr>)"
  by (auto simp: popPacket_def split: list.splits)

subsection \<open>The life of a channel\<close>

text \<open>
  \<open>ch_run ch n ch'\<close>: the source's pushes and the target's shuffles and pops, in any order, take
  \<open>ch\<close> to \<open>ch'\<close>, and \<open>n\<close> packets entered the queue on the way.
\<close>

inductive ch_run :: "channel \<Rightarrow> nat \<Rightarrow> channel \<Rightarrow> bool" where
  ch_start: "ch_run ch 0 ch"
| ch_push: "ch_run ch n ch1 \<Longrightarrow> pushPacket pkt ch1 g = Some (ch2, g') \<Longrightarrow>
     m = n + (length (ch_packetQueue ch2) - length (ch_packetQueue ch1)) \<Longrightarrow> ch_run ch m ch2"
| ch_shuffle: "ch_run ch n ch1 \<Longrightarrow> shuffleChannel ch1 g = Some (ch2, g') \<Longrightarrow> ch_run ch n ch2"
| ch_pop: "ch_run ch n ch1 \<Longrightarrow> popPacket ch1 = Some (p, ch2) \<Longrightarrow> ch_run ch n ch2"

lemma ch_run_properties: "ch_run ch n ch' \<Longrightarrow> ch_properties ch' = ch_properties ch"
proof (induction rule: ch_run.induct)
  case (ch_push ch n ch1 pkt g ch2 g' m)
  then show ?case using pushPacket_accepted accepted_fields(2) by metis
next
  case (ch_shuffle ch n ch1 g ch2 g')
  then show ?case
    using mset_shuffleChannel(2) by (metis channel.surjective channel.update_convs(7) channel.select_convs(5))
qed (auto simp: popPacket_Some)

text \<open>
  Claim C8. Sending does one of two things to a channel: nothing, or it appends copies of the packet
  to the end of the queue. Every copy keeps the source, target, body and sending round of the packet
  and gets a delay of at least one round inside the configured range; the queue then respects the
  configured size and a positive throughput budget pays one unit for each copy.
\<close>

theorem pushPacket_effect:
  assumes "pushPacket pkt ch g = Some (ch', g')"
  shows "\<exists>cs. ch_packetQueue ch' = ch_packetQueue ch @ cs \<and>
     (\<forall>c \<in> set cs. pk_targetId c = pk_targetId pkt \<and> pk_sourceId c = pk_sourceId pkt \<and>
        pk_body c = pk_body pkt \<and> pk_round c = pk_round pkt \<and> 1 \<le> pk_delay c \<and>
        delay_in_range (ch_properties ch) (pk_delay c)) \<and>
     (cs \<noteq> [] \<longrightarrow> int (length (ch_packetQueue ch')) \<le> to_size_t (cp_size (ch_properties ch))) \<and>
     (0 \<le> ch_throughputLeft ch \<longrightarrow>
        0 \<le> ch_throughputLeft ch' \<and> ch_throughputLeft ch' + int (length cs) = ch_throughputLeft ch)"
proof -
  obtain cs where cs: "accepted pkt cs ch ch'" using pushPacket_accepted [OF assms] by blast
  have "\<forall>c \<in> set cs. same_packet c pkt \<and> delay_in_range (ch_properties ch) (pk_delay c)"
    using cs by (simp add: accepted_def)
  then show ?thesis
    using cs accepted_fields(1) [OF cs]
    by (intro exI [of _ cs]) (auto simp: accepted_def same_packet_fields delay_in_range_pos split: if_splits)
qed

definition example_channel :: "real \<Rightarrow> int \<Rightarrow> int \<Rightarrow> channel" where
  "example_channel dup maxDelay budget =
     \<lparr>ch_targetId = 1, ch_targetInternalId = 1, ch_sourceId = 0, ch_sourceInternalId = 0,
      ch_properties = cp_initial\<lparr>cp_duplicateProbability := dup, cp_maxDelay := maxDelay\<rparr>,
      ch_throughputLeft = budget, ch_packetQueue = []\<rparr>"

lemma example_push:
  "pushPacket (new_packet_to 0 1 0 JNull) (example_channel 0 1 5) (\<lambda>_. 0) =
     Some ((example_channel 0 1 4)\<lparr>ch_packetQueue := [(new_packet_to 0 1 0 JNull)\<lparr>pk_delay := 1\<rparr>]\<rparr>, \<lambda>_. 0)"
  by (simp add: pushPacket_def push_loop.simps canSend_def example_channel_def cp_initial_def
      INT_MAX_def to_size_t_def computeRandomDelay_def uniformInt_def draw_def setDelay_def
      consumeThroughput_def ch_enqueue_def)

theorem pushPacket_effect_witness:
  "\<exists>cs. ch_packetQueue ((example_channel 0 1 4)\<lparr>ch_packetQueue := [(new_packet_to 0 1 0 JNull)\<lparr>pk_delay := 1\<rparr>]\<rparr>)
        = ch_packetQueue (example_channel 0 1 5) @ cs"
  using pushPacket_effect [OF example_push] by blast

text \<open>
  Claim C7. Over its whole life, whatever the order of the source's sends and the target's reads and
  shuffles, a channel that starts with a non-negative throughput budget never accepts more packets
  than that budget.
\<close>

theorem channel_throughput_bound:
  assumes "ch_run ch n ch'" and "0 \<le> ch_throughputLeft ch"
  shows "int n + ch_throughputLeft ch' = ch_throughputLeft ch \<and> int n \<le> ch_throughputLeft ch"
proof -
  have "0 \<le> ch_throughputLeft ch' \<and> int n + ch_throughputLeft ch' = ch_throughputLeft ch"
    using assms
  proof (induction rule: ch_run.induct)
    case (ch_push ch n ch1 pkt g ch2 g' m)
    obtain cs where cs: "accepted pkt cs ch1 ch2" using pushPacket_accepted ch_push.hyps(2) by blast
    then show ?case using ch_push accepted_fields(1) [OF cs] by (auto simp: accepted_def)
  next
    case (ch_shuffle ch n ch1 g ch2 g')
    then show ?case
      using mset_shuffleChannel(2) by (metis channel.surjective channel.update_convs(7) channel.select_convs(6))
  qed (auto simp: popPacket_Some)
  then show ?thesis by simp
qed

theorem channel_throughput_bound_witness:
  "int 1 + ch_throughputLeft ((example_channel 0 1 4)\<lparr>ch_packetQueue := [(new_packet_to 0 1 0 JNull)\<lparr>pk_delay := 1\<rparr>]\<rparr>)
     = ch_throughputLeft (example_channel 0 1 5)"
proof -
  have "ch_run (example_channel 0 1 5) 1
     ((example_channel 0 1 4)\<lparr>ch_packetQueue := [(new_packet_to 0 1 0 JNull)\<lparr>pk_delay := 1\<rparr>]\<rparr>)"
    by (rule ch_push [OF ch_start example_push]) (simp add: example_channel_def)
  from channel_throughput_bound [OF this] show ?thesis by (simp add: example_channel_def)
qed

text \<open>
  A channel that starts empty never holds more packets than its configured size (a
  negative size, converted to \<open>size_t\<close>, is a very large one).
\<close>

theorem channel_capacity_bound:
  assumes "ch_run ch n ch'" and "ch_packetQueue ch = []"
  shows "int (length (ch_packetQueue ch')) \<le> to_size_t (cp_size (ch_properties ch'))"
  using assms
proof (induction rule: ch_run.induct)
  case (ch_start ch)
  then show ?case using to_size_t_bounds(1) by simp
next
  case (ch_push ch n ch1 pkt g ch2 g' m)
  obtain cs where cs: "accepted pkt cs ch1 ch2" using pushPacket_accepted ch_push.hyps(2) by blast
  show ?case
    using ch_push.IH ch_push.prems cs accepted_fields(1,2) [OF cs]
    by (cases "cs = []") (auto simp: accepted_def)
next
  case (ch_shuffle ch n ch1 g ch2 g')
  then have "length (ch_packetQueue ch2) = length (ch_packetQueue ch1)"
    using mset_shuffleChannel(1) mset_eq_length by blast
  moreover have "ch_properties ch2 = ch_properties ch1"
    using ch_shuffle.hyps mset_shuffleChannel(2)
    by (metis channel.surjective channel.update_convs(7) channel.select_convs(5))
  ultimately show ?case using ch_shuffle by simp
qed (auto simp: popPacket_Some)

theorem channel_capacity_bound_witness:
  "int (length (ch_packetQueue (example_channel 0 1 5))) \<le> to_size_t (cp_size (ch_properties (example_channel 0 1 5)))"
  by (rule channel_capacity_bound [OF ch_start]) (simp add: example_channel_def)

text \<open>
  Claim C9. With a valid delay distribution the duplication loop ends and sending returns, whatever
  the probabilities, even when every packet is duplicated.
\<close>

theorem pushPacket_returns:
  assumes "valid_distribution (ch_properties ch)"
  shows "\<exists>ch' g'. pushPacket pkt ch g = Some (ch', g')"
  by (rule pushPacket_total [OF assms])

theorem pushPacket_returns_witness:
  "\<exists>ch' g'. pushPacket (new_packet 0) (example_channel 1 3 7) (\<lambda>_. 0) = Some (ch', g')"
  by (rule pushPacket_returns) (simp add: example_channel_def cp_initial_def valid_distribution_def)

text \<open>
  A channel with no loss and no duplication that has room and throughput left takes
  exactly one copy of the packet; a channel that drops everything takes none.
\<close>

theorem pushPacket_reliable:
  assumes "valid_distribution (ch_properties ch)"
    and "cp_dropProbability (ch_properties ch) \<le> 0" and "cp_duplicateProbability (ch_properties ch) \<le> 0"
    and "canSend ch"
  shows "\<exists>d g'. delay_in_range (ch_properties ch) d \<and>
     pushPacket pkt ch g = Some (ch_enqueue (pkt\<lparr>pk_delay := d\<rparr>) (consumeThroughput ch), g')"
proof -
  obtain d g1 where d: "computeRandomDelay (ch_properties ch) g = Some (d, g1)"
    using computeRandomDelay_total [OF assms(1)] by blast
  have "pushPacket pkt ch g =
      Some (ch_enqueue (pkt\<lparr>pk_delay := max 1 d\<rparr>) (consumeThroughput ch), snd (draw g1))"
    using assms d by (simp add: pushPacket_def push_loop.simps [of pkt ch g] setDelay_exact)
  then show ?thesis using computeRandomDelay_range [OF d] by blast
qed

theorem pushPacket_reliable_witness:
  "\<exists>d g'. delay_in_range (ch_properties (example_channel 0 3 5)) d \<and>
     pushPacket (new_packet 0) (example_channel 0 3 5) (\<lambda>_. 1) =
       Some (ch_enqueue ((new_packet 0)\<lparr>pk_delay := d\<rparr>) (consumeThroughput (example_channel 0 3 5)), g')"
  by (rule pushPacket_reliable)
     (simp_all add: example_channel_def cp_initial_def valid_distribution_def canSend_def INT_MAX_def conv)

text \<open>
  Each duplicate samples a delay of its own: some send puts two copies of one packet with
  different delays into the channel.
\<close>

theorem duplicate_delay_resampled:
  "\<exists>g ch' g' c1 c2. pushPacket (new_packet 0) (example_channel (1/2) 3 5) g = Some (ch', g') \<and>
     ch_packetQueue ch' = [c1, c2] \<and> pk_delay c1 \<noteq> pk_delay c2"
proof -
  define g :: rng where "g = (\<lambda>n. if n = 3 then 1 else if n = 5 then 2 ^ 52 else 0)"
  have "pushPacket (new_packet 0) (example_channel (1/2) 3 5) g =
    Some ((example_channel (1/2) 3 3)\<lparr>ch_packetQueue :=
       [(new_packet 0)\<lparr>pk_delay := 1\<rparr>, (new_packet 0)\<lparr>pk_delay := 2\<rparr>]\<rparr>, \<lambda>n. g (n + 6))"
    by (simp add: pushPacket_def push_loop.simps canSend_def example_channel_def cp_initial_def
        INT_MAX_def to_size_t_def computeRandomDelay_def uniformInt_def uniformReal_def draw_def
        setDelay_def consumeThroughput_def ch_enqueue_def trueWithProbability_def g_def)
  then show ?thesis by fastforce
qed

text \<open>
  A fresh channel's throughput budget is the per-round limit times the remaining rounds as
  long as that product fits an \<open>int\<close>.
\<close>

theorem throughput_budget_exact:
  assumes "0 \<le> cp_maxMsgsRec p" and "now \<le> lastRnd" and "cp_maxMsgsRec p * (lastRnd - now) < 2 ^ 31"
    and "cp_maxMsgsRec p < 2 ^ 31" and "lastRnd - now < 2 ^ 64"
  shows "throughput_budget p lastRnd now = cp_maxMsgsRec p * (lastRnd - now)"
proof -
  have nn: "0 \<le> cp_maxMsgsRec p * (lastRnd - now)" using assms(1,2) by simp
  have "to_int32 (cp_maxMsgsRec p * (lastRnd - now)) = cp_maxMsgsRec p * (lastRnd - now)"
    by (rule to_int32_id) (use assms(3) nn in linarith)+
  then show ?thesis
    using assms nn by (simp add: throughput_budget_def to_size_t_id)
qed

theorem throughput_budget_exact_witness:
  "throughput_budget (cp_initial\<lparr>cp_maxMsgsRec := 10\<rparr>) 1000 0 = 10 * (1000 - 0)"
  using throughput_budget_exact [of "cp_initial\<lparr>cp_maxMsgsRec := 10\<rparr>" 0 1000] by simp

text \<open>
  Where the product is a multiple of \<open>2 ^ 32\<close> the budget wraps to zero and the fresh
  channel refuses every packet: 65536 messages per round over 65536 rounds deliver nothing.
\<close>

theorem throughput_budget_wraps:
  "\<exists>ch cache. new_channel 1 1 0 0 (jobject [(''maxMsgsRec'', JInt 65536)]) 65536 0 [] = Some (ch, cache) \<and>
     ch_throughputLeft ch = 0 \<and> (\<forall>pkt g. pushPacket pkt ch g = Some (ch, g))"
proof -
  define p where "p = cp_initial\<lparr>cp_maxMsgsRec := 65536\<rparr>"
  define ch where "ch = \<lparr>ch_targetId = 1, ch_targetInternalId = 1, ch_sourceId = 0,
    ch_sourceInternalId = 0, ch_properties = p, ch_throughputLeft = 0, ch_packetQueue = []\<rparr>"
  have "throughput_budget p 65536 0 = 0"
    by (simp add: throughput_budget_def to_size_t_def to_int32_def p_def)
  then have "new_channel 1 1 0 0 (jobject [(''maxMsgsRec'', JInt 65536)]) 65536 0 [] = Some (ch, [p])"
    by (simp add: new_channel_def ch_setParameters_def factory_create_def new_properties_def
        cp_setParameters_def p_def ch_def cp_initial_def)
  moreover have "pushPacket pkt ch g = Some (ch, g)" for pkt g
    by (simp add: pushPacket_def push_loop.simps canSend_def ch_def p_def cp_initial_def)
  ultimately show ?thesis by (auto simp: ch_def)
qed

subsection \<open>The properties factory\<close>

lemma cp_equal_iff: "cp_equal p q \<longleftrightarrow> p = q"
  by (cases p; cases q) (auto simp: cp_equal_def)

text \<open>
  The factory hands out the properties its parameters describe and shares them: the cache
  keeps no two equal entries, keeps every earlier entry, and a second request with the same
  parameters finds the first one's entry.
\<close>

theorem factory_shares:
  assumes "factory_create params cache = Some (p, cache')" and "distinct cache"
  shows "new_properties params = Some p \<and> p \<in> set cache' \<and> set cache \<subseteq> set cache' \<and>
     distinct cache' \<and> factory_create params cache' = Some (p, cache')"
proof -
  from assms(1) obtain q where q: "new_properties params = Some q"
    and r: "(case find (\<lambda>prop. cp_equal prop q) cache of Some prop \<Rightarrow> Some (prop, cache)
             | None \<Rightarrow> Some (q, cache @ [q])) = Some (p, cache')"
    by (auto simp: factory_create_def monad)
  have hit: "find (\<lambda>prop. cp_equal prop q) xs = Some q" if "q \<in> set xs" for xs
    using that by (induction xs) (auto simp: cp_equal_iff)
  have miss: "find (\<lambda>prop. cp_equal prop q) xs = None" if "q \<notin> set xs" for xs
    using that by (induction xs) (auto simp: cp_equal_iff)
  show ?thesis
    using q r hit miss assms(2) by (cases "q \<in> set cache") (auto simp: factory_create_def)
qed

theorem factory_shares_witness:
  "factory_create (JObj []) [the (new_properties (JObj []))] =
     Some (the (new_properties (JObj [])), [the (new_properties (JObj []))])"
proof -
  have "factory_create (JObj []) [] = Some (the (new_properties (JObj [])), [the (new_properties (JObj []))])"
    by (simp add: factory_create_def new_properties_def cp_setParameters_def value_with_def)
  from factory_shares [OF this] show ?thesis by simp
qed

end
