(* ===== verification/Store.thy ===== *)
theory Store
  imports Prelude
begin

text \<open>
  A store of shared objects as a list, addressed by position. \<open>cell_op act r\<close> applies \<open>act\<close> to the
  object at \<open>r\<close> together with the caller's own state. A computation is \<open>local_to\<close> a set of positions
  when it keeps the length of the store and a write to any other position passes through it
  unchanged: it neither reads nor writes the rest. Locality is closed under sequencing, and two
  computations local to disjoint sets may run in either order (\<open>local_commute\<close>). These are the
  facts behind the simulator's parallel phases.
\<close>

type_synonym ('a, 'c, 'b) store_op = "'a \<times> 'c list \<Rightarrow> ('b \<times> 'c list) option"

definition cell_op :: "('a \<Rightarrow> 'c \<Rightarrow> ('b \<times> 'c) option) \<Rightarrow> nat \<Rightarrow> ('a, 'c, 'b) store_op" where
  "cell_op act r = (\<lambda>(a, cs). if r < length cs
     then do { (a, c) \<leftarrow> act a (cs ! r); Some (a, cs[r := c]) } else None)"

lemma cell_op_Some:
  "cell_op act r (a, cs) = Some (a', cs') \<longleftrightarrow>
     r < length cs \<and> (\<exists>c. act a (cs ! r) = Some (a', c) \<and> cs' = cs[r := c])"
  by (auto simp: cell_op_def monad)

definition local_to :: "nat set \<Rightarrow> ('a, 'c, 'b) store_op \<Rightarrow> bool" where
  "local_to R F = ((\<forall>a cs b cs'. F (a, cs) = Some (b, cs') \<longrightarrow> length cs' = length cs) \<and>
     (\<forall>a cs q x. q \<notin> R \<longrightarrow>
        F (a, cs[q := x]) = map_option (\<lambda>(b, cs'). (b, cs'[q := x])) (F (a, cs))))"

lemma local_toI:
  assumes "\<And>a cs b cs'. F (a, cs) = Some (b, cs') \<Longrightarrow> length cs' = length cs"
    and "\<And>a cs q x. q \<notin> R \<Longrightarrow>
       F (a, cs[q := x]) = map_option (\<lambda>(b, cs'). (b, cs'[q := x])) (F (a, cs))"
  shows "local_to R F"
  using assms by (simp add: local_to_def)

lemma local_length: "local_to R F \<Longrightarrow> F (a, cs) = Some (b, cs') \<Longrightarrow> length cs' = length cs"
  unfolding local_to_def by blast

lemma local_update:
  "local_to R F \<Longrightarrow> q \<notin> R \<Longrightarrow>
   F (a, cs[q := x]) = map_option (\<lambda>(b, cs'). (b, cs'[q := x])) (F (a, cs))"
  by (simp add: local_to_def)

lemma local_frame:
  assumes "local_to R F" and "F (a, cs) = Some (b, cs')" and "q \<notin> R" and "q < length cs"
  shows "cs' ! q = cs ! q"
proof -
  have "Some (b, cs') = Some (b, cs'[q := cs ! q])"
    using local_update [OF assms(1,3), of a cs "cs ! q"] assms(2) by simp
  then show ?thesis
    using assms(4) local_length [OF assms(1,2)] by (metis nth_list_update_eq option.inject snd_conv)
qed

lemma local_mono: "local_to R F \<Longrightarrow> R \<subseteq> S \<Longrightarrow> local_to S F"
  unfolding local_to_def by blast

lemma local_return: "local_to R (\<lambda>(a, cs). Some (f a, cs))"
  by (simp add: local_to_def)

lemma local_fail: "local_to R (\<lambda>s. None)"
  by (simp add: local_to_def)

lemma local_cell_op: "r \<in> R \<Longrightarrow> local_to R (cell_op act r)"
proof (rule local_toI)
  fix a cs q x assume "r \<in> R" "q \<notin> R"
  then have "q \<noteq> r" by auto
  then show "cell_op act r (a, cs[q := x]) = map_option (\<lambda>(b, cs'). (b, cs'[q := x])) (cell_op act r (a, cs))"
    by (auto simp: cell_op_def list_update_swap split: bind_splits)
qed (auto simp: cell_op_Some)

lemma local_seq:
  assumes F: "local_to R F" and G: "\<And>b. local_to R (\<lambda>(u, cs). G b (u, cs))"
  shows "local_to R (\<lambda>(a, cs). Option.bind (F (a, cs)) (\<lambda>(b, cs). G b (b, cs)))"
proof (rule local_toI)
  fix a cs b cs'
  assume "(case (a, cs) of (a, cs) \<Rightarrow> Option.bind (F (a, cs)) (\<lambda>(b, cs). G b (b, cs))) = Some (b, cs')"
  then obtain c cs1 where "F (a, cs) = Some (c, cs1)" "G c (c, cs1) = Some (b, cs')"
    by (auto simp: monad)
  then show "length cs' = length cs" using local_length [OF F] local_length [OF G] by fastforce
next
  fix a cs q x assume "q \<notin> R"
  then show "(case (a, cs[q := x]) of (a, cs) \<Rightarrow> Option.bind (F (a, cs)) (\<lambda>(b, cs). G b (b, cs))) =
    map_option (\<lambda>(b, cs'). (b, cs'[q := x]))
      (case (a, cs) of (a, cs) \<Rightarrow> Option.bind (F (a, cs)) (\<lambda>(b, cs). G b (b, cs)))"
    using local_update [OF F] local_update [OF G] by (auto split: bind_splits)
qed

lemma local_foldM:
  assumes "\<And>x. x \<in> set xs \<Longrightarrow> local_to R (f x)"
  shows "local_to R (foldM f xs)"
  using assms
proof (induction xs)
  case Nil
  show ?case by (simp add: local_to_def)
next
  case (Cons x xs)
  have "local_to R (\<lambda>(a, cs). Option.bind (f x (a, cs)) (\<lambda>(b, cs). foldM f xs (b, cs)))"
    by (rule local_seq) (use Cons in auto)
  then show ?case by (simp add: local_to_def)
qed

lemma fold_updates_nth:
  "q < length cs \<Longrightarrow>
   fold (\<lambda>q c. c[q := f q]) qs cs ! q = (if q \<in> set qs then f q else cs ! q)"
  by (induction qs arbitrary: cs) auto

lemma length_fold_updates [simp]: "length (fold (\<lambda>q c. c[q := f q]) qs cs) = length cs"
  by (induction qs arbitrary: cs) auto

lemma local_updates:
  assumes "local_to R F" and "set qs \<inter> R = {}" and "F (a, cs) = Some (b, cs')"
  shows "F (a, fold (\<lambda>q c. c[q := f q]) qs cs) = Some (b, fold (\<lambda>q c. c[q := f q]) qs cs')"
  using assms(2,3)
proof (induction qs arbitrary: cs cs')
  case (Cons q qs)
  then have "F (a, cs[q := f q]) = Some (b, cs'[q := f q])"
    using local_update [OF assms(1), of q a cs "f q"] by simp
  then show ?case using Cons by simp
qed simp

lemma local_patch:
  assumes "local_to R F" and "F (a, cs) = Some (b, cs')"
  shows "cs' = fold (\<lambda>q c. c[q := cs' ! q]) (filter (\<lambda>q. q \<in> R) [0..<length cs]) cs"
  by (rule nth_equalityI)
     (use local_length [OF assms] local_frame [OF assms] in \<open>auto simp: fold_updates_nth\<close>)

lemma local_commute:
  assumes F: "local_to R F" and G: "local_to S G" and RS: "R \<inter> S = {}"
    and f: "F (a, cs) = Some (b, cs1)" and g: "G (c, cs) = Some (d, cs2)"
  shows "\<exists>cs'. G (c, cs1) = Some (d, cs') \<and> F (a, cs2) = Some (b, cs')"
proof -
  let ?r = "filter (\<lambda>q. q \<in> R) [0..<length cs]" and ?s = "filter (\<lambda>q. q \<in> S) [0..<length cs]"
  let ?p = "\<lambda>qs from c. fold (\<lambda>q c. c[q := from ! q]) qs c"
  note len = local_length [OF F f] local_length [OF G g]
  have "G (c, ?p ?r cs1 cs) = Some (d, ?p ?r cs1 cs2)"
    by (rule local_updates [OF G _ g]) (use RS in auto)
  then have 1: "G (c, cs1) = Some (d, ?p ?r cs1 cs2)" using local_patch [OF F f] by simp
  have "F (a, ?p ?s cs2 cs) = Some (b, ?p ?s cs2 cs1)"
    by (rule local_updates [OF F _ f]) (use RS in auto)
  then have 2: "F (a, cs2) = Some (b, ?p ?s cs2 cs1)" using local_patch [OF G g] by simp
  have "?p ?r cs1 cs2 = ?p ?s cs2 cs1"
    by (rule nth_equalityI)
       (use len RS local_frame [OF F f] local_frame [OF G g] in \<open>auto simp: fold_updates_nth\<close>)
  then show ?thesis using 1 2 by auto
qed

end
