(* ===== verification/NetIface.thy ===== *)
theory NetIface
  imports Channel Store
begin

text \<open>
  Network interfaces (src/quantas/Common/NetworkInterface.hpp and
  src/quantas/Common/Abstract/NetworkInterfaceAbstract.hpp).

  Channels are objects shared by the sender's outbound and the receiver's inbound map: they live in
  a store, a list of channels, and the maps hold positions of the store. A \<open>std::multimap\<close> is its
  list of entries in key order, entries with equal keys in the order of their insertion.

  The sends that \<open>NetworkInterface\<close> builds on the virtual \<open>unicastTo\<close> take it as an argument, over an
  arbitrary state of the network; the locale \<open>network_interface\<close> states what they rely on, and the
  abstract simulator's interface is interpreted as an instance.
\<close>

subsection \<open>Multimaps\<close>

type_synonym chref = nat
type_synonym chmap = "(interfaceId \<times> chref) list"

definition mm_emplace :: "interfaceId \<Rightarrow> chref \<Rightarrow> chmap \<Rightarrow> chmap" where
  "mm_emplace k r m = takeWhile (\<lambda>(k', _). k' \<le> k) m @ [(k, r)] @ dropWhile (\<lambda>(k', _). k' \<le> k) m"

definition equal_range :: "interfaceId \<Rightarrow> chmap \<Rightarrow> chmap" where
  "equal_range k m = filter (\<lambda>(k', _). k' = k) m"

lemma set_mm_emplace [simp]: "set (mm_emplace k r m) = insert (k, r) (set m)"
proof -
  have "set m = set (takeWhile (\<lambda>(k', _). k' \<le> k) m) \<union> set (dropWhile (\<lambda>(k', _). k' \<le> k) m)"
    by (metis set_append takeWhile_dropWhile_id)
  then show ?thesis by (auto simp: mm_emplace_def)
qed

lemma mset_mm_emplace: "mset (mm_emplace k r m) = add_mset (k, r) (mset m)"
proof -
  have "mset m = mset (takeWhile (\<lambda>(k', _). k' \<le> k) m) + mset (dropWhile (\<lambda>(k', _). k' \<le> k) m)"
    by (metis mset_append takeWhile_dropWhile_id)
  then show ?thesis by (simp add: mm_emplace_def)
qed

lemma distinct_mm_emplace [simp]: "distinct (mm_emplace k r m) \<longleftrightarrow> distinct m \<and> (k, r) \<notin> set m"
proof -
  have "mset (mm_emplace k r m) = mset ((k, r) # m)" by (simp add: mset_mm_emplace)
  from mset_eq_imp_distinct_iff [OF this] show ?thesis by auto
qed

lemma set_equal_range: "set (equal_range k m) = {e \<in> set m. fst e = k}"
  by (auto simp: equal_range_def)

subsection \<open>The state of an interface\<close>

record iface =
  if_publicId :: interfaceId
  if_internalId :: interfaceId
  if_neighbors :: idset
  if_inStream :: "packet list"
  if_inBoundChannels :: chmap
  if_outBoundChannels :: chmap

definition new_iface :: "interfaceId \<Rightarrow> interfaceId \<Rightarrow> iface" where
  "new_iface pubId internalId = \<lparr>if_publicId = pubId, if_internalId = internalId, if_neighbors = [],
     if_inStream = [], if_inBoundChannels = [], if_outBoundChannels = []\<rparr>"

definition setPublicId :: "interfaceId \<Rightarrow> iface \<Rightarrow> iface" where
  "setPublicId pid i = i\<lparr>if_publicId := pid\<rparr>"

definition addNeighbor :: "interfaceId \<Rightarrow> iface \<Rightarrow> iface" where
  "addNeighbor nbr i = i\<lparr>if_neighbors := idset_insert nbr (if_neighbors i)\<rparr>"

definition removeNeighbor :: "interfaceId \<Rightarrow> iface \<Rightarrow> iface" where
  "removeNeighbor nbr i = i\<lparr>if_neighbors := removeAll nbr (if_neighbors i)\<rparr>"

definition popInStream :: "int \<Rightarrow> iface \<Rightarrow> packet \<times> iface" where
  "popInStream now i = (case if_inStream i of
       [] \<Rightarrow> (new_packet now, i)
     | p # ps \<Rightarrow> (p, i\<lparr>if_inStream := ps\<rparr>))"

definition inStreamEmpty :: "iface \<Rightarrow> bool" where
  "inStreamEmpty i = (if_inStream i = [])"

definition clearAll :: "iface \<Rightarrow> iface" where
  "clearAll i = i\<lparr>if_inStream := [], if_inBoundChannels := [], if_outBoundChannels := [], if_neighbors := []\<rparr>"

definition addInboundChannel :: "interfaceId \<Rightarrow> chref \<Rightarrow> iface \<Rightarrow> iface" where
  "addInboundChannel srcPubId r i = i\<lparr>if_inBoundChannels := mm_emplace srcPubId r (if_inBoundChannels i)\<rparr>"

definition addOutboundChannel :: "interfaceId \<Rightarrow> chref \<Rightarrow> iface \<Rightarrow> iface" where
  "addOutboundChannel tPubId r i = i\<lparr>if_outBoundChannels := mm_emplace tPubId r (if_outBoundChannels i)\<rparr>"

definition removeOutboundChannelByPublic :: "interfaceId \<Rightarrow> iface \<Rightarrow> iface" where
  "removeOutboundChannelByPublic remotePubId i =
     i\<lparr>if_outBoundChannels := filter (\<lambda>(k, _). k \<noteq> remotePubId) (if_outBoundChannels i)\<rparr>"

text \<open>
  \<open>removeOutboundChannelByInternal\<close> erases the entry at the loop's iterator and then increments that
  iterator, which the language leaves undefined: the operation is \<open>None\<close> as soon as one entry matches.
\<close>

definition removeOutboundChannelByInternal ::
  "interfaceId \<Rightarrow> channel list \<Rightarrow> iface \<Rightarrow> iface option" where
  "removeOutboundChannelByInternal targetInternalId chs i =
     (if \<exists>e \<in> set (if_outBoundChannels i). snd e \<ge> length chs \<or>
           ch_targetInternalId (chs ! snd e) = targetInternalId then None
      else Some i)"

subsection \<open>Sends built on the virtual unicastTo\<close>

type_synonym 's uni = "json \<Rightarrow> interfaceId \<Rightarrow> 's \<Rightarrow> 's option"

definition unicast :: "'s uni \<Rightarrow> idset \<Rightarrow> json \<Rightarrow> 's \<Rightarrow> 's option" where
  "unicast uni nbrs msg s = (case nbrs of [] \<Rightarrow> Some s | firstNbr # _ \<Rightarrow> uni msg firstNbr s)"

definition multicast :: "'s uni \<Rightarrow> json \<Rightarrow> idset \<Rightarrow> 's \<Rightarrow> 's option" where
  "multicast uni msg targets s = foldM (\<lambda>nbr. uni msg nbr) targets s"

definition broadcast :: "'s uni \<Rightarrow> idset \<Rightarrow> json \<Rightarrow> 's \<Rightarrow> 's option" where
  "broadcast uni nbrs msg s = multicast uni msg nbrs s"

definition broadcastBut :: "'s uni \<Rightarrow> idset \<Rightarrow> json \<Rightarrow> interfaceId \<Rightarrow> 's \<Rightarrow> 's option" where
  "broadcastBut uni nbrs msg exceptId s =
     foldM (\<lambda>nbr s. if nbr = exceptId then Some s else uni msg nbr s) nbrs s"

definition random_subset :: "idset \<Rightarrow> rng \<Rightarrow> (idset \<times> rng) option" where
  "random_subset nbrs g = do {
     (count, g) \<leftarrow> uniformInt 0 (int (length nbrs)) g;
     let (temp, g) = shuffle nbrs g;
     Some (idset_of (take (nat count) temp), g) }"

definition randomMulticast :: "(rng \<times> 'c) uni \<Rightarrow> idset \<Rightarrow> json \<Rightarrow> rng \<times> 'c \<Rightarrow> (rng \<times> 'c) option" where
  "randomMulticast uni nbrs msg = (\<lambda>(g, c). do {
     (subset, g) \<leftarrow> random_subset nbrs g;
     multicast uni msg subset (g, c) })"

lemma random_subset_range: "\<exists>ts g'. random_subset ns g = Some (ts, g') \<and> set ts \<subseteq> set ns"
proof -
  obtain c g1 where c: "uniformInt 0 (int (length ns)) g = Some (c, g1)"
    using uniformInt_total [of 0 "int (length ns)" g] by auto
  obtain temp g2 where t: "shuffle ns g1 = (temp, g2)" by fastforce
  have "set temp = set ns" using set_shuffle [of ns g1] t by simp
  then have "set (idset_of (take (nat c) temp)) \<subseteq> set ns"
    using set_take_subset by fastforce
  then show ?thesis using c t by (simp add: random_subset_def)
qed

locale network_interface =
  fixes uni :: "(rng \<times> 'c) uni" and nbrs :: "interfaceId set" and ok :: "rng \<times> 'c \<Rightarrow> bool"
  assumes not_neighbour: "d \<notin> nbrs \<Longrightarrow> uni m d s = Some s"
    and unicast_returns: "ok s \<Longrightarrow> \<exists>s'. uni m d s = Some s' \<and> ok s'"
    and any_engine: "ok (g, c) \<Longrightarrow> ok (g', c)"
begin

lemma multicast_only_neighbours:
  "multicast uni m targets s = multicast uni m (filter (\<lambda>d. d \<in> nbrs) targets) s"
  unfolding multicast_def
  by (induction targets arbitrary: s) (auto simp: not_neighbour intro!: Option.bind_cong)

lemma multicast_returns: "ok s \<Longrightarrow> \<exists>s'. multicast uni m targets s = Some s' \<and> ok s'"
  unfolding multicast_def by (rule foldM_total) (assumption, rule unicast_returns)

lemma broadcastBut_multicast:
  "broadcastBut uni ns m d s = multicast uni m (removeAll d ns) s"
  unfolding broadcastBut_def multicast_def
  by (induction ns arbitrary: s) (auto intro!: Option.bind_cong)

lemma broadcastBut_stranger: "d \<notin> set ns \<Longrightarrow> broadcastBut uni ns m d s = broadcast uni ns m s"
  by (simp add: broadcastBut_multicast broadcast_def)

lemma unicast_first_returns: "ok s \<Longrightarrow> \<exists>s'. unicast uni ns m s = Some s' \<and> ok s'"
  by (cases ns) (simp_all add: unicast_def del: split_paired_Ex, rule unicast_returns)

lemma broadcast_returns: "ok s \<Longrightarrow> \<exists>s'. broadcast uni ns m s = Some s' \<and> ok s'"
  unfolding broadcast_def by (rule multicast_returns)

lemma broadcastBut_returns: "ok s \<Longrightarrow> \<exists>s'. broadcastBut uni ns m d s = Some s' \<and> ok s'"
  unfolding broadcastBut_multicast by (rule multicast_returns)

lemma randomMulticast_returns:
  assumes "ok s"
  shows "\<exists>s'. randomMulticast uni ns m s = Some s' \<and> ok s'"
proof -
  obtain g c where s: "s = (g, c)" by fastforce
  obtain ts g' where t: "random_subset ns g = Some (ts, g')" using random_subset_range by blast
  have "ok (g', c)" using assms any_engine s by blast
  from multicast_returns [OF this] show ?thesis using t s by (auto simp: randomMulticast_def)
qed

end

subsection \<open>The abstract simulator's interface\<close>

text \<open>What sending and receiving change: the engine and the channel store.\<close>

type_synonym medium = "rng \<times> channel list"

definition push_act :: "packet \<Rightarrow> rng \<Rightarrow> channel \<Rightarrow> (rng \<times> channel) option" where
  "push_act p g ch = do { (ch, g) \<leftarrow> pushPacket p ch g; Some (g, ch) }"

definition unicast_ops :: "int \<Rightarrow> iface \<Rightarrow> json \<Rightarrow> interfaceId
    \<Rightarrow> ((rng \<Rightarrow> channel \<Rightarrow> (rng \<times> channel) option) \<times> chref) list" where
  "unicast_ops now i msg nbr =
     map (\<lambda>(_, r). (push_act ((new_packet now)\<lparr>pk_sourceId := if_publicId i, pk_targetId := nbr,
                                               pk_body := msg\<rparr>), r))
       (equal_range nbr (if_outBoundChannels i))"

definition unicastTo :: "int \<Rightarrow> iface \<Rightarrow> medium uni" where
  "unicastTo now i msg nbr s =
     (if nbr \<notin> set (if_neighbors i) then Some s else foldM (\<lambda>(act, r). cell_op act r) (unicast_ops now i msg nbr) s)"

function recv_loop :: "int \<Rightarrow> int \<Rightarrow> channel \<Rightarrow> packet list \<Rightarrow> channel \<times> packet list" where
  "recv_loop now recCount ch inStream =
     (if ch_packetQueue ch \<noteq> [] \<and> frontHasArrived now ch \<and> recCount < cp_maxMsgsRec (ch_properties ch)
      then (case popPacket ch of
              None \<Rightarrow> (ch, inStream)
            | Some (arrivedPkt, ch) \<Rightarrow> recv_loop now (recCount + 1) ch (inStream @ [arrivedPkt]))
      else (ch, inStream))"
  by pat_completeness auto
termination
  by (relation "measure (\<lambda>(now, recCount, ch, inStream). length (ch_packetQueue ch))")
     (auto simp: popPacket_Some)

declare recv_loop.simps [simp del]

definition recv_act ::
  "int \<Rightarrow> packet list \<times> rng \<Rightarrow> channel \<Rightarrow> ((packet list \<times> rng) \<times> channel) option" where
  "recv_act now = (\<lambda>(inStream, g) ch. do {
     (ch, g) \<leftarrow> shuffleChannel ch g;
     let (ch, inStream) = recv_loop now 0 ch inStream;
     Some ((inStream, g), ch) })"

definition recv_ops :: "int \<Rightarrow> iface
    \<Rightarrow> ((packet list \<times> rng \<Rightarrow> channel \<Rightarrow> ((packet list \<times> rng) \<times> channel) option) \<times> chref) list" where
  "recv_ops now i = map (\<lambda>(_, r). (recv_act now, r)) (if_inBoundChannels i)"

definition if_receive :: "int \<Rightarrow> iface \<Rightarrow> medium \<Rightarrow> (iface \<times> medium) option" where
  "if_receive now i = (\<lambda>(g, chs). do {
     ((inStream, g), chs) \<leftarrow> foldM (\<lambda>(act, r). cell_op act r) (recv_ops now i) ((if_inStream i, g), chs);
     Some (i\<lparr>if_inStream := inStream\<rparr>, g, chs) })"

definition medium_ok :: "iface \<Rightarrow> medium \<Rightarrow> bool" where
  "medium_ok i = (\<lambda>(g, chs). (\<forall>e \<in> set (if_outBoundChannels i). snd e < length chs) \<and>
     (\<forall>ch \<in> set chs. valid_distribution (ch_properties ch)))"

lemma push_act_ok:
  assumes "medium_ok i s" and "(k, r) \<in> set (if_outBoundChannels i)"
  shows "\<exists>s'. cell_op (push_act p) r s = Some s' \<and> medium_ok i s'"
proof -
  obtain g chs where s: "s = (g, chs)" by fastforce
  with assms have r: "r < length chs"
    and v: "\<forall>ch \<in> set chs. valid_distribution (ch_properties ch)" by (auto simp: medium_ok_def)
  obtain ch' g' where p: "pushPacket p (chs ! r) g = Some (ch', g')"
    using pushPacket_total r v nth_mem by blast
  have "ch_properties ch' = ch_properties (chs ! r)"
    using pushPacket_accepted [OF p] accepted_fields(2) by blast
  then have "valid_distribution (ch_properties ch')" using r v nth_mem by metis
  then have "medium_ok i (g', chs[r := ch'])"
    using assms s v by (auto simp: medium_ok_def dest!: set_update_subset_insert [THEN subsetD])
  then show ?thesis using p r s by (auto simp: cell_op_def push_act_def)
qed

interpretation abstractIf: network_interface "unicastTo now i" "set (if_neighbors i)" "medium_ok i"
  for now i
proof unfold_locales
  fix d m s assume "d \<notin> set (if_neighbors i)"
  then show "unicastTo now i m d s = Some s" by (simp add: unicastTo_def)
next
  fix s m d assume ok: "medium_ok i s"
  then have "\<exists>s'. foldM (\<lambda>(act, r). cell_op act r) (unicast_ops now i m d) s = Some s' \<and> medium_ok i s'"
  proof (rule foldM_total)
    fix e s assume "e \<in> set (unicast_ops now i m d)" and "medium_ok i s"
    then show "\<exists>s'. (case e of (act, r) \<Rightarrow> cell_op act r) s = Some s' \<and> medium_ok i s'"
      using push_act_ok [of i s] by (fastforce simp: unicast_ops_def set_equal_range)
  qed
  then show "\<exists>s'. unicastTo now i m d s = Some s' \<and> medium_ok i s'"
    using ok unfolding unicastTo_def by (cases "d \<in> set (if_neighbors i)") auto
next
  fix g c g' assume "medium_ok i (g, c)"
  then show "medium_ok i (g', c)" by (simp add: medium_ok_def)
qed

subsection \<open>Delivery\<close>

text \<open>What one visit of the receiver takes from a channel: the arrived packets at the front of the queue,
  at most \<open>maxMsgsRec\<close> of them.\<close>

definition deliverable :: "int \<Rightarrow> channel \<Rightarrow> packet list" where
  "deliverable now ch = take (nat (cp_maxMsgsRec (ch_properties ch))) (takeWhile (hasArrived now) (ch_packetQueue ch))"

lemma recv_loop_eq:
  "recv_loop now c ch inS =
     (let taken = take (nat (cp_maxMsgsRec (ch_properties ch) - c)) (takeWhile (hasArrived now) (ch_packetQueue ch))
      in (ch\<lparr>ch_packetQueue := drop (length taken) (ch_packetQueue ch)\<rparr>, inS @ taken))"
proof (induction now c ch inS rule: recv_loop.induct)
  case (1 now c ch inS)
  show ?case
  proof (cases "ch_packetQueue ch \<noteq> [] \<and> frontHasArrived now ch \<and> c < cp_maxMsgsRec (ch_properties ch)")
    case True
    then obtain p q where q: "ch_packetQueue ch = p # q" "hasArrived now p"
      by (auto simp: frontHasArrived_def split: list.splits)
    have pop: "popPacket ch = Some (p, ch\<lparr>ch_packetQueue := q\<rparr>)" using q by (simp add: popPacket_def)
    have n: "nat (cp_maxMsgsRec (ch_properties ch) - c) = Suc (nat (cp_maxMsgsRec (ch_properties ch) - (c + 1)))"
      using True by (simp add: Suc_nat_eq_nat_zadd1)
    have rl: "recv_loop now c ch inS = recv_loop now (c + 1) (ch\<lparr>ch_packetQueue := q\<rparr>) (inS @ [p])"
      by (subst recv_loop.simps) (use True pop in simp)
    show ?thesis
      unfolding rl "1.IH" [OF True pop refl] using q n by (simp add: Let_def)
  next
    case False
    then have rl: "recv_loop now c ch inS = (ch, inS)" by (subst recv_loop.simps) (simp only: if_False)
    show ?thesis
      using False unfolding rl
      by (cases "ch_packetQueue ch") (auto simp: frontHasArrived_def Let_def)
  qed
qed

lemma recv_loop_deliverable:
  "recv_loop now 0 ch inS =
     (ch\<lparr>ch_packetQueue := drop (length (deliverable now ch)) (ch_packetQueue ch)\<rparr>, inS @ deliverable now ch)"
  by (simp add: recv_loop_eq deliverable_def Let_def)

lemma deliverable_prefix:
  "ch_packetQueue ch = deliverable now ch @ drop (length (deliverable now ch)) (ch_packetQueue ch)"
proof -
  have "deliverable now ch = take (length (deliverable now ch)) (ch_packetQueue ch)"
    unfolding deliverable_def
    by (metis append_eq_conv_conj append_take_drop_id takeWhile_eq_take take_take length_take)
  then show ?thesis by (metis append_take_drop_id)
qed

lemma deliverable_arrived: "p \<in> set (deliverable now ch) \<Longrightarrow> hasArrived now p"
  by (auto simp: deliverable_def dest: in_set_takeD set_takeWhileD)

lemma recv_act_effect:
  assumes "recv_act now (inS, g) ch = Some ((inS', g'), ch')"
  shows "\<exists>taken. inS' = inS @ taken \<and> mset (ch_packetQueue ch) = mset taken + mset (ch_packetQueue ch') \<and>
     (\<forall>p \<in> set taken. hasArrived now p) \<and> length taken \<le> nat (cp_maxMsgsRec (ch_properties ch)) \<and>
     ch' = ch\<lparr>ch_packetQueue := ch_packetQueue ch'\<rparr>"
proof -
  from assms obtain ch1 where sh: "shuffleChannel ch g = Some (ch1, g')"
    and ch': "ch' = ch1\<lparr>ch_packetQueue := drop (length (deliverable now ch1)) (ch_packetQueue ch1)\<rparr>"
    and ins: "inS' = inS @ deliverable now ch1"
    by (auto simp: recv_act_def monad recv_loop_deliverable)
  have props: "ch_properties ch1 = ch_properties ch"
    using mset_shuffleChannel(2) [OF sh] by (metis channel.surjective channel.update_convs(7) channel.select_convs(5))
  have "ch' = ch\<lparr>ch_packetQueue := ch_packetQueue ch'\<rparr>"
    by (subst ch', subst mset_shuffleChannel(2) [OF sh]) (simp add: ch')
  moreover have "mset (ch_packetQueue ch) = mset (deliverable now ch1) + mset (ch_packetQueue ch')"
    using mset_shuffleChannel(1) [OF sh] deliverable_prefix [of ch1 now]
    by (simp add: ch') (metis mset_append)
  moreover have "length (deliverable now ch1) \<le> nat (cp_maxMsgsRec (ch_properties ch))"
    by (simp add: deliverable_def props)
  ultimately show ?thesis using ins deliverable_arrived by blast
qed

lemma recv_act_total: "\<exists>a' ch'. recv_act now a ch = Some (a', ch')"
  using shuffleChannel_total [of ch "snd a"] by (cases a) (auto simp: recv_act_def split: prod.splits)

definition in_flight :: "channel list \<Rightarrow> packet multiset" where
  "in_flight chs = sum_list (map (\<lambda>ch. mset (ch_packetQueue ch)) chs)"

lemma in_flight_update:
  "r < length chs \<Longrightarrow>
   in_flight (chs[r := ch]) + mset (ch_packetQueue (chs ! r)) = in_flight chs + mset (ch_packetQueue ch)"
  unfolding in_flight_def by (rule sum_list_map_update)

text \<open>The relation one visit of all inbound channels establishes, step by step.\<close>

definition recv_inv ::
  "int \<Rightarrow> packet list \<Rightarrow> channel list \<Rightarrow> (packet list \<times> rng) \<times> channel list \<Rightarrow> bool" where
  "recv_inv now inS0 chs0 = (\<lambda>((inS, g), chs).
     mset inS + in_flight chs = mset inS0 + in_flight chs0 \<and>
     (\<exists>new. inS = inS0 @ new \<and> (\<forall>p \<in> set new. hasArrived now p)))"

lemma recv_inv_step:
  assumes "recv_inv now inS0 chs0 s" and "cell_op (recv_act now) r s = Some s'"
  shows "recv_inv now inS0 chs0 s'"
proof -
  obtain inS g chs inS' g' chs' where s: "s = ((inS, g), chs)" "s' = ((inS', g'), chs')"
    by (metis prod.collapse)
  from assms(2) obtain ch' where r: "r < length chs"
    and act: "recv_act now (inS, g) (chs ! r) = Some ((inS', g'), ch')" and chs': "chs' = chs[r := ch']"
    by (auto simp: s cell_op_Some)
  from recv_act_effect [OF act] obtain taken where t: "inS' = inS @ taken"
    "mset (ch_packetQueue (chs ! r)) = mset taken + mset (ch_packetQueue ch')"
    "\<forall>p \<in> set taken. hasArrived now p" by blast
  have "in_flight chs' + mset taken = in_flight chs"
    using in_flight_update [OF r, of ch'] t(2) by (simp add: chs' add_ac)
  then have "mset inS' + in_flight chs' = mset inS + in_flight chs"
    by (simp add: t(1) add_ac)
  then show ?thesis using assms(1) t(1,3) by (auto simp: recv_inv_def s)
qed

text \<open>
  Claim C6. Receiving loses, duplicates and invents nothing: the packets in the input stream and in
  the channels together are the same before and after, the input stream only grows at its end, and
  what is appended had arrived, that is, its delay has elapsed.
\<close>

theorem receive_conserves:
  assumes "if_receive now i (g, chs) = Some (i', g', chs')"
  shows "mset (if_inStream i') + in_flight chs' = mset (if_inStream i) + in_flight chs \<and>
     (\<exists>new. if_inStream i' = if_inStream i @ new \<and> (\<forall>p \<in> set new. hasArrived now p)) \<and>
     i' = i\<lparr>if_inStream := if_inStream i'\<rparr>"
proof -
  from assms obtain inS where run: "foldM (\<lambda>(act, r). cell_op act r) (recv_ops now i) ((if_inStream i, g), chs) = Some ((inS, g'), chs')"
    and i': "i' = i\<lparr>if_inStream := inS\<rparr>"
    by (auto simp: if_receive_def monad)
  have "recv_inv now (if_inStream i) chs ((inS, g'), chs')"
  proof (rule foldM_invariant [OF run])
    show "recv_inv now (if_inStream i) chs ((if_inStream i, g), chs)" by (simp add: recv_inv_def)
  qed (auto simp: recv_ops_def elim!: recv_inv_step [rotated])
  then show ?thesis by (auto simp: recv_inv_def i')
qed

definition example_packet :: packet where
  "example_packet = (new_packet_to 0 1 0 JNull)\<lparr>pk_delay := 1\<rparr>"

definition example_iface :: iface where
  "example_iface = (new_iface 1 1)\<lparr>if_inBoundChannels := [(0, 0)]\<rparr>"

lemma example_receive:
  "if_receive 1 example_iface (\<lambda>_. 0, [(example_channel 0 1 5)\<lparr>ch_packetQueue := [example_packet]\<rparr>]) =
     Some (example_iface\<lparr>if_inStream := [example_packet]\<rparr>, \<lambda>_. 0, [example_channel 0 1 5])"
  by (simp add: if_receive_def recv_ops_def example_iface_def new_iface_def cell_op_def recv_act_def
      shuffleChannel_def recv_loop_deliverable deliverable_def example_channel_def cp_initial_def
      INT_MAX_def hasArrived_def example_packet_def new_packet_to_def conv)

theorem receive_conserves_witness:
  "mset (if_inStream (example_iface\<lparr>if_inStream := [example_packet]\<rparr>)) + in_flight [example_channel 0 1 5] =
   mset (if_inStream example_iface) + in_flight [(example_channel 0 1 5)\<lparr>ch_packetQueue := [example_packet]\<rparr>]"
  using receive_conserves [OF example_receive] by simp

text \<open>
  On a channel that does not reorder, one visit takes exactly the arrived packets at the
  front of the queue, at most the per-round limit of them, in the order in which they were sent, and
  leaves the rest of the queue as it was.
\<close>

theorem receive_in_order:
  assumes "cp_reorderProbability (ch_properties ch) \<le> 0"
  shows "recv_act now (inS, g) ch =
     Some ((inS @ deliverable now ch, g),
           ch\<lparr>ch_packetQueue := drop (length (deliverable now ch)) (ch_packetQueue ch)\<rparr>) \<and>
     deliverable now ch @ drop (length (deliverable now ch)) (ch_packetQueue ch) = ch_packetQueue ch"
  using assms deliverable_prefix [of ch now]
  by (simp add: recv_act_def shuffleChannel_in_order recv_loop_deliverable)

theorem receive_in_order_witness:
  "recv_act 1 ([], \<lambda>_. 0) ((example_channel 0 1 5)\<lparr>ch_packetQueue := [example_packet]\<rparr>) =
     Some (([example_packet], \<lambda>_. 0), example_channel 0 1 5)"
  using receive_in_order [of "(example_channel 0 1 5)\<lparr>ch_packetQueue := [example_packet]\<rparr>" 1 "[]" "\<lambda>_. 0"]
  by (simp add: deliverable_def example_channel_def cp_initial_def INT_MAX_def hasArrived_def
      example_packet_def new_packet_to_def conv)

text \<open>
  A multicast reaches neighbours only: on the abstract interface it is the same as the
  multicast to those of its targets that are neighbours, and \<open>broadcastBut\<close> is the multicast to all
  other neighbours.
\<close>

theorem sends_reach_neighbours_only:
  "multicast (unicastTo now i) msg targets s =
     multicast (unicastTo now i) msg (filter (\<lambda>d. d \<in> set (if_neighbors i)) targets) s \<and>
   broadcastBut (unicastTo now i) (if_neighbors i) msg d s =
     multicast (unicastTo now i) msg (removeAll d (if_neighbors i)) s"
  using abstractIf.multicast_only_neighbours abstractIf.broadcastBut_multicast by blast

end
