(* ===== verification/Network.thy ===== *)
theory Network
  imports NetIface
begin

text \<open>
  Peers and the network of the abstract simulator (src/quantas/Common/Peer.hpp,
  src/quantas/Common/Abstract/Network.hpp and Network.cpp).

  A node is a peer with its interface and its crash round; \<open>'p\<close> is the state the algorithm adds. What
  an algorithm's \<open>performComputation\<close> does to the network is the list of its sends, in order; the
  network executes them on the peer's interface. The topology builders are loops of \<open>addNeighbor\<close>
  calls: each builder's list of edges is the sequence of the calls, \<open>(i, j)\<close> for
  \<open>_peers[i]->addNeighbor(_peers[j]->internalId())\<close>. An index outside the peer vector is undefined
  behaviour, \<open>None\<close>.
\<close>

subsection \<open>Peers and their registry\<close>

record 'p node =
  nd_iface :: iface
  nd_crashRecoveryRound :: int
  nd_state :: 'p

type_synonym 'p registry = "(string \<times> (interfaceId \<Rightarrow> 'p)) list"

definition registerPeerType :: "string \<Rightarrow> (interfaceId \<Rightarrow> 'p) \<Rightarrow> 'p registry \<Rightarrow> bool \<times> 'p registry" where
  "registerPeerType name factory reg =
     (if map_of reg name = None then (True, (name, factory) # reg) else (False, reg))"

text \<open>
  The registered factories build the peer on a \<open>NetworkInterfaceAbstract\<close>, whose constructor takes the
  next internal identifier from the counter.
\<close>

definition makePeer :: "'p registry \<Rightarrow> string \<Rightarrow> interfaceId \<Rightarrow> int \<Rightarrow> ('p node \<times> int) option" where
  "makePeer reg type pubId counter = (case map_of reg type of
       None \<Rightarrow> None
     | Some factory \<Rightarrow> Some (\<lparr>nd_iface = new_iface pubId (counter + 1), nd_crashRecoveryRound = 0,
                              nd_state = factory pubId\<rparr>, counter + 1))"

definition isCrashed :: "int \<Rightarrow> 'p node \<Rightarrow> bool" where
  "isCrashed now p = (nd_crashRecoveryRound p > now)"

definition setCrashRecoveryRound :: "int \<Rightarrow> 'p node \<Rightarrow> 'p node" where
  "setCrashRecoveryRound r p = p\<lparr>nd_crashRecoveryRound := r\<rparr>"

definition nd_addNeighbor :: "interfaceId \<Rightarrow> 'p node \<Rightarrow> 'p node" where
  "nd_addNeighbor nbr p = p\<lparr>nd_iface := addNeighbor nbr (nd_iface p)\<rparr>"

abbreviation internalId :: "'p node \<Rightarrow> interfaceId" where
  "internalId p \<equiv> if_internalId (nd_iface p)"

abbreviation publicId :: "'p node \<Rightarrow> interfaceId" where
  "publicId p \<equiv> if_publicId (nd_iface p)"

abbreviation nbrs :: "'p node \<Rightarrow> interfaceId set" where
  "nbrs p \<equiv> set (if_neighbors (nd_iface p))"

text \<open>The sends of an algorithm, and their execution on the interface of the peer.\<close>

datatype send =
    UnicastTo json interfaceId
  | Unicast json
  | Multicast json idset
  | Broadcast json
  | BroadcastBut json interfaceId
  | RandomMulticast json

fun exec_send :: "int \<Rightarrow> iface \<Rightarrow> send \<Rightarrow> medium \<Rightarrow> medium option" where
  "exec_send now i (UnicastTo msg dest) s = unicastTo now i msg dest s"
| "exec_send now i (Unicast msg) s = unicast (unicastTo now i) (if_neighbors i) msg s"
| "exec_send now i (Multicast msg targets) s = multicast (unicastTo now i) msg targets s"
| "exec_send now i (Broadcast msg) s = broadcast (unicastTo now i) (if_neighbors i) msg s"
| "exec_send now i (BroadcastBut msg d) s = broadcastBut (unicastTo now i) (if_neighbors i) msg d s"
| "exec_send now i (RandomMulticast msg) s = randomMulticast (unicastTo now i) (if_neighbors i) msg s"

subsection \<open>Topologies\<close>

definition add_edge :: "nat \<times> nat \<Rightarrow> 'p node list \<Rightarrow> 'p node list option" where
  "add_edge = (\<lambda>(i, j) ps. if i < length ps \<and> j < length ps
     then Some (ps[i := nd_addNeighbor (internalId (ps ! j)) (ps ! i)]) else None)"

definition add_edges :: "(nat \<times> nat) list \<Rightarrow> 'p node list \<Rightarrow> 'p node list option" where
  "add_edges es ps = foldM add_edge es ps"

definition fullyConnect_edges :: "nat \<Rightarrow> (nat \<times> nat) list" where
  "fullyConnect_edges n = concat [[(i, j), (j, i)]. i \<leftarrow> [0..<n], j \<leftarrow> [Suc i..<n], i \<noteq> j]"

definition star_edges :: "nat \<Rightarrow> (nat \<times> nat) list" where
  "star_edges n = concat [[(0, i), (i, 0)]. i \<leftarrow> [1..<n]]"

definition grid_edges :: "nat \<Rightarrow> nat \<Rightarrow> (nat \<times> nat) list" where
  "grid_edges height width = concat
     [let idx = i * width + j in
        (if j + 1 < width then [(idx, idx + 1), (idx + 1, idx)] else []) @
        (if i + 1 < height then [(idx, idx + width), (idx + width, idx)] else []).
      i \<leftarrow> [0..<height], j \<leftarrow> [0..<width]]"

definition torus_edges :: "nat \<Rightarrow> nat \<Rightarrow> (nat \<times> nat) list" where
  "torus_edges height width = concat
     [let idx = i * width + j;
          rightIdx = i * width + ((j + 1) mod width);
          downIdx = ((i + 1) mod height) * width + j
      in [(idx, rightIdx), (rightIdx, idx), (idx, downIdx), (downIdx, idx)].
      i \<leftarrow> [0..<height], j \<leftarrow> [0..<width]]"

definition chain_edges :: "nat \<Rightarrow> (nat \<times> nat) list" where
  "chain_edges n = concat [[(i, i + 1), (i + 1, i)]. i \<leftarrow> [0..<n - 1]]"

definition ring_edges :: "nat \<Rightarrow> (nat \<times> nat) list" where
  "ring_edges n = chain_edges n @ (if n > 1 then [(n - 1, 0), (0, n - 1)] else [])"

definition unidirectionalRing_edges :: "nat \<Rightarrow> (nat \<times> nat) list" where
  "unidirectionalRing_edges n = [(i, i + 1). i \<leftarrow> [0..<n - 1]] @ (if n > 1 then [(n - 1, 0)] else [])"

text \<open>The adjacency given by the user: \<open>std::to_string(i)\<close> is the key of the neighbours of peer \<open>i\<close>.\<close>

fun to_string :: "nat \<Rightarrow> string" where
  "to_string n = (if n < 10 then [char_of (48 + n)] else to_string (n div 10) @ [char_of (48 + n mod 10)])"

declare to_string.simps [simp del]

text \<open>The elements a range-based \<open>for\<close> visits in a JSON value.\<close>

fun jelems :: "json \<Rightarrow> json list" where
  "jelems (JArr xs) = xs"
| "jelems (JObj kvs) = map snd kvs"
| "jelems JNull = []"
| "jelems j = [j]"

definition userList_peer :: "json \<Rightarrow> nat \<Rightarrow> 'p node list \<Rightarrow> 'p node list option" where
  "userList_peer lst i ps = (case jfind (to_string i) lst of
       None \<Rightarrow> Some ps
     | Some dests \<Rightarrow> foldM (\<lambda>dest ps. do {
           d \<leftarrow> get_id dest;
           if i < length ps then Some (ps[i := nd_addNeighbor d (ps ! i)]) else None }) (jelems dests) ps)"

definition userList :: "json \<Rightarrow> 'p node list \<Rightarrow> 'p node list option" where
  "userList topology ps = do {
     initialPeers \<leftarrow> value_int topology ''initialPeers'' 0;
     if \<not> contains topology ''list'' then Some ps
     else do {
       lst \<leftarrow> jindex topology ''list'';
       foldM (userList_peer lst) [0..<nat initialPeers] ps } }"

definition build_topology :: "json \<Rightarrow> nat \<Rightarrow> 'p node list \<Rightarrow> 'p node list option" where
  "build_topology topology n ps = do {
     t \<leftarrow> value_string topology ''type'' [];
     if t = ''complete'' then add_edges (fullyConnect_edges n) ps
     else if t = ''star'' then add_edges (star_edges n) ps
     else if t = ''grid'' then do {
       h \<leftarrow> value_int topology ''height'' 1; w \<leftarrow> value_int topology ''width'' 1;
       add_edges (grid_edges (nat h) (nat w)) ps }
     else if t = ''torus'' then do {
       h \<leftarrow> value_int topology ''height'' 1; w \<leftarrow> value_int topology ''width'' 1;
       add_edges (torus_edges (nat h) (nat w)) ps }
     else if t = ''chain'' then add_edges (chain_edges n) ps
     else if t = ''ring'' then add_edges (ring_edges n) ps
     else if t = ''unidirectionalRing'' then add_edges (unidirectionalRing_edges n) ps
     else if t = ''userList'' then userList topology ps
     else Some ps }"

subsection \<open>The network\<close>

record 'p network =
  nw_peers :: "'p node list"
  nw_distribution :: json
  nw_chans :: "channel list"
  nw_cache :: "channelProperties list"
  nw_counter :: int

definition setDistribution :: "json \<Rightarrow> 'p network \<Rightarrow> 'p network" where
  "setDistribution d nw = nw\<lparr>nw_distribution := d\<rparr>"

definition clearExisting :: "'p network \<Rightarrow> 'p network" where
  "clearExisting nw = nw\<lparr>nw_peers := [], nw_chans := []\<rparr>"

text \<open>One turn of the inner loop of \<open>createInitialChannels\<close>: the channel of peer \<open>k\<close> to \<open>_peers[nbr]\<close>.\<close>

definition create_channel :: "int \<Rightarrow> int \<Rightarrow> nat \<Rightarrow> interfaceId \<Rightarrow> 'p network \<Rightarrow> 'p network option" where
  "create_channel lastRnd now k nbr nw =
     (if 0 \<le> nbr \<and> nat nbr < length (nw_peers nw) \<and> k < length (nw_peers nw) then do {
        let tgt = nw_peers nw ! nat nbr;
        let src = nw_peers nw ! k;
        (ch, cache) \<leftarrow> new_channel (publicId tgt) (internalId tgt) (publicId src) (internalId src)
                        (nw_distribution nw) lastRnd now (nw_cache nw);
        let r = length (nw_chans nw);
        let ps = nw_peers nw;
        let ps = ps[nat nbr := (ps ! nat nbr)\<lparr>nd_iface :=
                     addInboundChannel (publicId src) r (nd_iface (ps ! nat nbr))\<rparr>];
        let ps = ps[k := (ps ! k)\<lparr>nd_iface := addOutboundChannel (publicId tgt) r (nd_iface (ps ! k))\<rparr>];
        Some (nw\<lparr>nw_peers := ps, nw_chans := nw_chans nw @ [ch], nw_cache := cache\<rparr>) }
      else None)"

definition createInitialChannels :: "int \<Rightarrow> int \<Rightarrow> 'p network \<Rightarrow> 'p network option" where
  "createInitialChannels lastRnd now nw =
     foldM (\<lambda>k nw. foldM (create_channel lastRnd now k)
                     (if_neighbors (nd_iface (nw_peers nw ! k))) nw)
       [0..<length (nw_peers nw)] nw"

definition make_peers :: "'p registry \<Rightarrow> string \<Rightarrow> nat \<Rightarrow> 'p network \<Rightarrow> 'p network option" where
  "make_peers reg peerType n nw = foldM (\<lambda>i nw. do {
       (peer, counter) \<leftarrow> makePeer reg peerType (int i) (nw_counter nw);
       Some (nw\<lparr>nw_peers := nw_peers nw @ [peer], nw_counter := counter\<rparr>) }) [0..<n] nw"

definition initNetwork ::
  "'p registry \<Rightarrow> int \<Rightarrow> int \<Rightarrow> json \<Rightarrow> rng \<Rightarrow> 'p network \<Rightarrow> ('p network \<times> rng) option" where
  "initNetwork reg lastRnd now topology g nw = do {
     let nw = (clearExisting nw)\<lparr>nw_counter := NO_PEER_ID\<rparr>;
     initialPeers \<leftarrow> value_int topology ''initialPeers'' 0;
     peerType \<leftarrow> value_string topology ''initialPeerType'' [];
     nw \<leftarrow> make_peers reg peerType (nat initialPeers) nw;
     identifiers \<leftarrow> value_string topology ''identifiers'' [];
     let (ps, g) = (if identifiers = ''random'' then shuffle (nw_peers nw) g else (nw_peers nw, g));
     ps \<leftarrow> build_topology topology (nat initialPeers) ps;
     nw \<leftarrow> createInitialChannels lastRnd now (nw\<lparr>nw_peers := ps\<rparr>);
     Some (nw, g) }"

text \<open>
  The two phases of a round for one peer. \<open>perform\<close> is the algorithm's \<open>performComputation\<close>: it maps
  the node to its new state and the sends it makes.
\<close>

type_synonym 'p perform = "int \<Rightarrow> 'p node \<Rightarrow> rng \<Rightarrow> ('p node \<times> send list \<times> rng) option"

definition nd_receive :: "int \<Rightarrow> 'p node \<Rightarrow> medium \<Rightarrow> ('p node \<times> medium) option" where
  "nd_receive now p s = do { (i, s) \<leftarrow> if_receive now (nd_iface p) s; Some (p\<lparr>nd_iface := i\<rparr>, s) }"

definition nd_tryPerformComputation ::
  "'p perform \<Rightarrow> int \<Rightarrow> 'p node \<Rightarrow> medium \<Rightarrow> ('p node \<times> medium) option" where
  "nd_tryPerformComputation perform now p = (\<lambda>(g, chs).
     if isCrashed now p then Some (p, g, chs)
     else do {
       (p', sends, g) \<leftarrow> perform now p g;
       s \<leftarrow> foldM (exec_send now (nd_iface p)) sends (g, chs);
       Some (p', s) })"

definition at_peer :: "('p node \<Rightarrow> medium \<Rightarrow> ('p node \<times> medium) option)
    \<Rightarrow> nat \<Rightarrow> 'p network \<times> rng \<Rightarrow> ('p network \<times> rng) option" where
  "at_peer f k = (\<lambda>(nw, g). if k < length (nw_peers nw) then do {
       (p, g, chs) \<leftarrow> f (nw_peers nw ! k) (g, nw_chans nw);
       Some (nw\<lparr>nw_peers := (nw_peers nw)[k := p], nw_chans := chs\<rparr>, g) } else None)"

definition nw_receive :: "int \<Rightarrow> int \<Rightarrow> int \<Rightarrow> 'p network \<times> rng \<Rightarrow> ('p network \<times> rng) option" where
  "nw_receive now lo hi s =
     (let hi = (if hi < int (length (nw_peers (fst s))) then hi else int (length (nw_peers (fst s))))
      in foldM (\<lambda>i s. if i < 0 then None else at_peer (nd_receive now) (nat i) s) [lo..hi - 1] s)"

definition nw_tryPerformComputation ::
  "'p perform \<Rightarrow> int \<Rightarrow> int \<Rightarrow> int \<Rightarrow> 'p network \<times> rng \<Rightarrow> ('p network \<times> rng) option" where
  "nw_tryPerformComputation perform now lo hi s =
     (let hi = (if hi < int (length (nw_peers (fst s))) then hi else int (length (nw_peers (fst s))))
      in foldM (\<lambda>i s. if i < 0 then None else at_peer (nd_tryPerformComputation perform now) (nat i) s)
           [lo..hi - 1] s)"

end
