(* ===== verification/NetTopology.thy ===== *)
theory NetTopology
  imports Network
begin

text \<open>
  What the topology builders of src/quantas/Common/Abstract/Network.cpp build: the edges of each
  topology, the neighbours of every peer after \<open>initNetwork\<close>, and the wiring of the channels that
  \<open>createInitialChannels\<close> makes for them.
\<close>

subsection \<open>The edges of each topology\<close>

lemma fullyConnect_edges_iff: "(i, j) \<in> set (fullyConnect_edges n) \<longleftrightarrow> i < n \<and> j < n \<and> i \<noteq> j"
proof
  assume ij: "i < n \<and> j < n \<and> i \<noteq> j"
  have "\<exists>k < n. \<exists>l \<in> {Suc k..<n}. k \<noteq> l \<and> (i = k \<and> j = l \<or> i = l \<and> j = k)"
    using ij by (intro exI [of _ "min i j"] conjI bexI [of _ "max i j"]) (auto simp: min_def max_def)
  then show "(i, j) \<in> set (fullyConnect_edges n)"
    by (fastforce simp: fullyConnect_edges_def)
qed (auto simp: fullyConnect_edges_def)

lemma star_edges_iff: "(i, j) \<in> set (star_edges n) \<longleftrightarrow> i < n \<and> j < n \<and> (i = 0) \<noteq> (j = 0)"
  by (auto simp: star_edges_def)

lemma chain_edges_iff: "(i, j) \<in> set (chain_edges n) \<longleftrightarrow> i < n \<and> j < n \<and> (j = i + 1 \<or> i = j + 1)"
  by (auto simp: chain_edges_def)

lemma ring_edges_iff:
  "(i, j) \<in> set (ring_edges n) \<longleftrightarrow> i < n \<and> j < n \<and> i \<noteq> j \<and> (j = (i + 1) mod n \<or> i = (j + 1) mod n)"
proof (cases "n > 1")
  case True
  have m: "Suc k mod n = (if Suc k = n then 0 else Suc k)" if "k < n" for k
    using that by auto
  show ?thesis
    using True by (auto simp: ring_edges_def chain_edges_iff m split: if_splits)
next
  case False
  then show ?thesis by (auto simp: ring_edges_def chain_edges_iff)
qed

lemma unidirectionalRing_edges_iff:
  "(i, j) \<in> set (unidirectionalRing_edges n) \<longleftrightarrow> i < n \<and> j < n \<and> i \<noteq> j \<and> j = (i + 1) mod n"
proof (cases "n > 1")
  case True
  have m: "Suc k mod n = (if Suc k = n then 0 else Suc k)" if "k < n" for k
    using that by auto
  show ?thesis
    using True by (auto simp: unidirectionalRing_edges_def m split: if_splits)
next
  case False
  then show ?thesis by (auto simp: unidirectionalRing_edges_def)
qed

lemma set_double_loop:
  "x \<in> set (concat (concat (map (\<lambda>i. map (f i) [0..<w]) [0..<h]))) \<longleftrightarrow> (\<exists>i < h. \<exists>j < w. x \<in> set (f i j))"
proof -
  have "set (concat (concat (map (\<lambda>i. map (f i) [0..<w]) [0..<h]))) = (\<Union>i \<in> {..<h}. \<Union>j \<in> {..<w}. set (f i j))"
    by (simp add: atLeast0LessThan)
  then show ?thesis by (simp add: Bex_def)
qed

text \<open>Grid positions: index \<open>i * width + j\<close> is row \<open>i\<close>, column \<open>j\<close>.\<close>

lemma grid_index:
  assumes "j < w"
  shows "(i * w + j) div w = i" "(i * w + j) mod w = (j::nat)" "i < h \<Longrightarrow> i * w + j < h * w"
proof -
  show "(i * w + j) div w = i" "(i * w + j) mod w = j" using assms by simp_all
  assume "i < h"
  then have "Suc i * w \<le> h * w" by (intro mult_le_mono1) simp
  then show "i * w + j < h * w" using assms by simp
qed

definition grid_adjacent :: "nat \<Rightarrow> nat \<Rightarrow> nat \<Rightarrow> bool" where
  "grid_adjacent w x y =
     (x div w = y div w \<and> (x mod w + 1 = y mod w \<or> y mod w + 1 = x mod w) \<or>
      x mod w = y mod w \<and> (x div w + 1 = y div w \<or> y div w + 1 = x div w))"

lemma grid_edges_elem:
  "(x, y) \<in> set (grid_edges h w) \<longleftrightarrow>
     (\<exists>i < h. \<exists>j < w. let idx = i * w + j in
        j + 1 < w \<and> (x = idx \<and> y = idx + 1 \<or> x = idx + 1 \<and> y = idx) \<or>
        i + 1 < h \<and> (x = idx \<and> y = idx + w \<or> x = idx + w \<and> y = idx))"
  unfolding grid_edges_def Let_def set_double_loop by (intro ex_cong1 conj_cong refl) auto

lemma grid_edges_iff:
  "(x, y) \<in> set (grid_edges h w) \<longleftrightarrow> x < h * w \<and> y < h * w \<and> grid_adjacent w x y"
proof
  assume "(x, y) \<in> set (grid_edges h w)"
  then obtain i j where ij: "i < h" "j < w" and
    e: "j + 1 < w \<and> (x = i * w + j \<and> y = i * w + j + 1 \<or> x = i * w + j + 1 \<and> y = i * w + j) \<or>
        i + 1 < h \<and> (x = i * w + j \<and> y = i * w + j + w \<or> x = i * w + j + w \<and> y = i * w + j)"
    by (auto simp: grid_edges_elem Let_def)
  have right: "i * w + j + 1 = i * w + (j + 1)" and down: "i * w + j + w = (i + 1) * w + j" by simp_all
  show "x < h * w \<and> y < h * w \<and> grid_adjacent w x y"
    using e ij grid_index(3) [of j w i h] grid_index(3) [of "j + 1" w i h] grid_index(3) [of j w "i + 1" h]
    unfolding right down grid_adjacent_def
    by (elim disjE conjE) (simp_all only: grid_index(1,2), simp_all)
next
  assume a: "x < h * w \<and> y < h * w \<and> grid_adjacent w x y"
  then have w: "0 < w" by (cases w) auto
  define i j i' j' where "i = x div w" and "j = x mod w" and "i' = y div w" and "j' = y mod w"
  have x: "x = i * w + j" and y: "y = i' * w + j'" by (simp_all add: i_def j_def i'_def j'_def)
  have b: "i < h" "j < w" "i' < h" "j' < w"
    using a w by (simp_all add: i_def j_def i'_def j'_def less_mult_imp_div_less)
  from a have "i = i' \<and> (j + 1 = j' \<or> j' + 1 = j) \<or> j = j' \<and> (i + 1 = i' \<or> i' + 1 = i)"
    by (auto simp: grid_adjacent_def i_def j_def i'_def j'_def)
  then consider "i = i'" "j' = j + 1" | "i = i'" "j = j' + 1" | "j = j'" "i' = i + 1" | "j = j'" "i = i' + 1"
    by auto
  then show "(x, y) \<in> set (grid_edges h w)"
  proof cases
    case 1
    show ?thesis unfolding grid_edges_elem Let_def
      by (rule exI [of _ i], rule conjI, rule b, rule exI [of _ j]) (use 1 b x y in simp)
  next
    case 2
    show ?thesis unfolding grid_edges_elem Let_def
      by (rule exI [of _ i'], rule conjI, rule b, rule exI [of _ j']) (use 2 b x y in simp)
  next
    case 3
    show ?thesis unfolding grid_edges_elem Let_def
      by (rule exI [of _ i], rule conjI, rule b, rule exI [of _ j]) (use 3 b x y in simp)
  next
    case 4
    show ?thesis unfolding grid_edges_elem Let_def
      by (rule exI [of _ i'], rule conjI, rule b, rule exI [of _ j']) (use 4 b x y in simp)
  qed
qed

definition torus_adjacent :: "nat \<Rightarrow> nat \<Rightarrow> nat \<Rightarrow> nat \<Rightarrow> bool" where
  "torus_adjacent h w x y =
     (x div w = y div w \<and> ((x mod w + 1) mod w = y mod w \<or> (y mod w + 1) mod w = x mod w) \<or>
      x mod w = y mod w \<and> ((x div w + 1) mod h = y div w \<or> (y div w + 1) mod h = x div w))"

lemma torus_edges_elem:
  "(x, y) \<in> set (torus_edges h w) \<longleftrightarrow>
     (\<exists>i < h. \<exists>j < w. let idx = i * w + j; r = i * w + ((j + 1) mod w); d = ((i + 1) mod h) * w + j in
        (x = idx \<and> y = r \<or> x = r \<and> y = idx) \<or> (x = idx \<and> y = d \<or> x = d \<and> y = idx))"
  unfolding torus_edges_def Let_def set_double_loop by (intro ex_cong1 conj_cong refl) auto

lemma torus_edges_iff:
  "(x, y) \<in> set (torus_edges h w) \<longleftrightarrow> x < h * w \<and> y < h * w \<and> torus_adjacent h w x y"
proof
  assume "(x, y) \<in> set (torus_edges h w)"
  then obtain i j where ij: "i < h" "j < w" and
    e: "(x = i * w + j \<and> y = i * w + ((j + 1) mod w) \<or> x = i * w + ((j + 1) mod w) \<and> y = i * w + j) \<or>
        (x = i * w + j \<and> y = ((i + 1) mod h) * w + j \<or> x = ((i + 1) mod h) * w + j \<and> y = i * w + j)"
    by (auto simp: torus_edges_elem Let_def)
  have m: "(j + 1) mod w < w" "(i + 1) mod h < h" using ij by simp_all
  show "x < h * w \<and> y < h * w \<and> torus_adjacent h w x y"
    using e ij m grid_index(3) [of j w i h] grid_index(3) [OF m(1), of i h] grid_index(3) [OF ij(2) m(2)]
    unfolding torus_adjacent_def
    by (elim disjE conjE) (simp_all only: grid_index(1,2), simp_all)
next
  assume a: "x < h * w \<and> y < h * w \<and> torus_adjacent h w x y"
  then have w: "0 < w" by (cases w) auto
  define i j i' j' where "i = x div w" and "j = x mod w" and "i' = y div w" and "j' = y mod w"
  have x: "x = i * w + j" and y: "y = i' * w + j'" by (simp_all add: i_def j_def i'_def j'_def)
  have b: "i < h" "j < w" "i' < h" "j' < w"
    using a w by (simp_all add: i_def j_def i'_def j'_def less_mult_imp_div_less)
  have wit: "(x, y) \<in> set (torus_edges h w)" if "p < h" "q < w"
    "(x = p * w + q \<and> y = p * w + ((q + 1) mod w) \<or> x = p * w + ((q + 1) mod w) \<and> y = p * w + q) \<or>
     (x = p * w + q \<and> y = ((p + 1) mod h) * w + q \<or> x = ((p + 1) mod h) * w + q \<and> y = p * w + q)" for p q
    unfolding torus_edges_elem Let_def using that by blast
  from a have "i = i' \<and> ((j + 1) mod w = j' \<or> (j' + 1) mod w = j) \<or>
      j = j' \<and> ((i + 1) mod h = i' \<or> (i' + 1) mod h = i)"
    by (auto simp: torus_adjacent_def i_def j_def i'_def j'_def)
  then show "(x, y) \<in> set (torus_edges h w)"
    using wit [of i j] wit [of i' j'] b x y by blast
qed

subsection \<open>The neighbours that the edges give\<close>

text \<open>What a peer is, apart from its neighbours and channel maps.\<close>

definition node_ids :: "'p node list \<Rightarrow> (interfaceId \<times> interfaceId) list" where
  "node_ids ps = map (\<lambda>p. (publicId p, internalId p)) ps"

lemma node_ids_nth:
  assumes "node_ids ps = node_ids qs" and "k < length qs"
  shows "publicId (ps ! k) = publicId (qs ! k)" "internalId (ps ! k) = internalId (qs ! k)"
    "length ps = length qs"
proof -
  show len: "length ps = length qs" using assms(1) unfolding node_ids_def by (rule map_eq_imp_length_eq)
  have "node_ids ps ! k = node_ids qs ! k" using assms(1) by simp
  then show "publicId (ps ! k) = publicId (qs ! k)" "internalId (ps ! k) = internalId (qs ! k)"
    using len assms(2) by (simp_all add: node_ids_def)
qed

definition edge_targets :: "(nat \<times> nat) list \<Rightarrow> (nat \<Rightarrow> interfaceId) \<Rightarrow> nat \<Rightarrow> interfaceId set" where
  "edge_targets es ident k = {ident j |j. (k, j) \<in> set es}"

lemma add_edges_neighbours:
  assumes "add_edges es ps = Some qs"
  shows "node_ids qs = node_ids ps \<and> (\<forall>e \<in> set es. fst e < length ps \<and> snd e < length ps) \<and>
    (\<forall>k < length ps. nbrs (qs ! k) = nbrs (ps ! k) \<union> edge_targets es (\<lambda>j. internalId (ps ! j)) k)"
  using assms
proof (induction es arbitrary: ps)
  case Nil
  then show ?case by (simp add: add_edges_def edge_targets_def)
next
  case (Cons e es)
  obtain i j where e: "e = (i, j)" by fastforce
  from Cons.prems e have ij: "i < length ps" "j < length ps"
    and rest: "add_edges es (ps[i := nd_addNeighbor (internalId (ps ! j)) (ps ! i)]) = Some qs"
    by (auto simp: add_edges_def add_edge_def monad split: if_splits)
  let ?ps = "ps[i := nd_addNeighbor (internalId (ps ! j)) (ps ! i)]"
  have ids: "node_ids ?ps = node_ids ps"
    using ij by (simp add: node_ids_def map_update nd_addNeighbor_def addNeighbor_def)
       (metis (no_types, lifting) length_map list_update_id nth_map)
  have nb: "nbrs (?ps ! k) = nbrs (ps ! k) \<union> (if k = i then {internalId (ps ! j)} else {})" if "k < length ps" for k
    using that ij by (simp add: nth_list_update nd_addNeighbor_def addNeighbor_def set_insort_insert)
  have same: "internalId (?ps ! k) = internalId (ps ! k)" for k
    using ij by (cases "k = i") (simp_all add: nd_addNeighbor_def addNeighbor_def)
  from Cons.IH [OF rest] show ?case
    using ids nb ij unfolding edge_targets_def same by (auto simp: e)
qed

lemma make_peers_snoc:
  "make_peers reg t (Suc n) nw = do {
     nw \<leftarrow> make_peers reg t n nw;
     (peer, counter) \<leftarrow> makePeer reg t (int n) (nw_counter nw);
     Some (nw\<lparr>nw_peers := nw_peers nw @ [peer], nw_counter := counter\<rparr>) }"
  by (simp add: make_peers_def foldM_append cong: Option.bind_cong)

text \<open>The peers that \<open>make_peers\<close> creates: peer \<open>k\<close> has public and internal identifier \<open>k\<close>.\<close>

definition fresh_peers :: "nat \<Rightarrow> 'p node list \<Rightarrow> bool" where
  "fresh_peers n ps = (length ps = n \<and>
     (\<forall>k < n. \<exists>st. ps ! k = \<lparr>nd_iface = new_iface (int k) (int k), nd_crashRecoveryRound = 0, nd_state = st\<rparr>))"

lemma make_peers_fresh:
  assumes "make_peers reg t n nw = Some nw'" and "nw_peers nw = []" and "nw_counter nw = NO_PEER_ID"
  shows "fresh_peers n (nw_peers nw') \<and> nw_counter nw' = int n - 1 \<and>
    nw' = nw\<lparr>nw_peers := nw_peers nw', nw_counter := int n - 1\<rparr>"
  using assms(1)
proof (induction n arbitrary: nw')
  case 0
  then show ?case using assms(2,3) by (simp add: make_peers_def fresh_peers_def NO_PEER_ID_def)
next
  case (Suc n)
  from Suc.prems obtain nw1 factory where 1: "make_peers reg t n nw = Some nw1"
    and nw': "nw' = nw1\<lparr>nw_peers := nw_peers nw1 @ [\<lparr>nd_iface = new_iface (int n) (nw_counter nw1 + 1),
        nd_crashRecoveryRound = 0, nd_state = factory (int n)\<rparr>], nw_counter := nw_counter nw1 + 1\<rparr>"
    by (auto simp: make_peers_snoc makePeer_def monad split: option.splits)
  from Suc.IH [OF 1] have f: "fresh_peers n (nw_peers nw1)" and c: "nw_counter nw1 = int n - 1"
    and fr: "nw1 = nw\<lparr>nw_peers := nw_peers nw1, nw_counter := int n - 1\<rparr>" by blast+
  have "fresh_peers (Suc n) (nw_peers nw')"
    using f c by (auto simp: nw' fresh_peers_def nth_append less_Suc_eq)
  moreover have "nw' = nw\<lparr>nw_peers := nw_peers nw', nw_counter := int (Suc n) - 1\<rparr>"
    using c by (simp add: nw') (subst fr, simp)
  ultimately show ?case using c by (simp add: nw')
qed

lemma fresh_peers_nth:
  assumes "fresh_peers n ps" and "k < n"
  shows "publicId (ps ! k) = int k" "internalId (ps ! k) = int k" "if_neighbors (nd_iface (ps ! k)) = []"
    "if_inBoundChannels (nd_iface (ps ! k)) = []" "if_outBoundChannels (nd_iface (ps ! k)) = []"
    "if_inStream (nd_iface (ps ! k)) = []"
  using assms by (auto simp: fresh_peers_def new_iface_def)

subsection \<open>The adjacency of each topology\<close>

definition adjacent :: "string \<Rightarrow> nat \<Rightarrow> nat \<Rightarrow> nat \<Rightarrow> nat \<Rightarrow> nat \<Rightarrow> bool" where
  "adjacent t n h w i j =
     (if t = ''complete'' then i < n \<and> j < n \<and> i \<noteq> j
      else if t = ''star'' then i < n \<and> j < n \<and> (i = 0) \<noteq> (j = 0)
      else if t = ''grid'' then i < h * w \<and> j < h * w \<and> grid_adjacent w i j
      else if t = ''torus'' then i < h * w \<and> j < h * w \<and> torus_adjacent h w i j
      else if t = ''chain'' then i < n \<and> j < n \<and> (j = i + 1 \<or> i = j + 1)
      else if t = ''ring'' then i < n \<and> j < n \<and> i \<noteq> j \<and> (j = (i + 1) mod n \<or> i = (j + 1) mod n)
      else if t = ''unidirectionalRing'' then i < n \<and> j < n \<and> i \<noteq> j \<and> j = (i + 1) mod n
      else False)"

lemmas edges_iff = fullyConnect_edges_iff star_edges_iff grid_edges_iff torus_edges_iff chain_edges_iff
  ring_edges_iff unidirectionalRing_edges_iff

text \<open>The edges of a topology by its name, in the order of the builder's calls.\<close>

definition topology_edges :: "string \<Rightarrow> nat \<Rightarrow> nat \<Rightarrow> nat \<Rightarrow> (nat \<times> nat) list" where
  "topology_edges t n h w =
     (if t = ''complete'' then fullyConnect_edges n
      else if t = ''star'' then star_edges n
      else if t = ''grid'' then grid_edges h w
      else if t = ''torus'' then torus_edges h w
      else if t = ''chain'' then chain_edges n
      else if t = ''ring'' then ring_edges n
      else if t = ''unidirectionalRing'' then unidirectionalRing_edges n
      else [])"

lemma topology_edges_iff: "(i, j) \<in> set (topology_edges t n h w) \<longleftrightarrow> adjacent t n h w i j"
  unfolding topology_edges_def adjacent_def
  by (simp only: if_distrib [of "\<lambda>es. (i, j) \<in> set es"] edges_iff list.set empty_iff)

lemma build_topology_edges:
  assumes "value_string topo ''type'' [] = Some t" and "t \<noteq> ''userList''"
    and "value_int topo ''height'' 1 = Some h" and "value_int topo ''width'' 1 = Some w"
  shows "build_topology topo n ps = add_edges (topology_edges t n (nat h) (nat w)) ps"
proof -
  have nil: "add_edges [] ps = Some ps" by (simp add: add_edges_def)
  show ?thesis
    unfolding build_topology_def topology_edges_def assms(1,3,4)
    by (simp only: if_distrib [of "\<lambda>es. add_edges es ps"] Option.bind.simps nil assms(2) if_False)
qed

text \<open>Every topology but the unidirectional ring links both ways.\<close>

lemma adjacent_sym:
  assumes "t \<noteq> ''unidirectionalRing''"
  shows "adjacent t n h w i j = adjacent t n h w j i"
  unfolding adjacent_def simp_thms if_not_P [OF assms]
  by (intro if_cong refl) (auto simp: grid_adjacent_def torus_adjacent_def)

lemma adjacent_irrefl:
  assumes "t \<noteq> ''torus''"
  shows "\<not> adjacent t n h w i i"
proof -
  have "adjacent t n h w i i = False"
    unfolding adjacent_def simp_thms if_not_P [OF assms]
    by (simp only: grid_adjacent_def) simp
  then show ?thesis by simp
qed

end
