(* ===== verification/NetWiring.thy ===== *)
theory NetWiring
  imports NetTopology
begin

text \<open>
  The channels that \<open>createInitialChannels\<close> (src/quantas/Common/Abstract/Network.cpp) makes, and what
  they give the round: which peer sends on and which peer receives from each channel, that the phases
  of distinct peers touch distinct channels, and that a message to a neighbour is put on the channel
  the neighbour reads.
\<close>

subsection \<open>Loops that extend a trace\<close>

lemma foldM_trace:
  assumes run: "foldM f xs s = Some s'" and init: "I es s"
    and step: "\<And>x es s s'. x \<in> set xs \<Longrightarrow> I es s \<Longrightarrow> f x s = Some s' \<Longrightarrow> I (es @ h x) s'"
  shows "I (es @ concat (map h xs)) s'"
  using assms
proof (induction xs arbitrary: es s)
  case (Cons x xs)
  from Cons.prems(1) obtain t where t: "f x s = Some t" "foldM f xs t = Some s'"
    by (auto simp: monad)
  have "I (es @ h x) t" using Cons.prems(2,3) t(1) by (meson list.set_intros(1))
  from Cons.IH [OF t(2) this] Cons.prems(3) show ?case by fastforce
qed simp

subsection \<open>The wiring\<close>

text \<open>
  \<open>wiring es base nw\<close>: the channels of the network are those of the pairs \<open>es\<close> of sender and receiver
  positions, channel \<open>r\<close> for the pair \<open>es ! r\<close>; the outbound map of a peer holds the channels it sends
  on under the receivers' public identifiers, its inbound map the channels it receives from under the
  senders'. \<open>base\<close> are the peers before the channels were made.
\<close>

definition channel_joins :: "channel \<Rightarrow> 'p node \<Rightarrow> 'p node \<Rightarrow> bool" where
  "channel_joins ch src tgt = (ch_sourceId ch = publicId src \<and> ch_sourceInternalId ch = internalId src \<and>
     ch_targetId ch = publicId tgt \<and> ch_targetInternalId ch = internalId tgt \<and> ch_packetQueue ch = [])"

definition wired_peer :: "(nat \<times> nat) list \<Rightarrow> 'p node list \<Rightarrow> nat \<Rightarrow> 'p node \<Rightarrow> bool" where
  "wired_peer es base k p = (
     p = (base ! k)\<lparr>nd_iface := (nd_iface (base ! k))\<lparr>if_inBoundChannels := if_inBoundChannels (nd_iface p),
           if_outBoundChannels := if_outBoundChannels (nd_iface p)\<rparr>\<rparr> \<and>
     distinct (if_outBoundChannels (nd_iface p)) \<and> distinct (if_inBoundChannels (nd_iface p)) \<and>
     set (if_outBoundChannels (nd_iface p)) = {(publicId (base ! j), r) |j r. r < length es \<and> es ! r = (k, j)} \<and>
     set (if_inBoundChannels (nd_iface p)) = {(publicId (base ! i), r) |i r. r < length es \<and> es ! r = (i, k)})"

definition wiring :: "(nat \<times> nat) list \<Rightarrow> 'p node list \<Rightarrow> 'p network \<Rightarrow> bool" where
  "wiring es base nw = (length (nw_chans nw) = length es \<and> length (nw_peers nw) = length base \<and>
     (\<forall>k < length base. wired_peer es base k (nw_peers nw ! k)) \<and>
     (\<forall>r < length es. fst (es ! r) < length base \<and> snd (es ! r) < length base \<and>
        channel_joins (nw_chans nw ! r) (base ! fst (es ! r)) (base ! snd (es ! r))))"

lemma new_channel_fields:
  "new_channel t ti s si params lr now cache = Some (ch, cache') \<Longrightarrow>
   ch_targetId ch = t \<and> ch_targetInternalId ch = ti \<and> ch_sourceId ch = s \<and> ch_sourceInternalId ch = si \<and>
   ch_packetQueue ch = []"
  by (auto simp: new_channel_def ch_setParameters_def monad)

lemma wired_peer_fields:
  assumes "wired_peer es base k p"
  shows "publicId p = publicId (base ! k)" "internalId p = internalId (base ! k)"
    "if_neighbors (nd_iface p) = if_neighbors (nd_iface (base ! k))"
    "if_inStream (nd_iface p) = if_inStream (nd_iface (base ! k))"
proof -
  obtain ib ob where p: "p = (base ! k)\<lparr>nd_iface := (nd_iface (base ! k))\<lparr>if_inBoundChannels := ib, if_outBoundChannels := ob\<rparr>\<rparr>"
    using assms unfolding wired_peer_def by metis
  show "publicId p = publicId (base ! k)" "internalId p = internalId (base ! k)"
    "if_neighbors (nd_iface p) = if_neighbors (nd_iface (base ! k))"
    "if_inStream (nd_iface p) = if_inStream (nd_iface (base ! k))" by (simp_all add: p)
qed

lemma wired_peer_channels:
  assumes "wired_peer es base k p"
  shows "(d, r) \<in> set (if_outBoundChannels (nd_iface p)) \<longleftrightarrow>
       r < length es \<and> fst (es ! r) = k \<and> d = publicId (base ! snd (es ! r))"
    and "(d, r) \<in> set (if_inBoundChannels (nd_iface p)) \<longleftrightarrow>
       r < length es \<and> snd (es ! r) = k \<and> d = publicId (base ! fst (es ! r))"
  using assms unfolding wired_peer_def by (cases "es ! r", fastforce)+

lemma create_channel_Some:
  assumes "create_channel lr now k nbr nw = Some nw'"
  shows "\<exists>ch cache. k < length (nw_peers nw) \<and> 0 \<le> nbr \<and> nat nbr < length (nw_peers nw) \<and>
     channel_joins ch (nw_peers nw ! k) (nw_peers nw ! nat nbr) \<and>
     nw_chans nw' = nw_chans nw @ [ch] \<and> length (nw_peers nw') = length (nw_peers nw) \<and>
     (\<forall>q < length (nw_peers nw). nw_peers nw' ! q =
        (let i = nd_iface (nw_peers nw ! q);
             i = (if q = nat nbr then addInboundChannel (publicId (nw_peers nw ! k)) (length (nw_chans nw)) i else i);
             i = (if q = k then addOutboundChannel (publicId (nw_peers nw ! nat nbr)) (length (nw_chans nw)) i else i)
         in (nw_peers nw ! q)\<lparr>nd_iface := i\<rparr>))"
proof -
  from assms obtain ch cache where g: "k < length (nw_peers nw)" "0 \<le> nbr" "nat nbr < length (nw_peers nw)"
    and new: "new_channel (publicId (nw_peers nw ! nat nbr)) (internalId (nw_peers nw ! nat nbr))
        (publicId (nw_peers nw ! k)) (internalId (nw_peers nw ! k)) (nw_distribution nw) lr now (nw_cache nw) = Some (ch, cache)"
    and nw': "nw' = (let ps = nw_peers nw; r = length (nw_chans nw);
        ps1 = ps[nat nbr := (ps ! nat nbr)\<lparr>nd_iface := addInboundChannel (publicId (ps ! k)) r (nd_iface (ps ! nat nbr))\<rparr>];
        ps2 = ps1[k := (ps1 ! k)\<lparr>nd_iface := addOutboundChannel (publicId (ps ! nat nbr)) r (nd_iface (ps1 ! k))\<rparr>]
        in nw\<lparr>nw_peers := ps2, nw_chans := nw_chans nw @ [ch], nw_cache := cache\<rparr>)"
    by (auto simp: create_channel_def monad Let_def split: if_splits)
  have "channel_joins ch (nw_peers nw ! k) (nw_peers nw ! nat nbr)"
    using new_channel_fields [OF new] by (simp add: channel_joins_def)
  then show ?thesis using g by (intro exI [of _ ch]) (auto simp: nw' Let_def nth_list_update)
qed

lemma wired_peer_snoc:
  assumes w: "wired_peer es base q p" and r: "r = length es"
    and i: "i' = (if q = nat nbr then addInboundChannel (publicId (base ! k)) r (nd_iface p) else nd_iface p)"
    and j: "i'' = (if q = k then addOutboundChannel (publicId (base ! nat nbr)) r i' else i')"
  shows "wired_peer (es @ [(k, nat nbr)]) base q (p\<lparr>nd_iface := i''\<rparr>)"
proof -
  have io: "set (if_outBoundChannels i'') =
      (if q = k then {(publicId (base ! nat nbr), r)} else {}) \<union> set (if_outBoundChannels (nd_iface p))"
    and ii: "set (if_inBoundChannels i'') =
      (if q = nat nbr then {(publicId (base ! k), r)} else {}) \<union> set (if_inBoundChannels (nd_iface p))"
    by (auto simp: i j addInboundChannel_def addOutboundChannel_def)
  obtain ib ob where p: "p = (base ! q)\<lparr>nd_iface := (nd_iface (base ! q))\<lparr>if_inBoundChannels := ib, if_outBoundChannels := ob\<rparr>\<rparr>"
    using w unfolding wired_peer_def by blast
  have "i'' = (nd_iface p)\<lparr>if_inBoundChannels := if_inBoundChannels i'', if_outBoundChannels := if_outBoundChannels i''\<rparr>"
    by (simp add: i j addInboundChannel_def addOutboundChannel_def)
  then obtain ib' ob' where i'': "i'' = (nd_iface p)\<lparr>if_inBoundChannels := ib', if_outBoundChannels := ob'\<rparr>" by blast
  have p': "p\<lparr>nd_iface := i''\<rparr> = (base ! q)\<lparr>nd_iface := (nd_iface (base ! q))\<lparr>if_inBoundChannels := if_inBoundChannels i'',
      if_outBoundChannels := if_outBoundChannels i''\<rparr>\<rparr>"
    by (simp add: i'' p)
  have dist: "distinct (if_outBoundChannels (nd_iface p))" "distinct (if_inBoundChannels (nd_iface p))"
    using w unfolding wired_peer_def by blast+
  have so: "set (if_outBoundChannels (nd_iface p)) = {(publicId (base ! j), r) |j r. r < length es \<and> es ! r = (q, j)}"
    and si: "set (if_inBoundChannels (nd_iface p)) = {(publicId (base ! i), r) |i r. r < length es \<and> es ! r = (i, q)}"
    using w unfolding wired_peer_def by blast+
  have "set (if_outBoundChannels i'') =
      {(publicId (base ! j), r) |j r. r < length (es @ [(k, nat nbr)]) \<and> (es @ [(k, nat nbr)]) ! r = (q, j)}"
    unfolding io so by (auto simp: r nth_append less_Suc_eq conj_disj_distribR ex_disj_distrib cong: conj_cong)
  moreover have "set (if_inBoundChannels i'') =
      {(publicId (base ! i), r) |i r. r < length (es @ [(k, nat nbr)]) \<and> (es @ [(k, nat nbr)]) ! r = (i, q)}"
    unfolding ii si by (auto simp: r nth_append less_Suc_eq conj_disj_distribR ex_disj_distrib cong: conj_cong)
  moreover have "distinct (if_outBoundChannels i'')" "distinct (if_inBoundChannels i'')"
    using dist so si by (auto simp: i j r addInboundChannel_def addOutboundChannel_def)
  ultimately show ?thesis
    unfolding wired_peer_def node.select_convs node.update_convs using p' by simp
qed

lemma wiring_step:
  assumes w: "wiring es base nw" and run: "create_channel lr now k nbr nw = Some nw'"
  shows "wiring (es @ [(k, nat nbr)]) base nw' \<and> 0 \<le> nbr"
proof -
  from w have len: "length (nw_chans nw) = length es" "length (nw_peers nw) = length base"
    and p: "\<And>q. q < length base \<Longrightarrow> wired_peer es base q (nw_peers nw ! q)"
    and c: "\<And>r. r < length es \<Longrightarrow> fst (es ! r) < length base \<and> snd (es ! r) < length base \<and>
        channel_joins (nw_chans nw ! r) (base ! fst (es ! r)) (base ! snd (es ! r))"
    by (simp_all add: wiring_def)
  from create_channel_Some [OF run] obtain ch where
    k: "k < length base" "0 \<le> nbr" "nat nbr < length base"
    and ch: "channel_joins ch (nw_peers nw ! k) (nw_peers nw ! nat nbr)"
    and chs: "nw_chans nw' = nw_chans nw @ [ch]" and len': "length (nw_peers nw') = length base"
    and ps: "\<And>q. q < length base \<Longrightarrow> nw_peers nw' ! q =
        (let i = nd_iface (nw_peers nw ! q);
             i = (if q = nat nbr then addInboundChannel (publicId (nw_peers nw ! k)) (length (nw_chans nw)) i else i);
             i = (if q = k then addOutboundChannel (publicId (nw_peers nw ! nat nbr)) (length (nw_chans nw)) i else i)
         in (nw_peers nw ! q)\<lparr>nd_iface := i\<rparr>)"
    by (auto simp: len)
  note ids = wired_peer_fields(1,2) [OF p]
  have "wired_peer (es @ [(k, nat nbr)]) base q (nw_peers nw' ! q)" if "q < length base" for q
    unfolding ps [OF that] Let_def ids(1) [OF k(1)] ids(1) [OF k(3)]
    by (rule wired_peer_snoc [OF p [OF that] len(1)]) (rule refl)+
  moreover have "channel_joins ch (base ! k) (base ! nat nbr)"
    using ch ids [OF k(1)] ids [OF k(3)] by (simp add: channel_joins_def)
  ultimately show ?thesis
    using c k by (simp add: wiring_def chs len len' nth_append less_Suc_eq)
qed

text \<open>The pairs for which \<open>createInitialChannels\<close> makes a channel, in the order of its loops.\<close>

definition channel_pairs :: "'p node list \<Rightarrow> (nat \<times> nat) list" where
  "channel_pairs ps = concat (map (\<lambda>k. map (\<lambda>nbr. (k, nat nbr)) (if_neighbors (nd_iface (ps ! k)))) [0..<length ps])"

definition unwired :: "'p node list \<Rightarrow> bool" where
  "unwired ps = (\<forall>p \<in> set ps. if_inBoundChannels (nd_iface p) = [] \<and> if_outBoundChannels (nd_iface p) = [])"

lemma createInitialChannels_wiring:
  assumes run: "createInitialChannels lr now nw = Some nw'" and u: "unwired (nw_peers nw)" and c: "nw_chans nw = []"
  shows "wiring (channel_pairs (nw_peers nw)) (nw_peers nw) nw' \<and>
    (\<forall>p \<in> set (nw_peers nw). \<forall>d \<in> nbrs p. 0 \<le> d)"
proof -
  let ?base = "nw_peers nw"
  let ?N = "\<lambda>k. if_neighbors (nd_iface (?base ! k))"
  define I where "I = (\<lambda>(es :: (int \<times> nat \<times> nat) list) nw. wiring (map snd es) ?base nw \<and> (\<forall>e \<in> set es. 0 \<le> fst e))"
  have step: "I (es @ map (\<lambda>d. (d, k, nat d)) ds) s'"
    if "foldM (create_channel lr now k) ds s = Some s'" "I es s" for k ds es s s'
  proof -
    have "I (es @ concat (map (\<lambda>d. [(d, k, nat d)]) ds)) s'"
      by (rule foldM_trace [where I = I, OF that]) (auto simp: I_def dest: wiring_step)
    then show ?thesis by (simp add: concat_map_singleton)
  qed
  have init: "I [] nw"
    using u c by (auto simp: I_def wiring_def wired_peer_def unwired_def)
  have "I ([] @ concat (map (\<lambda>k. map (\<lambda>d. (d, k, nat d)) (?N k)) [0..<length ?base])) nw'"
  proof (rule foldM_trace [where I = I, OF run [unfolded createInitialChannels_def] init])
    fix k es s s' assume k: "k \<in> set [0..<length ?base]" and I: "I es s"
      and f: "foldM (create_channel lr now k) (if_neighbors (nd_iface (nw_peers s ! k))) s = Some s'"
    have "if_neighbors (nd_iface (nw_peers s ! k)) = ?N k"
      using I k by (intro wired_peer_fields(3)) (auto simp: I_def wiring_def)
    with step [OF f I] show "I (es @ map (\<lambda>d. (d, k, nat d)) (?N k)) s'" by simp
  qed
  then have w: "wiring (map snd (concat (map (\<lambda>k. map (\<lambda>d. (d, k, nat d)) (?N k)) [0..<length ?base]))) ?base nw'"
    and pos: "\<forall>k < length ?base. \<forall>d \<in> set (?N k). 0 \<le> d"
    by (auto simp: I_def)
  have "map snd (concat (map (\<lambda>k. map (\<lambda>d. (d, k, nat d)) (?N k)) [0..<length ?base])) = channel_pairs ?base"
    by (simp add: channel_pairs_def map_concat comp_def)
  with w pos show ?thesis by (metis in_set_conv_nth)
qed

subsection \<open>The initial network\<close>

lemma distinct_concat_pairs:
  "distinct ks \<Longrightarrow> \<forall>k \<in> set ks. distinct (f k) \<Longrightarrow> distinct (concat (map (\<lambda>k. map (Pair k) (f k)) ks))"
  by (induction ks) (auto simp: distinct_map inj_on_def)

lemma distinct_channel_pairs:
  assumes pos: "\<forall>p \<in> set ps. \<forall>d \<in> nbrs p. 0 \<le> d"
    and dist: "\<forall>p \<in> set ps. distinct (if_neighbors (nd_iface p))"
  shows "distinct (channel_pairs ps)"
proof -
  have "distinct (map nat (if_neighbors (nd_iface (ps ! k))))" if "k < length ps" for k
  proof -
    have "\<forall>d \<in> nbrs (ps ! k). 0 \<le> d" using pos that nth_mem by blast
    then have "inj_on nat (nbrs (ps ! k))" by (metis eq_nat_nat_iff inj_onI)
    then show ?thesis using dist that by (simp add: distinct_map)
  qed
  then have "distinct (concat (map (\<lambda>k. map (Pair k) (map nat (if_neighbors (nd_iface (ps ! k))))) [0..<length ps]))"
    by (intro distinct_concat_pairs) auto
  then show ?thesis by (simp add: channel_pairs_def comp_def)
qed

lemma channel_pairs_iff:
  assumes "\<forall>p \<in> set ps. \<forall>d \<in> nbrs p. 0 \<le> d"
  shows "(i, j) \<in> set (channel_pairs ps) \<longleftrightarrow> i < length ps \<and> int j \<in> nbrs (ps ! i)"
  using assms by (force simp: channel_pairs_def)

text \<open>The peers that \<open>initNetwork\<close> hands to \<open>createInitialChannels\<close>.\<close>

definition start_peers :: "'p registry \<Rightarrow> json \<Rightarrow> rng \<Rightarrow> 'p network \<Rightarrow> 'p node list option" where
  "start_peers reg topology g nw = do {
     let nw = (clearExisting nw)\<lparr>nw_counter := NO_PEER_ID\<rparr>;
     initialPeers \<leftarrow> value_int topology ''initialPeers'' 0;
     peerType \<leftarrow> value_string topology ''initialPeerType'' [];
     nw \<leftarrow> make_peers reg peerType (nat initialPeers) nw;
     identifiers \<leftarrow> value_string topology ''identifiers'' [];
     build_topology topology (nat initialPeers)
       (if identifiers = ''random'' then fst (shuffle (nw_peers nw) g) else nw_peers nw) }"

lemma add_neighbours_frame:
  assumes "foldM f xs ps = Some qs" and "P ps"
    and "\<And>x ps qs. f x ps = Some qs \<Longrightarrow> \<exists>i d. qs = ps[i := nd_addNeighbor d (ps ! i)]"
    and "\<And>ps i d. P ps \<Longrightarrow> P (ps[i := nd_addNeighbor d (ps ! i)])"
  shows "P qs"
  by (rule foldM_invariant [of f xs ps qs P, OF assms(1,2)]) (use assms(3,4) in blast)

lemma build_topology_frame:
  assumes run: "build_topology topo n ps = Some qs" and init: "P ps"
    and step: "\<And>ps i d. P ps \<Longrightarrow> P (ps[i := nd_addNeighbor d (ps ! i)])"
  shows "P qs"
proof -
  have edges: "P qs" if "add_edges es ps = Some qs" for es
    by (rule add_neighbours_frame [OF that [unfolded add_edges_def] init _ step])
      (auto simp: add_edge_def split: if_splits prod.splits)
  have user: "P qs" if "userList topo ps = Some qs"
  proof -
    have inner: "P q2" if "userList_peer lst i q1 = Some q2" "P q1" for lst i q1 q2
    proof (cases "jfind (to_string i) lst")
      case (Some dests)
      from that(1) have "foldM (\<lambda>dest ps. do { d \<leftarrow> get_id dest;
           if i < length ps then Some (ps[i := nd_addNeighbor d (ps ! i)]) else None }) (jelems dests) q1 = Some q2"
        by (simp add: userList_peer_def Some)
      then show ?thesis by (rule add_neighbours_frame [OF _ that(2) _ step])
        (auto simp: monad split: if_splits)
    qed (use that in \<open>simp add: userList_peer_def\<close>)
    from \<open>userList topo ps = Some qs\<close> consider "qs = ps"
      | lst m where "foldM (userList_peer lst) [0..<nat m] ps = Some qs"
      by (auto simp: userList_def monad split: if_splits)
    then show ?thesis
    proof cases
      case 2
      then show ?thesis by (rule foldM_invariant) (rule init, erule inner [rotated])
    qed (use init in simp)
  qed
  from run obtain t where "(if t = ''complete'' then add_edges (fullyConnect_edges n) ps
     else if t = ''star'' then add_edges (star_edges n) ps
     else if t = ''grid'' then do {
       h \<leftarrow> value_int topo ''height'' 1; w \<leftarrow> value_int topo ''width'' 1;
       add_edges (grid_edges (nat h) (nat w)) ps }
     else if t = ''torus'' then do {
       h \<leftarrow> value_int topo ''height'' 1; w \<leftarrow> value_int topo ''width'' 1;
       add_edges (torus_edges (nat h) (nat w)) ps }
     else if t = ''chain'' then add_edges (chain_edges n) ps
     else if t = ''ring'' then add_edges (ring_edges n) ps
     else if t = ''unidirectionalRing'' then add_edges (unidirectionalRing_edges n) ps
     else if t = ''userList'' then userList topo ps
     else Some ps) = Some qs"
    unfolding build_topology_def by (auto simp: monad simp del: if_split)
  then have "(\<exists>es. add_edges es ps = Some qs) \<or> userList topo ps = Some qs \<or> ps = qs"
    by (elim if_SomeE) (auto simp: monad)
  then show ?thesis using edges user init by blast
qed

text \<open>The invariant of the topology builders: identifiers and channel maps stay, neighbour sets stay sets.\<close>

definition plain_peers :: "'p node list \<Rightarrow> bool" where
  "plain_peers ps = (\<forall>p \<in> set ps. if_inBoundChannels (nd_iface p) = [] \<and> if_outBoundChannels (nd_iface p) = [] \<and>
     wf_idset (if_neighbors (nd_iface p)) \<and> publicId p = internalId p)"

lemma plain_peers_step: "plain_peers ps \<Longrightarrow> plain_peers (ps[i := nd_addNeighbor d (ps ! i)])"
proof (cases "i < length ps")
  assume "i < length ps" "plain_peers ps"
  then show ?thesis
    by (auto simp: plain_peers_def nd_addNeighbor_def addNeighbor_def intro!: wf_idset_insert nth_mem
        dest!: set_update_subset_insert [THEN subsetD])
qed (simp add: list_update_beyond)

lemma fresh_peers_plain: "fresh_peers n ps \<Longrightarrow> plain_peers ps"
  using fresh_peers_nth [of n ps] by (auto simp: plain_peers_def in_set_conv_nth fresh_peers_def)

lemma start_peers_plain:
  assumes "start_peers reg topo g nw = Some ps"
  shows "plain_peers ps"
proof -
  from assms obtain n t nw1 ids where m: "make_peers reg t n ((clearExisting nw)\<lparr>nw_counter := NO_PEER_ID\<rparr>) = Some nw1"
    and b: "build_topology topo n (if ids = ''random'' then fst (shuffle (nw_peers nw1) g) else nw_peers nw1) = Some ps"
    by (auto simp: start_peers_def monad simp del: if_split)
  have "plain_peers (nw_peers nw1)"
    using make_peers_fresh [OF m] fresh_peers_plain by (auto simp: clearExisting_def)
  then have "plain_peers (if ids = ''random'' then fst (shuffle (nw_peers nw1) g) else nw_peers nw1)"
    by (simp add: plain_peers_def)
  from build_topology_frame [OF b this plain_peers_step] show ?thesis .
qed

lemma initNetwork_wiring:
  assumes "initNetwork reg lr now topo g nw = Some (nw', g')"
  shows "\<exists>ps. start_peers reg topo g nw = Some ps \<and> plain_peers ps \<and>
    wiring (channel_pairs ps) ps nw' \<and> distinct (channel_pairs ps) \<and> (\<forall>p \<in> set ps. \<forall>d \<in> nbrs p. 0 \<le> d)"
proof -
  from assms obtain y t nw1 ids where v: "value_int topo ''initialPeers'' 0 = Some y"
      "value_string topo ''initialPeerType'' [] = Some t" "value_string topo ''identifiers'' [] = Some ids"
    and m: "make_peers reg t (nat y) ((clearExisting nw)\<lparr>nw_counter := NO_PEER_ID\<rparr>) = Some nw1"
    and r: "(case (if ids = ''random'' then shuffle (nw_peers nw1) g else (nw_peers nw1, g)) of (ps, g) \<Rightarrow> do {
        ps \<leftarrow> build_topology topo (nat y) ps;
        nw \<leftarrow> createInitialChannels lr now (nw1\<lparr>nw_peers := ps\<rparr>);
        Some (nw, g) }) = Some (nw', g')"
    unfolding initNetwork_def Let_def bind_eq_Some_conv by blast
  from r obtain ps where
    b: "build_topology topo (nat y) (if ids = ''random'' then fst (shuffle (nw_peers nw1) g) else nw_peers nw1) = Some ps"
    and c: "createInitialChannels lr now (nw1\<lparr>nw_peers := ps\<rparr>) = Some nw'"
    by (cases "ids = ''random''") (auto simp: monad split: prod.splits)
  have s: "start_peers reg topo g nw = Some ps" by (simp only: start_peers_def Let_def v m b Option.bind.simps)
  have "nw1 = (clearExisting nw)\<lparr>nw_counter := NO_PEER_ID, nw_peers := nw_peers nw1, nw_counter := int (nat y) - 1\<rparr>"
    using make_peers_fresh [OF m] by (simp add: clearExisting_def)
  then have n: "nw_chans nw1 = []"
    by (metis clearExisting_def network.select_convs(3) network.surjective network.update_convs(1,3,5))
  note plain = start_peers_plain [OF s]
  have w: "wiring (channel_pairs ps) ps nw' \<and> (\<forall>p \<in> set ps. \<forall>d \<in> nbrs p. 0 \<le> d)"
    using createInitialChannels_wiring [OF c] plain n by (simp add: unwired_def plain_peers_def)
  then have "distinct (channel_pairs ps)"
    using plain by (intro distinct_channel_pairs) (auto simp: plain_peers_def wf_idset_def)
  with s w plain show ?thesis by blast
qed

text \<open>A registry with one peer type and a topology, for the examples below.\<close>

definition example_registry :: "unit registry" where
  "example_registry = [(''P'', \<lambda>_. ())]"

definition empty_network :: "'p network" where
  "empty_network = \<lparr>nw_peers = [], nw_distribution = JObj [], nw_chans = [], nw_cache = [], nw_counter = NO_PEER_ID\<rparr>"

definition example_topology :: "string \<Rightarrow> string \<Rightarrow> int \<Rightarrow> json" where
  "example_topology t ids n = JObj [(''identifiers'', JStr ids), (''initialPeerType'', JStr ''P''),
     (''initialPeers'', JInt n), (''type'', JStr t)]"

lemma start_peers_identity:
  assumes "start_peers reg topo g nw = Some ps"
    and "value_int topo ''initialPeers'' 0 = Some n" and "value_string topo ''identifiers'' [] = Some ids"
    and "ids \<noteq> ''random''"
    and "value_string topo ''type'' [] = Some t" and "t \<noteq> ''userList''"
    and "value_int topo ''height'' 1 = Some h" and "value_int topo ''width'' 1 = Some w"
  shows "length ps = nat n" and "\<And>k. k < nat n \<Longrightarrow> publicId (ps ! k) = int k"
    and "\<And>k. k < nat n \<Longrightarrow> nbrs (ps ! k) = {int j |j. adjacent t (nat n) (nat h) (nat w) k j}"
proof -
  from assms(1-4) obtain pt nw1 where m: "make_peers reg pt (nat n) ((clearExisting nw)\<lparr>nw_counter := NO_PEER_ID\<rparr>) = Some nw1"
    and b: "build_topology topo (nat n) (nw_peers nw1) = Some ps"
    by (auto simp: start_peers_def monad simp del: if_split)
  have f: "fresh_peers (nat n) (nw_peers nw1)" using make_peers_fresh [OF m] by (simp add: clearExisting_def)
  then have len: "length (nw_peers nw1) = nat n" by (simp add: fresh_peers_def)
  note e = add_edges_neighbours [OF b [unfolded build_topology_edges [OF assms(5-8)]]]
  have ids: "node_ids ps = node_ids (nw_peers nw1)" using e by blast
  from map_eq_imp_length_eq [OF ids [unfolded node_ids_def]] show lp: "length ps = nat n" using len by simp
  fix k assume k: "k < nat n"
  show "publicId (ps ! k) = int k" using node_ids_nth(1) [OF ids, of k] fresh_peers_nth(1) [OF f k] k len by simp
  have "j < nat n" if "adjacent t (nat n) (nat h) (nat w) k j" for j
    using e that len by (fastforce simp: topology_edges_iff [symmetric])
  then have "internalId (nw_peers nw1 ! j) = int j" if "adjacent t (nat n) (nat h) (nat w) k j" for j
    using fresh_peers_nth(2) [OF f] that by blast
  then have "edge_targets (topology_edges t (nat n) (nat h) (nat w)) (\<lambda>j. internalId (nw_peers nw1 ! j)) k =
      {int j |j. adjacent t (nat n) (nat h) (nat w) k j}"
    unfolding edge_targets_def topology_edges_iff by metis
  then show "nbrs (ps ! k) = {int j |j. adjacent t (nat n) (nat h) (nat w) k j}"
    using e k len fresh_peers_nth(3) [OF f k] by simp
qed

text \<open>
  Claim C3. The initial network has exactly the links of the configured topology: when identifiers
  are not shuffled, peer \<open>k\<close> has public identifier \<open>k\<close>, and its neighbours are the peers that the
  topology (complete, star, grid, torus, chain, ring or unidirectional ring) makes adjacent to it.
\<close>

theorem initial_adjacency:
  assumes "initNetwork reg lr now topo g nw = Some (nw', g')"
    and "value_int topo ''initialPeers'' 0 = Some n" and "value_string topo ''identifiers'' [] = Some ids"
    and "ids \<noteq> ''random''"
    and "value_string topo ''type'' [] = Some t" and "t \<noteq> ''userList''"
    and "value_int topo ''height'' 1 = Some h" and "value_int topo ''width'' 1 = Some w"
  shows "length (nw_peers nw') = nat n \<and>
    (\<forall>k < nat n. publicId (nw_peers nw' ! k) = int k \<and>
       nbrs (nw_peers nw' ! k) = {int j |j. adjacent t (nat n) (nat h) (nat w) k j})"
proof -
  from initNetwork_wiring [OF assms(1)] obtain ps where s: "start_peers reg topo g nw = Some ps"
    and w: "wiring (channel_pairs ps) ps nw'" by blast
  note id = start_peers_identity [OF s assms(2-8)]
  have "publicId (nw_peers nw' ! k) = int k \<and> nbrs (nw_peers nw' ! k) = {int j |j. adjacent t (nat n) (nat h) (nat w) k j}"
    if k: "k < nat n" for k
  proof -
    have "wired_peer (channel_pairs ps) ps k (nw_peers nw' ! k)" using w k id(1) by (simp add: wiring_def)
    from wired_peer_fields(1,3) [OF this] show ?thesis using id(2,3) [OF k] by simp
  qed
  moreover have "length (nw_peers nw') = nat n" using w id(1) by (simp add: wiring_def)
  ultimately show ?thesis by blast
qed

lemma example_value:
  "value_int (example_topology t ids n) ''initialPeers'' 0 = Some n"
  "value_string (example_topology t ids n) ''identifiers'' [] = Some ids"
  "value_string (example_topology t ids n) ''initialPeerType'' [] = Some ''P''"
  "value_string (example_topology t ids n) ''type'' [] = Some t"
  "value_int (example_topology t ids n) ''height'' 1 = Some 1"
  "value_int (example_topology t ids n) ''width'' 1 = Some 1"
  by (simp_all add: example_topology_def value_with_def)

lemmas init_eval = initNetwork_def clearExisting_def empty_network_def make_peers_def makePeer_def
  example_registry_def build_topology_def ring_edges_def chain_edges_def
  add_edges_def add_edge_def nd_addNeighbor_def addNeighbor_def new_iface_def NO_PEER_ID_def
  createInitialChannels_def create_channel_def new_channel_def ch_setParameters_def factory_create_def
  new_properties_def cp_setParameters_def cp_equal_iff addInboundChannel_def addOutboundChannel_def mm_emplace_def
  upt_rec insort_insert_key_def shuffle_def swap_def draw_def value_with_def numeral_2_eq_2

definition example_node :: "int \<Rightarrow> int \<Rightarrow> nat \<Rightarrow> nat \<Rightarrow> unit node" where
  "example_node k d ib ob = \<lparr>nd_iface = \<lparr>if_publicId = k, if_internalId = k, if_neighbors = [d],
     if_inStream = [], if_inBoundChannels = [(d, ib)], if_outBoundChannels = [(d, ob)]\<rparr>,
     nd_crashRecoveryRound = 0, nd_state = ()\<rparr>"

definition example_wire :: "int \<Rightarrow> int \<Rightarrow> channel" where
  "example_wire s t = \<lparr>ch_targetId = t, ch_targetInternalId = t, ch_sourceId = s, ch_sourceInternalId = s,
     ch_properties = cp_initial\<lparr>cp_maxMsgsRec := 1\<rparr>, ch_throughputLeft = 10, ch_packetQueue = []\<rparr>"

definition example_net :: "unit network" where
  "example_net = \<lparr>nw_peers = [example_node 0 1 1 0, example_node 1 0 0 1], nw_distribution = JObj [],
     nw_chans = [example_wire 0 1, example_wire 1 0], nw_cache = [cp_initial\<lparr>cp_maxMsgsRec := 1\<rparr>], nw_counter = 1\<rparr>"

lemma example_init:
  "initNetwork example_registry 10 0 (example_topology ''ring'' [] 2) (\<lambda>_. 0) empty_network = Some (example_net, \<lambda>_. 0)"
  by (simp add: init_eval example_topology_def example_net_def example_node_def example_wire_def cp_initial_def
      throughput_budget_def to_size_t_def to_int32_def)

theorem initial_adjacency_witness:
  "nbrs (nw_peers example_net ! 0) = {int j |j. adjacent ''ring'' 2 1 1 0 j}"
  using initial_adjacency [OF example_init example_value(1,2) _ example_value(4) _ example_value(5,6)] by simp

subsection \<open>Channels join one sender and one receiver\<close>

text \<open>The positions of the channels a peer sends on, and of those it receives from.\<close>

definition out_refs :: "'p node \<Rightarrow> nat set" where
  "out_refs p = snd ` set (if_outBoundChannels (nd_iface p))"

definition in_refs :: "'p node \<Rightarrow> nat set" where
  "in_refs p = snd ` set (if_inBoundChannels (nd_iface p))"

lemma wiring_refs:
  assumes "wiring es ps nw" and "k < length ps"
  shows "out_refs (nw_peers nw ! k) = {r. r < length es \<and> fst (es ! r) = k}"
    and "in_refs (nw_peers nw ! k) = {r. r < length es \<and> snd (es ! r) = k}"
proof -
  have "wired_peer es ps k (nw_peers nw ! k)" using assms by (simp add: wiring_def)
  note ch = wired_peer_channels [OF this]
  have snd_image: "snd ` A = {r. \<exists>d. (d, r) \<in> A}" for A :: "(int \<times> nat) set" by force
  show "out_refs (nw_peers nw ! k) = {r. r < length es \<and> fst (es ! r) = k}"
    and "in_refs (nw_peers nw ! k) = {r. r < length es \<and> snd (es ! r) = k}"
    by (simp_all add: out_refs_def in_refs_def snd_image ch)
qed

text \<open>
  Claim C5. Every channel of the initial network has one sender and one receiver, whatever the
  topology and the order of the peers: each channel is in the outbound map of exactly one peer and in
  the inbound map of exactly one peer, and no two channels join the same two peers in one direction.
\<close>

theorem channels_point_to_point:
  assumes "initNetwork reg lr now topo g nw = Some (nw', g')"
  shows "(\<forall>r < length (nw_chans nw').
      (\<exists>!k. k < length (nw_peers nw') \<and> r \<in> out_refs (nw_peers nw' ! k)) \<and>
      (\<exists>!k. k < length (nw_peers nw') \<and> r \<in> in_refs (nw_peers nw' ! k))) \<and>
    (\<forall>i < length (nw_peers nw'). \<forall>j < length (nw_peers nw').
      card (out_refs (nw_peers nw' ! i) \<inter> in_refs (nw_peers nw' ! j)) \<le> 1)"
proof -
  from initNetwork_wiring [OF assms] obtain ps es where w: "wiring es ps nw'" and d: "distinct es" by blast
  note refs = wiring_refs [OF w]
  have len: "length (nw_chans nw') = length es" "length (nw_peers nw') = length ps"
    and es: "\<And>r. r < length es \<Longrightarrow> fst (es ! r) < length ps \<and> snd (es ! r) < length ps"
    using w by (simp_all add: wiring_def)
  have "card (out_refs (nw_peers nw' ! i) \<inter> in_refs (nw_peers nw' ! j)) \<le> 1"
    if "i < length ps" "j < length ps" for i j
  proof -
    have "finite (out_refs (nw_peers nw' ! i) \<inter> in_refs (nw_peers nw' ! j))" by (simp add: refs that)
    moreover have "\<forall>a \<in> out_refs (nw_peers nw' ! i) \<inter> in_refs (nw_peers nw' ! j).
        \<forall>b \<in> out_refs (nw_peers nw' ! i) \<inter> in_refs (nw_peers nw' ! j). a = b"
      using d by (auto simp: refs that distinct_conv_nth prod_eq_iff)
    ultimately show ?thesis by (metis One_nat_def card_le_Suc0_iff_eq)
  qed
  moreover have "\<exists>!k. k < length ps \<and> r \<in> out_refs (nw_peers nw' ! k)" if "r < length es" for r
    by (rule ex1I [of _ "fst (es ! r)"]) (use es [OF that] that in \<open>auto simp: refs\<close>)
  moreover have "\<exists>!k. k < length ps \<and> r \<in> in_refs (nw_peers nw' ! k)" if "r < length es" for r
    by (rule ex1I [of _ "snd (es ! r)"]) (use es [OF that] that in \<open>auto simp: refs\<close>)
  ultimately show ?thesis by (simp add: len)
qed

theorem channels_point_to_point_witness:
  "\<exists>!k. k < length (nw_peers example_net) \<and> 0 \<in> in_refs (nw_peers example_net ! k)"
  using channels_point_to_point [OF example_init] by (simp add: example_net_def)

subsection \<open>Phases of distinct peers do not interfere\<close>

lemma local_recv:
  "local_to (in_refs p) (foldM (\<lambda>(act, r). cell_op act r) (recv_ops now (nd_iface p)))"
  by (rule local_foldM) (force simp: recv_ops_def in_refs_def intro: local_cell_op)

lemma local_unicast: "local_to (out_refs p) (unicastTo now (nd_iface p) msg nbr)"
proof (cases "nbr \<in> nbrs p")
  case True
  have "local_to (out_refs p) (foldM (\<lambda>(act, r). cell_op act r) (unicast_ops now (nd_iface p) msg nbr))"
    by (rule local_foldM) (force simp: unicast_ops_def out_refs_def set_equal_range intro: local_cell_op)
  with True show ?thesis by (simp add: unicastTo_def [abs_def])
next
  case False
  then show ?thesis using local_return [of "out_refs p" "\<lambda>a. a"]
    by (simp add: unicastTo_def [abs_def] case_prod_unfold)
qed

lemma local_multicast: "local_to (out_refs p) (multicast (unicastTo now (nd_iface p)) msg ts)"
  unfolding multicast_def [abs_def] by (rule local_foldM) (rule local_unicast)

lemma local_draw:
  assumes "\<And>x. local_to R (F x)"
  shows "local_to R (\<lambda>(g, cs). Option.bind (f g) (\<lambda>(x, g). F x (g, cs)))"
  using assms unfolding local_to_def by (auto split: bind_splits simp: monad)

lemma exec_send_fun:
  "exec_send now i (UnicastTo msg dest) = unicastTo now i msg dest"
  "exec_send now i (Unicast msg) = (\<lambda>s. case if_neighbors i of [] \<Rightarrow> Some s | d # _ \<Rightarrow> unicastTo now i msg d s)"
  "exec_send now i (Multicast msg targets) = multicast (unicastTo now i) msg targets"
  "exec_send now i (Broadcast msg) = multicast (unicastTo now i) msg (if_neighbors i)"
  "exec_send now i (BroadcastBut msg d) = multicast (unicastTo now i) msg (removeAll d (if_neighbors i))"
  "exec_send now i (RandomMulticast msg) = (\<lambda>(g, cs). Option.bind (random_subset (if_neighbors i) g)
     (\<lambda>(ts, g). multicast (unicastTo now i) msg ts (g, cs)))"
  by (rule ext, simp add: unicast_def broadcast_def randomMulticast_def abstractIf.broadcastBut_multicast)+

lemma local_exec_send: "local_to (out_refs p) (exec_send now (nd_iface p) a)"
proof (cases a)
  case (Unicast m)
  have "local_to (out_refs p) (\<lambda>s. Some s)" using local_return [of "out_refs p" "\<lambda>a. a"] by (simp add: case_prod_unfold)
  then show ?thesis using local_unicast [of p now m]
    by (cases "if_neighbors (nd_iface p)") (simp_all add: Unicast exec_send_fun)
next
  case (RandomMulticast m)
  then show ?thesis unfolding RandomMulticast exec_send_fun by (intro local_draw local_multicast)
qed (simp_all only: exec_send_fun local_unicast local_multicast)

lemma wiring_disjoint:
  assumes "initNetwork reg lr now topo g nw = Some (nw', g')"
    and "a < length (nw_peers nw')" and "b < length (nw_peers nw')" and "a \<noteq> b"
  shows "in_refs (nw_peers nw' ! a) \<inter> in_refs (nw_peers nw' ! b) = {}"
    and "out_refs (nw_peers nw' ! a) \<inter> out_refs (nw_peers nw' ! b) = {}"
proof -
  from initNetwork_wiring [OF assms(1)] obtain ps es where w: "wiring es ps nw'" by blast
  then have "length (nw_peers nw') = length ps" by (simp add: wiring_def)
  then show "in_refs (nw_peers nw' ! a) \<inter> in_refs (nw_peers nw' ! b) = {}"
    and "out_refs (nw_peers nw' ! a) \<inter> out_refs (nw_peers nw' ! b) = {}"
    using assms(2-4) by (auto simp: wiring_refs [OF w])
qed

lemma receive_commutes:
  assumes d: "in_refs p \<inter> in_refs q = {}"
    and p: "nd_receive now p (g, chs) = Some (p', g1, chs1)"
    and q: "nd_receive now q (h, chs) = Some (q', h1, chs2)"
  shows "\<exists>chs'. nd_receive now q (h, chs1) = Some (q', h1, chs') \<and> nd_receive now p (g, chs2) = Some (p', g1, chs')"
proof -
  let ?F = "\<lambda>p. foldM (\<lambda>(act, r). cell_op act r) (recv_ops now (nd_iface p))"
  from p q obtain s t where f: "?F p ((if_inStream (nd_iface p), g), chs) = Some ((s, g1), chs1)"
      "?F q ((if_inStream (nd_iface q), h), chs) = Some ((t, h1), chs2)"
    and p': "p' = p\<lparr>nd_iface := (nd_iface p)\<lparr>if_inStream := s\<rparr>\<rparr>" "q' = q\<lparr>nd_iface := (nd_iface q)\<lparr>if_inStream := t\<rparr>\<rparr>"
    by (auto simp: nd_receive_def if_receive_def monad)
  from local_commute [OF local_recv local_recv d f] show ?thesis
    by (auto simp: nd_receive_def if_receive_def p')
qed

lemma compute_commutes:
  assumes d: "out_refs p \<inter> out_refs q = {}"
    and p: "nd_tryPerformComputation fp now p (g, chs) = Some (p', g1, chs1)"
    and q: "nd_tryPerformComputation fq now q (h, chs) = Some (q', h1, chs2)"
  shows "\<exists>chs'. nd_tryPerformComputation fq now q (h, chs1) = Some (q', h1, chs') \<and>
    nd_tryPerformComputation fp now p (g, chs2) = Some (p', g1, chs')"
proof -
  have eq: "nd_tryPerformComputation f now p (g, cs) =
      Option.bind (if isCrashed now p then Some (p, [], g) else f now p g)
        (\<lambda>(p', sends, g). map_option (Pair p') (foldM (exec_send now (nd_iface p)) sends (g, cs)))" for f p g cs
    by (auto simp: nd_tryPerformComputation_def map_option_case split: bind_splits option.splits)
  note loc = local_foldM [OF local_exec_send]
  from p q obtain ss ts g0 h0 where
    fp: "(if isCrashed now p then Some (p, [], g) else fp now p g) = Some (p', ss, g0)"
    and fq: "(if isCrashed now q then Some (q, [], h) else fq now q h) = Some (q', ts, h0)"
    and r: "foldM (exec_send now (nd_iface p)) ss (g0, chs) = Some (g1, chs1)"
      "foldM (exec_send now (nd_iface q)) ts (h0, chs) = Some (h1, chs2)"
    unfolding eq bind_eq_Some_conv by (auto simp del: if_split)
  from local_commute [OF loc loc d r] show ?thesis unfolding eq fp fq by auto
qed

text \<open>
  Claim C1. The receive phase needs no order. Take any two distinct peers of a network that
  \<open>initNetwork\<close> built, in whatever later state (their channel maps are those of the initial network): if
  each of them can receive, each with its thread's own random engine, then receiving one after the
  other gives the same states, engines and channels in either order. So the ranges of peers that the
  simulation hands to its threads do not interfere.
\<close>

theorem receive_phase_race_free:
  assumes "initNetwork reg lr now topo g nw = Some (nw', g')"
    and "a < length (nw_peers nw')" and "b < length (nw_peers nw')" and "a \<noteq> b"
    and "if_inBoundChannels (nd_iface p) = if_inBoundChannels (nd_iface (nw_peers nw' ! a))"
    and "if_inBoundChannels (nd_iface q) = if_inBoundChannels (nd_iface (nw_peers nw' ! b))"
    and "nd_receive t p (g1, chs) = Some (p', g1', chs1)"
    and "nd_receive t q (g2, chs) = Some (q', g2', chs2)"
  shows "\<exists>chs'. nd_receive t q (g2, chs1) = Some (q', g2', chs') \<and> nd_receive t p (g1, chs2) = Some (p', g1', chs')"
  by (rule receive_commutes [OF _ assms(7,8)])
     (use wiring_disjoint(1) [OF assms(1-4)] assms(5,6) in \<open>simp add: in_refs_def\<close>)

lemma example_receive_node:
  "nd_receive 1 (example_node 0 1 1 0) (\<lambda>_. 0, [example_wire 0 1, example_wire 1 0]) =
     Some (example_node 0 1 1 0, \<lambda>_. 0, [example_wire 0 1, example_wire 1 0])"
  "nd_receive 1 (example_node 1 0 0 1) (\<lambda>_. 0, [example_wire 0 1, example_wire 1 0]) =
     Some (example_node 1 0 0 1, \<lambda>_. 0, [example_wire 0 1, example_wire 1 0])"
  by (simp_all add: nd_receive_def if_receive_def recv_ops_def example_node_def cell_op_def recv_act_def
      shuffleChannel_def recv_loop_deliverable deliverable_def example_wire_def cp_initial_def)

theorem receive_phase_race_free_witness:
  "\<exists>chs'. nd_receive 1 (example_node 1 0 0 1) (\<lambda>_. 0, [example_wire 0 1, example_wire 1 0]) = Some (example_node 1 0 0 1, \<lambda>_. 0, chs')"
  using receive_phase_race_free [OF example_init, of 0 1 "example_node 0 1 1 0" "example_node 1 0 0 1",
      OF _ _ _ _ _ example_receive_node] by (auto simp: example_net_def)

text \<open>
  Claim C2. Nor does the compute phase: two distinct peers of the network, in whatever later state,
  that compute and send, each with its own engine, give the same states, engines and channels in
  either order, whatever their algorithms are.
\<close>

theorem compute_phase_race_free:
  assumes "initNetwork reg lr now topo g nw = Some (nw', g')"
    and "a < length (nw_peers nw')" and "b < length (nw_peers nw')" and "a \<noteq> b"
    and "if_outBoundChannels (nd_iface p) = if_outBoundChannels (nd_iface (nw_peers nw' ! a))"
    and "if_outBoundChannels (nd_iface q) = if_outBoundChannels (nd_iface (nw_peers nw' ! b))"
    and "nd_tryPerformComputation perform t p (g1, chs) = Some (p', g1', chs1)"
    and "nd_tryPerformComputation perform t q (g2, chs) = Some (q', g2', chs2)"
  shows "\<exists>chs'. nd_tryPerformComputation perform t q (g2, chs1) = Some (q', g2', chs') \<and>
    nd_tryPerformComputation perform t p (g1, chs2) = Some (p', g1', chs')"
  by (rule compute_commutes [OF _ assms(7,8)])
     (use wiring_disjoint(2) [OF assms(1-4)] assms(5,6) in \<open>simp add: out_refs_def\<close>)

definition example_perform :: "unit perform" where
  "example_perform now p g = Some (p, [Broadcast JNull], g)"

definition example_sent :: "int \<Rightarrow> int \<Rightarrow> channel" where
  "example_sent s t = (example_wire s t)\<lparr>ch_throughputLeft := 9,
     ch_packetQueue := [(new_packet 1)\<lparr>pk_sourceId := s, pk_targetId := t, pk_body := JNull, pk_delay := 1\<rparr>]\<rparr>"

lemma example_compute_node:
  "nd_tryPerformComputation example_perform 1 (example_node 0 1 1 0) (\<lambda>_. 0, [example_wire 0 1, example_wire 1 0]) =
     Some (example_node 0 1 1 0, \<lambda>_. 0, [example_sent 0 1, example_wire 1 0])"
  "nd_tryPerformComputation example_perform 1 (example_node 1 0 0 1) (\<lambda>_. 0, [example_wire 0 1, example_wire 1 0]) =
     Some (example_node 1 0 0 1, \<lambda>_. 0, [example_wire 0 1, example_sent 1 0])"
  by (simp_all add: nd_tryPerformComputation_def isCrashed_def example_node_def example_perform_def
      broadcast_def multicast_def unicastTo_def unicast_ops_def equal_range_def cell_op_def push_act_def
      example_wire_def example_sent_def cp_initial_def pushPacket_def push_loop.simps canSend_def
      INT_MAX_def to_size_t_def computeRandomDelay_def uniformInt_def draw_def setDelay_def
      consumeThroughput_def ch_enqueue_def)

theorem compute_phase_race_free_witness:
  "\<exists>chs'. nd_tryPerformComputation example_perform 1 (example_node 1 0 0 1) (\<lambda>_. 0, [example_sent 0 1, example_wire 1 0]) =
     Some (example_node 1 0 0 1, \<lambda>_. 0, chs')"
  using compute_phase_race_free [OF example_init, of 0 1 "example_node 0 1 1 0" "example_node 1 0 0 1",
      OF _ _ _ _ _ example_compute_node] by (auto simp: example_net_def)

subsection \<open>Messages to neighbours\<close>

lemma distinct_singleton: "distinct xs \<Longrightarrow> set xs = {x} \<Longrightarrow> xs = [x]"
  by (cases xs; cases "tl xs") auto

text \<open>
  The public identifiers of the peers are those of the positions, in the order of the shuffle if there
  was one: the topology builders change no identifier.
\<close>

lemma add_neighbour_node_ids: "node_ids (ps[i := nd_addNeighbor d (ps ! i)]) = node_ids ps"
proof (cases "i < length ps")
  case True
  then have "map (\<lambda>p. (publicId p, internalId p)) ps ! i = (publicId (ps ! i), internalId (ps ! i))" by simp
  then show ?thesis
    by (simp add: node_ids_def map_update nd_addNeighbor_def addNeighbor_def) (metis list_update_id)
qed (simp add: list_update_beyond)

lemma start_peers_identifiers:
  assumes "start_peers reg topo g nw = Some ps"
  shows "distinct (map publicId ps)" and "set (map publicId ps) = int ` {0..<length ps}"
    and "value_string topo ''identifiers'' [] \<noteq> Some ''random'' \<Longrightarrow> k < length ps \<Longrightarrow> publicId (ps ! k) = int k"
proof -
  from assms obtain n t nw1 ids where v: "value_string topo ''identifiers'' [] = Some ids"
    and m: "make_peers reg t n ((clearExisting nw)\<lparr>nw_counter := NO_PEER_ID\<rparr>) = Some nw1"
    and b: "build_topology topo n (if ids = ''random'' then fst (shuffle (nw_peers nw1) g) else nw_peers nw1) = Some ps"
      (is "build_topology topo n ?qs = Some ps")
    by (auto simp: start_peers_def monad simp del: if_split)
  have fr: "fresh_peers n (nw_peers nw1)" using make_peers_fresh [OF m] by (simp add: clearExisting_def)
  have "node_ids ps = node_ids ?qs"
    by (rule build_topology_frame [OF b, of "\<lambda>x. node_ids x = node_ids ?qs"])
      (simp_all add: add_neighbour_node_ids)
  then have "map fst (node_ids ps) = map fst (node_ids ?qs)" by simp
  then have pub: "map publicId ps = map publicId ?qs" by (simp add: node_ids_def comp_def)
  have "map publicId (nw_peers nw1) = map int [0..<n]"
    using fr fresh_peers_nth(1) [OF fr] by (intro nth_equalityI) (simp_all add: fresh_peers_def)
  moreover have "mset (map publicId ?qs) = mset (map publicId (nw_peers nw1))"
  proof (cases "ids = ''random''")
    case True
    have "mset (map publicId (fst (shuffle (nw_peers nw1) g))) = mset (map publicId (nw_peers nw1))"
      by (simp only: mset_map mset_shuffle)
    then show ?thesis by (simp only: True if_True simp_thms)
  qed (simp only: if_False)
  ultimately have "mset (map publicId ps) = mset (map int [0..<n])" by (simp only: pub)
  moreover from this have "length ps = n" by (metis length_map length_upt mset_eq_length diff_zero)
  moreover have "distinct (map int [0..<n])" by (simp add: distinct_map)
  ultimately show "distinct (map publicId ps)" "set (map publicId ps) = int ` {0..<length ps}"
    by (metis mset_eq_imp_distinct_iff, metis mset_eq_setD set_map set_upt)
  show "publicId (ps ! k) = int k"
    if "value_string topo ''identifiers'' [] \<noteq> Some ''random''" "k < length ps"
  proof -
    have "map publicId ps = map int [0..<n]"
      using pub that(1) v \<open>map publicId (nw_peers nw1) = map int [0..<n]\<close> by simp
    then have "map publicId ps ! k = map int [0..<n] ! k" by simp
    then show ?thesis using that(2) \<open>length ps = n\<close> by simp
  qed
qed

text \<open>What a peer sends on to the public identifier of peer \<open>j\<close>: the one channel from it to \<open>_peers[j]\<close>, if any.\<close>

lemma wired_equal_range:
  assumes w: "wiring es ps nw" and es: "distinct es" and pub: "distinct (map publicId ps)"
    and k: "k < length ps" and j: "j < length ps"
  shows "r < length es \<Longrightarrow> es ! r = (k, j) \<Longrightarrow>
      equal_range (publicId (ps ! j)) (if_outBoundChannels (nd_iface (nw_peers nw ! k))) = [(publicId (ps ! j), r)]"
    and "(k, j) \<notin> set es \<Longrightarrow> equal_range (publicId (ps ! j)) (if_outBoundChannels (nd_iface (nw_peers nw ! k))) = []"
proof -
  let ?d = "publicId (ps ! j)" and ?out = "if_outBoundChannels (nd_iface (nw_peers nw ! k))"
  have wk: "wired_peer es ps k (nw_peers nw ! k)" using w k by (simp add: wiring_def)
  have out: "(?d, r) \<in> set ?out \<longleftrightarrow> r < length es \<and> es ! r = (k, j)" for r
  proof -
    have "snd (es ! r) < length ps" if "r < length es" using w that by (simp add: wiring_def)
    then have "publicId (ps ! j) = publicId (ps ! snd (es ! r)) \<longleftrightarrow> j = snd (es ! r)" if "r < length es"
      using pub j that nth_eq_iff_index_eq [OF pub, of j "snd (es ! r)"] by simp
    then show ?thesis unfolding wired_peer_channels(1) [OF wk] by (auto simp: prod_eq_iff)
  qed
  have dist: "distinct (equal_range ?d ?out)"
    unfolding equal_range_def by (rule distinct_filter) (use wk in \<open>simp only: wired_peer_def\<close>)
  have sub: "x \<in> set (equal_range ?d ?out) \<longleftrightarrow> fst x = ?d \<and> snd x < length es \<and> es ! snd x = (k, j)" for x
    using out [of "snd x"] by (cases x) (auto simp: set_equal_range)
  show "equal_range ?d ?out = [(?d, r)]" if r: "r < length es" "es ! r = (k, j)"
  proof (rule distinct_singleton [OF dist])
    have "x \<in> set (equal_range ?d ?out) \<longleftrightarrow> x = (?d, r)" for x
      unfolding sub using r nth_eq_iff_index_eq [OF es, of "snd x" r] by (cases x) auto
    then show "set (equal_range ?d ?out) = {(?d, r)}" by blast
  qed
  show "equal_range ?d ?out = []" if "(k, j) \<notin> set es"
    using sub that by (metis nth_mem all_not_in_conv set_empty)
qed

text \<open>A send to the neighbour that stands at position \<open>j\<close>.\<close>

lemma wired_send:
  assumes w: "wiring (channel_pairs ps) ps nw" and es: "distinct (channel_pairs ps)" and pub: "distinct (map publicId ps)"
    and pos: "\<forall>p \<in> set ps. \<forall>d \<in> nbrs p. 0 \<le> d" and k: "k < length ps" and j: "j < length ps"
    and d: "publicId (ps ! j) \<in> nbrs (nw_peers nw ! k)"
  shows "if int j \<in> nbrs (nw_peers nw ! k)
     then \<exists>r < length (nw_chans nw).
         (publicId (nw_peers nw ! k), r) \<in> set (if_inBoundChannels (nd_iface (nw_peers nw ! j))) \<and>
         (\<forall>msg rnd s. unicastTo rnd (nd_iface (nw_peers nw ! k)) msg (publicId (ps ! j)) s =
            cell_op (push_act ((new_packet rnd)\<lparr>pk_sourceId := publicId (nw_peers nw ! k), pk_targetId := publicId (ps ! j),
              pk_body := msg\<rparr>)) r s)
     else \<forall>msg rnd s. unicastTo rnd (nd_iface (nw_peers nw ! k)) msg (publicId (ps ! j)) s = Some s"
proof -
  let ?es = "channel_pairs ps"
  have wp: "\<And>i. i < length ps \<Longrightarrow> wired_peer ?es ps i (nw_peers nw ! i)" using w by (simp add: wiring_def)
  have mem: "int j \<in> nbrs (nw_peers nw ! k) \<longleftrightarrow> (k, j) \<in> set ?es"
    using channel_pairs_iff [OF pos] k wired_peer_fields(3) [OF wp [OF k]] by simp
  note range = wired_equal_range [OF w es pub k j]
  show ?thesis
  proof (cases "(k, j) \<in> set ?es")
    case True
    then obtain r where r: "r < length ?es" "?es ! r = (k, j)" by (auto simp: in_set_conv_nth)
    have "(publicId (nw_peers nw ! k), r) \<in> set (if_inBoundChannels (nd_iface (nw_peers nw ! j)))"
      using r wired_peer_fields(1) [OF wp [OF k]] by (simp add: wired_peer_channels [OF wp [OF j]])
    moreover have "r < length (nw_chans nw)" using r w by (simp add: wiring_def)
    ultimately show ?thesis
      using True d range(1) [OF r] by (auto simp: mem unicastTo_def unicast_ops_def)
  qed (use d range(2) in \<open>simp add: mem unicastTo_def unicast_ops_def\<close>)
qed

text \<open>
  Claim C4. Where a message to a neighbour goes, for every topology and every order of the peers. Let \<open>d\<close>
  be a neighbour of peer \<open>k\<close>. There is exactly one position \<open>j\<close> with the public identifier \<open>d\<close>. If \<open>j\<close>, read as an
  identifier, is a neighbour of peer \<open>k\<close> too, sending to \<open>d\<close> is one push on one channel, and the channel is
  in the inbound map of peer \<open>j\<close> under the sender's identifier. If it is not, everything that peer \<open>k\<close>
  sends to \<open>d\<close> is dropped: \<open>createInitialChannels\<close> looks the neighbour up as \<open>_peers[nbr]\<close>, as if its
  identifier were its position. Without shuffled identifiers it is, so every neighbour is reached; with
  \<open>"identifiers": "random"\<close> neighbours may be cut off, and in a network of two peers both are (the second
  half of the witness).
\<close>

theorem neighbour_reached:
  assumes "initNetwork reg lr now topo g nw = Some (nw', g')"
    and "k < length (nw_peers nw')" and "d \<in> nbrs (nw_peers nw' ! k)"
  shows "\<exists>j < length (nw_peers nw'). publicId (nw_peers nw' ! j) = d \<and>
    (\<forall>i < length (nw_peers nw'). publicId (nw_peers nw' ! i) = d \<longrightarrow> i = j) \<and>
    (if int j \<in> nbrs (nw_peers nw' ! k)
     then \<exists>r < length (nw_chans nw').
         (publicId (nw_peers nw' ! k), r) \<in> set (if_inBoundChannels (nd_iface (nw_peers nw' ! j))) \<and>
         (\<forall>msg rnd s. unicastTo rnd (nd_iface (nw_peers nw' ! k)) msg d s =
            cell_op (push_act ((new_packet rnd)\<lparr>pk_sourceId := publicId (nw_peers nw' ! k), pk_targetId := d,
              pk_body := msg\<rparr>)) r s)
     else \<forall>msg rnd s. unicastTo rnd (nd_iface (nw_peers nw' ! k)) msg d s = Some s) \<and>
    (value_string topo ''identifiers'' [] = Some ''random'' \<or> j = nat d \<and> int j \<in> nbrs (nw_peers nw' ! k))"
proof -
  let ?p = "\<lambda>k. nw_peers nw' ! k"
  from initNetwork_wiring [OF assms(1)] obtain ps es where s: "start_peers reg topo g nw = Some ps"
    and es: "es = channel_pairs ps" and w: "wiring es ps nw'" and dist: "distinct es"
    and pos: "\<forall>p \<in> set ps. \<forall>d \<in> nbrs p. 0 \<le> d" by blast
  note ids = start_peers_identifiers [OF s]
  have len: "length (nw_peers nw') = length ps" and wp: "\<And>i. i < length ps \<Longrightarrow> wired_peer es ps i (?p i)"
    using w by (simp_all add: wiring_def)
  note pubs = wired_peer_fields(1) [OF wp] and nb = wired_peer_fields(3) [OF wp]
  have k: "k < length ps" and dk: "d \<in> nbrs (ps ! k)" using assms(2,3) nb [of k] len by simp_all
  have d0: "0 \<le> d" using pos k dk nth_mem by blast
  have "(k, nat d) \<in> set es" using channel_pairs_iff [OF pos] k dk d0 by (simp add: es)
  then have "nat d < length ps" using w by (fastforce simp: wiring_def in_set_conv_nth)
  then have "d \<in> set (map publicId ps)" unfolding ids(2) using d0 by (metis atLeastLessThan_iff image_eqI int_nat_eq zero_le)
  then obtain j where j: "j < length ps" "publicId (ps ! j) = d" by (auto simp: in_set_conv_nth)
  have uniq: "i = j" if "i < length ps" "publicId (?p i) = d" for i
  proof -
    have "publicId (ps ! i) = publicId (ps ! j)" using pubs [OF that(1)] that(2) j(2) by simp
    then have "map publicId ps ! i = map publicId ps ! j" unfolding nth_map [OF that(1)] nth_map [OF j(1)] .
    then show ?thesis using nth_eq_iff_index_eq [OF ids(1)] that(1) j(1) by simp
  qed
  have "publicId (ps ! j) \<in> nbrs (?p k)" using assms(3) j(2) by simp
  note send = wired_send [OF w [unfolded es] dist [unfolded es] ids(1) pos k j(1) this, unfolded j(2)]
  have "value_string topo ''identifiers'' [] = Some ''random'' \<or> j = nat d \<and> int j \<in> nbrs (?p k)"
  proof (cases "value_string topo ''identifiers'' [] = Some ''random''")
    case False
    have "int j = d" using ids(3) [OF False j(1)] j(2) by simp
    then show ?thesis using assms(3) by auto
  qed simp
  moreover have "publicId (?p j) = d" using pubs [OF j(1)] j(2) by simp
  ultimately show ?thesis unfolding len by (intro exI [of _ j] conjI j(1) send allI impI uniq)
qed

definition example_shuffled :: "unit network" where
  "example_shuffled = \<lparr>nw_peers = [
       (example_node 1 0 0 0)\<lparr>nd_iface := \<lparr>if_publicId = 1, if_internalId = 1, if_neighbors = [0], if_inStream = [],
          if_inBoundChannels = [(1, 0)], if_outBoundChannels = [(1, 0)]\<rparr>\<rparr>,
       (example_node 0 1 1 1)\<lparr>nd_iface := \<lparr>if_publicId = 0, if_internalId = 0, if_neighbors = [1], if_inStream = [],
          if_inBoundChannels = [(0, 1)], if_outBoundChannels = [(0, 1)]\<rparr>\<rparr>],
     nw_distribution = JObj [], nw_chans = [example_wire 1 1, example_wire 0 0],
     nw_cache = [cp_initial\<lparr>cp_maxMsgsRec := 1\<rparr>], nw_counter = 1\<rparr>"

lemma example_shuffled_init:
  "initNetwork example_registry 10 0 (example_topology ''ring'' ''random'' 2) (\<lambda>_. 0) empty_network =
     Some (example_shuffled, \<lambda>_. 0)"
  by (simp add: init_eval example_topology_def example_shuffled_def example_node_def example_wire_def cp_initial_def
      throughput_budget_def to_size_t_def to_int32_def)

theorem neighbour_reached_witness:
  "(\<exists>r < 2. (0, r) \<in> set (if_inBoundChannels (nd_iface (nw_peers example_net ! 1)))) \<and>
   (\<forall>msg rnd s. unicastTo rnd (nd_iface (nw_peers example_shuffled ! 0)) msg 0 s = Some s) \<and>
   (\<forall>msg rnd s. unicastTo rnd (nd_iface (nw_peers example_shuffled ! 1)) msg 1 s = Some s)"
proof -
  have len: "length (nw_peers example_net) = 2" "length (nw_peers example_shuffled) = 2"
    and pub: "map publicId (nw_peers example_shuffled) = [1, 0]"
    and nb: "nbrs (nw_peers example_shuffled ! 0) = {0}" "nbrs (nw_peers example_shuffled ! 1) = {1}"
      "nbrs (nw_peers example_net ! 0) = {1}"
    by (simp_all add: example_net_def example_shuffled_def example_node_def)
  have "length (nw_chans example_net) = 2" "publicId (nw_peers example_net ! 0) = 0"
    by (simp_all add: example_net_def example_node_def)
  then have "\<exists>r < 2. (0, r) \<in> set (if_inBoundChannels (nd_iface (nw_peers example_net ! 1)))"
    using neighbour_reached [OF example_init, of 0 1] by (auto simp: example_value len nb)
  moreover have drop: "\<forall>msg rnd s. unicastTo rnd (nd_iface (nw_peers example_shuffled ! k)) msg (int k) s = Some s"
    if k: "k < 2" for k
  proof -
    have "int k \<in> nbrs (nw_peers example_shuffled ! k)" using k nb by (auto simp: less_2_cases_iff)
    with neighbour_reached [OF example_shuffled_init] k obtain j where j: "j < 2"
      "publicId (nw_peers example_shuffled ! j) = int k"
      "int j \<notin> nbrs (nw_peers example_shuffled ! k) \<Longrightarrow>
         \<forall>msg rnd s. unicastTo rnd (nd_iface (nw_peers example_shuffled ! k)) msg (int k) s = Some s"
      unfolding len by (metis (no_types, lifting))
    have "map publicId (nw_peers example_shuffled) ! j = int k" using j(1,2) len by simp
    then have "int j \<notin> nbrs (nw_peers example_shuffled ! k)"
      using j(1) k nb unfolding pub by (auto simp: less_2_cases_iff)
    then show ?thesis by (rule j(3))
  qed
  ultimately show ?thesis using drop [of 0] drop [of 1] by simp
qed

end
