(* ===== verification/ConfigErrors.thy ===== *)
theory ConfigErrors
  imports Network
begin

text \<open>
  Results of the configuration readers (src/quantas/Common/Concrete/Runtime and
  src/quantas/Common/Concrete/Backends/BoostMq/Control/QueueConfig.cpp): a \<open>std::runtime_error\<close> with its
  message, or an exception of the JSON library, against a value. Integers of a configuration are
  stored into an \<open>int\<close>, which keeps their low 32 bits.
\<close>

datatype config_error = Runtime_error string | Json_error

type_synonym 'a result = "config_error + 'a"

definition bindR :: "'a result \<Rightarrow> ('a \<Rightarrow> 'b result) \<Rightarrow> 'b result" where
  "bindR r f = (case r of Inl e \<Rightarrow> Inl e | Inr x \<Rightarrow> f x)"

lemma bindR_simps [simp]: "bindR (Inl e) f = Inl e" "bindR (Inr x) f = f x"
  by (simp_all add: bindR_def)

lemma bindR_Inr [monad]: "bindR r f = Inr y \<longleftrightarrow> (\<exists>x. r = Inr x \<and> f x = Inr y)"
  by (cases r) auto

text \<open>A library call that may throw: \<open>None\<close> is the exception.\<close>

definition of_json :: "'a option \<Rightarrow> 'a result" where
  "of_json r = (case r of None \<Rightarrow> Inl Json_error | Some x \<Rightarrow> Inr x)"

lemma of_json_Inr [monad, simp]: "of_json r = Inr x \<longleftrightarrow> r = Some x"
  by (cases r) (auto simp: of_json_def)

lemma of_json_Some [simp]: "of_json (Some x) = Inr x"
  by (simp add: of_json_def)

primrec foldR :: "('a \<Rightarrow> 's \<Rightarrow> 's result) \<Rightarrow> 'a list \<Rightarrow> 's \<Rightarrow> 's result" where
  "foldR f [] s = Inr s"
| "foldR f (x # xs) s = bindR (f x s) (foldR f xs)"

lemma foldR_invariant:
  assumes "foldR f xs s = Inr s'" and "I s"
    and "\<And>x s s'. x \<in> set xs \<Longrightarrow> I s \<Longrightarrow> f x s = Inr s' \<Longrightarrow> I s'"
  shows "I s'"
  using assms
proof (induction xs arbitrary: s)
  case (Cons x xs)
  from Cons.prems(1) obtain t where t: "f x s = Inr t" "foldR f xs t = Inr s'" by (auto simp: monad)
  have "I t" using Cons.prems(2,3) t(1) by (meson list.set_intros(1))
  then show ?case using Cons.IH [OF t(2)] Cons.prems(3) by (meson list.set_intros(2))
qed auto

text \<open>
  \<open>requiredPositiveInteger\<close> of RuntimeConfig.cpp, \<open>requirePositiveInteger\<close> of TopologyPlanner.cpp.
\<close>

definition requiredPositiveInteger :: "json \<Rightarrow> string \<Rightarrow> string \<Rightarrow> int result" where
  "requiredPositiveInteger object field path =
     (case jfind field object of
        Some (JInt v) \<Rightarrow>
          (if to_int32 v \<le> 0 then Inl (Runtime_error (''error: '' @ path @ '' must be > 0''))
           else Inr (to_int32 v))
      | _ \<Rightarrow> Inl (Runtime_error (''error: '' @ path @ '' must be a positive integer'')))"

lemma requiredPositiveInteger_Inr:
  "requiredPositiveInteger object field path = Inr n \<longleftrightarrow>
     (\<exists>v. jfind field object = Some (JInt v) \<and> n = to_int32 v \<and> 0 < n)"
  by (auto simp: requiredPositiveInteger_def split: option.splits json.splits if_splits)

end
