(* ===== verification/RuntimeConfig.thy ===== *)
theory RuntimeConfig
  imports ConfigErrors
begin

text \<open>
  The experiment configuration (src/quantas/Common/Concrete/Runtime/Config/RuntimeConfig.cpp), the
  transport counters (Runtime/Metrics/TransportMetrics.hpp) and the settings of the message queues
  (Backends/BoostMq/Control/QueueConfig.cpp). Reading a file into a JSON value and creating the
  operating system's queues are outside the model: the first is an argument, the outcome of the second
  too.
\<close>

subsection \<open>Experiments\<close>

record runtimeExperimentConfig =
  rc_initialPeers :: int
  rc_initialPeerType :: string
  rc_topology :: json
  rc_rounds :: int
  rc_tests :: int
  rc_doneTimeoutMs :: int

text \<open>\<open>loadRuntimeConfig\<close> after the file was read: \<open>None\<close> when it could not be opened or parsed.\<close>

definition loadRuntimeConfig :: "json option \<Rightarrow> json option" where
  "loadRuntimeConfig file = (case file of
       None \<Rightarrow> None
     | Some config \<Rightarrow> (case jfind ''experiments'' config of
           Some (JArr (_ # _)) \<Rightarrow> Some config
         | _ \<Rightarrow> None))"

definition parseRuntimeExperiment :: "json \<Rightarrow> nat \<Rightarrow> runtimeExperimentConfig result" where
  "parseRuntimeExperiment config expIndex = (case jat config ''experiments'' of
       Some (JArr xs) \<Rightarrow>
         (if expIndex < length xs then
            (let experiment = xs ! expIndex in
             case jfind ''topology'' experiment of
               None \<Rightarrow> Inl (Runtime_error (''error: experiment missing '' @ [CHR 0x27] @ ''topology'' @ [CHR 0x27]))
             | Some topology \<Rightarrow>
                 bindR (requiredPositiveInteger topology ''initialPeers'' ''topology.initialPeers'') (\<lambda>initialPeers.
                 bindR (of_json (value_string topology ''initialPeerType'' [])) (\<lambda>initialPeerType.
                 bindR (requiredPositiveInteger experiment ''rounds'' ''rounds'') (\<lambda>rounds.
                 bindR (requiredPositiveInteger experiment ''tests'' ''tests'') (\<lambda>tests.
                 bindR (of_json (value_int experiment ''doneTimeoutMs'' 30000)) (\<lambda>t.
                 let doneTimeoutMs = to_int32 t in
                 if initialPeerType = [] then Inl (Runtime_error ''error: topology.initialPeerType is empty'')
                 else if doneTimeoutMs \<le> 0 then Inl (Runtime_error ''error: doneTimeoutMs must be > 0'')
                 else Inr \<lparr>rc_initialPeers = initialPeers, rc_initialPeerType = initialPeerType,
                           rc_topology = topology, rc_rounds = rounds, rc_tests = tests,
                           rc_doneTimeoutMs = doneTimeoutMs\<rparr>))))))
          else Inl Json_error)
     | _ \<Rightarrow> Inl Json_error)"

subsection \<open>Queues\<close>

record boostMqQueueConfig =
  qc_controlQueueCapacity :: nat
  qc_dataQueueCapacity :: nat
  qc_maxMessageSizeBytes :: nat
  qc_readyTimeoutMs :: nat
  qc_controlSendTimeoutMs :: nat
  qc_dataSendTimeoutMs :: nat

text \<open>An unsigned JSON number that is not zero; the message names the setting.\<close>

definition positive_setting :: "json \<Rightarrow> string \<Rightarrow> nat \<Rightarrow> nat result" where
  "positive_setting boostMq field dflt = (case jfind field boostMq of
       None \<Rightarrow> Inr dflt
     | Some (JInt v) \<Rightarrow> (if v > 0 then Inr (nat v)
         else Inl (Runtime_error (''boostMq.'' @ field @ '' must be a positive whole number'')))
     | Some _ \<Rightarrow> Inl (Runtime_error (''boostMq.'' @ field @ '' must be a positive whole number'')))"

definition default_queueConfig :: "int \<Rightarrow> boostMqQueueConfig" where
  "default_queueConfig initialPeers = \<lparr>qc_controlQueueCapacity = nat (to_size_t initialPeers),
     qc_dataQueueCapacity = 1000, qc_maxMessageSizeBytes = 4096, qc_readyTimeoutMs = 30000,
     qc_controlSendTimeoutMs = 5000, qc_dataSendTimeoutMs = 5\<rparr>"

definition parseBoostMqConfig :: "json \<Rightarrow> int \<Rightarrow> boostMqQueueConfig result" where
  "parseBoostMqConfig experiment initialPeers =
     (let config = default_queueConfig initialPeers in
      case jfind ''boostMq'' experiment of
        None \<Rightarrow> Inr config
      | Some boostMq \<Rightarrow>
          if \<not> is_object boostMq then Inl (Runtime_error ''boostMq must be a JSON object'')
          else bindR (positive_setting boostMq ''dataQueueCapacity'' (qc_dataQueueCapacity config)) (\<lambda>dc.
               bindR (positive_setting boostMq ''maxMessageSizeBytes'' (qc_maxMessageSizeBytes config)) (\<lambda>ms.
               bindR (positive_setting boostMq ''readyTimeoutMs'' (qc_readyTimeoutMs config)) (\<lambda>rt.
               bindR (positive_setting boostMq ''controlSendTimeoutMs'' (qc_controlSendTimeoutMs config)) (\<lambda>ct.
               bindR (positive_setting boostMq ''dataSendTimeoutMs'' (qc_dataSendTimeoutMs config)) (\<lambda>dt.
               Inr (config\<lparr>qc_dataQueueCapacity := dc, qc_maxMessageSizeBytes := ms, qc_readyTimeoutMs := rt,
                            qc_controlSendTimeoutMs := ct, qc_dataSendTimeoutMs := dt\<rparr>)))))))"

text \<open>
  The sizes of the serialised assignments come from the archive library: they are the arguments.
\<close>

definition validateBoostMqAssignmentPayloads :: "nat list \<Rightarrow> boostMqQueueConfig \<Rightarrow> nat \<Rightarrow> unit result" where
  "validateBoostMqAssignmentPayloads payloadSizes queueConfig experimentIndex =
     foldR (\<lambda>payloadSize _. if payloadSize \<le> qc_maxMessageSizeBytes queueConfig then Inr ()
        else Inl (Runtime_error (''BoostMQ preflight failed for experiment '' @ to_string experimentIndex)))
       payloadSizes ()"

text \<open>
  \<open>preflightBoostMqQueues\<close>: the two checks before the temporary queues are created, and the outcome of
  creating them, \<open>created\<close>, which the operating system decides.
\<close>

definition preflightBoostMqQueues :: "boostMqQueueConfig \<Rightarrow> nat \<Rightarrow> bool \<Rightarrow> unit result" where
  "preflightBoostMqQueues q experimentIndex created =
     (if qc_controlQueueCapacity q = 0 \<or> qc_dataQueueCapacity q = 0 \<or> qc_maxMessageSizeBytes q = 0
      then Inl (Runtime_error (''BoostMQ preflight failed for experiment '' @ to_string experimentIndex @
        '': queue capacities and maximum message size must be greater than 0''))
      else if max (qc_controlQueueCapacity q) (qc_dataQueueCapacity q) > (2 ^ 64 - 1) div qc_maxMessageSizeBytes q
      then Inl (Runtime_error (''BoostMQ preflight failed for experiment '' @ to_string experimentIndex @
        '': requested queue size exceeds the supported size range''))
      else if \<not> created
      then Inl (Runtime_error (''BoostMQ preflight failed for experiment '' @ to_string experimentIndex))
      else Inr ())"

subsection \<open>Counters\<close>

record transportMetrics =
  tm_sent :: nat
  tm_receivedRaw :: nat
  tm_deliveredToInstream :: nat
  tm_droppedBackpressure :: nat
  tm_peakQueueUsage :: nat

definition makeTransportMetricsJson :: "transportMetrics \<Rightarrow> nat \<Rightarrow> json" where
  "makeTransportMetricsJson m dataQueueCapacity = jobject
     [(''sent'', JInt (int (tm_sent m))),
      (''received_raw'', JInt (int (tm_receivedRaw m))),
      (''delivered_to_instream'', JInt (int (tm_deliveredToInstream m))),
      (''dropped_backpressure'', JInt (int (tm_droppedBackpressure m))),
      (''data_queue_capacity'', JInt (int dataQueueCapacity)),
      (''peak_observed_queue_usage'', JInt (int (tm_peakQueueUsage m)))]"

subsection \<open>Properties\<close>

text \<open>
  Claim C13. A configuration that is accepted is usable: the number of peers, rounds and tests and the
  timeout are positive and fit in an \<open>int\<close>, and the peer type is not empty.
\<close>

theorem parsed_experiment_positive:
  assumes "parseRuntimeExperiment config k = Inr c"
  shows "0 < rc_initialPeers c \<and> rc_initialPeers c < 2 ^ 31 \<and> 0 < rc_rounds c \<and> rc_rounds c < 2 ^ 31 \<and>
    0 < rc_tests c \<and> rc_tests c < 2 ^ 31 \<and> 0 < rc_doneTimeoutMs c \<and> rc_initialPeerType c \<noteq> []"
  using assms to_int32_bounds(2)
  by (auto simp: parseRuntimeExperiment_def monad requiredPositiveInteger_Inr Let_def
      split: option.splits json.splits if_splits)

definition example_config :: json where
  "example_config = JObj [(''experiments'', JArr [JObj [(''rounds'', JInt 100), (''tests'', JInt 2),
     (''topology'', JObj [(''initialPeerType'', JStr ''P''), (''initialPeers'', JInt 5)])]])]"

theorem parsed_experiment_positive_witness:
  "\<exists>c. parseRuntimeExperiment example_config 0 = Inr c \<and> 0 < rc_rounds c \<and> rc_rounds c < 2 ^ 31"
proof -
  have "\<exists>c. parseRuntimeExperiment example_config 0 = Inr c"
    by (simp add: parseRuntimeExperiment_def example_config_def requiredPositiveInteger_def to_int32_def
        of_json_def value_with_def)
  then show ?thesis using parsed_experiment_positive by blast
qed

text \<open>
  Claim C12. Queues that pass the preflight fit in memory: the number of bytes of each queue, computed
  in \<open>size_t\<close> without wrapping, is what the configuration says.
\<close>

theorem preflight_no_overflow:
  assumes "preflightBoostMqQueues q k created = Inr ()"
  shows "0 < qc_maxMessageSizeBytes q \<and> 0 < qc_controlQueueCapacity q \<and> 0 < qc_dataQueueCapacity q \<and>
    qc_controlQueueCapacity q * qc_maxMessageSizeBytes q < 2 ^ 64 \<and>
    qc_dataQueueCapacity q * qc_maxMessageSizeBytes q < 2 ^ 64"
proof -
  from assms have pos: "0 < qc_maxMessageSizeBytes q" "0 < qc_controlQueueCapacity q" "0 < qc_dataQueueCapacity q"
    and le: "max (qc_controlQueueCapacity q) (qc_dataQueueCapacity q) \<le> (2 ^ 64 - 1) div qc_maxMessageSizeBytes q"
    unfolding preflightBoostMqQueues_def by (meson Inl_Inr_False gr0I not_le_imp_less)+
  have "c * qc_maxMessageSizeBytes q < 2 ^ 64" if "c \<le> (2 ^ 64 - 1) div qc_maxMessageSizeBytes q" for c
  proof -
    have "c * qc_maxMessageSizeBytes q \<le> 2 ^ 64 - 1" using that pos(1) by (simp add: less_eq_div_iff_mult_less_eq)
    then show ?thesis by (simp add: less_eq_Suc_le)
  qed
  then show ?thesis using pos le by simp
qed

theorem preflight_no_overflow_witness:
  "qc_dataQueueCapacity (default_queueConfig 5) * qc_maxMessageSizeBytes (default_queueConfig 5) < 2 ^ 64"
  using preflight_no_overflow [of "default_queueConfig 5" 0 True]
  by (simp add: preflightBoostMqQueues_def default_queueConfig_def to_size_t_def)

text \<open>
  Queue settings that are positive whole numbers are accepted and read back as written; a
  setting that is missing has its default, and the control queue has room for one message of every
  peer.
\<close>

theorem queue_settings:
  assumes "0 \<le> n" and "n < 2 ^ 31" and "jfind ''boostMq'' e = Some (JObj kvs)"
    and "\<forall>f \<in> {''dataQueueCapacity'', ''maxMessageSizeBytes'', ''readyTimeoutMs'', ''controlSendTimeoutMs'', ''dataSendTimeoutMs''}.
           \<forall>v. map_of kvs f = Some v \<longrightarrow> (\<exists>i > 0. v = JInt i)"
  shows "\<exists>c. parseBoostMqConfig e n = Inr c \<and> qc_controlQueueCapacity c = nat n \<and>
    qc_dataQueueCapacity c = (case map_of kvs ''dataQueueCapacity'' of Some (JInt v) \<Rightarrow> nat v | _ \<Rightarrow> 1000) \<and>
    qc_maxMessageSizeBytes c = (case map_of kvs ''maxMessageSizeBytes'' of Some (JInt v) \<Rightarrow> nat v | _ \<Rightarrow> 4096) \<and>
    0 < qc_dataQueueCapacity c \<and> 0 < qc_maxMessageSizeBytes c \<and> 0 < qc_readyTimeoutMs c \<and>
    0 < qc_controlSendTimeoutMs c \<and> 0 < qc_dataSendTimeoutMs c"
proof -
  have ps: "positive_setting (JObj kvs) f d = Inr (case map_of kvs f of Some (JInt v) \<Rightarrow> nat v | _ \<Rightarrow> d) \<and>
      0 < (case map_of kvs f of Some (JInt v) \<Rightarrow> nat v | _ \<Rightarrow> d)"
    if f: "f \<in> {''dataQueueCapacity'', ''maxMessageSizeBytes'', ''readyTimeoutMs'', ''controlSendTimeoutMs'', ''dataSendTimeoutMs''}"
      and d: "0 < d" for f d
  proof (cases "map_of kvs f")
    case (Some v)
    then obtain i where "v = JInt i" "i > 0" using assms(4) [rule_format, OF f Some] by (elim exE conjE) (rule that)
    then show ?thesis by (simp add: positive_setting_def Some)
  qed (use d in \<open>simp add: positive_setting_def\<close>)
  note d = ps [of "''dataQueueCapacity''" 1000] ps [of "''maxMessageSizeBytes''" 4096]
    ps [of "''readyTimeoutMs''" 30000] ps [of "''controlSendTimeoutMs''" 5000] ps [of "''dataSendTimeoutMs''" 5]
  have "nat (to_size_t n) = nat n" using assms(1,2) by (simp add: to_size_t_id)
  then show ?thesis
    unfolding parseBoostMqConfig_def default_queueConfig_def Let_def assms(3)
    using d by simp
qed

theorem queue_settings_witness:
  "\<exists>c. parseBoostMqConfig (JObj [(''boostMq'', JObj [(''dataQueueCapacity'', JInt 7)])]) 5 = Inr c \<and>
     qc_dataQueueCapacity c = 7"
  using queue_settings [of 5 "JObj [(''boostMq'', JObj [(''dataQueueCapacity'', JInt 7)])]" "[(''dataQueueCapacity'', JInt 7)]"]
  by auto

end
