(* ===== verification/TopologyPlanner.thy ===== *)
theory TopologyPlanner
  imports ConfigErrors NetTopology
begin

text \<open>
  The topology planner of the concrete runtime
  (src/quantas/Common/Concrete/Runtime/Topology/TopologyPlanner.cpp), which computes the neighbours of
  every peer before the processes start. It has its own loops; the main result is that it plans the
  same topologies as the abstract simulator's network builds.
\<close>

subsection \<open>Assignments and edges\<close>

record peerAssignment =
  pa_id :: interfaceId
  pa_topologyType :: string
  pa_neighbors :: idset

definition empty_assignment :: peerAssignment where
  "empty_assignment = \<lparr>pa_id = NO_PEER_ID, pa_topologyType = [], pa_neighbors = []\<rparr>"

definition put_neighbor :: "interfaceId \<Rightarrow> interfaceId \<Rightarrow> peerAssignment list \<Rightarrow> peerAssignment list" where
  "put_neighbor a b as = as[nat a := (as ! nat a)\<lparr>pa_id := a, pa_neighbors := idset_insert b (pa_neighbors (as ! nat a))\<rparr>]"

definition addUndirectedEdge :: "int \<Rightarrow> interfaceId \<Rightarrow> interfaceId \<Rightarrow> peerAssignment list \<Rightarrow> peerAssignment list" where
  "addUndirectedEdge initialPeers a b as =
     (if a = b \<or> a < 0 \<or> b < 0 \<or> a \<ge> initialPeers \<or> b \<ge> initialPeers then as
      else put_neighbor b a (put_neighbor a b as))"

definition addDirectedEdge :: "int \<Rightarrow> interfaceId \<Rightarrow> interfaceId \<Rightarrow> peerAssignment list \<Rightarrow> peerAssignment list" where
  "addDirectedEdge initialPeers from to as =
     (if from < 0 \<or> to < 0 \<or> from \<ge> initialPeers \<or> to \<ge> initialPeers then as
      else put_neighbor from to as)"

text \<open>The pairs of positions that the loops of each topology visit, in their order.\<close>

definition plan_complete :: "nat \<Rightarrow> (nat \<times> nat) list" where
  "plan_complete n = [(i, j). i \<leftarrow> [0..<n], j \<leftarrow> [Suc i..<n]]"

definition plan_star :: "nat \<Rightarrow> (nat \<times> nat) list" where
  "plan_star n = [(0, i). i \<leftarrow> [1..<n]]"

definition plan_grid :: "nat \<Rightarrow> nat \<Rightarrow> (nat \<times> nat) list" where
  "plan_grid height width = concat
     [let idx = i * width + j in
        (if j + 1 < width then [(idx, idx + 1)] else []) @ (if i + 1 < height then [(idx, idx + width)] else []).
      i \<leftarrow> [0..<height], j \<leftarrow> [0..<width]]"

definition plan_torus :: "nat \<Rightarrow> nat \<Rightarrow> (nat \<times> nat) list" where
  "plan_torus height width = concat
     [let idx = i * width + j in
        [(idx, i * width + ((j + 1) mod width)), (idx, ((i + 1) mod height) * width + j)].
      i \<leftarrow> [0..<height], j \<leftarrow> [0..<width]]"

definition plan_chain :: "nat \<Rightarrow> (nat \<times> nat) list" where
  "plan_chain n = [(i, i + 1). i \<leftarrow> [0..<n - 1]]"

definition plan_ring :: "nat \<Rightarrow> (nat \<times> nat) list" where
  "plan_ring n = [(i, (i + 1) mod n). i \<leftarrow> [0..<n]]"

definition undirected :: "int \<Rightarrow> interfaceId list \<Rightarrow> (nat \<times> nat) list \<Rightarrow> peerAssignment list \<Rightarrow> peerAssignment list" where
  "undirected n ids es as = fold (\<lambda>(i, j). addUndirectedEdge n (ids ! i) (ids ! j)) es as"

definition directed :: "int \<Rightarrow> interfaceId list \<Rightarrow> (nat \<times> nat) list \<Rightarrow> peerAssignment list \<Rightarrow> peerAssignment list" where
  "directed n ids es as = fold (\<lambda>(i, j). addDirectedEdge n (ids ! i) (ids ! j)) es as"

definition validateDimensions :: "json \<Rightarrow> string \<Rightarrow> int \<Rightarrow> (int \<times> int) result" where
  "validateDimensions topology type initialPeers =
     bindR (requiredPositiveInteger topology ''height'' ''topology.height'') (\<lambda>height.
     bindR (requiredPositiveInteger topology ''width'' ''topology.width'') (\<lambda>width.
     if type = ''torus'' \<and> (height < 2 \<or> width < 2)
     then Inl (Runtime_error ''error: torus height and width must both be at least 2'')
     else if height * width \<noteq> initialPeers
     then Inl (Runtime_error ''error: topology.height * topology.width must equal topology.initialPeers'')
     else Inr (height, width)))"

subsection \<open>Peer identifiers as keys\<close>

text \<open>
  \<open>std::stoll\<close>: blanks, a sign, then digits up to the first other character; without a digit, or with a
  value outside 64 bits, it throws. The second component is the number of characters it used.
\<close>

definition is_digit :: "char \<Rightarrow> bool" where
  "is_digit c = (48 \<le> (of_char c :: nat) \<and> (of_char c :: nat) \<le> 57)"

definition is_space :: "char \<Rightarrow> bool" where
  "is_space c = ((of_char c :: nat) = 32 \<or> (9 \<le> (of_char c :: nat) \<and> (of_char c :: nat) \<le> 13))"

definition digits_value :: "string \<Rightarrow> int" where
  "digits_value ds = fold (\<lambda>c v. 10 * v + (of_char c - 48)) ds 0"

definition stoll :: "string \<Rightarrow> (int \<times> nat) option" where
  "stoll s = (let blanks = takeWhile is_space s;
                  r = dropWhile is_space s;
                  (neg, sign, r) = (case r of c # cs \<Rightarrow> if c = CHR ''-'' then (True, 1, cs)
                                     else if c = CHR ''+'' then (False, 1, cs) else (False, 0, r) | [] \<Rightarrow> (False, 0, r));
                  ds = takeWhile is_digit r;
                  v = (if neg then - digits_value ds else digits_value ds)
              in if ds = [] \<or> v < - (2 ^ 63) \<or> v \<ge> 2 ^ 63 then None
                 else Some (v, length blanks + sign + length ds))"

definition int_to_string :: "int \<Rightarrow> string" where
  "int_to_string v = (if v < 0 then CHR ''-'' # to_string (nat (- v)) else to_string (nat v))"

definition invalid_peer :: "string \<Rightarrow> config_error" where
  "invalid_peer value = Runtime_error (''error: topology.list contains invalid peer ID '' @ [CHR 0x27] @ value @ [CHR 0x27])"

definition parsePeerId :: "string \<Rightarrow> int \<Rightarrow> int result" where
  "parsePeerId value initialPeers = (case stoll value of
       None \<Rightarrow> Inl (invalid_peer value)
     | Some (peerId, parsedCharacters) \<Rightarrow>
         (if parsedCharacters \<noteq> length value \<or> int_to_string peerId \<noteq> value \<or> peerId < 0 \<or> peerId \<ge> initialPeers
          then Inl (invalid_peer value) else Inr peerId))"

definition list_error :: "string \<Rightarrow> string \<Rightarrow> config_error" where
  "list_error key msg = Runtime_error (''error: topology.list['' @ [CHR 0x27] @ key @ [CHR 0x27] @ '']'' @ msg)"

definition plan_destination :: "int \<Rightarrow> interfaceId list \<Rightarrow> string \<Rightarrow> int \<Rightarrow> json \<Rightarrow> peerAssignment list
    \<Rightarrow> peerAssignment list result" where
  "plan_destination initialPeers ids key sourceIndex dest as = (case dest of
       JInt destinationIndex \<Rightarrow>
         (if destinationIndex < 0 \<or> destinationIndex \<ge> initialPeers
          then Inl (list_error key '' contains an out-of-range neighbour ID'')
          else if destinationIndex = sourceIndex then Inl (list_error key '' contains its own peer ID'')
          else Inr (addDirectedEdge initialPeers (ids ! nat sourceIndex) (ids ! nat destinationIndex) as))
     | _ \<Rightarrow> Inl (list_error key '' contains a non-integer neighbour ID''))"

definition plan_entry :: "int \<Rightarrow> interfaceId list \<Rightarrow> string \<times> json \<Rightarrow> peerAssignment list \<Rightarrow> peerAssignment list result" where
  "plan_entry initialPeers ids = (\<lambda>(key, value) as.
     bindR (parsePeerId key initialPeers) (\<lambda>sourceIndex.
     case value of
       JArr dests \<Rightarrow> foldR (plan_destination initialPeers ids key sourceIndex) dests as
     | _ \<Rightarrow> Inl (list_error key '' must be an array'')))"

subsection \<open>The planner\<close>

definition plan_edges :: "json \<Rightarrow> string \<Rightarrow> int \<Rightarrow> interfaceId list \<Rightarrow> peerAssignment list \<Rightarrow> peerAssignment list result" where
  "plan_edges topology type initialPeers ids as =
     (if type = ''complete'' then Inr (undirected initialPeers ids (plan_complete (nat initialPeers)) as)
      else if type = ''star'' then Inr (undirected initialPeers ids (plan_star (nat initialPeers)) as)
      else if type = ''grid'' then
        bindR (validateDimensions topology type initialPeers) (\<lambda>(height, width).
        Inr (undirected initialPeers ids (plan_grid (nat height) (nat width)) as))
      else if type = ''torus'' then
        bindR (validateDimensions topology type initialPeers) (\<lambda>(height, width).
        Inr (undirected initialPeers ids (plan_torus (nat height) (nat width)) as))
      else if type = ''chain'' then Inr (undirected initialPeers ids (plan_chain (nat initialPeers)) as)
      else if type = ''ring'' then Inr (undirected initialPeers ids (plan_ring (nat initialPeers)) as)
      else if type = ''unidirectionalRing'' then Inr (directed initialPeers ids (plan_ring (nat initialPeers)) as)
      else if type = ''userList'' then
        (case jfind ''list'' topology of
           Some (JObj entries) \<Rightarrow> foldR (plan_entry initialPeers ids) entries as
         | _ \<Rightarrow> Inl (Runtime_error ''error: topology.list must be an object for userList''))
      else Inl (Runtime_error (''error: missing or unknown topology.type '' @ [CHR 0x27] @ type @ [CHR 0x27])))"

definition finish_plan :: "string \<Rightarrow> peerAssignment list \<Rightarrow> peerAssignment list" where
  "finish_plan type as = map (\<lambda>(k, a). a\<lparr>pa_id := int k, pa_topologyType := type\<rparr>) (zip [0..<length as] as)"

definition buildTopology :: "json \<Rightarrow> rng \<Rightarrow> (peerAssignment list \<times> rng) result" where
  "buildTopology topology g =
     bindR (requiredPositiveInteger topology ''initialPeers'' ''topology.initialPeers'') (\<lambda>initialPeers.
     let as = replicate (nat initialPeers) empty_assignment;
         ids = map int [0..<nat initialPeers] in
     bindR (of_json (value_string topology ''identifiers'' [])) (\<lambda>identifiers.
     let (ids, g) = (if identifiers = ''random'' then shuffle ids g else (ids, g)) in
     bindR (of_json (value_string topology ''type'' [])) (\<lambda>type.
     bindR (plan_edges topology type initialPeers ids as) (\<lambda>as.
     Inr (finish_plan type as, g)))))"

subsection \<open>The neighbours of a plan\<close>

definition planned :: "peerAssignment list \<Rightarrow> interfaceId \<Rightarrow> interfaceId set" where
  "planned as a = set (pa_neighbors (as ! nat a))"

lemma put_neighbor_planned:
  assumes "0 \<le> a" and "nat a < length as" and "0 \<le> c"
  shows "planned (put_neighbor a b as) c = (if c = a then {b} else {}) \<union> planned as c"
  using assms by (auto simp: planned_def put_neighbor_def nth_list_update set_insort_insert eq_nat_nat_iff)

lemma length_put_neighbor [simp]: "length (put_neighbor a b as) = length as"
  by (simp add: put_neighbor_def)

lemma addUndirectedEdge_planned:
  assumes "length as = nat n" and "0 \<le> a" "a < n" "0 \<le> b" "b < n" "0 \<le> c"
  shows "planned (addUndirectedEdge n a b as) c =
      {d. a \<noteq> b \<and> (c = a \<and> d = b \<or> c = b \<and> d = a)} \<union> planned as c"
    and "length (addUndirectedEdge n a b as) = nat n"
  using assms by (auto simp: addUndirectedEdge_def put_neighbor_planned)

lemma addDirectedEdge_planned:
  assumes "length as = nat n" and "0 \<le> a" "a < n" "0 \<le> b" "b < n" "0 \<le> c"
  shows "planned (addDirectedEdge n a b as) c = {d. c = a \<and> d = b} \<union> planned as c"
    and "length (addDirectedEdge n a b as) = nat n"
  using assms by (auto simp: addDirectedEdge_def put_neighbor_planned)

text \<open>\<open>ids\<close> places every identifier at one position.\<close>

definition placement :: "int \<Rightarrow> interfaceId list \<Rightarrow> bool" where
  "placement n ids = (length ids = nat n \<and> distinct ids \<and> (\<forall>a \<in> set ids. 0 \<le> a \<and> a < n))"

lemma placement_nth:
  assumes "placement n ids" and "i < nat n"
  shows "0 \<le> ids ! i" "ids ! i < n" "j < nat n \<Longrightarrow> ids ! i = ids ! j \<longleftrightarrow> i = j"
proof -
  have "ids ! i \<in> set ids" using assms by (simp add: placement_def)
  then show "0 \<le> ids ! i" "ids ! i < n" using assms(1) by (auto simp: placement_def)
  assume "j < nat n"
  then show "ids ! i = ids ! j \<longleftrightarrow> i = j" using assms by (simp add: placement_def nth_eq_iff_index_eq)
qed

lemma undirected_planned:
  assumes "placement n ids" and "\<forall>e \<in> set es. fst e < nat n \<and> snd e < nat n"
    and "length as = nat n" and "k < nat n"
  shows "planned (undirected n ids es as) (ids ! k) =
      {ids ! j |j. k \<noteq> j \<and> ((k, j) \<in> set es \<or> (j, k) \<in> set es)} \<union> planned as (ids ! k)"
    and "length (undirected n ids es as) = nat n"
proof -
  have "planned (undirected n ids es as) (ids ! k) =
      {ids ! j |j. k \<noteq> j \<and> ((k, j) \<in> set es \<or> (j, k) \<in> set es)} \<union> planned as (ids ! k) \<and>
      length (undirected n ids es as) = nat n"
    using assms(2,3)
  proof (induction es arbitrary: as)
    case (Cons e es)
    obtain i j where e: "e = (i, j)" by fastforce
    with Cons.prems have ij: "i < nat n" "j < nat n" by auto
    note p = placement_nth [OF assms(1)]
    note a = addUndirectedEdge_planned [OF Cons.prems(2) p(1,2) [OF ij(1)] p(1,2) [OF ij(2)]]
    have "{d. ids ! i \<noteq> ids ! j \<and> (ids ! k = ids ! i \<and> d = ids ! j \<or> ids ! k = ids ! j \<and> d = ids ! i)} =
        {ids ! l |l. k \<noteq> l \<and> ((k, l) = e \<or> (l, k) = e)}"
      using p(3) [OF ij(1) ij(2)] p(3) [OF assms(4) ij(1)] p(3) [OF assms(4) ij(2)] by (auto simp: e)
    then show ?case
      using Cons.IH [OF _ a(2) [OF order_refl]] Cons.prems(1) a(1) [OF p(1) [OF assms(4)]]
      by (auto simp: undirected_def e)
  qed (simp add: undirected_def)
  then show "planned (undirected n ids es as) (ids ! k) =
      {ids ! j |j. k \<noteq> j \<and> ((k, j) \<in> set es \<or> (j, k) \<in> set es)} \<union> planned as (ids ! k)"
    and "length (undirected n ids es as) = nat n" by simp_all
qed

lemma directed_planned:
  assumes "placement n ids" and "\<forall>e \<in> set es. fst e < nat n \<and> snd e < nat n"
    and "length as = nat n" and "k < nat n"
  shows "planned (directed n ids es as) (ids ! k) = {ids ! j |j. (k, j) \<in> set es} \<union> planned as (ids ! k)"
    and "length (directed n ids es as) = nat n"
proof -
  have "planned (directed n ids es as) (ids ! k) = {ids ! j |j. (k, j) \<in> set es} \<union> planned as (ids ! k) \<and>
      length (directed n ids es as) = nat n"
    using assms(2,3)
  proof (induction es arbitrary: as)
    case (Cons e es)
    obtain i j where e: "e = (i, j)" by fastforce
    with Cons.prems have ij: "i < nat n" "j < nat n" by auto
    note p = placement_nth [OF assms(1)]
    note a = addDirectedEdge_planned [OF Cons.prems(2) p(1,2) [OF ij(1)] p(1,2) [OF ij(2)]]
    have "{d. ids ! k = ids ! i \<and> d = ids ! j} = {ids ! l |l. (k, l) = e}"
      using p(3) [OF assms(4) ij(1)] by (auto simp: e)
    then show ?case
      using Cons.IH [OF _ a(2) [OF order_refl]] Cons.prems(1) a(1) [OF p(1) [OF assms(4)]]
      by (auto simp: directed_def e)
  qed (simp add: directed_def)
  then show "planned (directed n ids es as) (ids ! k) = {ids ! j |j. (k, j) \<in> set es} \<union> planned as (ids ! k)"
    and "length (directed n ids es as) = nat n" by simp_all
qed

subsection \<open>The plans link what the network links\<close>

definition sym_of :: "(nat \<times> nat) list \<Rightarrow> nat \<Rightarrow> nat \<Rightarrow> bool" where
  "sym_of es i j = (i \<noteq> j \<and> ((i, j) \<in> set es \<or> (j, i) \<in> set es))"

lemma plan_complete_sym: "sym_of (plan_complete n) i j \<longleftrightarrow> i < n \<and> j < n \<and> i \<noteq> j"
proof -
  have "(i, j) \<in> set (plan_complete n) \<longleftrightarrow> i < j \<and> j < n" for i j
    by (auto simp: plan_complete_def image_iff)
  then show ?thesis by (auto simp: sym_of_def)
qed

lemma plan_star_sym: "sym_of (plan_star n) i j \<longleftrightarrow> i < n \<and> j < n \<and> (i = 0) \<noteq> (j = 0)"
  by (auto simp: sym_of_def plan_star_def)

lemma plan_chain_sym: "sym_of (plan_chain n) i j \<longleftrightarrow> i < n \<and> j < n \<and> (j = i + 1 \<or> i = j + 1)"
  by (auto simp: sym_of_def plan_chain_def)

lemma plan_ring_sym:
  "sym_of (plan_ring n) i j \<longleftrightarrow> i < n \<and> j < n \<and> i \<noteq> j \<and> (j = (i + 1) mod n \<or> i = (j + 1) mod n)"
  by (auto simp: sym_of_def plan_ring_def)

lemma plan_grid_elem:
  "(x, y) \<in> set (plan_grid h w) \<longleftrightarrow>
     (\<exists>i < h. \<exists>j < w. let idx = i * w + j in
        j + 1 < w \<and> x = idx \<and> y = idx + 1 \<or> i + 1 < h \<and> x = idx \<and> y = idx + w)"
  unfolding plan_grid_def Let_def set_double_loop by (intro ex_cong1 conj_cong refl) auto

lemma plan_torus_elem:
  "(x, y) \<in> set (plan_torus h w) \<longleftrightarrow>
     (\<exists>i < h. \<exists>j < w. let idx = i * w + j in
        x = idx \<and> y = i * w + ((j + 1) mod w) \<or> x = idx \<and> y = ((i + 1) mod h) * w + j)"
  unfolding plan_torus_def Let_def set_double_loop by (intro ex_cong1 conj_cong refl) auto

lemma plan_grid_sym: "sym_of (plan_grid h w) x y \<longleftrightarrow> x < h * w \<and> y < h * w \<and> grid_adjacent w x y"
proof -
  have "(x, y) \<in> set (plan_grid h w) \<or> (y, x) \<in> set (plan_grid h w) \<longleftrightarrow> (x, y) \<in> set (grid_edges h w)"
    unfolding plan_grid_elem grid_edges_elem Let_def by blast
  moreover have "grid_adjacent w x y \<Longrightarrow> x \<noteq> y" by (auto simp: grid_adjacent_def)
  ultimately show ?thesis by (auto simp: sym_of_def grid_edges_iff)
qed

lemma plan_torus_sym:
  assumes "2 \<le> h" and "2 \<le> w"
  shows "sym_of (plan_torus h w) x y \<longleftrightarrow> x < h * w \<and> y < h * w \<and> torus_adjacent h w x y"
proof -
  have "(x, y) \<in> set (plan_torus h w) \<or> (y, x) \<in> set (plan_torus h w) \<longleftrightarrow> (x, y) \<in> set (torus_edges h w)"
    unfolding plan_torus_elem torus_edges_elem Let_def by blast
  moreover have "x \<noteq> y" if "x < h * w" "torus_adjacent h w x y"
  proof -
    have step: "(a + 1) mod m \<noteq> a" if "2 \<le> m" "a < m" for a m :: nat
      using that by (cases "a + 1 = m") auto
    have "x mod w < w" "x div w < h" using assms that(1) by (auto intro: less_mult_imp_div_less)
    then show ?thesis using step [OF assms(1)] step [OF assms(2)] that(2) by (auto simp: torus_adjacent_def)
  qed
  ultimately show ?thesis by (auto simp: sym_of_def torus_edges_iff)
qed

lemma sym_of_range:
  assumes "\<And>i j. sym_of es i j \<Longrightarrow> i < n \<and> j < n" and "\<And>i. (i, i) \<in> set es \<Longrightarrow> i < n"
  shows "\<forall>e \<in> set es. fst e < n \<and> snd e < n"
proof -
  have "a < n \<and> b < n" if "(a, b) \<in> set es" for a b
    using assms(1) [of a b] assms(2) [of a] that by (cases "a = b") (auto simp: sym_of_def)
  then show ?thesis by auto
qed

lemma undirected_plan:
  assumes "placement n ids" and "k < nat n" and "\<And>i j. sym_of es i j \<longleftrightarrow> P i j"
    and "\<And>i j. P i j \<Longrightarrow> i < nat n \<and> j < nat n" and "\<And>i. (i, i) \<in> set es \<Longrightarrow> i < nat n"
  shows "planned (undirected n ids es (replicate (nat n) empty_assignment)) (ids ! k) = {ids ! j |j. P k j}"
    and "length (undirected n ids es (replicate (nat n) empty_assignment)) = nat n"
proof -
  have r: "\<forall>e \<in> set es. fst e < nat n \<and> snd e < nat n"
    by (rule sym_of_range) (use assms(3-5) in blast)+
  have "nat (ids ! k) < nat n" using placement_nth(1,2) [OF assms(1,2)] by simp
  then have "planned (replicate (nat n) empty_assignment) (ids ! k) = {}"
    by (simp add: planned_def empty_assignment_def)
  then show "planned (undirected n ids es (replicate (nat n) empty_assignment)) (ids ! k) = {ids ! j |j. P k j}"
    and "length (undirected n ids es (replicate (nat n) empty_assignment)) = nat n"
    using undirected_planned [OF assms(1) r _ assms(2), of "replicate (nat n) empty_assignment"] assms(3)
    by (simp_all add: sym_of_def)
qed

lemma plan_loops:
  "(i, i) \<in> set (plan_complete n) \<Longrightarrow> i < n" "(i, i) \<in> set (plan_star n) \<Longrightarrow> i < n"
  "(i, i) \<in> set (plan_chain n) \<Longrightarrow> i < n" "(i, i) \<in> set (plan_ring n) \<Longrightarrow> i < n"
  by (auto simp: plan_complete_def plan_star_def plan_chain_def plan_ring_def)

lemma plan_dim_loops:
  "(i, i) \<in> set (plan_grid h w) \<Longrightarrow> i < h * w" "(i, i) \<in> set (plan_torus h w) \<Longrightarrow> i < h * w"
  using grid_index(3) by (auto simp: plan_grid_elem plan_torus_elem Let_def)

lemma validateDimensions_Inr:
  assumes "validateDimensions topo t n = Inr (h, w)"
  shows "h * w = n \<and> 0 < h \<and> 0 < w \<and> (t = ''torus'' \<longrightarrow> 2 \<le> h \<and> 2 \<le> w) \<and>
    (\<exists>a b. jfind ''height'' topo = Some (JInt a) \<and> h = to_int32 a \<and> jfind ''width'' topo = Some (JInt b) \<and> w = to_int32 b)"
  using assms by (auto simp: validateDimensions_def monad requiredPositiveInteger_Inr split: if_splits)

text \<open>One case per topology: the plan has the adjacency of the network's builder.\<close>

lemma plan_edges_adjacent:
  assumes run: "plan_edges topo t n ids (replicate (nat n) empty_assignment) = Inr as"
    and ids: "placement n ids" and k: "k < nat n" and t: "t \<noteq> ''userList''"
    and one: "t = ''unidirectionalRing'' \<Longrightarrow> n \<noteq> 1"
    and dims: "\<And>h' w'. t = ''grid'' \<or> t = ''torus'' \<Longrightarrow> validateDimensions topo t n = Inr (h', w') \<Longrightarrow> h' = h \<and> w' = w"
  shows "planned as (ids ! k) = {ids ! j |j. adjacent t (nat n) (nat h) (nat w) k j} \<and> length as = nat n"
proof -
  note u = undirected_plan [OF ids k]
  consider "t = ''complete''" | "t = ''star''" | "t = ''grid''" | "t = ''torus''" | "t = ''chain''" | "t = ''ring''"
    | "t = ''unidirectionalRing''"
    using run t unfolding plan_edges_def by (metis Inl_Inr_False)
  then show ?thesis
  proof cases
    case 1
    show ?thesis using run u [OF plan_complete_sym _ plan_loops(1)] unfolding 1
      by (simp add: plan_edges_def adjacent_def) blast
  next
    case 2
    show ?thesis using run u [OF plan_star_sym _ plan_loops(2)] unfolding 2
      by (simp add: plan_edges_def adjacent_def) blast
  next
    case 3
    from run obtain h' w' where v: "validateDimensions topo t n = Inr (h', w')"
      and as: "as = undirected n ids (plan_grid (nat h') (nat w')) (replicate (nat n) empty_assignment)"
      by (auto simp: plan_edges_def 3 monad)
    have hw: "h' = h" "w' = w" using dims [OF _ v] 3 by simp_all
    have n: "nat n = nat h * nat w" using validateDimensions_Inr [OF v] by (auto simp: hw nat_mult_distrib)
    show ?thesis using u [OF plan_grid_sym [of "nat h" "nat w"]] plan_dim_loops(1) [of _ "nat h" "nat w"]
      by (simp add: as hw 3 adjacent_def n)
  next
    case 4
    from run obtain h' w' where v: "validateDimensions topo t n = Inr (h', w')"
      and as: "as = undirected n ids (plan_torus (nat h') (nat w')) (replicate (nat n) empty_assignment)"
      by (auto simp: plan_edges_def 4 monad)
    have hw: "h' = h" "w' = w" using dims [OF _ v] 4 by simp_all
    have n: "nat n = nat h * nat w" and two: "2 \<le> nat h" "2 \<le> nat w"
      using validateDimensions_Inr [OF v] 4 by (auto simp: hw nat_mult_distrib)
    show ?thesis using u [OF plan_torus_sym [OF two]] plan_dim_loops(2) [of _ "nat h" "nat w"]
      by (simp add: as hw 4 adjacent_def n)
  next
    case 5
    show ?thesis using run u [OF plan_chain_sym _ plan_loops(3)] unfolding 5
      by (simp add: plan_edges_def adjacent_def) blast
  next
    case 6
    show ?thesis using run u [OF plan_ring_sym _ plan_loops(4)] unfolding 6
      by (simp add: plan_edges_def adjacent_def) blast
  next
    case 7
    have r: "\<forall>e \<in> set (plan_ring (nat n)). fst e < nat n \<and> snd e < nat n" by (auto simp: plan_ring_def)
    have as: "as = directed n ids (plan_ring (nat n)) (replicate (nat n) empty_assignment)"
      using run by (simp add: plan_edges_def 7)
    have "nat (ids ! k) < nat n" using placement_nth(1,2) [OF ids k] by simp
    then have e: "planned (replicate (nat n) empty_assignment) (ids ! k) = {}"
      by (simp add: planned_def empty_assignment_def)
    have "k \<noteq> (k + 1) mod nat n" using one [OF 7] k by (cases "k + 1 = nat n") auto
    then have "(k, j) \<in> set (plan_ring (nat n)) \<longleftrightarrow> adjacent t (nat n) (nat h) (nat w) k j" for j
      using k by (auto simp: plan_ring_def adjacent_def 7)
    then show ?thesis using directed_planned [OF ids r _ k, of "replicate (nat n) empty_assignment"] e as by simp
  qed
qed

lemma finish_plan_planned:
  assumes "0 \<le> a" and "nat a < length as"
  shows "planned (finish_plan t as) a = planned as a" and "pa_id (finish_plan t as ! nat a) = a"
    and "pa_topologyType (finish_plan t as ! nat a) = t" and "length (finish_plan t as) = length as"
  using assms by (simp_all add: planned_def finish_plan_def)

text \<open>What a successful plan consists of.\<close>

lemma buildTopology_plan:
  assumes "buildTopology topo g = Inr (as, g')"
    and "value_string topo ''type'' [] = Some t" and "value_string topo ''identifiers'' [] = Some idents"
    and "value_int topo ''initialPeers'' 0 = Some n" and "- (2 ^ 31) \<le> n \<and> n < 2 ^ 31"
  obtains ids bs where "placement n ids" "idents \<noteq> ''random'' \<longrightarrow> ids = map int [0..<nat n]" "0 < n" "is_object topo"
    "plan_edges topo t n ids (replicate (nat n) empty_assignment) = Inr bs" "as = finish_plan t bs"
proof -
  have obj: "is_object topo" using assms(4) by (auto simp: value_with_def split: if_splits)
  from assms(1) obtain m where m: "requiredPositiveInteger topo ''initialPeers'' ''topology.initialPeers'' = Inr m"
    by (auto simp: buildTopology_def monad)
  have mn: "m = n" "0 < n" using m assms(4,5) obj by (auto simp: requiredPositiveInteger_Inr value_with_def to_int32_id)
  define ids where "ids = (if idents = ''random'' then fst (shuffle (map int [0..<nat n]) g) else map int [0..<nat n])"
  from assms(1) obtain bs where pe: "plan_edges topo t n ids (replicate (nat n) empty_assignment) = Inr bs"
    and as: "as = finish_plan t bs"
    by (cases "idents = ''random''") (auto simp: buildTopology_def monad m mn assms(2,3) ids_def Let_def split: prod.splits)
  have mset: "mset ids = mset (map int [0..<nat n])" by (simp add: ids_def)
  have "placement n ids"
    unfolding placement_def using mset_eq_length [OF mset] mset_eq_imp_distinct_iff [OF mset] mset_eq_setD [OF mset]
    by (auto simp: distinct_map)
  with pe as mn(2) obj show thesis by (intro that [of ids bs]) (simp_all add: ids_def)
qed

lemma validateDimensions_values:
  assumes "validateDimensions topo t n = Inr (h', w')" and "is_object topo"
    and "value_int topo ''height'' 1 = Some h" and "value_int topo ''width'' 1 = Some w"
    and "- (2 ^ 31) \<le> h \<and> h < 2 ^ 31" and "- (2 ^ 31) \<le> w \<and> w < 2 ^ 31"
  shows "h' = h \<and> w' = w"
  using validateDimensions_Inr [OF assms(1)] assms(2-6) by (auto simp: value_with_def to_int32_id)

definition example_plan :: "string \<Rightarrow> int \<Rightarrow> json" where
  "example_plan t n = JObj [(''initialPeers'', JInt n), (''type'', JStr t)]"

lemma example_plan_value:
  "value_string (example_plan t n) ''type'' [] = Some t"
  "value_string (example_plan t n) ''identifiers'' [] = Some []"
  "value_int (example_plan t n) ''initialPeers'' 0 = Some n"
  "value_int (example_plan t n) ''height'' 1 = Some 1"
  "value_int (example_plan t n) ''width'' 1 = Some 1"
  "requiredPositiveInteger (example_plan t n) ''initialPeers'' p = (if to_int32 n \<le> 0 then
     Inl (Runtime_error (''error: '' @ p @ '' must be > 0'')) else Inr (to_int32 n))"
  by (simp_all add: example_plan_def value_with_def requiredPositiveInteger_def)

lemma example_plan_chain:
  "\<exists>as. buildTopology (example_plan ''chain'' 3) g = Inr (as, g)"
  by (simp add: buildTopology_def example_plan_value to_int32_def plan_edges_def)

text \<open>
  A unidirectional ring of one peer differs: the planner makes the one peer of a unidirectional ring its own
  neighbour (\<open>addDirectedEdge\<close> has no check against equal ends), and the network leaves it without one.
\<close>

theorem one_peer_ring_differs:
  "\<exists>as. buildTopology (example_plan ''unidirectionalRing'' 1) g = Inr (as, g) \<and> pa_neighbors (as ! 0) = [0] \<and>
     unidirectionalRing_edges 1 = []"
  by (simp add: buildTopology_def example_plan_value to_int32_def plan_edges_def directed_def plan_ring_def
      addDirectedEdge_def put_neighbor_def empty_assignment_def finish_plan_def insort_insert_key_def
      unidirectionalRing_edges_def)

subsection \<open>Keys of the user's list\<close>

lemma of_char_digit: "d < 10 \<Longrightarrow> (of_char (char_of (48 + d) :: char) :: nat) = 48 + d"
  by (simp add: of_char_of)

lemma is_digit_char: "d < 10 \<Longrightarrow> is_digit (char_of (48 + d :: nat))"
  using of_char_digit [of d] by (simp add: is_digit_def)

lemma to_string_digits: "list_all is_digit (to_string n)" "to_string n \<noteq> []"
proof (induction n rule: to_string.induct)
  case (1 n)
  {
    case 1
    show ?case using "1.IH" is_digit_char [of n] is_digit_char [of "n mod 10"]
      by (subst to_string.simps) simp
  next
    case 2
    then show ?case by (subst to_string.simps) simp
  }
qed

lemma digits_value_snoc: "digits_value (ds @ [c]) = 10 * digits_value ds + (of_char c - 48)"
  by (simp add: digits_value_def)

lemma of_char_digit_int: "d < 10 \<Longrightarrow> (of_char (char_of (48 + d) :: char) :: int) = 48 + int d"
  using of_char_digit [of d] of_nat_of_char [of "char_of (48 + d)", where 'a = int]
  by (simp del: of_nat_of_char)

lemma digits_value_to_string: "digits_value (to_string n) = int n"
proof (induction n rule: to_string.induct)
  case (1 n)
  show ?case
  proof (cases "n < 10")
    case True
    then show ?thesis by (subst to_string.simps) (simp add: digits_value_def of_char_digit_int)
  next
    case False
    have "digits_value (to_string n) = 10 * int (n div 10) + int (n mod 10)"
      using 1 False by (subst to_string.simps) (simp add: digits_value_snoc of_char_digit_int)
    then show ?thesis by (simp add: zmod_int zdiv_int)
  qed
qed

lemma digit_not_blank: "is_digit c \<Longrightarrow> \<not> is_space c \<and> c \<noteq> CHR ''-'' \<and> c \<noteq> CHR ''+''"
  by (auto simp: is_digit_def is_space_def)

lemma stoll_to_string:
  assumes "int m < 2 ^ 63"
  shows "stoll (to_string m) = Some (int m, length (to_string m))"
proof -
  obtain c cs where s: "to_string m = c # cs" using to_string_digits(2) [of m] by (cases "to_string m") auto
  have all: "\<forall>c \<in> set (to_string m). is_digit c" using to_string_digits(1) [of m] by (simp add: list_all_iff)
  then have c: "\<not> is_space c" "c \<noteq> CHR ''-''" "c \<noteq> CHR ''+''" using digit_not_blank [of c] by (simp_all add: s)
  have tw: "takeWhile is_digit (to_string m) = to_string m" using all by (simp add: takeWhile_eq_all_conv)
  have "takeWhile is_space (to_string m) = []" "dropWhile is_space (to_string m) = to_string m"
    using c by (simp_all add: s)
  then show ?thesis
    using c assms tw digits_value_to_string [of m] to_string_digits(2) [of m]
    by (simp add: stoll_def Let_def s)
qed

text \<open>
  Claim C11. The keys of a user's topology list are read exactly: a key is accepted as peer \<open>k\<close> if and
  only if it is the decimal numeral of \<open>k\<close> and \<open>k\<close> is a peer; signs, blanks, leading zeros and trailing
  characters are refused.
\<close>

theorem parsePeerId_exact:
  assumes "n < 2 ^ 31"
  shows "parsePeerId key n = Inr k \<longleftrightarrow> 0 \<le> k \<and> k < n \<and> key = to_string (nat k)"
proof
  assume "0 \<le> k \<and> k < n \<and> key = to_string (nat k)"
  moreover from this have "stoll key = Some (k, length key)" using stoll_to_string [of "nat k"] assms by simp
  ultimately show "parsePeerId key n = Inr k" by (simp add: parsePeerId_def int_to_string_def)
next
  assume "parsePeerId key n = Inr k"
  then show "0 \<le> k \<and> k < n \<and> key = to_string (nat k)"
    by (auto simp: parsePeerId_def int_to_string_def split: option.splits if_splits prod.splits)
qed

theorem parsePeerId_exact_witness: "parsePeerId ''7'' 10 = Inr 7"
  using parsePeerId_exact [of 10 "''7''" 7] by (simp add: to_string.simps char_of_def bit_0)

lemma plan_destination_Inr:
  assumes "plan_destination n ids key src dest as = Inr as'"
  shows "\<exists>d. dest = JInt d \<and> 0 \<le> d \<and> d < n \<and> d \<noteq> src \<and> as' = addDirectedEdge n (ids ! nat src) (ids ! nat d) as"
  using assms by (auto simp: plan_destination_def split: json.splits if_splits)

text \<open>
  A plan from a user's list has only links between distinct existing peers, whatever the list
  says: anything else is refused.
\<close>

theorem userList_plan_sound:
  assumes "plan_edges topo ''userList'' n ids (replicate (nat n) empty_assignment) = Inr as"
    and "placement n ids" and "n < 2 ^ 31" and "0 \<le> a" and "a < n" and "b \<in> planned as a"
  shows "0 \<le> b \<and> b < n \<and> b \<noteq> a"
proof -
  let ?I = "\<lambda>as. length as = nat n \<and> (\<forall>a b. 0 \<le> a \<and> a < n \<and> b \<in> planned as a \<longrightarrow> 0 \<le> b \<and> b < n \<and> b \<noteq> a)"
  from assms(1) obtain entries where run: "foldR (plan_entry n ids) entries (replicate (nat n) empty_assignment) = Inr as"
    by (auto simp: plan_edges_def split: option.splits json.splits)
  have step: "?I as'" if "plan_destination n ids key src dest as = Inr as'" "?I as" "0 \<le> src" "src < n" for key src dest as as'
  proof -
    from plan_destination_Inr [OF that(1)] obtain d where d: "0 \<le> d" "d < n" "d \<noteq> src"
      "as' = addDirectedEdge n (ids ! nat src) (ids ! nat d) as" by blast
    have src: "nat src < nat n" and dd: "nat d < nat n" using d that(3,4) by simp_all
    note p = placement_nth(1,2) [OF assms(2) src] placement_nth(1,2) [OF assms(2) dd]
    have ne: "ids ! nat d \<noteq> ids ! nat src"
      using placement_nth(3) [OF assms(2) dd src] d(1,3) that(3) by (simp add: eq_nat_nat_iff)
    have len: "length as = nat n" using that(2) by blast
    note e = addDirectedEdge_planned [OF len p]
    show ?thesis unfolding d(4)
    proof (intro conjI allI impI)
      show "length (addDirectedEdge n (ids ! nat src) (ids ! nat d) as) = nat n" by (rule e(2) [OF order_refl])
      fix a b assume ab: "0 \<le> a \<and> a < n \<and> b \<in> planned (addDirectedEdge n (ids ! nat src) (ids ! nat d) as) a"
      then consider "a = ids ! nat src" "b = ids ! nat d" | "b \<in> planned as a" using e(1) [of a] by auto
      then have "0 \<le> b \<and> b < n \<and> b \<noteq> a"
      proof cases
        case 2
        then show ?thesis using that(2) ab by blast
      qed (simp add: p ne)
      then show "0 \<le> b" "b < n" "b \<noteq> a" by blast+
    qed
  qed
  have entry: "?I as'" if e: "plan_entry n ids e as = Inr as'" and i: "?I as" for e as as'
  proof -
    obtain key v where kv: "e = (key, v)" by fastforce
    from e obtain src dests where src: "parsePeerId key n = Inr src"
      and run: "foldR (plan_destination n ids key src) dests as = Inr as'"
      by (cases v) (auto simp: plan_entry_def kv monad)
    have s: "0 \<le> src" "src < n" using src
      by (auto simp: parsePeerId_def split: option.splits if_splits prod.splits)
    show ?thesis by (rule foldR_invariant [where I = ?I, OF run i]) (rule step [OF _ _ s])
  qed
  have "?I as"
  proof (rule foldR_invariant [where I = ?I, OF run])
    show "?I (replicate (nat n) empty_assignment)" by (auto simp: planned_def empty_assignment_def)
  qed (rule entry)
  then show ?thesis using assms(4-6) by blast
qed

lemma char_0: "char_of (48 :: nat) = CHR ''0''"
  by (simp add: char_of_def bit_0)

lemma example_userList:
  "\<exists>as. plan_edges (JObj [(''list'', JObj [(''0'', JArr [JInt 1])])]) ''userList'' 2 [0, 1]
     (replicate (nat 2) empty_assignment) = Inr as \<and> 1 \<in> planned as 0"
  by (simp add: plan_edges_def plan_entry_def parsePeerId_def stoll_def is_space_def is_digit_def digits_value_def
      int_to_string_def to_string.simps plan_destination_def addDirectedEdge_def put_neighbor_def planned_def
      numeral_2_eq_2 set_insort_insert char_0)

theorem userList_plan_sound_witness:
  "\<exists>as. plan_edges (JObj [(''list'', JObj [(''0'', JArr [JInt 1])])]) ''userList'' 2 [0, 1]
     (replicate (nat 2) empty_assignment) = Inr as \<and> 1 \<in> planned as 0 \<and> (0 \<le> (1::int) \<and> (1::int) < 2 \<and> (1::int) \<noteq> 0)"
proof -
  from example_userList obtain as where as: "plan_edges (JObj [(''list'', JObj [(''0'', JArr [JInt 1])])]) ''userList'' 2 [0, 1]
     (replicate (nat 2) empty_assignment) = Inr as" "1 \<in> planned as 0" by blast
  have "placement 2 [0, 1]" by (simp add: placement_def)
  from userList_plan_sound [OF as(1) this _ _ _ as(2)] show ?thesis using as by auto
qed

subsection \<open>The planner and the abstract network agree\<close>

lemma to_string_inject: "to_string a = to_string b \<longleftrightarrow> a = b"
  by (metis digits_value_to_string of_nat_eq_iff)

text \<open>The peers that a user's list names as the neighbours of peer \<open>k\<close>.\<close>

definition user_targets :: "(string \<times> json) list \<Rightarrow> nat \<Rightarrow> interfaceId set" where
  "user_targets kvs k = {d. \<exists>xs. map_of kvs (to_string k) = Some (JArr xs) \<and> JInt d \<in> set xs}"

definition plain_list :: "(string \<times> json) list \<Rightarrow> bool" where
  "plain_list kvs = (\<forall>(key, v) \<in> set kvs. \<exists>ds. v = JArr (map JInt ds))"

lemma user_targets_other: "to_string k \<notin> fst ` set kvs \<Longrightarrow> user_targets kvs k = {}"
  by (auto simp: user_targets_def dest!: map_of_SomeD intro: rev_image_eqI)

lemma plan_destinations:
  assumes "foldR (plan_destination n ids key src) dests as = Inr bs" and "ids = map int [0..<nat n]"
    and "length as = nat n" and "0 \<le> src" and "src < n"
  shows "length bs = nat n \<and> (\<exists>ds. dests = map JInt ds \<and>
    (\<forall>k < nat n. planned bs (int k) = planned as (int k) \<union> (if int k = src then set ds else {})))"
  using assms(1,3)
proof (induction dests arbitrary: as)
  case (Cons x dests)
  from Cons.prems(1) obtain as1 where 1: "plan_destination n ids key src x as = Inr as1"
    and r: "foldR (plan_destination n ids key src) dests as1 = Inr bs" by (auto simp: monad)
  from plan_destination_Inr [OF 1] obtain d where d: "x = JInt d" "0 \<le> d" "d < n"
    and as1: "as1 = addDirectedEdge n src d as" using assms(2,4,5) by auto
  note e = addDirectedEdge_planned [OF Cons.prems(2) assms(4,5) d(2,3)]
  have len: "length as1 = nat n" unfolding as1 by (rule e(2) [of 0]) simp
  from Cons.IH [OF r len] obtain ds where
    ds: "length bs = nat n" "dests = map JInt ds"
      "\<forall>k < nat n. planned bs (int k) = planned as1 (int k) \<union> (if int k = src then set ds else {})" by blast
  have "planned as1 (int k) = {e. int k = src \<and> e = d} \<union> planned as (int k)" for k
    unfolding as1 by (rule e(1)) simp
  then show ?case using ds d(1) by (intro conjI exI [of _ "d # ds"]) auto
qed simp

lemma plan_entries:
  assumes "foldR (plan_entry n ids) kvs as = Inr bs" and "ids = map int [0..<nat n]"
    and "length as = nat n" and "distinct (map fst kvs)"
  shows "length bs = nat n \<and> plain_list kvs \<and> (\<forall>k < nat n. planned bs (int k) = planned as (int k) \<union> user_targets kvs k)"
  using assms(1,3,4)
proof (induction kvs arbitrary: as)
  case Nil
  then show ?case by (auto simp: plain_list_def user_targets_def)
next
  case (Cons e kvs)
  obtain key v where e: "e = (key, v)" by fastforce
  from Cons.prems(1) obtain as1 where 1: "plan_entry n ids (key, v) as = Inr as1"
    and r: "foldR (plan_entry n ids) kvs as1 = Inr bs" by (auto simp: monad e)
  from 1 obtain src dests where src: "parsePeerId key n = Inr src" and v: "v = JArr dests"
    and run: "foldR (plan_destination n ids key src) dests as = Inr as1"
    by (cases v) (auto simp: plan_entry_def monad)
  have s: "0 \<le> src" "src < n" "key = to_string (nat src)"
    using src by (auto simp: parsePeerId_def int_to_string_def split: option.splits if_splits prod.splits)
  from plan_destinations [OF run assms(2) Cons.prems(2) s(1,2)] obtain ds where
    len: "length as1 = nat n" and ds: "dests = map JInt ds"
    and p: "\<forall>k < nat n. planned as1 (int k) = planned as (int k) \<union> (if int k = src then set ds else {})" by blast
  have other: "user_targets kvs (nat src) = {}"
    using Cons.prems(3) by (intro user_targets_other) (auto simp: e s(3))
  have "user_targets (e # kvs) k = (if int k = src then set ds else {}) \<union> user_targets kvs k" for k
  proof (cases "int k = src")
    case True
    then have k: "nat src = k" by auto
    then show ?thesis using other True by (auto simp: user_targets_def e s(3) v ds)
  next
    case False
    then have "to_string k \<noteq> key" using s(1) by (auto simp: s(3) to_string_inject)
    then show ?thesis using False by (simp add: user_targets_def e)
  qed
  then show ?case
    using Cons.IH [OF r len] Cons.prems(3) p by (auto simp: plain_list_def e v ds)
qed

text \<open>The network's loop over the same list.\<close>

definition add_named :: "nat \<Rightarrow> json \<Rightarrow> 'p node list \<Rightarrow> 'p node list option" where
  "add_named i dest ps = do { d \<leftarrow> get_id dest; if i < length ps then Some (ps[i := nd_addNeighbor d (ps ! i)]) else None }"

lemma add_listed:
  assumes "i < length ps"
  shows "\<exists>qs. foldM (add_named i) (map JInt ds) ps = Some qs \<and> length qs = length ps \<and>
    (\<forall>k < length ps. nbrs (qs ! k) = nbrs (ps ! k) \<union> (if k = i then set ds else {}))"
  using assms
proof (induction ds arbitrary: ps)
  case (Cons d ds)
  let ?ps = "ps[i := nd_addNeighbor d (ps ! i)]"
  have n: "nbrs (?ps ! k) = nbrs (ps ! k) \<union> (if k = i then {d} else {})" if "k < length ps" for k
    using that by (simp add: nth_list_update nd_addNeighbor_def addNeighbor_def set_insort_insert)
  have "i < length ?ps" using Cons.prems by simp
  from Cons.IH [OF this] obtain qs where q: "foldM (add_named i) (map JInt ds) ?ps = Some qs" "length qs = length ?ps"
    "\<forall>k < length ?ps. nbrs (qs ! k) = nbrs (?ps ! k) \<union> (if k = i then set ds else {})" by blast
  have "nbrs (qs ! k) = nbrs (ps ! k) \<union> (if k = i then set (d # ds) else {})" if k: "k < length ps" for k
  proof -
    have "nbrs (qs ! k) = nbrs (?ps ! k) \<union> (if k = i then set ds else {})" using q(3) k by simp
    then show ?thesis unfolding n [OF k] by auto
  qed
  moreover have "foldM (add_named i) (map JInt (d # ds)) ps = Some qs"
    using q(1) Cons.prems by (simp add: add_named_def)
  moreover have "length qs = length ps" using q(2) by simp
  ultimately show ?case by blast
qed simp

lemma userList_peer_nbrs:
  assumes "plain_list kvs" and "i < length ps"
  shows "\<exists>qs. userList_peer (JObj kvs) i ps = Some qs \<and> length qs = length ps \<and>
    (\<forall>k < length ps. nbrs (qs ! k) = nbrs (ps ! k) \<union> (if k = i then user_targets kvs i else {}))"
proof (cases "map_of kvs (to_string i)")
  case (Some v)
  from map_of_SomeD [OF Some] assms(1) obtain ds where v: "v = JArr (map JInt ds)"
    unfolding plain_list_def by blast
  have "user_targets kvs i = set ds" using Some by (auto simp: user_targets_def v)
  moreover have "userList_peer (JObj kvs) i ps = foldM (add_named i) (map JInt ds) ps"
    using Some by (simp add: userList_peer_def v add_named_def [abs_def])
  ultimately show ?thesis using add_listed [OF assms(2), of ds] by (simp only:)
qed (auto simp: userList_peer_def user_targets_def)

lemma userList_nbrs:
  assumes "plain_list kvs" and "m \<le> length ps"
  shows "\<exists>qs. foldM (userList_peer (JObj kvs)) [0..<m] ps = Some qs \<and> length qs = length ps \<and>
    (\<forall>k < length ps. nbrs (qs ! k) = nbrs (ps ! k) \<union> (if k < m then user_targets kvs k else {}))"
  using assms(2)
proof (induction m)
  case (Suc m)
  then obtain q where q: "foldM (userList_peer (JObj kvs)) [0..<m] ps = Some q" "length q = length ps"
    "\<forall>k < length ps. nbrs (q ! k) = nbrs (ps ! k) \<union> (if k < m then user_targets kvs k else {})" by auto
  have m: "m < length q" using Suc.prems q(2) by simp
  from userList_peer_nbrs [OF assms(1) m] obtain qs where
    qs: "userList_peer (JObj kvs) m q = Some qs" "length qs = length q"
      "\<forall>k < length q. nbrs (qs ! k) = nbrs (q ! k) \<union> (if k = m then user_targets kvs m else {})" by blast
  have "foldM (userList_peer (JObj kvs)) [0..<Suc m] ps = Some qs" using q(1) qs(1) by (simp add: foldM_append)
  then show ?case using q(2,3) qs(2,3) by (intro exI [of _ qs]) (auto simp: less_Suc_eq)
qed simp

lemma add_edges_total:
  assumes "\<forall>(i, j) \<in> set es. i < length ps \<and> j < length ps"
  shows "\<exists>qs. add_edges es ps = Some qs"
  using assms
proof (induction es arbitrary: ps)
  case (Cons e es)
  obtain i j where e: "e = (i, j)" by fastforce
  let ?ps = "ps[i := nd_addNeighbor (internalId (ps ! j)) (ps ! i)]"
  have "\<forall>(i, j) \<in> set es. i < length ?ps \<and> j < length ?ps" using Cons.prems by simp
  from Cons.IH [OF this] show ?case using Cons.prems by (simp add: add_edges_def add_edge_def e)
qed (simp add: add_edges_def)

lemma adjacent_range:
  assumes "adjacent t n h w i j" and "t = ''grid'' \<or> t = ''torus'' \<Longrightarrow> h * w = n"
  shows "i < n \<and> j < n"
  using assms unfolding adjacent_def by (auto split: if_split_asm)

lemma built_topology:
  assumes t: "value_string topo ''type'' [] = Some t" "t \<noteq> ''userList''"
    and hw: "value_int topo ''height'' 1 = Some h" "value_int topo ''width'' 1 = Some w"
    and n: "t = ''grid'' \<or> t = ''torus'' \<Longrightarrow> nat h * nat w = n"
    and ps: "map internalId ps = ids" "length ids = n" "\<forall>p \<in> set ps. nbrs p = {}"
  shows "\<exists>qs. build_topology topo n ps = Some qs \<and>
    (\<forall>k < n. nbrs (qs ! k) = {ids ! j |j. adjacent t n (nat h) (nat w) k j})"
proof -
  let ?es = "topology_edges t n (nat h) (nat w)"
  have len: "length ps = n" using ps by auto
  have id: "internalId (ps ! j) = ids ! j" if "j < n" for j using that len by (simp add: ps(1) [symmetric])
  have range: "i < n \<and> j < n" if "adjacent t n (nat h) (nat w) i j" for i j
    using that n by (rule adjacent_range)
  then have "\<forall>(i, j) \<in> set ?es. i < length ps \<and> j < length ps" by (auto simp: topology_edges_iff len)
  from add_edges_total [OF this] obtain qs where qs: "add_edges ?es ps = Some qs" by blast
  have "nbrs (qs ! k) = {ids ! j |j. adjacent t n (nat h) (nat w) k j}" if k: "k < n" for k
  proof -
    have "nbrs (ps ! k) = {}" using ps(3) k len by simp
    moreover have "edge_targets ?es (\<lambda>j. internalId (ps ! j)) k = {ids ! j |j. adjacent t n (nat h) (nat w) k j}"
      unfolding edge_targets_def topology_edges_iff using id range by metis
    ultimately show ?thesis using add_edges_neighbours [OF qs] k len by simp
  qed
  then show ?thesis using qs by (simp add: build_topology_edges [OF t hw])
qed

lemma one_peer_ring:
  assumes "plan_edges topo ''unidirectionalRing'' 1 [a] (replicate 1 empty_assignment) = Inr as" and "a = 0"
  shows "planned as a = {0} \<and> length as = 1"
  using assms by (auto simp: plan_edges_def directed_def plan_ring_def addDirectedEdge_def put_neighbor_def
      empty_assignment_def insort_insert_key_def planned_def)

text \<open>One plan and the network's builder on peers in the same order.\<close>

definition links_alike :: "string \<Rightarrow> int \<Rightarrow> interfaceId list \<Rightarrow> peerAssignment list \<Rightarrow> 'p node list option \<Rightarrow> bool" where
  "links_alike t n ids bs r = (\<exists>qs. r = Some qs \<and> (\<forall>k < nat n. planned bs (ids ! k) =
     nbrs (qs ! k) \<union> (if t = ''unidirectionalRing'' \<and> n = 1 then {ids ! k} else {})))"

lemma alike_userList:
  assumes "plan_edges topo ''userList'' n ids (replicate (nat n) empty_assignment) = Inr bs" and "ids = map int [0..<nat n]"
    and "\<And>kvs. jfind ''list'' topo = Some (JObj kvs) \<Longrightarrow> distinct (map fst kvs)" and "is_object topo"
    and "value_string topo ''type'' [] = Some ''userList''" and "value_int topo ''initialPeers'' 0 = Some n"
    and "map internalId ps = ids" and "\<forall>p \<in> set ps. nbrs p = {}"
  shows "length bs = nat n \<and> links_alike ''userList'' n ids bs (build_topology topo (nat n) ps)"
proof -
  from assms(1) obtain kvs where l: "jfind ''list'' topo = Some (JObj kvs)"
    and run: "foldR (plan_entry n ids) kvs (replicate (nat n) empty_assignment) = Inr bs"
    by (auto simp: plan_edges_def split: option.splits json.splits)
  have e: "planned (replicate (nat n) empty_assignment) (int k) = {}" if "k < nat n" for k
    using that by (simp add: planned_def empty_assignment_def)
  from plan_entries [OF run assms(2) _ assms(3) [OF l]] e
  have p: "length bs = nat n" "plain_list kvs" "\<forall>k < nat n. planned bs (int k) = user_targets kvs k" by simp_all
  have len: "length ps = nat n" using assms(2,7) by (metis length_map length_upt minus_nat.diff_0)
  from userList_nbrs [OF p(2), of "nat n" ps] len obtain qs where
    qs: "foldM (userList_peer (JObj kvs)) [0..<nat n] ps = Some qs" "\<forall>k < nat n. nbrs (qs ! k) = nbrs (ps ! k) \<union> user_targets kvs k"
    by auto
  obtain ms where topo: "topo = JObj ms" using assms(4) by (cases topo) auto
  have "build_topology topo (nat n) ps = Some qs"
    using l qs(1) assms(5,6) by (simp add: build_topology_def userList_def contains_def topo)
  then show ?thesis using p(1,3) qs(2) assms(2,8) len by (simp add: links_alike_def)
qed

lemma alike_generated:
  assumes run: "plan_edges topo t n ids (replicate (nat n) empty_assignment) = Inr bs" and ids: "placement n ids" and n: "0 < n"
    and t: "t \<noteq> ''userList''" "value_string topo ''type'' [] = Some t" and obj: "is_object topo"
    and hw: "value_int topo ''height'' 1 = Some h" "value_int topo ''width'' 1 = Some w"
      "- (2 ^ 31) \<le> h \<and> h < 2 ^ 31" "- (2 ^ 31) \<le> w \<and> w < 2 ^ 31"
    and ps: "map internalId ps = ids" "\<forall>p \<in> set ps. nbrs p = {}"
  shows "length bs = nat n \<and> links_alike t n ids bs (build_topology topo (nat n) ps)"
proof -
  have dims: "h' = h \<and> w' = w" if "validateDimensions topo t n = Inr (h', w')" for h' w'
    by (rule validateDimensions_values [OF that obj hw])
  have grid: "nat h * nat w = nat n" if g: "t = ''grid'' \<or> t = ''torus''"
  proof -
    from run g obtain h' w' where v: "validateDimensions topo t n = Inr (h', w')" by (auto simp: plan_edges_def monad)
    from validateDimensions_Inr [OF v] dims [OF v] show ?thesis by (auto simp: nat_mult_distrib)
  qed
  have len: "length ids = nat n" using ids by (simp add: placement_def)
  from built_topology [OF t(2,1) hw(1,2) grid ps(1) len ps(2)] obtain qs where
    qs: "build_topology topo (nat n) ps = Some qs"
      "\<forall>k < nat n. nbrs (qs ! k) = {ids ! j |j. adjacent t (nat n) (nat h) (nat w) k j}" by blast
  show ?thesis
  proof (cases "t = ''unidirectionalRing'' \<and> n = 1")
    case True
    then have "ids = [0]" using ids by (cases ids) (auto simp: placement_def)
    with True run one_peer_ring [of topo 0 bs] have b: "planned bs 0 = {0}" "length bs = 1" by simp_all
    have "nbrs (qs ! 0) = {}" using qs(2) True by (simp add: adjacent_def)
    then show ?thesis using b qs(1) True \<open>ids = [0]\<close> by (simp add: links_alike_def)
  next
    case False
    have main: "planned bs (ids ! k) = {ids ! j |j. adjacent t (nat n) (nat h) (nat w) k j} \<and> length bs = nat n" if "k < nat n" for k
      by (rule plan_edges_adjacent [OF run ids that t(1)]) (use False dims in blast)+
    then show ?thesis using qs main [of 0] n False by (auto simp: links_alike_def)
  qed
qed

lemma alike_finish:
  assumes "placement n ids" and "length bs = nat n"
  shows "links_alike t n ids (finish_plan t bs) r = links_alike t n ids bs r"
proof -
  have "planned (finish_plan t bs) (ids ! k) = planned bs (ids ! k)" if "k < nat n" for k
    using placement_nth(1,2) [OF assms(1) that] assms(2) by (intro finish_plan_planned(1)) simp_all
  then show ?thesis by (simp add: links_alike_def)
qed

text \<open>
  Claim C10. The planner of the concrete runtime and the network of the abstract simulator link the same
  peers. Whenever the planner accepts a topology, of any of the eight types, the network's builder
  accepts it, and on peers that stand in the order of the planner's identifiers (\<open>0, 1, \<dots>\<close> unless they
  are shuffled) it gives every peer exactly the planned neighbours; but for a
  unidirectional ring of one peer, which the planner links to itself and the network does not. For a user's
  list the identifiers must not be shuffled, for then the planner reads the list as positions and the
  network as identifiers. The keys of the list are distinct, as those of the library's objects are.
\<close>

theorem planner_parity:
  assumes "buildTopology topo g = Inr (as, g')"
    and "value_string topo ''type'' [] = Some t" and "value_string topo ''identifiers'' [] = Some idents"
    and "value_int topo ''initialPeers'' 0 = Some n"
    and "value_int topo ''height'' 1 = Some h" and "value_int topo ''width'' 1 = Some w"
    and "- (2 ^ 31) \<le> n \<and> n < 2 ^ 31" and "- (2 ^ 31) \<le> h \<and> h < 2 ^ 31" and "- (2 ^ 31) \<le> w \<and> w < 2 ^ 31"
    and "t = ''userList'' \<Longrightarrow> idents \<noteq> ''random''"
    and "\<And>kvs. t = ''userList'' \<Longrightarrow> jfind ''list'' topo = Some (JObj kvs) \<Longrightarrow> distinct (map fst kvs)"
  shows "\<exists>ids. placement n ids \<and> (idents \<noteq> ''random'' \<longrightarrow> ids = map int [0..<nat n]) \<and> length as = nat n \<and>
    (\<forall>k < nat n. pa_id (as ! k) = int k \<and> pa_topologyType (as ! k) = t) \<and>
    (\<forall>ps :: 'p node list. map internalId ps = ids \<longrightarrow> (\<forall>p \<in> set ps. nbrs p = {}) \<longrightarrow>
       (\<exists>qs. build_topology topo (nat n) ps = Some qs \<and>
         (\<forall>k < nat n. planned as (ids ! k) =
            nbrs (qs ! k) \<union> (if t = ''unidirectionalRing'' \<and> n = 1 then {ids ! k} else {}))))"
proof -
  obtain ids bs where b: "placement n ids" "idents \<noteq> ''random'' \<longrightarrow> ids = map int [0..<nat n]" "0 < n" "is_object topo"
    "plan_edges topo t n ids (replicate (nat n) empty_assignment) = Inr bs" "as = finish_plan t bs"
    by (rule buildTopology_plan [OF assms(1-4,7)])
  have alike: "length bs = nat n \<and> links_alike t n ids bs (build_topology topo (nat n) ps)"
    if ps: "map internalId ps = ids" "\<forall>p \<in> set ps. nbrs p = {}" for ps :: "'p node list"
  proof (cases "t = ''userList''")
    case True
    have ids: "ids = map int [0..<nat n]" using b(2) assms(10) True by blast
    show ?thesis unfolding True
      by (rule alike_userList [OF b(5) [unfolded True] ids assms(11) [OF True] b(4) assms(2) [unfolded True] assms(4) ps])
  qed (rule alike_generated [OF b(5,1,3) _ assms(2) b(4) assms(5,6,8,9) ps])
  have "map internalId (map (\<lambda>i. \<lparr>nd_iface = new_iface i i, nd_crashRecoveryRound = 0, nd_state = undefined\<rparr> :: 'p node) ids) = ids"
    by (simp add: comp_def new_iface_def)
  from alike [OF this] have len: "length bs = nat n" by (simp add: new_iface_def)
  have "pa_id (as ! k) = int k \<and> pa_topologyType (as ! k) = t" if "k < nat n" for k
    using finish_plan_planned(2,3) [of "int k" bs t] that len by (simp add: b(6))
  moreover have "length as = nat n" by (simp add: b(6) finish_plan_def len)
  moreover have "links_alike t n ids as (build_topology topo (nat n) ps)"
    if "map internalId ps = ids" "\<forall>p \<in> set ps. nbrs p = {}" for ps :: "'p node list"
    using alike [OF that] by (simp add: b(6) alike_finish [OF b(1) len])
  ultimately show ?thesis using b(1,2) unfolding links_alike_def by blast
qed

definition example_nodes :: "int list \<Rightarrow> unit node list" where
  "example_nodes = map (\<lambda>i. \<lparr>nd_iface = new_iface i i, nd_crashRecoveryRound = 0, nd_state = ()\<rparr>)"

theorem planner_parity_witness:
  "\<exists>as qs. buildTopology (example_plan ''chain'' 3) (\<lambda>_. 0) = Inr (as, \<lambda>_. 0) \<and>
     build_topology (example_plan ''chain'' 3) 3 (example_nodes [0, 1, 2]) = Some qs \<and>
     planned as 1 = nbrs (qs ! 1)"
proof -
  obtain as where as: "buildTopology (example_plan ''chain'' 3) (\<lambda>_. 0) = Inr (as, \<lambda>_. 0)"
    using example_plan_chain by blast
  have nodes: "map internalId (example_nodes [0, 1, 2]) = map int [0..<nat 3]" "\<forall>p \<in> set (example_nodes [0, 1, 2]). nbrs p = {}"
    by (simp_all add: example_nodes_def new_iface_def upt_rec)
  from planner_parity [OF as example_plan_value(1-5), where 'p = unit] obtain ids where ids: "ids = map int [0..<nat 3]"
    and all: "\<forall>ps :: unit node list. map internalId ps = ids \<longrightarrow> (\<forall>p \<in> set ps. nbrs p = {}) \<longrightarrow>
       (\<exists>qs. build_topology (example_plan ''chain'' 3) (nat 3) ps = Some qs \<and> (\<forall>k < nat 3. planned as (ids ! k) =
            nbrs (qs ! k) \<union> (if ''chain'' = ''unidirectionalRing'' \<and> (3 :: int) = 1 then {ids ! k} else {})))"
    by auto
  from all [rule_format, OF nodes(1) [folded ids]] nodes(2) obtain qs where
    "build_topology (example_plan ''chain'' 3) 3 (example_nodes [0, 1, 2]) = Some qs" "planned as (ids ! 1) = nbrs (qs ! 1)"
    by auto
  moreover have "ids ! 1 = 1" by (simp add: ids)
  ultimately show ?thesis using as by auto
qed

end
