(* ===== verification/Committee.thy ===== *)
theory Committee
  imports Network
begin

text \<open>
  Committees (src/quantas/Common/Committee.hpp), the requests that the consensus algorithms order, and
  what a quorum rule has to give: the locale \<open>quorum\<close>, interpreted by the algorithms for their own
  thresholds.
\<close>

subsection \<open>Committees\<close>

record committee =
  cm_id :: int
  cm_members :: idset

definition new_committee :: "int \<Rightarrow> committee" where
  "new_committee cid = \<lparr>cm_id = cid, cm_members = []\<rparr>"

definition setId :: "int \<Rightarrow> committee \<Rightarrow> committee" where
  "setId cid c = c\<lparr>cm_id := cid\<rparr>"

definition addMember :: "interfaceId \<Rightarrow> committee \<Rightarrow> committee" where
  "addMember m c = c\<lparr>cm_members := idset_insert m (cm_members c)\<rparr>"

definition removeMember :: "interfaceId \<Rightarrow> committee \<Rightarrow> committee" where
  "removeMember m c = c\<lparr>cm_members := removeAll m (cm_members c)\<rparr>"

definition cm_contains :: "interfaceId \<Rightarrow> committee \<Rightarrow> bool" where
  "cm_contains m c = (m \<in> set (cm_members c))"

definition cm_size :: "committee \<Rightarrow> int" where
  "cm_size c = int (length (cm_members c))"

definition wf_committee :: "committee \<Rightarrow> bool" where
  "wf_committee c = wf_idset (cm_members c)"

lemma wf_committee_ops [intro]:
  "wf_committee (new_committee i)"
  "wf_committee c \<Longrightarrow> wf_committee (addMember m c)"
  "wf_committee c \<Longrightarrow> wf_committee (removeMember m c)"
  by (auto simp: wf_committee_def new_committee_def addMember_def removeMember_def
      intro: wf_idset_insert wf_idset_remove)

lemma cm_size_addMember:
  "wf_committee c \<Longrightarrow> cm_size (addMember m c) = (if cm_contains m c then cm_size c else cm_size c + 1)"
  by (auto simp: cm_size_def addMember_def cm_contains_def insort_insert_key_def wf_committee_def)

subsection \<open>Requests\<close>

type_synonym txkey = "interfaceId \<times> int"

definition extractKey :: "json \<Rightarrow> txkey option" where
  "extractKey request = do {
     submitter \<leftarrow> value_id request ''submitterId'' NO_PEER_ID;
     clientSeq \<leftarrow> value_int request ''clientSeq'' (-1);
     Some (submitter, clientSeq) }"

definition keyValid :: "txkey \<Rightarrow> bool" where
  "keyValid key = (fst key \<noteq> NO_PEER_ID \<and> snd key \<ge> 0)"

text \<open>The loop of \<open>dropDeferredRequest\<close> and \<open>dropPendingRequest\<close>: the queue without the requests of a key.\<close>

definition drop_key :: "txkey \<Rightarrow> json list \<Rightarrow> json list option" where
  "drop_key key q = foldM (\<lambda>r acc. do { k \<leftarrow> extractKey r; Some (if k = key then acc else acc @ [r]) }) q []"

lemma drop_key_eq:
  assumes "drop_key key q = Some q'"
  shows "q' = filter (\<lambda>r. extractKey r \<noteq> Some key) q"
proof -
  have "foldM (\<lambda>r acc. do { k \<leftarrow> extractKey r; Some (if k = key then acc else acc @ [r]) }) q acc = Some q' \<Longrightarrow>
      q' = acc @ filter (\<lambda>r. extractKey r \<noteq> Some key) q" for acc
    by (induction q arbitrary: acc) (simp, fastforce simp: monad split: if_splits)
  from this [of "[]"] assms show ?thesis by (simp add: drop_key_def)
qed

subsection \<open>Quorums\<close>

text \<open>
  A threshold rule \<open>enough\<close> on the number of distinct voters among \<open>n\<close> members: two sets of voters that
  pass it share more than \<open>f\<close> members. With \<open>f\<close> faulty members they then share a correct one.
\<close>

locale quorum =
  fixes enough :: "nat \<Rightarrow> nat \<Rightarrow> bool" and f :: "nat \<Rightarrow> nat"
  assumes overlap: "enough n a \<Longrightarrow> enough n b \<Longrightarrow> a \<le> n \<Longrightarrow> b \<le> n \<Longrightarrow> n + f n < a + b"
    and mono: "enough n a \<Longrightarrow> a \<le> b \<Longrightarrow> enough n b"
begin

lemma intersection:
  assumes M: "finite M" and sub: "A \<subseteq> M" "B \<subseteq> M" and q: "enough (card M) (card A)" "enough (card M) (card B)"
  shows "f (card M) < card (A \<inter> B)"
proof -
  have fin: "finite A" "finite B" using sub M finite_subset by auto
  have "card M + f (card M) < card A + card B"
    using overlap [OF q] card_mono [OF M sub(1)] card_mono [OF M sub(2)] by simp
  also have "\<dots> = card (A \<union> B) + card (A \<inter> B)" by (rule card_Un_Int [OF fin])
  also have "card (A \<union> B) \<le> card M" using sub M by (simp add: card_mono)
  finally show ?thesis by simp
qed

lemma correct_member:
  assumes "finite M" "A \<subseteq> M" "B \<subseteq> M" "enough (card M) (card A)" "enough (card M) (card B)"
    and "card F \<le> f (card M)" and "finite F"
  shows "\<exists>m \<in> A \<inter> B. m \<notin> F"
proof (rule ccontr)
  assume "\<not> (\<exists>m \<in> A \<inter> B. m \<notin> F)"
  then have "A \<inter> B \<subseteq> F" by blast
  then have "card (A \<inter> B) \<le> card F" using assms(7) by (rule card_mono [rotated])
  then show False using intersection [OF assms(1-5)] assms(6) by simp
qed

end

end
