(* ===== verification/RaftPeer.thy ===== *)
theory RaftPeer
  imports Committee
begin

text \<open>
  The Raft peer (src/quantas/RaftPeer/RaftPeer.cpp). A handler maps the consensus state, the random
  engine and the sends made so far to the new ones; \<open>me\<close> is the peer's public identifier, \<open>now\<close> the
  current round. \<open>None\<close> is an exception of the JSON library that nothing catches.

  \<open>onClientRequest\<close> and \<open>tryStartReplication\<close> call each other; the model counts the depth of their calls
  with fuel, and \<open>RaftReplication\<close> shows that \<open>start_fuel\<close> is enough.
\<close>

subsection \<open>State\<close>

record raft =
  rf_committeeId :: int
  rf_members :: idset
  rf_confirmedTrans :: "json list"
  rf_latency :: int
  rf_candidate :: interfaceId
  rf_leaderId :: interfaceId
  rf_term :: int
  rf_votes :: "interfaceId list"
  rf_replies :: "txkey \<rightharpoonup> interfaceId list"
  rf_submittedRound :: "txkey \<rightharpoonup> int"
  rf_committedRequests :: "txkey set"
  rf_knownRequests :: "txkey set"
  rf_pending :: "json list"
  rf_deferred :: "json list"
  rf_hasInFlight :: bool
  rf_inFlightKey :: txkey
  rf_inFlightRequest :: json
  rf_leaderChanges :: int
  rf_timeOutRound :: int
  rf_timeOutSpacing :: int
  rf_timeOutRandom :: int
  rf_submitRate :: int
  rf_nextClientRequestId :: int

type_synonym raft_ctx = "raft \<times> rng \<times> send list"

subsection \<open>Messages\<close>

definition buildRequestMessage :: "json \<Rightarrow> interfaceId \<Rightarrow> int \<Rightarrow> int \<Rightarrow> json" where
  "buildRequestMessage request sender term consensusId = jobject
     [(''type'', JStr ''Consensus''), (''consensusId'', JInt consensusId), (''MessageType'', JStr ''request''),
      (''request'', request), (''from_id'', JInt sender), (''termNum'', JInt term)]"

definition buildCommitMessage :: "json \<Rightarrow> interfaceId \<Rightarrow> int \<Rightarrow> int \<Rightarrow> int \<Rightarrow> int \<Rightarrow> json" where
  "buildCommitMessage request sender term consensusId committedRound submittedRound = jobject
     [(''type'', JStr ''Consensus''), (''consensusId'', JInt consensusId), (''MessageType'', JStr ''commit''),
      (''request'', request), (''from_id'', JInt sender), (''termNum'', JInt term),
      (''roundCommitted'', JInt committedRound), (''roundSubmitted'', JInt submittedRound)]"

definition electMessage :: "int \<Rightarrow> interfaceId \<Rightarrow> int \<Rightarrow> int \<Rightarrow> json" where
  "electMessage consensusId sender term now = jobject
     [(''type'', JStr ''Consensus''), (''consensusId'', JInt consensusId), (''MessageType'', JStr ''elect''),
      (''from_id'', JInt sender), (''termNum'', JInt term), (''roundSubmitted'', JInt now)]"

definition voteMessage :: "int \<Rightarrow> interfaceId \<Rightarrow> interfaceId \<Rightarrow> int \<Rightarrow> int \<Rightarrow> json" where
  "voteMessage consensusId candidate sender term r = jobject
     [(''type'', JStr ''Consensus''), (''consensusId'', JInt consensusId), (''MessageType'', JStr ''vote''),
      (''trans'', JInt candidate), (''from_id'', JInt sender), (''termNum'', JInt term), (''roundSubmitted'', JInt r)]"

definition respondMessage :: "int \<Rightarrow> json \<Rightarrow> interfaceId \<Rightarrow> int \<Rightarrow> int \<Rightarrow> json" where
  "respondMessage consensusId request sender term r = jobject
     [(''type'', JStr ''Consensus''), (''consensusId'', JInt consensusId), (''MessageType'', JStr ''respondRequest''),
      (''request'', request), (''from_id'', JInt sender), (''termNum'', JInt term), (''roundSubmitted'', JInt r)]"

definition clientRequest :: "interfaceId \<Rightarrow> int \<Rightarrow> int \<Rightarrow> json" where
  "clientRequest me clientSeq now = jobject
     [(''submitterId'', JInt me), (''clientSeq'', JInt clientSeq), (''roundSubmitted'', JInt now)]"

subsection \<open>Operations\<close>

definition quorumThreshold :: "raft \<Rightarrow> nat" where
  "quorumThreshold c = (if rf_members c = [] then 0 else length (rf_members c) div 2)"

definition hasQuorum :: "nat \<Rightarrow> raft \<Rightarrow> bool" where
  "hasQuorum n c = (n > quorumThreshold c)"

definition resetTimer :: "int \<Rightarrow> raft_ctx \<Rightarrow> raft_ctx option" where
  "resetTimer now = (\<lambda>(c, g, out). do {
     (jitter, g) \<leftarrow> (if rf_timeOutRandom c > 0 then randMod (rf_timeOutRandom c) g else Some (0, g));
     Some (c\<lparr>rf_timeOutRound := now + rf_timeOutSpacing c + jitter\<rparr>, g, out) })"

definition resetReplicationState :: "bool \<Rightarrow> raft \<Rightarrow> raft" where
  "resetReplicationState requeueInFlight c =
     (let key = rf_inFlightKey c;
          c = (if rf_hasInFlight c \<and> requeueInFlight \<and> keyValid key \<and> key \<notin> rf_committedRequests c
               then c\<lparr>rf_pending := rf_inFlightRequest c # rf_pending c\<rparr> else c);
          c = (if rf_hasInFlight c \<and> keyValid key
               then c\<lparr>rf_replies := (rf_replies c)(key := None), rf_submittedRound := (rf_submittedRound c)(key := None)\<rparr>
               else c)
      in c\<lparr>rf_hasInFlight := False, rf_inFlightKey := (NO_PEER_ID, -1), rf_inFlightRequest := JObj []\<rparr>)"

definition enqueueDeferred :: "json \<Rightarrow> raft \<Rightarrow> raft option" where
  "enqueueDeferred request c = do {
     key \<leftarrow> extractKey request;
     Some (if \<not> keyValid key \<or> key \<in> rf_knownRequests c then c
           else c\<lparr>rf_knownRequests := insert key (rf_knownRequests c), rf_deferred := rf_deferred c @ [request]\<rparr>) }"

definition dropDeferredRequest :: "txkey \<Rightarrow> raft \<Rightarrow> raft option" where
  "dropDeferredRequest key c = do { q \<leftarrow> drop_key key (rf_deferred c); Some (c\<lparr>rf_deferred := q\<rparr>) }"

definition dropPendingRequest :: "txkey \<Rightarrow> raft \<Rightarrow> raft option" where
  "dropPendingRequest key c = do { q \<leftarrow> drop_key key (rf_pending c); Some (c\<lparr>rf_pending := q\<rparr>) }"

definition confirmation :: "json \<Rightarrow> int \<Rightarrow> int \<Rightarrow> int \<Rightarrow> json option" where
  "confirmation request submittedRound committedRound term = do {
     j \<leftarrow> jset ''roundSubmitted'' (JInt submittedRound) request;
     j \<leftarrow> jset ''roundCommitted'' (JInt committedRound) j;
     jset ''term'' (JInt term) j }"

definition applyCommit :: "json \<Rightarrow> int \<Rightarrow> int \<Rightarrow> bool \<Rightarrow> raft \<Rightarrow> raft option" where
  "applyCommit request submittedRound committedRound skipMetrics c = do {
     key \<leftarrow> extractKey request;
     if \<not> keyValid key then Some c
     else do {
       let c = c\<lparr>rf_committedRequests := insert key (rf_committedRequests c),
                 rf_submittedRound := (rf_submittedRound c)(key := None),
                 rf_replies := (rf_replies c)(key := None)\<rparr>;
       c \<leftarrow> dropDeferredRequest key c;
       c \<leftarrow> dropPendingRequest key c;
       if skipMetrics then Some c
       else do {
         j \<leftarrow> confirmation request submittedRound committedRound (rf_term c);
         Some (c\<lparr>rf_confirmedTrans := rf_confirmedTrans c @ [j],
                 rf_latency := rf_latency c + (committedRound - submittedRound)\<rparr>) } } }"

text \<open>One turn of the loop of \<open>tryForwardDeferredRequests\<close>: the popped request.\<close>

definition forward_one :: "interfaceId \<Rightarrow> json \<Rightarrow> raft_ctx \<Rightarrow> raft_ctx option" where
  "forward_one me request = (\<lambda>(c, g, out). do {
     key \<leftarrow> extractKey request;
     if \<not> keyValid key \<or> key \<in> rf_committedRequests c then Some (c, g, out)
     else if rf_leaderId c = me then do {
       request \<leftarrow> jerase ''forwardedTo'' request;
       Some (c\<lparr>rf_pending := rf_pending c @ [request]\<rparr>, g, out) }
     else if rf_leaderId c \<noteq> NO_PEER_ID then do {
       forwardedTo \<leftarrow> value_id request ''forwardedTo'' NO_PEER_ID;
       if forwardedTo \<noteq> rf_leaderId c then do {
         outbound \<leftarrow> jset ''type'' (JStr ''Request'') request;
         outbound \<leftarrow> jset ''consensusId'' (JInt (rf_committeeId c)) outbound;
         request \<leftarrow> jset ''forwardedTo'' (JInt (rf_leaderId c)) request;
         Some (c\<lparr>rf_deferred := rf_deferred c @ [request]\<rparr>, g, out @ [UnicastTo outbound (rf_leaderId c)]) }
       else Some (c\<lparr>rf_deferred := rf_deferred c @ [request]\<rparr>, g, out) }
     else Some (c\<lparr>rf_deferred := rf_deferred c @ [request]\<rparr>, g, out) })"

definition tryForwardDeferredRequests :: "interfaceId \<Rightarrow> raft_ctx \<Rightarrow> raft_ctx option" where
  "tryForwardDeferredRequests me = (\<lambda>(c, g, out).
     foldM (forward_one me) (rf_deferred c) (c\<lparr>rf_deferred := []\<rparr>, g, out))"

text \<open>The loop of \<open>tryStartReplication\<close>: the first pending request that is not committed goes in flight.\<close>

fun start_loop :: "interfaceId \<Rightarrow> int \<Rightarrow> json list \<Rightarrow> raft_ctx \<Rightarrow> raft_ctx option" where
  "start_loop me now [] (c, g, out) = Some (c\<lparr>rf_pending := []\<rparr>, g, out)"
| "start_loop me now (request # rest) (c, g, out) = do {
     key \<leftarrow> extractKey request;
     if \<not> keyValid key \<or> key \<in> rf_committedRequests c then start_loop me now rest (c, g, out)
     else do {
       request \<leftarrow> jset ''roundSubmitted'' (JInt now) request;
       let replies = (case rf_replies c key of None \<Rightarrow> (rf_replies c)(key \<mapsto> []) | Some _ \<Rightarrow> rf_replies c);
       let c = c\<lparr>rf_pending := rest, rf_hasInFlight := True, rf_inFlightKey := key, rf_inFlightRequest := request,
                 rf_replies := replies, rf_submittedRound := (rf_submittedRound c)(key \<mapsto> now)\<rparr>;
       resetTimer now (c, g, out @ [Multicast (buildRequestMessage request me (rf_term c) (rf_committeeId c)) (rf_members c)]) } }"

fun onClientRequest :: "nat \<Rightarrow> interfaceId \<Rightarrow> int \<Rightarrow> json \<Rightarrow> raft_ctx \<Rightarrow> raft_ctx option"
and tryStartReplication :: "nat \<Rightarrow> interfaceId \<Rightarrow> int \<Rightarrow> raft_ctx \<Rightarrow> raft_ctx option" where
  "onClientRequest fuel me now request (c, g, out) = do {
     request \<leftarrow> (if contains request ''roundSubmitted'' then Some request
                 else jset ''roundSubmitted'' (JInt now) request);
     request \<leftarrow> (if contains request ''submitterId'' then Some request
                 else jset ''submitterId'' (JInt me) request);
     (request, c) \<leftarrow> (if contains request ''clientSeq'' then Some (request, c)
        else do { r \<leftarrow> jset ''clientSeq'' (JInt (rf_nextClientRequestId c)) request;
                  Some (r, c\<lparr>rf_nextClientRequestId := rf_nextClientRequestId c + 1\<rparr>) });
     c \<leftarrow> enqueueDeferred request c;
     (c, g, out) \<leftarrow> tryForwardDeferredRequests me (c, g, out);
     if rf_leaderId c = me then tryStartReplication fuel me now (c, g, out) else Some (c, g, out) }"
| "tryStartReplication 0 me now s = None"
| "tryStartReplication (Suc fuel) me now (c, g, out) =
     (if rf_leaderId c \<noteq> me \<or> rf_hasInFlight c then Some (c, g, out)
      else do {
        (c, g, out) \<leftarrow> (if rf_pending c = [] then
            onClientRequest fuel me now (clientRequest me (rf_nextClientRequestId c) now)
              (c\<lparr>rf_nextClientRequestId := rf_nextClientRequestId c + 1\<rparr>, g, out)
          else Some (c, g, out));
        start_loop me now (rf_pending c) (c, g, out) })"

text \<open>The calls from outside, with fuel for every request that is known or committed.\<close>

definition start_fuel :: "raft \<Rightarrow> nat" where
  "start_fuel c = card (rf_knownRequests c \<union> rf_committedRequests c) + 3"

definition startReplication :: "interfaceId \<Rightarrow> int \<Rightarrow> raft_ctx \<Rightarrow> raft_ctx option" where
  "startReplication me now s = tryStartReplication (start_fuel (fst s)) me now s"

definition clientRequest_in :: "interfaceId \<Rightarrow> int \<Rightarrow> json \<Rightarrow> raft_ctx \<Rightarrow> raft_ctx option" where
  "clientRequest_in me now request s = onClientRequest (start_fuel (fst s)) me now request s"

definition confirmRequest :: "interfaceId \<Rightarrow> int \<Rightarrow> json \<Rightarrow> int \<Rightarrow> raft_ctx \<Rightarrow> raft_ctx option" where
  "confirmRequest me now request submittedRound = (\<lambda>(c, g, out). do {
     j \<leftarrow> confirmation request submittedRound now (rf_term c);
     let c = c\<lparr>rf_confirmedTrans := rf_confirmedTrans c @ [j], rf_latency := rf_latency c + (now - submittedRound)\<rparr>;
     c \<leftarrow> applyCommit request submittedRound now True c;
     let out = out @ [Multicast (buildCommitMessage request me (rf_term c) (rf_committeeId c) now submittedRound) (rf_members c)];
     let c = c\<lparr>rf_hasInFlight := False, rf_inFlightKey := (NO_PEER_ID, -1), rf_inFlightRequest := JObj []\<rparr>;
     startReplication me now (c, g, out) })"

text \<open>The two parts of \<open>handleRequest\<close>: following the sender as leader, and answering the request.\<close>

definition followLeader :: "int \<Rightarrow> int \<Rightarrow> interfaceId \<Rightarrow> raft_ctx \<Rightarrow> raft_ctx option" where
  "followLeader now termNum sender = (\<lambda>(c, g, out).
     if rf_term c \<le> termNum then
       (let leaderChanged = (rf_leaderId c \<noteq> sender);
            c = c\<lparr>rf_term := termNum, rf_leaderId := sender\<rparr>;
            c = (if leaderChanged then resetReplicationState False c else c);
            c = c\<lparr>rf_votes := [], rf_candidate := NO_PEER_ID\<rparr>
        in resetTimer now (c, g, out))
     else Some (c, g, out))"

definition answerRequest :: "interfaceId \<Rightarrow> int \<Rightarrow> interfaceId \<Rightarrow> json \<Rightarrow> raft_ctx \<Rightarrow> raft_ctx option" where
  "answerRequest me now sender msg = (\<lambda>(c, g, out). do {
     request \<leftarrow> value_json msg ''request'' (JObj []);
     key \<leftarrow> extractKey request;
     if \<not> keyValid key then Some (c, g, out)
     else do {
       c \<leftarrow> enqueueDeferred request c;
       r \<leftarrow> value_int request ''roundSubmitted'' now;
       Some (c, g, out @ [UnicastTo (respondMessage (rf_committeeId c) request me (rf_term c) r) sender]) } })"

definition handleRequest :: "interfaceId \<Rightarrow> int \<Rightarrow> json \<Rightarrow> raft_ctx \<Rightarrow> raft_ctx option" where
  "handleRequest me now msg s = do {
     termNum \<leftarrow> value_int msg ''termNum'' (-1);
     sender \<leftarrow> value_id msg ''from_id'' NO_PEER_ID;
     if termNum < 0 \<or> sender = NO_PEER_ID then Some s
     else do { s \<leftarrow> followLeader now termNum sender s; answerRequest me now sender msg s } }"

definition handleRespond :: "interfaceId \<Rightarrow> int \<Rightarrow> json \<Rightarrow> raft_ctx \<Rightarrow> raft_ctx option" where
  "handleRespond me now msg = (\<lambda>(c, g, out).
     if rf_leaderId c \<noteq> me then Some (c, g, out)
     else do {
       request \<leftarrow> value_json msg ''request'' (JObj []);
       key \<leftarrow> extractKey request;
       if \<not> rf_hasInFlight c \<or> key \<noteq> rf_inFlightKey c then Some (c, g, out)
       else do {
         sender \<leftarrow> value_id msg ''from_id'' NO_PEER_ID;
         if sender = NO_PEER_ID then Some (c, g, out)
         else do {
           let responders = (case rf_replies c key of None \<Rightarrow> [] | Some rs \<Rightarrow> rs);
           if sender \<in> set responders then Some (c\<lparr>rf_replies := (rf_replies c)(key \<mapsto> responders)\<rparr>, g, out)
           else do {
             let c = c\<lparr>rf_replies := (rf_replies c)(key \<mapsto> responders @ [sender])\<rparr>;
             if hasQuorum (length (responders @ [sender])) c then do {
               submittedRound \<leftarrow> (case rf_submittedRound c key of Some r \<Rightarrow> Some r
                                    | None \<Rightarrow> value_int request ''roundSubmitted'' now);
               confirmRequest me now request submittedRound (c, g, out) }
             else Some (c, g, out) } } } })"

definition handleVote :: "interfaceId \<Rightarrow> int \<Rightarrow> json \<Rightarrow> raft_ctx \<Rightarrow> raft_ctx option" where
  "handleVote me now msg = (\<lambda>(c, g, out).
     if rf_leaderId c = me then Some (c, g, out)
     else do {
       voteFor \<leftarrow> value_id msg ''trans'' NO_PEER_ID;
       sender \<leftarrow> value_id msg ''from_id'' NO_PEER_ID;
       if voteFor \<noteq> me \<or> sender = NO_PEER_ID \<or> sender \<in> set (rf_votes c) then Some (c, g, out)
       else do {
         let c = c\<lparr>rf_votes := rf_votes c @ [sender]\<rparr>;
         if hasQuorum (length (rf_votes c)) c then do {
           (c, g, out) \<leftarrow> resetTimer now (c, g, out);
           let c = resetReplicationState True (c\<lparr>rf_leaderId := me, rf_candidate := NO_PEER_ID, rf_votes := []\<rparr>);
           let c = c\<lparr>rf_leaderChanges := rf_leaderChanges c + 1\<rparr>;
           s \<leftarrow> tryForwardDeferredRequests me (c, g, out);
           startReplication me now s }
         else Some (c, g, out) } })"

definition handleElect :: "interfaceId \<Rightarrow> int \<Rightarrow> json \<Rightarrow> raft_ctx \<Rightarrow> raft_ctx option" where
  "handleElect me now msg = (\<lambda>(c, g, out). do {
     termNum \<leftarrow> value_int msg ''termNum'' (-1);
     sender \<leftarrow> value_id msg ''from_id'' NO_PEER_ID;
     if termNum \<le> rf_term c \<or> sender = NO_PEER_ID then Some (c, g, out)
     else do {
       let c = resetReplicationState True
                 (c\<lparr>rf_term := termNum, rf_leaderId := NO_PEER_ID, rf_votes := [], rf_candidate := sender\<rparr>);
       (c, g, out) \<leftarrow> resetTimer now (c, g, out);
       r \<leftarrow> value_int msg ''roundSubmitted'' now;
       Some (c, g, out @ [UnicastTo (voteMessage (rf_committeeId c) sender me (rf_term c) r) sender]) } })"

definition handleCommit :: "interfaceId \<Rightarrow> int \<Rightarrow> json \<Rightarrow> raft_ctx \<Rightarrow> raft_ctx option" where
  "handleCommit me now msg = (\<lambda>(c, g, out). do {
     sender \<leftarrow> value_id msg ''from_id'' NO_PEER_ID;
     if sender = me then Some (c, g, out)
     else do {
       request \<leftarrow> value_json msg ''request'' (JObj []);
       submittedRound \<leftarrow> value_int msg ''roundSubmitted'' now;
       committedRound \<leftarrow> value_int msg ''roundCommitted'' now;
       termNum \<leftarrow> value_int msg ''termNum'' (rf_term c);
       let c = (if termNum > rf_term c then c\<lparr>rf_term := termNum\<rparr> else c);
       c \<leftarrow> applyCommit request submittedRound committedRound False c;
       Some (c, g, out) } })"

definition onConsensusMessage :: "interfaceId \<Rightarrow> int \<Rightarrow> json \<Rightarrow> raft_ctx \<Rightarrow> raft_ctx option" where
  "onConsensusMessage me now msg s = do {
     messageType \<leftarrow> value_string msg ''MessageType'' [];
     if messageType = ''request'' then handleRequest me now msg s
     else if messageType = ''respondRequest'' then handleRespond me now msg s
     else if messageType = ''vote'' then handleVote me now msg s
     else if messageType = ''elect'' then handleElect me now msg s
     else if messageType = ''commit'' then handleCommit me now msg s
     else Some s }"

definition maybeGenerateClientRequest :: "interfaceId \<Rightarrow> int \<Rightarrow> raft_ctx \<Rightarrow> raft_ctx option" where
  "maybeGenerateClientRequest me now = (\<lambda>(c, g, out).
     if rf_submitRate c \<le> 0 then Some (c, g, out)
     else do {
       (v, g) \<leftarrow> randMod (rf_submitRate c) g;
       if v \<noteq> 0 then Some (c, g, out)
       else clientRequest_in me now (clientRequest me (rf_nextClientRequestId c) now)
              (c\<lparr>rf_nextClientRequestId := rf_nextClientRequestId c + 1\<rparr>, g, out) })"

definition maybeStartElection :: "interfaceId \<Rightarrow> int \<Rightarrow> raft_ctx \<Rightarrow> raft_ctx option" where
  "maybeStartElection me now = (\<lambda>(c, g, out).
     if to_size_t (rf_timeOutRound c) > now then Some (c, g, out)
     else do {
       let c = resetReplicationState True c;
       let c = c\<lparr>rf_candidate := me, rf_leaderId := NO_PEER_ID, rf_term := rf_term c + 1, rf_votes := []\<rparr>;
       (c, g, out) \<leftarrow> resetTimer now (c, g, out);
       Some (c, g, out @ [Multicast (electMessage (rf_committeeId c) me (rf_term c) now) (rf_members c)]) })"

definition tick :: "interfaceId \<Rightarrow> int \<Rightarrow> raft_ctx \<Rightarrow> raft_ctx option" where
  "tick me now s = do {
     s \<leftarrow> maybeGenerateClientRequest me now s;
     s \<leftarrow> maybeStartElection me now s;
     tryForwardDeferredRequests me s }"

subsection \<open>The peer\<close>

record raftPeer =
  rp_consensuses :: "(int \<times> raft) list"
  rp_crashOdds :: real
  rp_crashRecoveryDelay :: int

definition new_raftConsensus :: "committee \<Rightarrow> int \<Rightarrow> rng \<Rightarrow> (raft \<times> rng) option" where
  "new_raftConsensus cm now g = do {
     (c, g, _) \<leftarrow> resetTimer now
       (\<lparr>rf_committeeId = cm_id cm, rf_members = cm_members cm, rf_confirmedTrans = [], rf_latency = 0,
         rf_candidate = NO_PEER_ID, rf_leaderId = 0, rf_term = 0, rf_votes = [], rf_replies = Map.empty,
         rf_submittedRound = Map.empty, rf_committedRequests = {}, rf_knownRequests = {}, rf_pending = [],
         rf_deferred = [], rf_hasInFlight = False, rf_inFlightKey = (NO_PEER_ID, -1), rf_inFlightRequest = JObj [],
         rf_leaderChanges = 0, rf_timeOutRound = 0, rf_timeOutSpacing = 100, rf_timeOutRandom = 5,
         rf_submitRate = 20, rf_nextClientRequestId = 0\<rparr>, g, []);
     Some (c, g) }"

definition maybeCrash :: "int \<Rightarrow> raftPeer node \<Rightarrow> rng \<Rightarrow> (raftPeer node \<times> rng) option" where
  "maybeCrash now p g =
     (if rp_crashOdds (nd_state p) \<le> 0 \<or> rp_crashRecoveryDelay (nd_state p) = 0 then Some (p, g)
      else do {
        (b, g) \<leftarrow> trueWithProbability (rp_crashOdds (nd_state p)) g;
        Some (if b then setCrashRecoveryRound (now + rp_crashRecoveryDelay (nd_state p)) p else p, g) })"

text \<open>The dispatch of one packet to the consensus instance it names.\<close>

definition raft_dispatch :: "interfaceId \<Rightarrow> int \<Rightarrow> json \<Rightarrow> (int \<times> raft) list \<times> rng \<times> send list
    \<Rightarrow> ((int \<times> raft) list \<times> rng \<times> send list) option" where
  "raft_dispatch me now msg = (\<lambda>(cs, g, out).
     if \<not> contains msg ''type'' then Some (cs, g, out)
     else do {
       t \<leftarrow> jindex msg ''type'';
       msgType \<leftarrow> get_string t;
       consensusId \<leftarrow> value_int msg ''consensusId'' 0;
       case map_of cs consensusId of
         None \<Rightarrow> Some (cs, g, out)
       | Some c \<Rightarrow> do {
           (c, g, out) \<leftarrow> (if msgType = ''Request'' then clientRequest_in me now msg (c, g, out)
                           else if msgType = ''Consensus'' then onConsensusMessage me now msg (c, g, out)
                           else Some (c, g, out));
           Some (map (\<lambda>(k, d). if k = consensusId then (k, c) else (k, d)) cs, g, out) } })"

definition raft_tick_one :: "interfaceId \<Rightarrow> int \<Rightarrow> int \<Rightarrow> (int \<times> raft) list \<times> rng \<times> send list
    \<Rightarrow> ((int \<times> raft) list \<times> rng \<times> send list) option" where
  "raft_tick_one me now cid = (\<lambda>(cs, g, out). case map_of cs cid of
       None \<Rightarrow> Some (cs, g, out)
     | Some c \<Rightarrow> do {
         (c, g, out) \<leftarrow> tick me now (c, g, out);
         Some (map (\<lambda>(k, d). if k = cid then (k, c) else (k, d)) cs, g, out) })"

definition raft_performComputation :: "raftPeer perform" where
  "raft_performComputation now p g = do {
     (p, g) \<leftarrow> maybeCrash now p g;
     if isCrashed now p then Some (p, [], g)
     else do {
       let msgs = map pk_body (if_inStream (nd_iface p));
       let p = p\<lparr>nd_iface := (nd_iface p)\<lparr>if_inStream := []\<rparr>\<rparr>;
       (cs, g, out) \<leftarrow> foldM (raft_dispatch (publicId p) now) msgs (rp_consensuses (nd_state p), g, []);
       (cs, g, out) \<leftarrow> foldM (raft_tick_one (publicId p) now) (map fst cs) (cs, g, out);
       Some (p\<lparr>nd_state := (nd_state p)\<lparr>rp_consensuses := cs\<rparr>\<rparr>, out, g) } }"

text \<open>
  \<open>initParameters\<close>: one committee of all peers, a consensus instance for each, and the peers with the
  smallest identifiers crashed.
\<close>

definition put_consensus :: "int \<Rightarrow> 'c \<Rightarrow> (int \<times> 'c) list \<Rightarrow> (int \<times> 'c) list" where
  "put_consensus k c cs = insort_insert_key fst (k, c) (filter (\<lambda>(k', _). k' \<noteq> k) cs)"

definition raft_init_peer :: "committee \<Rightarrow> json \<Rightarrow> int \<Rightarrow> nat \<Rightarrow> raftPeer node list \<times> rng
    \<Rightarrow> (raftPeer node list \<times> rng) option" where
  "raft_init_peer cm parameters now i = (\<lambda>(ps, g). do {
     submitRate \<leftarrow> value_int parameters ''submit_rate'' 20;
     spacing \<leftarrow> value_int parameters ''timeout_spacing'' 100;
     jitter \<leftarrow> value_int parameters ''timeout_jitter'' 5;
     (c, g) \<leftarrow> new_raftConsensus cm now g;
     let c = c\<lparr>rf_submitRate := submitRate, rf_timeOutSpacing := spacing, rf_timeOutRandom := jitter\<rparr>;
     Some (ps[i := (ps ! i)\<lparr>nd_state := (nd_state (ps ! i))\<lparr>rp_consensuses :=
             put_consensus (cm_id cm) c (rp_consensuses (nd_state (ps ! i)))\<rparr>\<rparr>], g) })"

definition raft_initParameters :: "int \<Rightarrow> json \<Rightarrow> raftPeer node list \<times> rng \<Rightarrow> (raftPeer node list \<times> rng) option" where
  "raft_initParameters now parameters = (\<lambda>(ps, g). do {
     committeeId \<leftarrow> value_int parameters ''committee_id'' 0;
     crashCount \<leftarrow> value_int parameters ''crash_count'' 0;
     odds \<leftarrow> value_real parameters ''crash_odds'' 0;
     recoveryRound \<leftarrow> (if contains parameters ''crash_recovery_round''
        then do { j \<leftarrow> jindex parameters ''crash_recovery_round''; v \<leftarrow> get_int j; Some (to_size_t v) } else Some (2 ^ 64 - 1));
     recoveryDelay \<leftarrow> (if contains parameters ''crash_recovery_delay''
        then do { j \<leftarrow> jindex parameters ''crash_recovery_delay''; v \<leftarrow> get_int j; Some (to_size_t v) } else Some 0);
     let cm = fold addMember (map publicId ps) (new_committee committeeId);
     let ps = map (\<lambda>p. p\<lparr>nd_state := (nd_state p)\<lparr>rp_crashRecoveryDelay := recoveryDelay,
                         rp_crashOdds := max 0 (min odds 1)\<rparr>\<rparr>) ps;
     (ps, g) \<leftarrow> foldM (raft_init_peer cm parameters now) [0..<length ps] (ps, g);
     let order = sort_key (\<lambda>i. publicId (ps ! i)) [0..<length ps];
     let crashed = (if crashCount > 0 then take (nat crashCount) order else []);
     Some (fold (\<lambda>i ps. ps[i := setCrashRecoveryRound recoveryRound (ps ! i)]) crashed ps, g) })"

text \<open>The sums that \<open>endOfRound\<close> logs: requests confirmed, their latency and the leader changes.\<close>

definition raft_endOfRound :: "raftPeer node list \<Rightarrow> real \<times> real \<times> int" where
  "raft_endOfRound ps =
     (let cs = concat (map (\<lambda>p. map snd (rp_consensuses (nd_state p))) ps);
          totalConfirmed = sum_list (map (\<lambda>c. int (length (rf_confirmedTrans c))) cs);
          totalLatency = sum_list (map rf_latency cs);
          totalLeaderChanges = sum_list (map rf_leaderChanges cs)
      in (if totalConfirmed > 0 then of_int totalLatency / of_int totalConfirmed else 0,
          if ps \<noteq> [] then of_int totalConfirmed / of_int (int (length ps)) else 0,
          totalLeaderChanges))"

end
