(* ===== verification/RaftSafety.thy ===== *)
theory RaftSafety
  imports RaftPeer
begin

text \<open>
  Safety of the Raft peer: a peer votes at most once in a term, leaders and commits need a majority of
  distinct peers, and where the election falls short of Raft: votes are counted whatever their term.
\<close>

subsection \<open>Votes sent\<close>

fun vote_term :: "send \<Rightarrow> int option" where
  "vote_term (UnicastTo m d) =
     (if jfind ''type'' m = Some (JStr ''Consensus'') \<and> jfind ''MessageType'' m = Some (JStr ''vote'')
      then Option.bind (jfind ''termNum'' m) get_int else None)"
| "vote_term _ = None"

definition vote_terms :: "send list \<Rightarrow> int list" where
  "vote_terms out = List.map_filter vote_term out"

lemma vote_terms_simps [simp]:
  "vote_terms [] = []" "vote_terms (xs @ ys) = vote_terms xs @ vote_terms ys"
  "vote_term x = None \<Longrightarrow> vote_terms (x # xs) = vote_terms xs"
  "vote_term x = Some t \<Longrightarrow> vote_terms (x # xs) = t # vote_terms xs"
  by (simp_all add: vote_terms_def List.map_filter_def)

lemma vote_term_messages [simp]:
  "vote_term (UnicastTo (voteMessage i cand me t r) d) = Some t"
  "vote_term (UnicastTo (respondMessage i req me t r) d) = None"
  by (simp_all add: voteMessage_def respondMessage_def jobject_def)

lemma vote_term_outbound:
  assumes "jset ''type'' (JStr ''Request'') r = Some a" and "jset ''consensusId'' j a = Some b"
  shows "vote_term (UnicastTo b d) = None"
  using assms by (cases r; cases a) (auto split: if_splits)

lemma vote_term_other [simp]: "vote_term (Multicast m ts) = None"
  by simp

declare vote_term.simps [simp del]

text \<open>The keys of the requests that a peer tells the committee it committed.\<close>

fun announced_key :: "send \<Rightarrow> txkey option" where
  "announced_key (Multicast m ts) =
     (if jfind ''type'' m = Some (JStr ''Consensus'') \<and> jfind ''MessageType'' m = Some (JStr ''commit'')
      then Option.bind (jfind ''request'' m) extractKey else None)"
| "announced_key _ = None"

definition announced_keys :: "send list \<Rightarrow> txkey list" where
  "announced_keys out = List.map_filter announced_key out"

lemma announced_keys_simps [simp]:
  "announced_keys [] = []" "announced_keys (xs @ ys) = announced_keys xs @ announced_keys ys"
  "announced_key x = None \<Longrightarrow> announced_keys (x # xs) = announced_keys xs"
  "announced_key x = Some k \<Longrightarrow> announced_keys (x # xs) = k # announced_keys xs"
  by (simp_all add: announced_keys_def List.map_filter_def)

lemma announced_key_messages [simp]:
  "announced_key (Multicast (buildCommitMessage r me t i now sr) ts) = extractKey r"
  "announced_key (Multicast (buildRequestMessage r me t i) ts) = None"
  "announced_key (Multicast (electMessage i me t now) ts) = None"
  by (simp_all add: buildCommitMessage_def buildRequestMessage_def electMessage_def jobject_def)

declare announced_key.simps(1) [simp del]

subsection \<open>Operations that leave elections alone\<close>

definition distinct_replies :: "raft \<Rightarrow> bool" where
  "distinct_replies c = (\<forall>k rs. rf_replies c k = Some rs \<longrightarrow> distinct rs)"

text \<open>Replies that are forgotten or started anew, but none added.\<close>

definition replies_kept :: "(txkey \<rightharpoonup> interfaceId list) \<Rightarrow> (txkey \<rightharpoonup> interfaceId list) \<Rightarrow> bool" where
  "replies_kept m m' = (\<forall>k rs. m' k = Some rs \<longrightarrow> rs = [] \<or> m k = Some rs)"

lemma replies_kept_refl [simp]: "replies_kept m m"
  by (simp add: replies_kept_def)

lemma replies_kept_trans: "replies_kept m m' \<Longrightarrow> replies_kept m' m'' \<Longrightarrow> replies_kept m m''"
  unfolding replies_kept_def by blast

lemma replies_kept_upd [simp]: "replies_kept m (m(k := None))" "replies_kept m (m(k \<mapsto> []))"
  by (auto simp: replies_kept_def)

lemma replies_kept_distinct: "replies_kept (rf_replies c) (rf_replies c') \<Longrightarrow> distinct_replies c \<Longrightarrow> distinct_replies c'"
  unfolding replies_kept_def distinct_replies_def by (metis distinct.simps(1))

definition quiet :: "raft_ctx \<Rightarrow> raft_ctx \<Rightarrow> bool" where
  "quiet = (\<lambda>(c, g, out) (c', g', out').
     (\<exists>new. out' = out @ new \<and> vote_terms new = [] \<and> announced_keys new = []) \<and> rf_term c' = rf_term c \<and>
     rf_members c' = rf_members c \<and> rf_leaderId c' = rf_leaderId c \<and> rf_votes c' = rf_votes c \<and>
     replies_kept (rf_replies c) (rf_replies c'))"

lemma quiet_refl [simp]: "quiet s s"
  by (auto simp: quiet_def)

lemma quiet_trans [trans]: "quiet s t \<Longrightarrow> quiet t u \<Longrightarrow> quiet s u"
  unfolding quiet_def by (auto intro: replies_kept_trans split: prod.splits)

lemma quiet_fields:
  assumes "rf_term c' = rf_term c" "rf_members c' = rf_members c" "rf_leaderId c' = rf_leaderId c"
    "rf_votes c' = rf_votes c" "replies_kept (rf_replies c) (rf_replies c')"
  shows "quiet (c, g, out) (c', g', out)"
  using assms by (auto simp: quiet_def)

lemma quiet_send: "vote_term x = None \<Longrightarrow> announced_key x = None \<Longrightarrow> quiet (c, g, out) (c, g, out @ [x])"
  by (auto simp: quiet_def)

text \<open>The same for an answer, which may add a reply and commit a request.\<close>

definition calm :: "raft_ctx \<Rightarrow> raft_ctx \<Rightarrow> bool" where
  "calm = (\<lambda>(c, g, out) (c', g', out').
     (\<exists>new. out' = out @ new \<and> vote_terms new = []) \<and> rf_term c' = rf_term c \<and> rf_members c' = rf_members c \<and>
     rf_leaderId c' = rf_leaderId c \<and> rf_votes c' = rf_votes c \<and> (distinct_replies c \<longrightarrow> distinct_replies c'))"

lemma quiet_calm: "quiet s s' \<Longrightarrow> calm s s'"
  unfolding quiet_def calm_def by (auto dest: replies_kept_distinct)

lemma calm_trans: "calm s t \<Longrightarrow> calm t u \<Longrightarrow> calm s u"
  unfolding calm_def by (auto split: prod.splits)

lemma distinct_replies_upd [simp]:
  "distinct_replies (c\<lparr>rf_pending := a\<rparr>) = distinct_replies c"
  "distinct_replies (c\<lparr>rf_deferred := a\<rparr>) = distinct_replies c"
  "distinct_replies (c\<lparr>rf_term := t\<rparr>) = distinct_replies c"
  "distinct_replies (c\<lparr>rf_leaderId := i\<rparr>) = distinct_replies c"
  "distinct_replies (c\<lparr>rf_votes := v\<rparr>) = distinct_replies c"
  "distinct_replies (c\<lparr>rf_candidate := i\<rparr>) = distinct_replies c"
  "distinct_replies (c\<lparr>rf_timeOutRound := t\<rparr>) = distinct_replies c"
  "distinct_replies (c\<lparr>rf_leaderChanges := t\<rparr>) = distinct_replies c"
  by (simp_all add: distinct_replies_def)

lemma resetReplicationState_fields [simp]:
  "rf_term (resetReplicationState b c) = rf_term c" "rf_members (resetReplicationState b c) = rf_members c"
  "rf_votes (resetReplicationState b c) = rf_votes c" "rf_leaderId (resetReplicationState b c) = rf_leaderId c"
  "replies_kept (rf_replies c) (rf_replies (resetReplicationState b c))"
  by (auto simp: resetReplicationState_def Let_def split: if_splits)

lemma resetTimer_Some:
  "resetTimer now (c, g, out) = Some (c', g', out') \<Longrightarrow> \<exists>r. c' = c\<lparr>rf_timeOutRound := r\<rparr> \<and> out' = out"
  by (auto simp: resetTimer_def monad split: if_splits)

lemma quiet_resetTimer: "resetTimer now s = Some s' \<Longrightarrow> quiet s s'"
  by (cases s; cases s') (auto dest!: resetTimer_Some intro!: quiet_fields)

lemma quiet_resetReplicationState: "quiet (c, g, out) (resetReplicationState b c, g, out)"
  by (rule quiet_fields) (auto simp: resetReplicationState_def Let_def split: if_splits)

lemma quiet_enqueueDeferred: "enqueueDeferred r c = Some c' \<Longrightarrow> quiet (c, g, out) (c', g, out)"
  by (rule quiet_fields) (auto simp: enqueueDeferred_def monad split: if_splits)

lemma applyCommit_replies:
  assumes "applyCommit r a b k c = Some c'"
  shows "rf_replies c' = rf_replies c \<or> (\<exists>key. rf_replies c' = (rf_replies c)(key := None))"
    and "rf_term c' = rf_term c" "rf_members c' = rf_members c" "rf_leaderId c' = rf_leaderId c" "rf_votes c' = rf_votes c"
  using assms unfolding applyCommit_def Let_def dropDeferredRequest_def dropPendingRequest_def
  by (elim bind_SomeE if_SomeE; force)+

lemma quiet_applyCommit: "applyCommit r a b k c = Some c' \<Longrightarrow> quiet (c, g, out) (c', g, out)"
  by (rule quiet_fields; frule applyCommit_replies(1)) (auto simp: applyCommit_replies(2-5))

lemma forward_one_cases:
  assumes "forward_one me r (c, g, out) = Some s'"
  shows "s' = (c, g, out) \<or> (\<exists>q. s' = (c\<lparr>rf_pending := q\<rparr>, g, out)) \<or> (\<exists>q. s' = (c\<lparr>rf_deferred := q\<rparr>, g, out)) \<or>
    (\<exists>q a b. s' = (c\<lparr>rf_deferred := q\<rparr>, g, out @ [UnicastTo b (rf_leaderId c)]) \<and>
      jset ''type'' (JStr ''Request'') r = Some a \<and> jset ''consensusId'' (JInt (rf_committeeId c)) a = Some b)"
  using assms unfolding forward_one_def prod.case
  by (elim bind_SomeE if_SomeE) (simp_all only: option.inject, (blast dest: sym)+)

lemma quiet_forward_one:
  assumes "forward_one me r s = Some s'"
  shows "quiet s s'"
proof -
  obtain c g out where s: "s = (c, g, out)" by (metis prod.exhaust)
  from forward_one_cases [OF assms [unfolded s]] show ?thesis
    by (elim disjE exE conjE) (auto simp: s quiet_def vote_term_outbound)
qed

lemma quiet_foldM:
  assumes "foldM f xs s = Some s'" and "\<And>x s s'. x \<in> set xs \<Longrightarrow> f x s = Some s' \<Longrightarrow> quiet s s'"
  shows "quiet s s'"
  by (rule foldM_invariant [where I = "quiet s", OF assms(1)]) (auto intro: quiet_trans assms(2))

lemma quiet_tryForward: "tryForwardDeferredRequests me s = Some s' \<Longrightarrow> quiet s s'"
proof -
  assume run: "tryForwardDeferredRequests me s = Some s'"
  obtain c g out where s: "s = (c, g, out)" by (metis prod.exhaust)
  have "quiet (c, g, out) (c\<lparr>rf_deferred := []\<rparr>, g, out)" by (rule quiet_fields) simp_all
  also have "quiet (c\<lparr>rf_deferred := []\<rparr>, g, out) s'"
    by (rule quiet_foldM [of "forward_one me" "rf_deferred c"])
       (use run in \<open>simp_all add: tryForwardDeferredRequests_def s quiet_forward_one\<close>)
  finally show ?thesis by (simp add: s)
qed

lemma quiet_start_loop: "start_loop me now q s = Some s' \<Longrightarrow> quiet s s'"
proof (induction me now q s rule: start_loop.induct)
  case (1 me now c g out)
  then show ?case by (auto intro: quiet_fields)
next
  case (2 me now request rest c g out)
  from 2(2) obtain key where key: "extractKey request = Some key" by (auto simp: monad)
  show ?case
  proof (cases "\<not> keyValid key \<or> key \<in> rf_committedRequests c")
    case True
    then show ?thesis using 2 key by auto
  next
    case False
    from 2(2) key False obtain r where r: "resetTimer now (let replies = (case rf_replies c key of None \<Rightarrow> (rf_replies c)(key \<mapsto> []) | Some _ \<Rightarrow> rf_replies c);
        c = c\<lparr>rf_pending := rest, rf_hasInFlight := True, rf_inFlightKey := key, rf_inFlightRequest := r,
                 rf_replies := replies, rf_submittedRound := (rf_submittedRound c)(key \<mapsto> now)\<rparr>
        in (c, g, out @ [Multicast (buildRequestMessage r me (rf_term c) (rf_committeeId c)) (rf_members c)])) = Some s'"
      by (auto simp: monad Let_def)
    from quiet_resetTimer [OF r] show ?thesis
      by (rule quiet_trans [rotated]) (auto simp: quiet_def Let_def split: option.splits)
  qed
qed

lemma quiet_onClientRequest:
  assumes IH: "\<And>t t'. tryStartReplication fuel me now t = Some t' \<Longrightarrow> quiet t t'"
    and run: "onClientRequest fuel me now request s = Some s'"
  shows "quiet s s'"
proof -
  obtain c g out where s: "s = (c, g, out)" by (metis prod.exhaust)
  from run obtain r2 r3 c1 c2 c3 g3 out3 where
    q: "(if contains r2 ''clientSeq'' then Some (r2, c)
        else do { r \<leftarrow> jset ''clientSeq'' (JInt (rf_nextClientRequestId c)) r2;
                  Some (r, c\<lparr>rf_nextClientRequestId := rf_nextClientRequestId c + 1\<rparr>) }) = Some (r3, c1)"
    and e: "enqueueDeferred r3 c1 = Some c2" and f: "tryForwardDeferredRequests me (c2, g, out) = Some (c3, g3, out3)"
    and t: "(if rf_leaderId c3 = me then tryStartReplication fuel me now (c3, g3, out3) else Some (c3, g3, out3)) = Some s'"
    unfolding s onClientRequest.simps by (elim bind_SomeE) (auto simp: monad simp del: if_split)
  have "quiet (c, g, out) (c1, g, out)" using q by (auto simp: quiet_def monad split: if_splits)
  also note quiet_enqueueDeferred [OF e]
  also note quiet_tryForward [OF f]
  also have "quiet (c3, g3, out3) s'" using t IH by (auto split: if_splits)
  finally show ?thesis by (simp add: s)
qed

lemma quiet_tryStart: "tryStartReplication fuel me now t = Some t' \<Longrightarrow> quiet t t'"
proof (induction fuel arbitrary: t t')
  case (Suc fuel)
  obtain c g out where t: "t = (c, g, out)" by (metis prod.exhaust)
  show ?case
  proof (cases "rf_leaderId c \<noteq> me \<or> rf_hasInFlight c")
    case False
    let ?c = "c\<lparr>rf_nextClientRequestId := rf_nextClientRequestId c + 1\<rparr>"
    from Suc.prems False obtain s1 where o: "(if rf_pending c = [] then
            onClientRequest fuel me now (clientRequest me (rf_nextClientRequestId c) now) (?c, g, out)
          else Some (c, g, out)) = Some s1"
      and l: "start_loop me now (rf_pending (fst s1)) s1 = Some t'"
      unfolding t tryStartReplication.simps by (auto simp: monad simp del: onClientRequest.simps if_split split: if_split_asm)
    have "quiet (c, g, out) (?c, g, out)" by (rule quiet_fields) simp_all
    then have "quiet (c, g, out) s1"
    proof (cases "rf_pending c = []")
      case True
      with o have "onClientRequest fuel me now (clientRequest me (rf_nextClientRequestId c) now) (?c, g, out) = Some s1" by (simp only: simp_thms if_True)
      from quiet_onClientRequest [OF _ this] Suc.IH have "quiet (?c, g, out) s1" by blast
      with \<open>quiet (c, g, out) (?c, g, out)\<close> show ?thesis by (rule quiet_trans)
    qed (use o in simp)
    also note quiet_start_loop [OF l]
    finally show ?thesis by (simp add: t)
  qed (use Suc.prems in \<open>auto simp: t\<close>)
qed simp

text \<open>\<open>confirmRequest\<close> tells the committee of one commit, that of the request.\<close>

lemma confirmRequest_cases:
  assumes "confirmRequest me now r sr (c, g, out) = Some s'"
  obtains c1 key m where "extractKey r = Some key" "announced_key (Multicast m (rf_members c)) = Some key"
    "quiet (c, g, out) (c1, g, out)" "quiet (c1, g, out @ [Multicast m (rf_members c)]) s'"
proof -
  from assms obtain j c1 where
    a: "applyCommit r sr now True (c\<lparr>rf_confirmedTrans := rf_confirmedTrans c @ [j], rf_latency := rf_latency c + (now - sr)\<rparr>) = Some c1"
    and t: "startReplication me now
        (c1\<lparr>rf_hasInFlight := False, rf_inFlightKey := (NO_PEER_ID, -1), rf_inFlightRequest := JObj []\<rparr>, g,
         out @ [Multicast (buildCommitMessage r me (rf_term c1) (rf_committeeId c1) now sr) (rf_members c1)]) = Some s'"
    by (auto simp: confirmRequest_def monad Let_def)
  let ?m = "buildCommitMessage r me (rf_term c1) (rf_committeeId c1) now sr"
  let ?d = "c1\<lparr>rf_hasInFlight := False, rf_inFlightKey := (NO_PEER_ID, -1), rf_inFlightRequest := JObj []\<rparr>"
  from a obtain key where key: "extractKey r = Some key" by (auto simp: applyCommit_def monad)
  have "quiet (c, g, out) (c\<lparr>rf_confirmedTrans := rf_confirmedTrans c @ [j], rf_latency := rf_latency c + (now - sr)\<rparr>, g, out)"
    by (rule quiet_fields) simp_all
  also note quiet_applyCommit [OF a]
  also have "quiet (c1, g, out) (?d, g, out)" by (rule quiet_fields) simp_all
  finally have q: "quiet (c, g, out) (?d, g, out)" .
  then have m: "rf_members c1 = rf_members c" by (simp add: quiet_def)
  have "quiet (?d, g, out @ [Multicast ?m (rf_members c)]) s'"
    using t unfolding startReplication_def m by (rule quiet_tryStart)
  with q key show thesis by (intro that [of key ?m ?d]) simp_all
qed

lemma calm_confirmRequest:
  assumes "confirmRequest me now r sr s = Some s'"
  shows "calm s s'"
proof -
  obtain c g out where s: "s = (c, g, out)" by (metis prod.exhaust)
  from assms [unfolded s] show ?thesis
  proof (cases rule: confirmRequest_cases)
    case (1 c1 key m)
    have "calm (c1, g, out) (c1, g, out @ [Multicast m (rf_members c)])" by (auto simp: calm_def)
    with quiet_calm [OF 1(3)] quiet_calm [OF 1(4)] show ?thesis unfolding s by (meson calm_trans)
  qed
qed

subsection \<open>Terms and votes\<close>

text \<open>What every event does to the term and to the votes sent.\<close>

definition votes_advance :: "raft_ctx \<Rightarrow> raft_ctx \<Rightarrow> bool" where
  "votes_advance = (\<lambda>(c, g, out) (c', g', out'). \<exists>new. out' = out @ new \<and> rf_term c \<le> rf_term c' \<and>
     sorted_wrt (<) (vote_terms new) \<and> (\<forall>t \<in> set (vote_terms new). rf_term c < t \<and> t \<le> rf_term c'))"

lemma calm_advance: "calm s s' \<Longrightarrow> votes_advance s s'"
  by (auto simp: calm_def votes_advance_def)

lemma quiet_advance: "quiet s s' \<Longrightarrow> votes_advance s s'"
  by (rule calm_advance [OF quiet_calm])

lemma advance_trans: "votes_advance s t \<Longrightarrow> votes_advance t u \<Longrightarrow> votes_advance s u"
  unfolding votes_advance_def
  by (fastforce simp: sorted_wrt_append split: prod.splits)

lemma advance_term: "rf_term c \<le> rf_term c' \<Longrightarrow> votes_advance (c, g, out) (c', g', out)"
  by (auto simp: votes_advance_def)

lemma advance_handleElect:
  assumes "handleElect me now msg s = Some s'"
  shows "votes_advance s s'"
proof -
  obtain c g out where s: "s = (c, g, out)" by (metis prod.exhaust)
  from assms obtain t sender where ts: "value_int msg ''termNum'' (-1) = Some t" "value_id msg ''from_id'' NO_PEER_ID = Some sender"
    by (auto simp: handleElect_def s monad)
  show ?thesis
  proof (cases "t \<le> rf_term c \<or> sender = NO_PEER_ID")
    case True
    then show ?thesis using assms ts by (auto simp: handleElect_def s votes_advance_def)
  next
    case False
    let ?c = "resetReplicationState True (c\<lparr>rf_term := t, rf_leaderId := NO_PEER_ID, rf_votes := [], rf_candidate := sender\<rparr>)"
    from assms ts False obtain c1 g1 out1 r where rt: "resetTimer now (?c, g, out) = Some (c1, g1, out1)"
      and s': "s' = (c1, g1, out1 @ [UnicastTo (voteMessage (rf_committeeId c1) sender me (rf_term c1) r) sender])"
      by (auto simp: handleElect_def s monad Let_def)
    have "rf_term ?c = t" by (simp add: resetReplicationState_def Let_def)
    then have "rf_term c1 = t" "out1 = out" using resetTimer_Some [OF rt] by auto
    then show ?thesis using False by (auto simp: s s' votes_advance_def)
  qed
qed

lemma advance_followLeader: "followLeader now t sender s = Some s' \<Longrightarrow> votes_advance s s'"
  by (cases s; cases s') (auto simp: followLeader_def Let_def resetReplicationState_def
      intro!: advance_term dest!: resetTimer_Some split: if_splits)

lemma quiet_answerRequest:
  assumes "answerRequest me now sender msg s = Some s'"
  shows "quiet s s'"
proof -
  obtain c g out where s: "s = (c, g, out)" by (metis prod.exhaust)
  from assms show ?thesis unfolding s answerRequest_def prod.case
    by (elim bind_SomeE if_SomeE) (auto intro: quiet_trans [OF quiet_enqueueDeferred quiet_send])
qed

lemma advance_handleRequest: "handleRequest me now msg s = Some s' \<Longrightarrow> votes_advance s s'"
  unfolding handleRequest_def
  by (elim bind_SomeE if_SomeE)
     (auto intro: quiet_advance advance_trans [OF advance_followLeader quiet_advance [OF quiet_answerRequest]])

text \<open>The replies counted for a request.\<close>

definition responders :: "raft \<Rightarrow> txkey \<Rightarrow> interfaceId list" where
  "responders c k = (case rf_replies c k of None \<Rightarrow> [] | Some rs \<Rightarrow> rs)"

lemma handleRespond_cases:
  assumes "handleRespond me now msg (c, g, out) = Some s'"
  obtains (same) "s' = (c, g, out)"
    | (known) k where "s' = (c\<lparr>rf_replies := (rf_replies c)(k \<mapsto> responders c k)\<rparr>, g, out)"
    | (added) r k v where "value_json msg ''request'' (JObj []) = Some r" "extractKey r = Some k"
        "value_id msg ''from_id'' NO_PEER_ID = Some v" "v \<noteq> NO_PEER_ID" "v \<notin> set (responders c k)"
        "s' = (c\<lparr>rf_replies := (rf_replies c)(k \<mapsto> responders c k @ [v])\<rparr>, g, out)"
    | (confirmed) r k v sr where "value_json msg ''request'' (JObj []) = Some r" "extractKey r = Some k"
        "value_id msg ''from_id'' NO_PEER_ID = Some v" "v \<noteq> NO_PEER_ID" "v \<notin> set (responders c k)"
        "hasQuorum (Suc (length (responders c k))) c"
        "confirmRequest me now r sr (c\<lparr>rf_replies := (rf_replies c)(k \<mapsto> responders c k @ [v])\<rparr>, g, out) = Some s'"
proof -
  have q: "hasQuorum n (c\<lparr>rf_replies := r\<rparr>) = hasQuorum n c" for n r by (simp add: hasQuorum_def quorumThreshold_def)
  from assms show thesis
    unfolding handleRespond_def prod.case Let_def responders_def [symmetric]
    by (elim bind_SomeE if_Some_condE) (auto simp: q intro: same known added confirmed)
qed

lemma calm_handleRespond:
  assumes "handleRespond me now msg s = Some s'"
  shows "calm s s'"
proof -
  obtain c g out where s: "s = (c, g, out)" by (metis prod.exhaust)
  have d: "distinct_replies c \<Longrightarrow> distinct (responders c k)" for k
    unfolding distinct_replies_def responders_def by (auto split: option.splits simp del: split_paired_All)
  have upd: "calm (c, g, out) (c\<lparr>rf_replies := (rf_replies c)(k \<mapsto> xs)\<rparr>, g, out)"
    if "distinct_replies c \<Longrightarrow> distinct xs" for k xs
    using that by (auto simp: calm_def distinct_replies_def)
  from assms [unfolded s] show ?thesis
  proof (cases rule: handleRespond_cases)
    case (confirmed r k v sr)
    have "calm (c, g, out) (c\<lparr>rf_replies := (rf_replies c)(k \<mapsto> responders c k @ [v])\<rparr>, g, out)"
      using confirmed(5) d by (intro upd) simp
    with calm_confirmRequest [OF confirmed(7)] show ?thesis unfolding s by (rule calm_trans [rotated])
  qed (use s d quiet_calm in \<open>auto intro!: upd\<close>)
qed

lemma advance_handleVote:
  assumes "handleVote me now msg s = Some s'"
  shows "votes_advance s s'"
proof -
  obtain c g out where s: "s = (c, g, out)" by (metis prod.exhaust)
  have vote: "votes_advance (c, g, out) (c\<lparr>rf_votes := v\<rparr>, g, out)" for v by (rule advance_term) simp
  have win: "votes_advance (c, g, out) s'" if rt: "resetTimer now (c\<lparr>rf_votes := v\<rparr>, g, out) = Some (c1, g1, out1)"
    and f: "tryForwardDeferredRequests me ((resetReplicationState True (c1\<lparr>rf_leaderId := me, rf_candidate := NO_PEER_ID, rf_votes := []\<rparr>))
         \<lparr>rf_leaderChanges := k\<rparr>, g1, out1) = Some t"
    and st: "startReplication me now t = Some s'" for v c1 g1 out1 k t
  proof -
    have "votes_advance (c1, g1, out1) ((resetReplicationState True (c1\<lparr>rf_leaderId := me, rf_candidate := NO_PEER_ID, rf_votes := []\<rparr>))
         \<lparr>rf_leaderChanges := k\<rparr>, g1, out1)"
      by (rule advance_term) (simp add: resetReplicationState_def Let_def)
    then show ?thesis
      using vote quiet_advance [OF quiet_resetTimer [OF rt]] quiet_advance [OF quiet_tryForward [OF f]]
        quiet_advance [OF quiet_tryStart [OF st [unfolded startReplication_def]]] advance_trans by meson
  qed
  from assms show ?thesis
    unfolding s handleVote_def prod.case Let_def
    by (elim bind_SomeE if_SomeE) (auto intro: vote win quiet_advance simp: monad)
qed

lemma advance_handleCommit:
  assumes "handleCommit me now msg s = Some s'"
  shows "votes_advance s s'"
proof -
  obtain c g out where s: "s = (c, g, out)" by (metis prod.exhaust)
  have "votes_advance (c, g, out) (c', g, out)"
    if "applyCommit r a b False (if t > rf_term c then c\<lparr>rf_term := t\<rparr> else c) = Some c'" for r a b t c'
    using quiet_advance [OF quiet_applyCommit [OF that]]
    by (rule advance_trans [rotated]) (rule advance_term, simp)
  with assms show ?thesis
    unfolding s handleCommit_def prod.case Let_def
    by (elim bind_SomeE if_SomeE) (auto intro: quiet_advance simp del: if_split)
qed

lemma quiet_maybeGenerate:
  assumes "maybeGenerateClientRequest me now s = Some s1"
  shows "quiet s s1"
proof -
  obtain c g0 out where s: "s = (c, g0, out)" by (metis prod.exhaust)
  have step: "quiet (c, g0, out) (c\<lparr>rf_nextClientRequestId := k\<rparr>, g', out)" for k g'
    by (rule quiet_fields) (simp_all add: distinct_replies_def)
  have other: "quiet (c, g0, out) (c, g', out)" for g' by (rule quiet_fields) simp_all
  from assms show ?thesis
    unfolding s maybeGenerateClientRequest_def clientRequest_in_def prod.case
    by (elim bind_SomeE if_SomeE)
       (auto intro: other quiet_trans [OF step quiet_onClientRequest [OF quiet_tryStart]] simp: monad simp del: onClientRequest.simps split: if_splits)
qed

lemma advance_tick:
  assumes "tick me now s = Some s'"
  shows "votes_advance s s'"
proof -
  from assms obtain s1 s2 where g: "maybeGenerateClientRequest me now s = Some s1"
    and e: "maybeStartElection me now s1 = Some s2" and f: "tryForwardDeferredRequests me s2 = Some s'"
    by (auto simp: tick_def monad)
  have "quiet s s1" by (rule quiet_maybeGenerate [OF g])
  moreover have "votes_advance s1 s2"
  proof -
    obtain c g0 out where s: "s1 = (c, g0, out)" by (metis prod.exhaust)
    have "votes_advance (c, g0, out) (c', g', out' @ [Multicast m ms])"
      if "resetTimer now ((resetReplicationState True c)\<lparr>rf_candidate := me, rf_leaderId := NO_PEER_ID,
            rf_term := rf_term (resetReplicationState True c) + 1, rf_votes := []\<rparr>, g0, out) = Some (c', g', out')" for c' g' out' m ms
      using resetTimer_Some [OF that] by (auto simp: votes_advance_def resetReplicationState_def Let_def)
    with e show ?thesis unfolding s maybeStartElection_def prod.case Let_def
      by (elim bind_SomeE if_SomeE) (auto simp: monad intro: quiet_advance)
  qed
  ultimately show ?thesis using quiet_advance [OF quiet_tryForward [OF f]] quiet_advance advance_trans by meson
qed

subsection \<open>Runs of one peer\<close>

text \<open>What can happen to a consensus instance: a message, a client's request or the end of a round's messages.\<close>

datatype raft_event = RaftMessage int json | RaftClient int json | RaftTick int

fun raft_event_step :: "interfaceId \<Rightarrow> raft_event \<Rightarrow> raft_ctx \<Rightarrow> raft_ctx option" where
  "raft_event_step me (RaftMessage now msg) s = onConsensusMessage me now msg s"
| "raft_event_step me (RaftClient now req) s = clientRequest_in me now req s"
| "raft_event_step me (RaftTick now) s = tick me now s"

definition raft_run :: "interfaceId \<Rightarrow> raft_event list \<Rightarrow> raft_ctx \<Rightarrow> raft_ctx option" where
  "raft_run me evs s = foldM (raft_event_step me) evs s"

lemma onConsensusMessage_cases:
  assumes "onConsensusMessage me now msg s = Some s'"
  obtains "handleRequest me now msg s = Some s'" | "handleRespond me now msg s = Some s'"
    | "handleVote me now msg s = Some s'" | "handleElect me now msg s = Some s'"
    | "handleCommit me now msg s = Some s'" | "s' = s"
  using assms unfolding onConsensusMessage_def
  by (elim bind_SomeE if_SomeE) (blast, blast, blast, blast, blast, metis option.inject)

lemma advance_event:
  assumes "raft_event_step me ev s = Some s'"
  shows "votes_advance s s'"
proof (cases ev)
  case (RaftMessage now msg)
  with assms have "onConsensusMessage me now msg s = Some s'" by simp
  then show ?thesis
    by (cases rule: onConsensusMessage_cases)
       (auto intro: advance_handleRequest advance_handleVote advance_handleElect advance_handleCommit
         calm_advance calm_handleRespond quiet_advance)
next
  case (RaftClient now req)
  with assms have "onClientRequest (start_fuel (fst s)) me now req s = Some s'"
    by (simp add: clientRequest_in_def del: onClientRequest.simps)
  then show ?thesis by (intro quiet_advance quiet_onClientRequest [OF quiet_tryStart])
next
  case (RaftTick now)
  with assms show ?thesis by (auto intro: advance_tick)
qed

lemma advance_run:
  assumes "raft_run me evs s = Some s'"
  shows "votes_advance s s'"
  by (rule foldM_invariant [where I = "votes_advance s", OF assms [unfolded raft_run_def]])
     (auto intro: advance_trans advance_event quiet_advance)

text \<open>
  Claim C14. A Raft peer votes at most once in a term, whatever messages it receives and in whatever
  order: the terms of the votes it sends in a run are strictly increasing, above the term it started
  with and at most the one it ends with; and its term never decreases.
\<close>

theorem raft_one_vote_per_term:
  assumes "raft_run me evs (c, g, []) = Some (c', g', out)"
  shows "sorted_wrt (<) (vote_terms out) \<and> rf_term c \<le> rf_term c' \<and>
    (\<forall>t \<in> set (vote_terms out). rf_term c < t \<and> t \<le> rf_term c')"
  using advance_run [OF assms] by (auto simp: votes_advance_def)

definition example_raft :: "int \<Rightarrow> raft" where
  "example_raft spacing = \<lparr>rf_committeeId = 0, rf_members = [0, 1, 2], rf_confirmedTrans = [], rf_latency = 0,
     rf_candidate = NO_PEER_ID, rf_leaderId = 0, rf_term = 0, rf_votes = [], rf_replies = Map.empty,
     rf_submittedRound = Map.empty, rf_committedRequests = {}, rf_knownRequests = {}, rf_pending = [],
     rf_deferred = [], rf_hasInFlight = False, rf_inFlightKey = (NO_PEER_ID, -1), rf_inFlightRequest = JObj [],
     rf_leaderChanges = 0, rf_timeOutRound = 100, rf_timeOutSpacing = spacing, rf_timeOutRandom = 0,
     rf_submitRate = 0, rf_nextClientRequestId = 0\<rparr>"

lemma example_raft_run:
  "case raft_run 0 [RaftMessage 1 (electMessage 0 1 1 0), RaftMessage 2 (electMessage 0 2 1 0)]
     (example_raft 100, \<lambda>_. 0, []) of None \<Rightarrow> False | Some (c, g, out) \<Rightarrow> vote_terms out = [1]"
  by code_simp

theorem raft_one_vote_per_term_witness:
  "\<exists>c g out. raft_run 0 [RaftMessage 1 (electMessage 0 1 1 0), RaftMessage 2 (electMessage 0 2 1 0)]
     (example_raft 100, \<lambda>_. 0, []) = Some (c, g, out) \<and> sorted_wrt (<) (vote_terms out) \<and> vote_terms out = [1]"
proof -
  from example_raft_run obtain c g out where r: "raft_run 0 [RaftMessage 1 (electMessage 0 1 1 0), RaftMessage 2 (electMessage 0 2 1 0)]
     (example_raft 100, \<lambda>_. 0, []) = Some (c, g, out)" "vote_terms out = [1]"
    by (auto split: option.splits)
  from raft_one_vote_per_term [OF r(1)] r show ?thesis by blast
qed

subsection \<open>A system of peers\<close>

text \<open>
  The consensus instances of the peers \<open>0, 1, \<dots>\<close> and the messages in flight. A message is delivered to its
  addressee at any later time, in any order, as lossy and reordering channels allow; a peer is no
  neighbour of itself.
\<close>

type_synonym raft_sys = "raft list \<times> (interfaceId \<times> json) list"

datatype sys_event = SysTick nat int | SysDeliver nat int nat

fun deliveries :: "interfaceId \<Rightarrow> send \<Rightarrow> (interfaceId \<times> json) list" where
  "deliveries me (UnicastTo m d) = (if d = me then [] else [(d, m)])"
| "deliveries me (Multicast m ts) = map (\<lambda>t. (t, m)) (removeAll me ts)"
| "deliveries me _ = []"

definition sys_step :: "sys_event \<Rightarrow> raft_sys \<Rightarrow> raft_sys option" where
  "sys_step ev = (\<lambda>(cs, soup).
     let k = (case ev of SysTick k _ \<Rightarrow> k | SysDeliver k _ _ \<Rightarrow> k) in
     if k < length cs then do {
       (c, _, out) \<leftarrow> (case ev of
           SysTick k now \<Rightarrow> raft_event_step (int k) (RaftTick now) (cs ! k, \<lambda>_. 0, [])
         | SysDeliver k now i \<Rightarrow>
             (if i < length soup \<and> fst (soup ! i) = int k
              then raft_event_step (int k) (RaftMessage now (snd (soup ! i))) (cs ! k, \<lambda>_. 0, []) else None));
       Some (cs[k := c], soup @ concat (map (deliveries (int k)) out)) }
     else None)"

definition sys_run :: "sys_event list \<Rightarrow> raft_sys \<Rightarrow> raft_sys option" where
  "sys_run evs s = foldM sys_step evs s"

definition stale_votes :: "sys_event list" where
  "stale_votes =
     [SysTick 1 200, SysDeliver 0 201 0, SysDeliver 2 201 1,
      SysTick 2 400, SysDeliver 0 401 4, SysDeliver 1 401 5,
      SysTick 1 600, SysTick 2 600,
      SysDeliver 1 601 2, SysDeliver 1 601 3, SysDeliver 2 601 6, SysDeliver 2 601 7]"

lemma stale_votes_run:
  "case sys_run stale_votes (replicate 3 (example_raft 100), []) of None \<Rightarrow> False
   | Some (cs, soup) \<Rightarrow> rf_leaderId (cs ! 1) = 1 \<and> rf_leaderId (cs ! 2) = 2 \<and> rf_term (cs ! 1) = 3 \<and> rf_term (cs ! 2) = 3"
  by code_simp

subsection \<open>Majorities\<close>

interpretation raftQuorum: quorum "\<lambda>n a. a > n div 2" "\<lambda>_. 0"
  by unfold_locales auto

lemma hasQuorum_iff: "hasQuorum k c \<longleftrightarrow> k > length (rf_members c) div 2"
  by (simp add: hasQuorum_def quorumThreshold_def)

definition raft_inv :: "raft \<Rightarrow> bool" where
  "raft_inv c = (distinct_replies c \<and> distinct (rf_votes c))"

lemma handleVote_cases:
  assumes "handleVote me now msg (c, g, out) = Some s'"
  obtains (same) "s' = (c, g, out)"
    | (counted) sender where "rf_leaderId c \<noteq> me" "value_id msg ''from_id'' NO_PEER_ID = Some sender" "sender \<notin> set (rf_votes c)"
        "s' = (c\<lparr>rf_votes := rf_votes c @ [sender]\<rparr>, g, out)"
    | (won) sender c1 where "rf_leaderId c \<noteq> me" "value_id msg ''from_id'' NO_PEER_ID = Some sender" "sender \<notin> set (rf_votes c)"
        "hasQuorum (Suc (length (rf_votes c))) c" "rf_votes c1 = []" "rf_members c1 = rf_members c" "rf_leaderId c1 = me"
        "replies_kept (rf_replies c) (rf_replies c1)" "\<exists>g1. quiet (c1, g1, out) s'"
proof -
  let ?c = "\<lambda>sender. c\<lparr>rf_votes := rf_votes c @ [sender]\<rparr>"
  have quorum: "hasQuorum k (?c x) = hasQuorum k c" for k x by (simp add: hasQuorum_def quorumThreshold_def)
  have win: thesis if sender: "rf_leaderId c \<noteq> me" "value_id msg ''from_id'' NO_PEER_ID = Some sender" "sender \<notin> set (rf_votes c)"
      "hasQuorum (Suc (length (rf_votes c))) c"
    and rt: "resetTimer now (?c sender, g, out) = Some (c1, g1, out1)"
    and f: "tryForwardDeferredRequests me ((resetReplicationState True (c1\<lparr>rf_leaderId := me, rf_candidate := NO_PEER_ID, rf_votes := []\<rparr>))
         \<lparr>rf_leaderChanges := k\<rparr>, g1, out1) = Some t"
    and st: "startReplication me now t = Some s'" for sender c1 g1 out1 k t
  proof -
    let ?d = "(resetReplicationState True (c1\<lparr>rf_leaderId := me, rf_candidate := NO_PEER_ID, rf_votes := []\<rparr>))\<lparr>rf_leaderChanges := k\<rparr>"
    have q: "quiet (?d, g1, out1) s'"
      using quiet_tryForward [OF f] quiet_tryStart [OF st [unfolded startReplication_def]] by (rule quiet_trans)
    from resetTimer_Some [OF rt] obtain r where c1: "c1 = (?c sender)\<lparr>rf_timeOutRound := r\<rparr>" "out1 = out" by blast
    have "rf_votes ?d = [] \<and> rf_members ?d = rf_members c \<and> rf_leaderId ?d = me"
      by (simp add: c1)
    moreover have "replies_kept (rf_replies c) (rf_replies ?d)"
      using resetReplicationState_fields(5) [of "c1\<lparr>rf_leaderId := me, rf_candidate := NO_PEER_ID, rf_votes := []\<rparr>" True]
      by (simp add: c1)
    ultimately show thesis using won [OF sender, of ?d] q c1(2) by blast
  qed
  show thesis
    using assms unfolding handleVote_def prod.case Let_def
    by (elim bind_SomeE if_Some_condE) (auto simp: quorum monad intro: same counted win)
qed

text \<open>
  What every event but an answer keeps: it adds no reply and tells of no commit; the members stay, and
  the votes counted stay distinct.
\<close>

definition steady :: "raft_ctx \<Rightarrow> raft_ctx \<Rightarrow> bool" where
  "steady = (\<lambda>(c, g, out) (c', g', out').
     announced_keys out' = announced_keys out \<and> replies_kept (rf_replies c) (rf_replies c') \<and>
     rf_members c' = rf_members c \<and> (distinct (rf_votes c) \<longrightarrow> distinct (rf_votes c')))"

lemma steady_refl [simp]: "steady s s"
  by (auto simp: steady_def)

lemma steady_trans: "steady s t \<Longrightarrow> steady t u \<Longrightarrow> steady s u"
  unfolding steady_def by (auto intro: replies_kept_trans split: prod.splits)

lemma quiet_steady: "quiet s s' \<Longrightarrow> steady s s'"
  unfolding quiet_def steady_def by auto

lemma steady_reset:
  assumes "resetTimer now (c', g, out) = Some (c1, g1, out1)" and "rf_members c' = rf_members c"
    and "rf_votes c' = [] \<or> rf_votes c' = rf_votes c" and "replies_kept (rf_replies c) (rf_replies c')"
  shows "steady (c, g, out) (c1, g1, out1)"
  using resetTimer_Some [OF assms(1)] assms(2-4) by (auto simp: steady_def)

lemma steady_send: "steady s (c, g, out) \<Longrightarrow> announced_key x = None \<Longrightarrow> steady s (c, g, out @ [x])"
  by (cases s) (simp add: steady_def)

lemma resetReplicationState_kept:
  "rf_replies c = rf_replies c0 \<Longrightarrow> replies_kept (rf_replies c0) (rf_replies (resetReplicationState b c))"
  by (metis resetReplicationState_fields(5))

lemma steady_followLeader:
  assumes "followLeader now t sender s = Some s'"
  shows "steady s s'"
proof -
  obtain c g out where s: "s = (c, g, out)" by (metis prod.exhaust)
  obtain c1 g1 out1 where s': "s' = (c1, g1, out1)" by (metis prod.exhaust)
  from assms show ?thesis
    by (auto simp: s s' followLeader_def Let_def resetReplicationState_kept intro: steady_reset split: if_split_asm)
qed

lemma steady_handleRequest: "handleRequest me now msg s = Some s' \<Longrightarrow> steady s s'"
  unfolding handleRequest_def
  by (elim bind_SomeE if_SomeE)
     (auto intro: steady_trans [OF steady_followLeader quiet_steady [OF quiet_answerRequest]])

lemma steady_handleVote:
  assumes "handleVote me now msg s = Some s'"
  shows "steady s s'"
proof -
  obtain c g out where s: "s = (c, g, out)" by (metis prod.exhaust)
  from assms [unfolded s] show ?thesis
  proof (cases rule: handleVote_cases)
    case same
    then show ?thesis by (simp add: s)
  next
    case (counted sender)
    then show ?thesis by (auto simp: s steady_def)
  next
    case (won sender c1)
    then obtain g1 where q: "quiet (c1, g1, out) s'" by blast
    have "steady (c, g, out) (c1, g1, out)" using won by (simp add: steady_def)
    then show ?thesis unfolding s using quiet_steady [OF q] by (rule steady_trans)
  qed
qed

lemma steady_handleElect:
  assumes "handleElect me now msg s = Some s'"
  shows "steady s s'"
proof -
  obtain c g out where s: "s = (c, g, out)" by (metis prod.exhaust)
  have step: "steady (c, g, out) (c1, g1, out1 @ [UnicastTo m d])"
    if "resetTimer now (resetReplicationState True
          (c\<lparr>rf_term := t, rf_leaderId := NO_PEER_ID, rf_votes := [], rf_candidate := sender\<rparr>), g, out) = Some (c1, g1, out1)"
    for t sender c1 g1 out1 m d
    by (rule steady_send [OF steady_reset [OF that]]) (simp_all add: resetReplicationState_kept)
  from assms show ?thesis unfolding s handleElect_def prod.case Let_def
    by (elim bind_SomeE if_SomeE) (auto simp: monad intro: step)
qed

lemma steady_handleCommit:
  assumes "handleCommit me now msg s = Some s'"
  shows "steady s s'"
proof -
  obtain c g out where s: "s = (c, g, out)" by (metis prod.exhaust)
  have step: "steady (c, g, out) (c', g, out)"
    if "applyCommit r a b False (if t > rf_term c then c\<lparr>rf_term := t\<rparr> else c) = Some c'" for r a b t c'
    using quiet_steady [OF quiet_applyCommit [OF that, of g out]] by (auto simp: steady_def split: if_splits)
  from assms show ?thesis unfolding s handleCommit_def prod.case Let_def
    by (elim bind_SomeE if_SomeE) (auto intro: step simp del: if_split)
qed

lemma steady_maybeStartElection:
  assumes "maybeStartElection me now s = Some s'"
  shows "steady s s'"
proof -
  obtain c g out where s: "s = (c, g, out)" by (metis prod.exhaust)
  have step: "steady (c, g, out) (c1, g1, out1 @ [Multicast (electMessage i me t now) ts])"
    if "resetTimer now ((resetReplicationState True c)\<lparr>rf_candidate := me, rf_leaderId := NO_PEER_ID,
            rf_term := rf_term (resetReplicationState True c) + 1, rf_votes := []\<rparr>, g, out) = Some (c1, g1, out1)"
    for c1 g1 out1 i t ts
    by (rule steady_send [OF steady_reset [OF that]]) (simp_all add: resetReplicationState_kept)
  from assms show ?thesis unfolding s maybeStartElection_def prod.case Let_def
    by (elim bind_SomeE if_SomeE) (auto simp: monad intro: step)
qed

text \<open>An event is steady, or it is an answer.\<close>

lemma event_steady:
  assumes "raft_event_step me ev s = Some s'"
  obtains "steady s s'" | now msg where "ev = RaftMessage now msg" "value_string msg ''MessageType'' [] = Some ''respondRequest''"
    "handleRespond me now msg s = Some s'"
proof (cases ev)
  case (RaftMessage now msg)
  with assms have run: "onConsensusMessage me now msg s = Some s'" by simp
  show thesis
  proof (cases "value_string msg ''MessageType'' [] = Some ''respondRequest''")
    case True
    then show thesis using that(2) [OF RaftMessage] run by (simp add: onConsensusMessage_def)
  next
    case False
    with run have "handleRequest me now msg s = Some s' \<or> handleVote me now msg s = Some s' \<or>
        handleElect me now msg s = Some s' \<or> handleCommit me now msg s = Some s' \<or> s' = s"
      by (auto simp: onConsensusMessage_def monad split: if_split_asm)
    then have "steady s s'"
      using steady_handleRequest steady_handleVote steady_handleElect steady_handleCommit by (elim disjE) simp_all
    then show thesis by (rule that(1))
  qed
next
  case (RaftClient now req)
  with assms have "onClientRequest (start_fuel (fst s)) me now req s = Some s'"
    by (simp add: clientRequest_in_def del: onClientRequest.simps)
  then show thesis by (intro that(1) quiet_steady quiet_onClientRequest [OF quiet_tryStart])
next
  case (RaftTick now)
  with assms obtain s1 s2 where g: "maybeGenerateClientRequest me now s = Some s1"
    and e: "maybeStartElection me now s1 = Some s2" and f: "tryForwardDeferredRequests me s2 = Some s'"
    by (auto simp: tick_def monad)
  from quiet_steady [OF quiet_maybeGenerate [OF g]] steady_maybeStartElection [OF e] quiet_steady [OF quiet_tryForward [OF f]]
  show thesis using steady_trans that(1) by blast
qed

text \<open>The invariant, with the members, is kept by every event.\<close>

definition keeps_inv :: "raft_ctx \<Rightarrow> raft_ctx \<Rightarrow> bool" where
  "keeps_inv s s' = (raft_inv (fst s) \<longrightarrow> raft_inv (fst s') \<and> rf_members (fst s') = rf_members (fst s))"

lemma keeps_event:
  assumes "raft_event_step me ev s = Some s'"
  shows "keeps_inv s s'"
  using assms
proof (cases rule: event_steady)
  case 1
  then show ?thesis by (cases s; cases s') (auto simp: keeps_inv_def steady_def raft_inv_def dest: replies_kept_distinct)
next
  case (2 now msg)
  from calm_handleRespond [OF 2(3)] show ?thesis by (cases s; cases s') (auto simp: keeps_inv_def calm_def raft_inv_def)
qed

lemma run_inv:
  assumes "raft_run me evs (c, g, out) = Some (c', g', out')" and "raft_inv c"
  shows "raft_inv c' \<and> rf_members c' = rf_members c"
proof -
  have "keeps_inv (c, g, out) (c', g', out')"
    by (rule foldM_invariant [where I = "keeps_inv (c, g, out)", OF assms(1) [unfolded raft_run_def]])
       (auto simp: keeps_inv_def dest!: keeps_event)
  then show ?thesis using assms(2) by (simp add: keeps_inv_def)
qed

lemma fresh_inv: "rf_replies c = Map.empty \<Longrightarrow> rf_votes c = [] \<Longrightarrow> raft_inv c"
  by (simp add: raft_inv_def distinct_replies_def)

lemma majority_votes:
  assumes "handleVote me now msg (c, g, out) = Some (c', g', out')" and "raft_inv c"
    and "rf_leaderId c \<noteq> me" and "rf_leaderId c' = me"
  shows "\<exists>sender. value_id msg ''from_id'' NO_PEER_ID = Some sender \<and> distinct (rf_votes c @ [sender]) \<and>
    length (rf_votes c @ [sender]) > length (rf_members c) div 2"
  using assms(1)
  by (cases rule: handleVote_cases) (use assms(2-4) in \<open>auto simp: raft_inv_def hasQuorum_iff\<close>)

text \<open>
  Claim C15. Two elections share a voter: whenever two peers of the same committee, each in a state it
  reached from its start by any messages, become leader by a vote, and the votes they count come from
  members, some member voted for both.
\<close>

theorem raft_elections_intersect:
  assumes "rf_replies a0 = Map.empty" and "rf_votes a0 = []" and "raft_run i evs (a0, g0, []) = Some (a, ga, oa)"
    and "handleVote i ta ma (a, ga, oa) = Some (a', ga', oa')" and "rf_leaderId a \<noteq> i" and "rf_leaderId a' = i"
    and "rf_replies b0 = Map.empty" and "rf_votes b0 = []" and "raft_run j evs' (b0, h0, []) = Some (b, hb, ob)"
    and "handleVote j tb mb (b, hb, ob) = Some (b', hb', ob')" and "rf_leaderId b \<noteq> j" and "rf_leaderId b' = j"
    and "rf_members a0 = rf_members b0" and "distinct (rf_members a0)"
    and "value_id ma ''from_id'' NO_PEER_ID = Some x" and "value_id mb ''from_id'' NO_PEER_ID = Some y"
    and "set (rf_votes a @ [x]) \<subseteq> set (rf_members a0)" and "set (rf_votes b @ [y]) \<subseteq> set (rf_members b0)"
  shows "set (rf_votes a @ [x]) \<inter> set (rf_votes b @ [y]) \<noteq> {}"
proof -
  let ?M = "set (rf_members a0)" and ?A = "set (rf_votes a @ [x])" and ?B = "set (rf_votes b @ [y])"
  note ia = run_inv [OF assms(3) fresh_inv [OF assms(1,2)]] and ib = run_inv [OF assms(9) fresh_inv [OF assms(7,8)]]
  from majority_votes [OF assms(4) _ assms(5,6)] ia assms(15)
  have a: "distinct (rf_votes a @ [x])" "length (rf_votes a @ [x]) > length (rf_members a0) div 2" by auto
  from majority_votes [OF assms(10) _ assms(11,12)] ib assms(13,16)
  have b: "distinct (rf_votes b @ [y])" "length (rf_votes b @ [y]) > length (rf_members a0) div 2" by auto
  have "card ?M = length (rf_members a0)" "card ?A = length (rf_votes a @ [x])" "card ?B = length (rf_votes b @ [y])"
    using assms(14) a(1) b(1) by (simp_all add: distinct_card)
  then have "0 < card (?A \<inter> ?B)"
    using raftQuorum.intersection [of ?M ?A ?B] a(2) b(2) assms(13,17,18) by simp
  then show ?thesis by (metis card.empty less_numeral_extra(3))
qed

text \<open>An election with two votes of a committee of three, for the witnesses.\<close>

definition example_election :: "interfaceId \<Rightarrow> interfaceId \<Rightarrow> raft_event list" where
  "example_election me voter = [RaftTick 200, RaftMessage 201 (voteMessage 0 me voter 1 200)]"

definition wins_election :: "interfaceId \<Rightarrow> interfaceId \<Rightarrow> interfaceId \<Rightarrow> bool" where
  "wins_election me v w = (case raft_run me (example_election me v) (example_raft 100, \<lambda>_. 0, []) of None \<Rightarrow> False
     | Some (c, g, out) \<Rightarrow> rf_leaderId c \<noteq> me \<and> rf_votes c = [v] \<and>
         (case handleVote me 202 (voteMessage 0 me w 1 200) (c, g, out) of None \<Rightarrow> False
          | Some (c', _, _) \<Rightarrow> rf_leaderId c' = me))"

lemma example_elections: "wins_election 1 0 2" "wins_election 2 0 1"
  by code_simp+

lemma wins_electionE:
  assumes "wins_election me v w"
  obtains c g out c' g' out' where
    "raft_run me (example_election me v) (example_raft 100, \<lambda>_. 0, []) = Some (c, g, out)"
    "handleVote me 202 (voteMessage 0 me w 1 200) (c, g, out) = Some (c', g', out')"
    "rf_leaderId c \<noteq> me" "rf_leaderId c' = me" "rf_votes c = [v]"
  using assms by (auto simp: wins_election_def split: option.splits)

lemma voteMessage_from: "value_id (voteMessage i cand v t r) ''from_id'' NO_PEER_ID = Some v"
  by (simp add: voteMessage_def jobject_def value_with_def)

theorem raft_elections_intersect_witness: "set [0::int, 2] \<inter> set [0, 1] \<noteq> {} \<and> wins_election 1 0 2 \<and> wins_election 2 0 1"
proof -
  have fresh: "rf_replies (example_raft 100) = Map.empty" "rf_votes (example_raft 100) = []"
    "distinct (rf_members (example_raft 100))" "set (rf_members (example_raft 100)) = {0, 1, 2}"
    by (auto simp: example_raft_def)
  from example_elections(1) obtain a ga oa a' ga' oa' where
    a: "raft_run 1 (example_election 1 0) (example_raft 100, \<lambda>_. 0, []) = Some (a, ga, oa)"
      "handleVote 1 202 (voteMessage 0 1 2 1 200) (a, ga, oa) = Some (a', ga', oa')"
      "rf_leaderId a \<noteq> 1" "rf_leaderId a' = 1" "rf_votes a = [0]" by (rule wins_electionE)
  from example_elections(2) obtain b gb ob b' gb' ob' where
    b: "raft_run 2 (example_election 2 0) (example_raft 100, \<lambda>_. 0, []) = Some (b, gb, ob)"
      "handleVote 2 202 (voteMessage 0 2 1 1 200) (b, gb, ob) = Some (b', gb', ob')"
      "rf_leaderId b \<noteq> 2" "rf_leaderId b' = 2" "rf_votes b = [0]" by (rule wins_electionE)
  from raft_elections_intersect [OF fresh(1,2) a(1-4) fresh(1,2) b(1-4) refl fresh(3) voteMessage_from voteMessage_from]
  show ?thesis using example_elections by (simp add: a(5) b(5) fresh(4))
qed

subsection \<open>Commits\<close>

text \<open>A message by which peer \<open>v\<close> answers the request of a key.\<close>

definition answers :: "json \<Rightarrow> txkey \<Rightarrow> interfaceId \<Rightarrow> bool" where
  "answers msg k v = (value_string msg ''MessageType'' [] = Some ''respondRequest'' \<and>
     Option.bind (value_json msg ''request'' (JObj [])) extractKey = Some k \<and>
     value_id msg ''from_id'' NO_PEER_ID = Some v \<and> v \<noteq> NO_PEER_ID)"

definition answered :: "raft_event list \<Rightarrow> (txkey \<times> interfaceId) set" where
  "answered evs = {(k, v). \<exists>now msg. RaftMessage now msg \<in> set evs \<and> answers msg k v}"

text \<open>Replies and commits that the answers \<open>A\<close> bear out.\<close>

definition backed :: "(txkey \<times> interfaceId) set \<Rightarrow> nat \<Rightarrow> txkey \<Rightarrow> bool" where
  "backed A n k = (\<exists>V. distinct V \<and> n < 2 * length V \<and> (\<forall>v \<in> set V. (k, v) \<in> A))"

definition tally :: "(txkey \<times> interfaceId) set \<Rightarrow> nat \<Rightarrow> raft_ctx \<Rightarrow> bool" where
  "tally A n = (\<lambda>(c, g, out). length (rf_members c) = n \<and>
     (\<forall>k. distinct (responders c k) \<and> (\<forall>v \<in> set (responders c k). (k, v) \<in> A)) \<and>
     (\<forall>k \<in> set (announced_keys out). backed A n k))"

lemma tallyD:
  assumes "tally A n (c, g, out)"
  shows "length (rf_members c) = n" "distinct (responders c k)" "v \<in> set (responders c k) \<Longrightarrow> (k, v) \<in> A"
    "k \<in> set (announced_keys out) \<Longrightarrow> backed A n k"
  using assms unfolding tally_def prod.case by blast+

lemma tally_mono: "tally A n s \<Longrightarrow> A \<subseteq> B \<Longrightarrow> tally B n s"
  unfolding tally_def backed_def by (clarsimp) (meson subsetD)

lemma responders_kept: "replies_kept (rf_replies c) (rf_replies c') \<Longrightarrow> responders c' k = [] \<or> responders c' k = responders c k"
  unfolding replies_kept_def responders_def by (cases "rf_replies c' k") (simp, metis option.simps(5))

lemma tally_steady:
  assumes "steady s s'" and "tally A n s"
  shows "tally A n s'"
proof -
  obtain c g out c' g' out' where s: "s = (c, g, out)" "s' = (c', g', out')" by (metis prod.exhaust)
  have "distinct (responders c' k) \<and> (\<forall>v \<in> set (responders c' k). (k, v) \<in> A)" for k
  proof -
    have "responders c' k = [] \<or> responders c' k = responders c k"
      by (rule responders_kept) (use assms(1) in \<open>simp add: s steady_def\<close>)
    moreover have "distinct (responders c k) \<and> (\<forall>v \<in> set (responders c k). (k, v) \<in> A)"
      using tallyD(2,3) [OF assms(2) [unfolded s(1)]] by blast
    ultimately show ?thesis by (elim disjE) simp_all
  qed
  then show ?thesis using assms by (simp add: s steady_def tally_def)
qed

lemma responders_upd [simp]:
  "responders (c\<lparr>rf_replies := (rf_replies c)(k \<mapsto> xs)\<rparr>) j = (if j = k then xs else responders c j)"
  by (simp add: responders_def)

lemma tally_add:
  assumes "tally A n (c, g, out)" and "(k, v) \<in> A" and "v \<notin> set (responders c k)"
  shows "tally A n (c\<lparr>rf_replies := (rf_replies c)(k \<mapsto> responders c k @ [v])\<rparr>, g, out)"
  using assms by (auto simp: tally_def)

lemma tally_handleRespond:
  assumes "handleRespond me now msg s = Some s'" and "value_string msg ''MessageType'' [] = Some ''respondRequest''"
    and "tally A n s" and "{(k, v). answers msg k v} \<subseteq> A"
  shows "tally A n s'"
proof -
  obtain c g out where s: "s = (c, g, out)" by (metis prod.exhaust)
  have A: "(k, v) \<in> A" if "value_json msg ''request'' (JObj []) = Some r" "extractKey r = Some k"
    "value_id msg ''from_id'' NO_PEER_ID = Some v" "v \<noteq> NO_PEER_ID" for r k v
    using assms(2,4) that by (auto simp: answers_def)
  note t = assms(3) [unfolded s]
  from assms(1) [unfolded s] show ?thesis
  proof (cases rule: handleRespond_cases)
    case same
    then show ?thesis using t by simp
  next
    case (known k)
    then show ?thesis using t by (auto simp: tally_def)
  next
    case (added r k v)
    then show ?thesis using tally_add [OF t A [OF added(1-4)] added(5)] by simp
  next
    case (confirmed r k v sr)
    let ?c = "c\<lparr>rf_replies := (rf_replies c)(k \<mapsto> responders c k @ [v])\<rparr>"
    note t1 = tally_add [OF t A [OF confirmed(1-4)] confirmed(5)]
    have "backed A n k"
      unfolding backed_def
      by (rule exI [of _ "responders c k @ [v]"])
        (use tallyD(1) [OF t] tallyD(2,3) [OF t, where k = k] A [OF confirmed(1-4)] confirmed(5,6) in \<open>auto simp: hasQuorum_iff\<close>)
    from confirmed(7) show ?thesis
    proof (cases rule: confirmRequest_cases)
      case (1 c1 key m)
      have "tally A n (c1, g, out)" by (rule tally_steady [OF quiet_steady [OF 1(3)] t1])
      then have "tally A n (c1, g, out @ [Multicast m (rf_members ?c)])"
        using 1(1,2) confirmed(2) \<open>backed A n k\<close> by (simp add: tally_def)
      then show ?thesis by (rule tally_steady [OF quiet_steady [OF 1(4)]])
    qed
  qed
qed

lemma run_snoc:
  "raft_run me (evs @ [ev]) s = Some s' \<longleftrightarrow> (\<exists>t. raft_run me evs s = Some t \<and> raft_event_step me ev t = Some s')"
  by (auto simp: raft_run_def foldM_append monad)

lemma tally_run:
  assumes "raft_run me evs (c0, g0, []) = Some s" and "rf_replies c0 = Map.empty"
  shows "tally (answered evs) (length (rf_members c0)) s"
  using assms(1)
proof (induction evs arbitrary: s rule: rev_induct)
  case Nil
  then show ?case using assms(2) by (auto simp: raft_run_def tally_def responders_def)
next
  case (snoc ev evs)
  from snoc.prems obtain t where t: "raft_run me evs (c0, g0, []) = Some t" "raft_event_step me ev t = Some s"
    by (auto simp: run_snoc)
  have "tally (answered (evs @ [ev])) (length (rf_members c0)) t"
    by (rule tally_mono [OF snoc.IH [OF t(1)]]) (auto simp: answered_def)
  from t(2) this show ?case
    by (cases rule: event_steady) (auto simp: answered_def intro: tally_steady elim!: tally_handleRespond)
qed

text \<open>
  Claim C16. Raft commits a request only when a majority of the members answered it. In a run from a fresh
  state, of any messages, requests and rounds, whenever the peer has told the committee of a commit, there are
  distinct members, more than half of them, each of which answered that very request in a message of the
  run. That an answer carries the identifier of a member is the hypothesis: the code believes \<open>from_id\<close>.
\<close>

theorem raft_commit_majority:
  assumes "raft_run me evs (c0, g0, []) = Some (c, g, out)" and "rf_replies c0 = Map.empty"
    and "\<forall>now msg k v. RaftMessage now msg \<in> set evs \<longrightarrow> answers msg k v \<longrightarrow> v \<in> set (rf_members c0)"
    and "key \<in> set (announced_keys out)"
  shows "\<exists>V. V \<subseteq> set (rf_members c0) \<and> length (rf_members c0) < 2 * card V \<and>
    (\<forall>v \<in> V. \<exists>now msg. RaftMessage now msg \<in> set evs \<and> answers msg key v)"
proof -
  have "backed (answered evs) (length (rf_members c0)) key"
    by (rule tallyD(4) [OF tally_run [OF assms(1,2)] assms(4)])
  then obtain V where V: "distinct V" "length (rf_members c0) < 2 * length V" "\<forall>v \<in> set V. (key, v) \<in> answered evs"
    unfolding backed_def by blast
  from V(3) have "\<forall>v \<in> set V. \<exists>now msg. RaftMessage now msg \<in> set evs \<and> answers msg key v"
    unfolding answered_def by blast
  moreover from this have "set V \<subseteq> set (rf_members c0)" using assms(3) by blast
  ultimately show ?thesis using V(1,2) by (intro exI [of _ "set V"]) (simp add: distinct_card)
qed

definition example_commit :: "raft_event list" where
  "example_commit = [RaftClient 5 (clientRequest 0 0 5), RaftMessage 7 (respondMessage 0 (clientRequest 0 0 5) 1 0 5),
     RaftMessage 8 (respondMessage 0 (clientRequest 0 0 5) 2 0 5)]"

lemma example_commit_run:
  "case raft_run 0 example_commit (example_raft 100, \<lambda>_. 0, []) of None \<Rightarrow> False
   | Some (c, g, out) \<Rightarrow> announced_keys out = [(0, 0)]"
  by code_simp

lemma answers_respond: "answers (respondMessage i r v t n) k x \<Longrightarrow> x = v"
  by (simp add: answers_def respondMessage_def jobject_def value_with_def)

theorem raft_commit_majority_witness:
  "\<exists>V. V \<subseteq> {0, 1, 2} \<and> 3 < 2 * card V \<and> (\<forall>v \<in> V. \<exists>now msg. RaftMessage now msg \<in> set example_commit \<and> answers msg (0, 0) v)"
proof -
  from example_commit_run obtain c g out where
    r: "raft_run 0 example_commit (example_raft 100, \<lambda>_. 0, []) = Some (c, g, out)" and k: "(0, 0) \<in> set (announced_keys out)"
    by (auto split: option.splits)
  have m: "rf_members (example_raft 100) = [0, 1, 2]" "rf_replies (example_raft 100) = Map.empty"
    by (simp_all add: example_raft_def)
  have "\<forall>now msg k v. RaftMessage now msg \<in> set example_commit \<longrightarrow> answers msg k v \<longrightarrow> v \<in> set (rf_members (example_raft 100))"
    unfolding m by (auto simp: example_commit_def dest: answers_respond)
  from raft_commit_majority [OF r m(2) this k] show ?thesis by (simp add: m eval_nat_numeral)
qed

end
