(* ===== verification/RaftReplication.thy ===== *)
theory RaftReplication
  imports RaftSafety
begin

text \<open>
  Starting a replication in Raft: \<open>tryStartReplication\<close> of a leader without pending requests makes a
  request of its own and calls itself through \<open>onClientRequest\<close>. The calls end, because each one uses
  up a request number that an earlier request of the peer has taken; \<open>start_fuel\<close> is enough fuel.
\<close>

definition request_ok :: "json \<Rightarrow> bool" where
  "request_ok r \<longleftrightarrow> is_object r \<and> extractKey r \<noteq> None \<and> value_id r ''forwardedTo'' NO_PEER_ID \<noteq> None"

definition raft_ok :: "raft \<Rightarrow> bool" where
  "raft_ok c \<longleftrightarrow> (\<forall>r \<in> set (rf_deferred c) \<union> set (rf_pending c). request_ok r) \<and>
     finite (rf_knownRequests c \<union> rf_committedRequests c)"

text \<open>The request numbers from the next one on that are already taken.\<close>

definition taken :: "interfaceId \<Rightarrow> raft \<Rightarrow> txkey set" where
  "taken me c = {k \<in> rf_knownRequests c \<union> rf_committedRequests c. fst k = me \<and> snd k \<ge> rf_nextClientRequestId c}"

lemma taken_le: "raft_ok c \<Longrightarrow> card (taken me c) \<le> card (rf_knownRequests c \<union> rf_committedRequests c)"
  by (rule card_mono) (auto simp: taken_def raft_ok_def)

lemma extractKey_jset: "jset k v j = Some j' \<Longrightarrow> is_object j \<Longrightarrow> k \<notin> {''submitterId'', ''clientSeq''} \<Longrightarrow> extractKey j' = extractKey j"
  by (auto simp: extractKey_def value_with_jset)

lemma extractKey_jerase: "jerase k j = Some j' \<Longrightarrow> is_object j \<Longrightarrow> k \<notin> {''submitterId'', ''clientSeq''} \<Longrightarrow> extractKey j' = extractKey j"
  by (auto simp: extractKey_def value_with_jerase)

lemma extractKey_clientRequest [simp]: "extractKey (clientRequest me n now) = Some (me, n)"
  by (simp add: extractKey_def clientRequest_def)

lemma request_ok_clientRequest [simp]: "request_ok (clientRequest me n now)"
  by (simp add: request_ok_def) (simp add: clientRequest_def)

lemma resetTimer_total: "\<exists>g' r. resetTimer now (c, g, out) = Some (c\<lparr>rf_timeOutRound := r\<rparr>, g', out)"
  using randMod_total [of "rf_timeOutRandom c" g] by (fastforce simp: resetTimer_def)

text \<open>A leader moves its deferred requests that are valid and not committed to the pending ones.\<close>

definition wanted :: "raft \<Rightarrow> json \<Rightarrow> bool" where
  "wanted c r \<longleftrightarrow> (\<exists>k. extractKey r = Some k \<and> keyValid k \<and> k \<notin> rf_committedRequests c)"

lemma forward_one_leader:
  assumes "request_ok r" and "rf_leaderId c = me"
  shows "\<exists>p. forward_one me r (c, g, out) = Some (c\<lparr>rf_pending := rf_pending c @ p\<rparr>, g, out) \<and>
    (\<forall>x \<in> set p. request_ok x) \<and> (wanted c r \<longrightarrow> p \<noteq> [])"
proof -
  from assms(1) obtain k where k: "extractKey r = Some k" by (auto simp: request_ok_def)
  from assms(1) obtain r' where r': "jerase ''forwardedTo'' r = Some r'" using jerase_total by (auto simp: request_ok_def)
  have ok: "request_ok r'"
    using assms(1) r' jerase_is_object [OF r'] by (simp add: request_ok_def extractKey_jerase value_with_jerase)
  show ?thesis
  proof (cases "\<not> keyValid k \<or> k \<in> rf_committedRequests c")
    case True
    then show ?thesis using k by (auto simp: forward_one_def wanted_def intro!: exI [of _ "[]"])
  next
    case False
    then show ?thesis using k r' ok assms(2) by (auto simp: forward_one_def intro!: exI [of _ "[r']"])
  qed
qed

lemma forward_leader_loop:
  assumes "\<forall>r \<in> set q. request_ok r" and "rf_leaderId c = me"
  shows "\<exists>p. foldM (forward_one me) q (c, g, out) = Some (c\<lparr>rf_pending := rf_pending c @ p\<rparr>, g, out) \<and>
    (\<forall>x \<in> set p. request_ok x) \<and> ((\<exists>r \<in> set q. wanted c r) \<longrightarrow> p \<noteq> [])"
  using assms
proof (induction q arbitrary: c)
  case Nil
  show ?case by (auto intro!: exI [of _ "[]"])
next
  case (Cons r q)
  from forward_one_leader [of r c me g out] Cons.prems obtain p where
    p: "forward_one me r (c, g, out) = Some (c\<lparr>rf_pending := rf_pending c @ p\<rparr>, g, out)"
      "\<forall>x \<in> set p. request_ok x" "wanted c r \<longrightarrow> p \<noteq> []" by auto
  let ?c = "c\<lparr>rf_pending := rf_pending c @ p\<rparr>"
  from Cons.IH [of ?c] Cons.prems obtain p' where
    p': "foldM (forward_one me) q (?c, g, out) = Some (c\<lparr>rf_pending := rf_pending c @ p @ p'\<rparr>, g, out)"
      "\<forall>x \<in> set p'. request_ok x" "(\<exists>r \<in> set q. wanted c r) \<longrightarrow> p' \<noteq> []" by (auto simp: wanted_def)
  show ?case using p p' by (intro exI [of _ "p @ p'"]) auto
qed

lemma tryForward_leader:
  assumes "raft_ok c" and "rf_leaderId c = me"
  shows "\<exists>p. tryForwardDeferredRequests me (c, g, out) = Some (c\<lparr>rf_deferred := [], rf_pending := rf_pending c @ p\<rparr>, g, out) \<and>
    (\<forall>x \<in> set p. request_ok x) \<and> ((\<exists>r \<in> set (rf_deferred c). wanted c r) \<longrightarrow> p \<noteq> [])"
  using forward_leader_loop [of "rf_deferred c" "c\<lparr>rf_deferred := []\<rparr>" me g out] assms
  by (auto simp: tryForwardDeferredRequests_def raft_ok_def wanted_def)

lemma start_loop_total:
  assumes "\<forall>r \<in> set q. request_ok r" and "raft_ok c"
  shows "\<exists>c' g' out'. start_loop me now q (c, g, out) = Some (c', g', out') \<and> raft_ok c'"
  using assms
proof (induction q arbitrary: c g out)
  case Nil
  then show ?case by (auto simp: raft_ok_def)
next
  case (Cons r q)
  from Cons.prems obtain k where k: "extractKey r = Some k" by (auto simp: request_ok_def)
  show ?case
  proof (cases "\<not> keyValid k \<or> k \<in> rf_committedRequests c")
    case True
    then show ?thesis using Cons k by auto
  next
    case False
    from Cons.prems obtain r' where r': "jset ''roundSubmitted'' (JInt now) r = Some r'"
      using jset_total by (fastforce simp: request_ok_def)
    let ?c = "c\<lparr>rf_pending := q, rf_hasInFlight := True, rf_inFlightKey := k, rf_inFlightRequest := r',
      rf_replies := (case rf_replies c k of None \<Rightarrow> (rf_replies c)(k \<mapsto> []) | Some _ \<Rightarrow> rf_replies c),
      rf_submittedRound := (rf_submittedRound c)(k \<mapsto> now)\<rparr>"
    have "raft_ok (?c\<lparr>rf_timeOutRound := t\<rparr>)" for t using Cons.prems by (auto simp: raft_ok_def)
    then show ?thesis
      using False k r' resetTimer_total [of now ?c g "out @ [Multicast (buildRequestMessage r' me (rf_term ?c) (rf_committeeId ?c)) (rf_members ?c)]"]
      by (fastforce simp: Let_def)
  qed
qed

text \<open>What an incoming request leaves of the state on which a leader starts a replication.\<close>

lemma onClientRequest_leader:
  assumes ok: "raft_ok c" and lead: "rf_leaderId c = me"
  shows "\<exists>c'. onClientRequest fuel me now (clientRequest me n t) (c, g, out) = tryStartReplication fuel me now (c', g, out) \<and>
    raft_ok c' \<and> rf_leaderId c' = me \<and> rf_nextClientRequestId c' = rf_nextClientRequestId c \<and>
    rf_knownRequests c' \<subseteq> insert (me, n) (rf_knownRequests c) \<and> rf_committedRequests c' = rf_committedRequests c \<and>
    (rf_pending c' = [] \<longrightarrow> me = NO_PEER_ID \<or> n < 0 \<or> (me, n) \<in> rf_knownRequests c \<union> rf_committedRequests c)"
proof -
  let ?r = "clientRequest me n t"
  let ?d = "if \<not> keyValid (me, n) \<or> (me, n) \<in> rf_knownRequests c then c
    else c\<lparr>rf_knownRequests := insert (me, n) (rf_knownRequests c), rf_deferred := rf_deferred c @ [?r]\<rparr>"
  have has: "contains ?r ''roundSubmitted''" "contains ?r ''submitterId''" "contains ?r ''clientSeq''"
    by (simp_all add: contains_def clientRequest_def)
  have d: "raft_ok ?d" "rf_leaderId ?d = me" using ok lead by (auto simp: raft_ok_def)
  from tryForward_leader [OF d] obtain p where
    p: "tryForwardDeferredRequests me (?d, g, out) = Some (?d\<lparr>rf_deferred := [], rf_pending := rf_pending ?d @ p\<rparr>, g, out)"
      "\<forall>x \<in> set p. request_ok x" "(\<exists>r \<in> set (rf_deferred ?d). wanted ?d r) \<longrightarrow> p \<noteq> []" by blast
  let ?c = "?d\<lparr>rf_deferred := [], rf_pending := rf_pending ?d @ p\<rparr>"
  have run: "onClientRequest fuel me now ?r (c, g, out) = tryStartReplication fuel me now (?c, g, out)"
    using has p(1) d(2) by (simp add: enqueueDeferred_def cong: if_cong)
  have wanted: "wanted ?d ?r" if "keyValid (me, n)" "(me, n) \<notin> rf_committedRequests c"
    using that by (auto simp: wanted_def)
  have "rf_pending ?c = [] \<longrightarrow> me = NO_PEER_ID \<or> n < 0 \<or> (me, n) \<in> rf_knownRequests c \<union> rf_committedRequests c"
    using p(3) wanted by (auto simp: keyValid_def)
  moreover have "raft_ok ?c" using d(1) p(2) by (auto simp: raft_ok_def)
  ultimately show ?thesis using run d(2) by (intro exI [of _ ?c]) auto
qed

lemma pending_loop:
  "raft_ok c \<Longrightarrow> \<exists>c' g' out'. start_loop me now (rf_pending c) (c, g, out) = Some (c', g', out') \<and> raft_ok c'"
  by (rule start_loop_total) (auto simp: raft_ok_def)

lemma tryStart_pending:
  assumes "raft_ok c" and "rf_pending c \<noteq> [] \<or> rf_leaderId c \<noteq> me \<or> rf_hasInFlight c" and "0 < fuel"
  shows "\<exists>c' g' out'. tryStartReplication fuel me now (c, g, out) = Some (c', g', out') \<and> raft_ok c'"
  using assms pending_loop [of c me now g out] by (cases fuel) auto

lemma tryStart_total:
  assumes "raft_ok c" and "me \<noteq> NO_PEER_ID" and "0 \<le> rf_nextClientRequestId c" and "card (taken me c) + 2 \<le> fuel"
  shows "\<exists>c' g' out'. tryStartReplication fuel me now (c, g, out) = Some (c', g', out') \<and> raft_ok c'"
  using assms
proof (induction fuel arbitrary: c g out)
  case (Suc fuel)
  show ?case
  proof (cases "rf_pending c \<noteq> [] \<or> rf_leaderId c \<noteq> me \<or> rf_hasInFlight c")
    case True
    then show ?thesis using Suc.prems(1) by (intro tryStart_pending) simp_all
  next
    case False
    let ?n = "rf_nextClientRequestId c" let ?c = "c\<lparr>rf_nextClientRequestId := ?n + 1\<rparr>"
    have "raft_ok ?c" "rf_leaderId ?c = me" using Suc.prems(1) False by (auto simp: raft_ok_def)
    from onClientRequest_leader [OF this, of fuel now ?n now g out] obtain d where
      run: "onClientRequest fuel me now (clientRequest me ?n now) (?c, g, out) = tryStartReplication fuel me now (d, g, out)"
      and d: "raft_ok d" "rf_leaderId d = me" "rf_nextClientRequestId d = ?n + 1"
        "rf_knownRequests d \<subseteq> insert (me, ?n) (rf_knownRequests c)" "rf_committedRequests d = rf_committedRequests c"
        "rf_pending d = [] \<longrightarrow> (me, ?n) \<in> rf_knownRequests c \<union> rf_committedRequests c"
      using Suc.prems(2,3) by auto
    have "\<exists>c' g' out'. tryStartReplication fuel me now (d, g, out) = Some (c', g', out') \<and> raft_ok c'"
    proof (cases "rf_pending d = []")
      case True
      have fin: "finite (taken me c)" using Suc.prems(1) by (auto simp: taken_def raft_ok_def)
      have "(me, ?n) \<in> taken me c" using d(6) True by (auto simp: taken_def)
      moreover have "taken me d \<subseteq> taken me c - {(me, ?n)}" using d(3-5) by (auto simp: taken_def)
      ultimately have "taken me d \<subset> taken me c" by blast
      from psubset_card_mono [OF fin this] have "card (taken me d) + 2 \<le> fuel" using Suc.prems(4) by simp
      then show ?thesis using Suc.IH [of d] d Suc.prems(2,3) by simp
    next
      case False
      then show ?thesis using d(1) Suc.prems(4) by (intro tryStart_pending) simp_all
    qed
    then obtain c' g' out' where s: "tryStartReplication fuel me now (d, g, out) = Some (c', g', out')" "raft_ok c'" by blast
    from pending_loop [OF s(2), of me now g' out'] show ?thesis using False run s(1) by auto
  qed
qed simp

text \<open>
  Claim C17. Starting a replication returns: for a peer whose queued requests are well formed, the calls
  between \<open>tryStartReplication\<close> and \<open>onClientRequest\<close> end, however many of the peer's own request
  numbers are already known or committed, and the queues stay well formed.
\<close>

theorem raft_start_returns:
  assumes "raft_ok c" and "me \<noteq> NO_PEER_ID" and "0 \<le> rf_nextClientRequestId c"
  shows "\<exists>c' g' out'. startReplication me now (c, g, out) = Some (c', g', out') \<and> raft_ok c'"
  using tryStart_total [OF assms, of "start_fuel c" now g out] taken_le [OF assms(1), of me]
  by (simp add: startReplication_def start_fuel_def)

theorem raft_start_returns_witness:
  "\<exists>c' g' out'. startReplication 1 3 ((example_raft 3)\<lparr>rf_leaderId := 1, rf_deferred := [], rf_pending := [],
      rf_knownRequests := {(1, 0)}, rf_committedRequests := {}, rf_nextClientRequestId := 0\<rparr>, (\<lambda>_. 0), []) = Some (c', g', out') \<and> raft_ok c'"
  by (rule raft_start_returns) (simp_all add: raft_ok_def NO_PEER_ID_def)

subsection \<open>Elections\<close>

text \<open>
  A peer that waits for votes: not leader, its queues well formed, no more than half of the committee
  counted yet.
\<close>

definition awaits_votes :: "interfaceId \<Rightarrow> raft \<Rightarrow> bool" where
  "awaits_votes me c \<longleftrightarrow> raft_ok c \<and> (rf_hasInFlight c \<longrightarrow> request_ok (rf_inFlightRequest c)) \<and>
     0 \<le> rf_nextClientRequestId c \<and> rf_leaderId c \<noteq> me \<and> distinct (rf_votes c) \<and>
     2 * length (rf_votes c) \<le> length (rf_members c)"

lemma tryForward_leader_ok:
  assumes "raft_ok c" and "rf_leaderId c = me"
  obtains d where "tryForwardDeferredRequests me (c, g, out) = Some (d, g, out)" "raft_ok d"
    "rf_leaderId d = me" "rf_term d = rf_term c" "rf_nextClientRequestId d = rf_nextClientRequestId c"
proof -
  from tryForward_leader [OF assms, of g out] obtain p where
    p: "tryForwardDeferredRequests me (c, g, out) = Some (c\<lparr>rf_deferred := [], rf_pending := rf_pending c @ p\<rparr>, g, out)"
      "\<forall>x \<in> set p. request_ok x" by blast
  show thesis by (rule that [OF p(1)]) (use assms p(2) in \<open>auto simp: raft_ok_def\<close>)
qed

lemma start_leader_returns:
  assumes "raft_ok c" and "me \<noteq> NO_PEER_ID" and "0 \<le> rf_nextClientRequestId c" and "rf_leaderId c = me"
  shows "\<exists>c' g' out'. startReplication me now (c, g, out) = Some (c', g', out') \<and> rf_leaderId c' = me \<and> rf_term c' = rf_term c"
proof -
  from tryStart_total [OF assms(1-3), of "start_fuel c" now g out] taken_le [OF assms(1), of me] obtain c' g' out'
    where r: "startReplication me now (c, g, out) = Some (c', g', out')"
    by (auto simp: startReplication_def start_fuel_def)
  from quiet_tryStart [OF r [unfolded startReplication_def]] show ?thesis using r assms(4) by (auto simp: quiet_def)
qed

lemma vote_wins:
  assumes c: "awaits_votes me c" and me: "me \<noteq> NO_PEER_ID" and v: "v \<noteq> NO_PEER_ID" "v \<notin> set (rf_votes c)"
    and q: "length (rf_members c) < 2 * Suc (length (rf_votes c))"
  shows "\<exists>c' g' out'. handleVote me now (voteMessage i me v t r) (c, g, out) = Some (c', g', out') \<and>
    rf_leaderId c' = me \<and> rf_term c' = rf_term c"
proof -
  let ?c = "c\<lparr>rf_votes := rf_votes c @ [v]\<rparr>"
  have msg: "value_id (voteMessage i me v t r) ''trans'' NO_PEER_ID = Some me"
    "value_id (voteMessage i me v t r) ''from_id'' NO_PEER_ID = Some v"
    by (simp_all add: voteMessage_def jobject_def value_with_def)
  have quorum: "hasQuorum (length (rf_votes ?c)) ?c" using q by (simp add: hasQuorum_iff)
  obtain g1 z where rt: "resetTimer now (?c, g, out) = Some (?c\<lparr>rf_timeOutRound := z\<rparr>, g1, out)"
    using resetTimer_total by blast
  define d where "d = (resetReplicationState True ((?c\<lparr>rf_timeOutRound := z\<rparr>)
      \<lparr>rf_leaderId := me, rf_candidate := NO_PEER_ID, rf_votes := []\<rparr>))"
  let ?d = "d\<lparr>rf_leaderChanges := rf_leaderChanges d + 1\<rparr>"
  have d: "raft_ok ?d" "rf_leaderId ?d = me" "rf_term ?d = rf_term c" "rf_nextClientRequestId ?d = rf_nextClientRequestId c"
    using c by (auto simp: d_def awaits_votes_def raft_ok_def resetReplicationState_def Let_def)
  obtain e where e: "tryForwardDeferredRequests me (?d, g1, out) = Some (e, g1, out)" "raft_ok e"
    "rf_leaderId e = me" "rf_term e = rf_term c" "rf_nextClientRequestId e = rf_nextClientRequestId c"
    using tryForward_leader_ok [OF d(1,2), of g1 out] d(3,4) by metis
  have run: "handleVote me now (voteMessage i me v t r) (c, g, out) = startReplication me now (e, g1, out)"
    using c v msg rt quorum e(1)
    by (simp add: handleVote_def awaits_votes_def d_def Let_def)
  from start_leader_returns [OF e(2) me _ e(3), of now g1 out] show ?thesis
    using c by (auto simp: run e awaits_votes_def)
qed

lemma vote_counted:
  assumes "awaits_votes me c" and "v \<noteq> NO_PEER_ID"
    and "\<not> (v \<notin> set (rf_votes c) \<and> length (rf_members c) < 2 * Suc (length (rf_votes c)))"
  shows "\<exists>c'. handleVote me now (voteMessage i me v t r) (c, g, out) = Some (c', g, out) \<and> awaits_votes me c' \<and>
    rf_term c' = rf_term c \<and> rf_members c' = rf_members c \<and> set (rf_votes c') = insert v (set (rf_votes c))"
proof -
  have msg: "value_id (voteMessage i me v t r) ''trans'' NO_PEER_ID = Some me"
    "value_id (voteMessage i me v t r) ''from_id'' NO_PEER_ID = Some v"
    by (simp_all add: voteMessage_def jobject_def value_with_def)
  show ?thesis
  proof (cases "v \<in> set (rf_votes c)")
    case True
    then show ?thesis using assms(1) msg by (auto simp: handleVote_def awaits_votes_def)
  next
    case False
    with assms show ?thesis
      by (intro exI [of _ "c\<lparr>rf_votes := rf_votes c @ [v]\<rparr>"])
        (auto simp: handleVote_def awaits_votes_def msg Let_def hasQuorum_iff raft_ok_def)
  qed
qed

lemma vote_event:
  "raft_event_step me (RaftMessage now (voteMessage i me' v t r)) s = handleVote me now (voteMessage i me' v t r) s"
  by (simp add: onConsensusMessage_def) (simp add: voteMessage_def jobject_def value_with_def)

lemma leader_ignores_votes:
  "rf_leaderId c = me \<Longrightarrow>
   raft_run me (map (\<lambda>(now, v, t, r). RaftMessage now (voteMessage i me v t r)) vs) (c, g, out) = Some (c, g, out)"
  by (induction vs) (auto simp: raft_run_def vote_event handleVote_def simp del: raft_event_step.simps)

lemma votes_run:
  assumes "awaits_votes me c" and "me \<noteq> NO_PEER_ID" and "\<forall>(now, v, t, r) \<in> set vs. v \<noteq> NO_PEER_ID"
  shows "\<exists>c' g' out'. raft_run me (map (\<lambda>(now, v, t, r). RaftMessage now (voteMessage i me v t r)) vs) (c, g, out) = Some (c', g', out') \<and>
    rf_term c' = rf_term c \<and>
    (rf_leaderId c' = me \<longleftrightarrow> length (rf_members c) < 2 * card (set (rf_votes c) \<union> (\<lambda>(now, v, t, r). v) ` set vs))"
  using assms(1,3)
proof (induction vs arbitrary: c g out)
  case Nil
  then show ?case by (auto simp: raft_run_def awaits_votes_def distinct_card)
next
  case (Cons x vs)
  obtain now v t r where x: "x = (now, v, t, r)" by (metis prod_cases4)
  let ?S = "set (rf_votes c) \<union> (\<lambda>(now, v, t, r). v) ` set (x # vs)"
  have run: "raft_run me (map (\<lambda>(now, v, t, r). RaftMessage now (voteMessage i me v t r)) (x # vs)) (c, g, out) =
     Option.bind (handleVote me now (voteMessage i me v t r) (c, g, out))
       (raft_run me (map (\<lambda>(now, v, t, r). RaftMessage now (voteMessage i me v t r)) vs))"
    by (simp add: x raft_run_def [abs_def] vote_event del: raft_event_step.simps)
  have v: "v \<noteq> NO_PEER_ID" using Cons.prems(2) by (simp add: x)
  show ?case
  proof (cases "v \<notin> set (rf_votes c) \<and> length (rf_members c) < 2 * Suc (length (rf_votes c))")
    case True
    with vote_wins [OF Cons.prems(1) assms(2) v] obtain c' g' out' where
      w: "handleVote me now (voteMessage i me v t r) (c, g, out) = Some (c', g', out')" "rf_leaderId c' = me" "rf_term c' = rf_term c"
      by blast
    have "Suc (length (rf_votes c)) = card (insert v (set (rf_votes c)))"
      using True Cons.prems(1) by (simp add: awaits_votes_def distinct_card)
    also have "\<dots> \<le> card ?S" by (rule card_mono) (auto simp: x)
    finally have "length (rf_members c) < 2 * card ?S" using True by simp
    then show ?thesis unfolding run w(1) bind.bind_lunit leader_ignores_votes [OF w(2)] using w(2,3) by blast
  next
    case False
    from vote_counted [OF Cons.prems(1) v False] obtain d where
      d: "handleVote me now (voteMessage i me v t r) (c, g, out) = Some (d, g, out)" "awaits_votes me d"
        "rf_term d = rf_term c" "rf_members d = rf_members c" "set (rf_votes d) = insert v (set (rf_votes c))" by blast
    have S: "set (rf_votes d) \<union> (\<lambda>(now, v, t, r). v) ` set vs = ?S" by (auto simp: x d(5))
    from Cons.IH [OF d(2), of g out] Cons.prems(2) show ?thesis unfolding run by (simp only: S d bind.bind_lunit) (auto simp: x)
  qed
qed

text \<open>
  Claim C18. \<open>handleVote\<close> counts votes of any term: a peer that waits for votes, in whatever term it is, and
  receives votes for itself, of whatever terms and from whatever peers, in any order and with repetitions,
  becomes leader of its own term exactly when the senders of these votes and of those counted before are
  more than half of the committee; its term does not change. So votes of an earlier term that arrive late elect a
  leader of a later one, and two peers can lead the same term (\<open>stale_votes_run\<close>, and the
  witness: peers 1 and 2 are elected for term 3, by the votes of terms 1 and 2).
\<close>

theorem raft_votes_of_any_term:
  assumes "awaits_votes me c" and "me \<noteq> NO_PEER_ID" and "\<forall>(now, v, t, r) \<in> set vs. v \<noteq> NO_PEER_ID"
  shows "\<exists>c' g' out'. raft_run me (map (\<lambda>(now, v, t, r). RaftMessage now (voteMessage i me v t r)) vs) (c, g, out) = Some (c', g', out') \<and>
    rf_term c' = rf_term c \<and>
    (rf_leaderId c' = me \<longleftrightarrow> length (rf_members c) < 2 * card (set (rf_votes c) \<union> (\<lambda>(now, v, t, r). v) ` set vs))"
  using assms by (rule votes_run)

definition example_candidate :: "interfaceId \<Rightarrow> raft" where
  "example_candidate me = (example_raft 100)\<lparr>rf_term := 3, rf_candidate := me, rf_leaderId := NO_PEER_ID\<rparr>"

theorem raft_votes_of_any_term_witness:
  "(\<exists>c g out. raft_run 1 [RaftMessage 601 (voteMessage 0 1 0 1 200), RaftMessage 601 (voteMessage 0 1 2 1 200)]
      (example_candidate 1, \<lambda>_. 0, []) = Some (c, g, out) \<and> rf_term c = 3 \<and> rf_leaderId c = 1) \<and>
   (\<exists>c g out. raft_run 2 [RaftMessage 601 (voteMessage 0 2 0 2 400), RaftMessage 601 (voteMessage 0 2 1 2 400)]
      (example_candidate 2, \<lambda>_. 0, []) = Some (c, g, out) \<and> rf_term c = 3 \<and> rf_leaderId c = 2)"
proof -
  have c: "awaits_votes me (example_candidate me)" if "me \<noteq> NO_PEER_ID" for me
    using that by (auto simp: awaits_votes_def example_candidate_def example_raft_def raft_ok_def)
  have f: "rf_term (example_candidate me) = 3" "rf_votes (example_candidate me) = []"
    "length (rf_members (example_candidate me)) = 3" for me
    by (simp_all add: example_candidate_def example_raft_def)
  show ?thesis
    using raft_votes_of_any_term [OF c [of 1], of "[(601, 0, 1, 200), (601, 2, 1, 200)]" 0 "\<lambda>_. 0" "[]"]
      raft_votes_of_any_term [OF c [of 2], of "[(601, 0, 2, 400), (601, 1, 2, 400)]" 0 "\<lambda>_. 0" "[]"]
    by (simp add: f NO_PEER_ID_def)
qed

end
