(* ===== verification/Faults.thy ===== *)
theory Faults
  imports Network
begin

text \<open>
  Faulty peers (src/quantas/Common/Faults.hpp, ByzantinePeer.hpp, equivocateFault.hpp and
  ParasiteFault.hpp).

  A fault object may be listed in several vectors of the manager: the manager keeps its objects once,
  in \<open>fm_objects\<close>, and its vectors hold their positions. A hook returns the changed fault, the changed
  message, the sends it makes on the network interface and whether it replaces the ordinary action. A
  Byzantine peer passes every send of its algorithm through the hooks. The hash of a printed message,
  used for a checkpoint without digest, is the argument \<open>hash\<close>.
\<close>

subsection \<open>Equivocation\<close>

record equivocateFault =
  eq_quorumA :: idset
  eq_quorumB :: idset
  eq_applicableMessageTypes :: "string set"

definition intersectTargets :: "idset \<Rightarrow> idset \<Rightarrow> idset" where
  "intersectTargets src filt = filter (\<lambda>i. i \<in> set filt) src"

definition strip_flip :: "string \<Rightarrow> string" where
  "strip_flip s = (if length s \<ge> 5 \<and> drop (length s - 5) s = ''#flip'' then take (length s - 5) s else s)"

text \<open>The assignment \<open>m["proposal"]["Request"]["fault_flip"] = b\<close> after its two guards.\<close>

definition set_flip :: "bool \<Rightarrow> json \<Rightarrow> json option" where
  "set_flip b m = do {
     m \<leftarrow> (if contains m ''proposal'' then Some m else jset ''proposal'' (JObj []) m);
     p \<leftarrow> jindex m ''proposal'';
     p \<leftarrow> (if contains p ''Request'' then Some p else jset ''Request'' (JObj []) p);
     r \<leftarrow> jindex p ''Request'';
     r \<leftarrow> jset ''fault_flip'' (JBool b) r;
     p \<leftarrow> jset ''Request'' r p;
     jset ''proposal'' p m }"

text \<open>The message for the first group and the conflicting one for the second.\<close>

definition equivocate_variants :: "(json \<Rightarrow> string) \<Rightarrow> string \<Rightarrow> json \<Rightarrow> (json \<times> json) option" where
  "equivocate_variants hash mt msg =
     (if mt = ''checkpoint'' then
        (case jfind ''digest'' msg of
           Some (JStr s) \<Rightarrow> do {
             m \<leftarrow> jset ''digest'' (JStr (strip_flip s)) msg;
             alt \<leftarrow> jset ''digest'' (JStr (strip_flip s @ ''#flip'')) msg;
             Some (m, alt) }
         | _ \<Rightarrow> do { alt \<leftarrow> jset ''digest'' (JStr (hash msg)) msg; Some (msg, alt) })
      else do { m \<leftarrow> set_flip False msg; alt \<leftarrow> set_flip True msg; Some (m, alt) })"

definition equivocate_onSend :: "(json \<Rightarrow> string) \<Rightarrow> json \<Rightarrow> string \<Rightarrow> idset \<Rightarrow> equivocateFault
    \<Rightarrow> (json \<times> send list \<times> bool) option" where
  "equivocate_onSend hash msg sendType targets f =
     (if sendType \<noteq> ''multicast'' \<or> \<not> contains msg ''MessageType'' then Some (msg, [], False)
      else do {
        j \<leftarrow> jindex msg ''MessageType'';
        mt \<leftarrow> get_string j;
        if mt \<notin> eq_applicableMessageTypes f \<or> targets = [] then Some (msg, [], False)
        else do {
          let A = intersectTargets targets (eq_quorumA f);
          let B = intersectTargets targets (eq_quorumB f);
          (m, alt) \<leftarrow> equivocate_variants hash mt msg;
          Some (m, [Multicast m A, Multicast alt B], True) } })"

subsection \<open>The parasite\<close>

record storedBlock =
  sb_message :: json
  sb_height :: int
  sb_hash :: string
  sb_parents :: "string list"

record parasiteFault =
  pf_leadThreshold :: int
  pf_collaborators :: idset
  pf_privateChain :: "storedBlock list"
  pf_privateHashes :: "string set"
  pf_privateHeight :: int
  pf_publicHeight :: int

definition new_parasiteFault :: "int \<Rightarrow> idset \<Rightarrow> parasiteFault" where
  "new_parasiteFault leadThreshold collaborators =
     \<lparr>pf_leadThreshold = max 1 leadThreshold, pf_collaborators = collaborators, pf_privateChain = [],
      pf_privateHashes = {}, pf_privateHeight = 0, pf_publicHeight = 0\<rparr>"

definition better_private :: "storedBlock \<Rightarrow> storedBlock option \<Rightarrow> storedBlock option" where
  "better_private block best = (case best of
       None \<Rightarrow> Some block
     | Some b \<Rightarrow> if sb_height block > sb_height b \<or> (sb_height block = sb_height b \<and> sb_hash block < sb_hash b)
                 then Some block else Some b)"

definition selectPrivateParents :: "parasiteFault \<Rightarrow> string list" where
  "selectPrivateParents f = (case fold better_private (pf_privateChain f) None of
       None \<Rightarrow> []
     | Some best \<Rightarrow> if sb_hash best \<noteq> [] then [sb_hash best] else sb_parents best)"

definition stored_block :: "json \<Rightarrow> string \<Rightarrow> json \<Rightarrow> storedBlock option" where
  "stored_block msg hash block = do {
     h \<leftarrow> value_int block ''height'' 0;
     l \<leftarrow> value_int block ''length'' h;
     Some \<lparr>sb_message = msg, sb_height = l, sb_hash = hash,
           sb_parents = (case jfind ''parents'' block of
              Some (JArr ps) \<Rightarrow> concat (map (\<lambda>p. case p of JStr s \<Rightarrow> [s] | _ \<Rightarrow> []) ps) | _ \<Rightarrow> [])\<rparr> }"

definition storePrivate :: "json \<Rightarrow> parasiteFault \<Rightarrow> parasiteFault option" where
  "storePrivate msg f = (case jfind ''block'' msg of
       None \<Rightarrow> Some f
     | Some block \<Rightarrow>
         if \<not> is_object block then Some f
         else do {
           hash \<leftarrow> value_string block ''hash'' [];
           if hash = [] \<or> hash \<in> pf_privateHashes f then Some f
           else do {
             stored \<leftarrow> stored_block msg hash block;
             Some (f\<lparr>pf_privateHashes := insert hash (pf_privateHashes f),
                     pf_privateHeight := max (pf_privateHeight f) (sb_height stored),
                     pf_privateChain := pf_privateChain f @ [stored]\<rparr>) } })"

definition release_message :: "storedBlock \<Rightarrow> json" where
  "release_message b = (case jerase ''parasite_private'' (sb_message b) of None \<Rightarrow> sb_message b | Some m \<Rightarrow> m)"

definition tryRelease :: "parasiteFault \<Rightarrow> parasiteFault \<times> send list" where
  "tryRelease f =
     (if pf_privateChain f = [] \<or> pf_privateHeight f < pf_publicHeight f + pf_leadThreshold f then (f, [])
      else (f\<lparr>pf_publicHeight := max (pf_publicHeight f) (pf_privateHeight f), pf_privateHeight := 0,
              pf_privateChain := [], pf_privateHashes := {}\<rparr>,
            map (\<lambda>b. Broadcast (release_message b)) (sort_key sb_height (sort_key sb_hash (pf_privateChain f)))))"

definition extractHeight :: "json \<Rightarrow> int option" where
  "extractHeight msg = (case jfind ''block'' msg of
       None \<Rightarrow> Some 0
     | Some block \<Rightarrow> (case jfind ''length'' block of
           Some (JInt n) \<Rightarrow> Some n
         | _ \<Rightarrow> (case jfind ''height'' block of Some (JInt n) \<Rightarrow> Some n | _ \<Rightarrow> Some 0)))"

text \<open>The condition shared by both hooks: a block message of the proof-of-work protocol.\<close>

definition is_block_message :: "json \<Rightarrow> bool option" where
  "is_block_message msg = (case jfind ''type'' msg of
       Some (JStr t) \<Rightarrow> if t = ''PoW'' then do { mt \<leftarrow> value_string msg ''messageType'' []; Some (mt = ''block'') }
                        else Some False
     | _ \<Rightarrow> Some False)"

definition mark_parasite :: "json \<Rightarrow> json option" where
  "mark_parasite msg = do {
     b \<leftarrow> jindex msg ''block''; b \<leftarrow> jset ''parasite'' (JBool True) b; jset ''block'' b msg }"

definition parasite_onSend :: "interfaceId \<Rightarrow> json \<Rightarrow> string \<Rightarrow> parasiteFault
    \<Rightarrow> (parasiteFault \<times> json \<times> send list \<times> bool) option" where
  "parasite_onSend me msg sendType f = do {
     block \<leftarrow> (if sendType \<noteq> ''broadcast'' then Some False else is_block_message msg);
     if \<not> block then Some (f, msg, [], False)
     else do {
       msg \<leftarrow> mark_parasite msg;
       f \<leftarrow> storePrivate msg f;
       privateMsg \<leftarrow> jset ''parasite_private'' (JBool True) msg;
       let private = map (UnicastTo privateMsg) (filter (\<lambda>c. c \<noteq> me) (pf_collaborators f));
       let (f, released) = tryRelease f;
       Some (f, msg, private @ released, True) } }"

definition parasite_onReceive :: "json \<Rightarrow> interfaceId \<Rightarrow> parasiteFault \<Rightarrow> (parasiteFault \<times> send list) option" where
  "parasite_onReceive msg src f = do {
     block \<leftarrow> is_block_message msg;
     if \<not> block then Some (f, [])
     else do {
       isPrivate \<leftarrow> value_bool msg ''parasite_private'' False;
       height \<leftarrow> extractHeight msg;
       if isPrivate \<and> src \<in> set (pf_collaborators f) then do { f \<leftarrow> storePrivate msg f; Some (tryRelease f) }
       else Some (f\<lparr>pf_publicHeight := max (pf_publicHeight f) height\<rparr>, []) } }"

subsection \<open>The fault manager\<close>

datatype fault = Equivocate equivocateFault | Parasite parasiteFault

record faultManager =
  fm_objects :: "fault list"
  fm_unicastToFaults :: "nat list"
  fm_sendFaults :: "string \<rightharpoonup> nat list"
  fm_receiveFaults :: "nat list"
  fm_computationFaults :: "nat list"

definition new_faultManager :: faultManager where
  "new_faultManager = \<lparr>fm_objects = [], fm_unicastToFaults = [], fm_sendFaults = Map.empty,
     fm_receiveFaults = [], fm_computationFaults = []\<rparr>"

definition knownSendTypes :: "string list" where
  "knownSendTypes = [''unicast'', ''broadcast'', ''multicast'', ''randomMulticast'', ''broadcastBut'']"

text \<open>Which hooks a fault overrides.\<close>

fun overridesUnicastTo :: "fault \<Rightarrow> bool" where
  "overridesUnicastTo _ = False"

fun overridesSendType :: "string \<Rightarrow> fault \<Rightarrow> bool" where
  "overridesSendType t (Equivocate _) = (t = ''multicast'')"
| "overridesSendType t (Parasite _) = (t = ''broadcast'')"

fun overridesReceive :: "fault \<Rightarrow> bool" where
  "overridesReceive (Equivocate _) = False"
| "overridesReceive (Parasite _) = True"

fun overridesPerformComputation :: "fault \<Rightarrow> bool" where
  "overridesPerformComputation (Equivocate _) = False"
| "overridesPerformComputation (Parasite _) = True"

definition add_to :: "string \<Rightarrow> nat \<Rightarrow> (string \<rightharpoonup> nat list) \<Rightarrow> (string \<rightharpoonup> nat list)" where
  "add_to t i m = m(t \<mapsto> (case m t of None \<Rightarrow> [] | Some is \<Rightarrow> is) @ [i])"

definition addFault :: "fault \<Rightarrow> faultManager \<Rightarrow> faultManager" where
  "addFault f fm =
     (let i = length (fm_objects fm); put = (\<lambda>b is. if b then is @ [i] else is) in
      \<lparr>fm_objects = fm_objects fm @ [f],
       fm_unicastToFaults = put (overridesUnicastTo f) (fm_unicastToFaults fm),
       fm_sendFaults = fold (\<lambda>t m. if overridesSendType t f then add_to t i m else m) knownSendTypes (fm_sendFaults fm),
       fm_receiveFaults = put (overridesReceive f) (fm_receiveFaults fm),
       fm_computationFaults = put (overridesPerformComputation f) (fm_computationFaults fm)\<rparr>)"

fun onSend :: "(json \<Rightarrow> string) \<Rightarrow> interfaceId \<Rightarrow> json \<Rightarrow> string \<Rightarrow> idset \<Rightarrow> fault
    \<Rightarrow> (fault \<times> json \<times> send list \<times> bool) option" where
  "onSend hash me msg t targets (Equivocate f) = do {
     (m, out, b) \<leftarrow> equivocate_onSend hash msg t targets f; Some (Equivocate f, m, out, b) }"
| "onSend hash me msg t targets (Parasite f) = do {
     (f, m, out, b) \<leftarrow> parasite_onSend me msg t f; Some (Parasite f, m, out, b) }"

fun onReceive :: "json \<Rightarrow> interfaceId \<Rightarrow> fault \<Rightarrow> (fault \<times> send list) option" where
  "onReceive msg src (Equivocate f) = Some (Equivocate f, [])"
| "onReceive msg src (Parasite f) = do { (f, out) \<leftarrow> parasite_onReceive msg src f; Some (Parasite f, out) }"

text \<open>The base class's \<open>onUnicastTo\<close>, which no fault overrides, does nothing.\<close>

definition applyUnicastTo :: "json \<Rightarrow> interfaceId \<Rightarrow> faultManager \<Rightarrow> faultManager \<times> json \<times> bool" where
  "applyUnicastTo msg dest fm = (fm, msg, False)"

definition applySend :: "(json \<Rightarrow> string) \<Rightarrow> interfaceId \<Rightarrow> json \<Rightarrow> string \<Rightarrow> idset \<Rightarrow> faultManager
    \<Rightarrow> (faultManager \<times> json \<times> send list \<times> bool) option" where
  "applySend hash me msg t targets fm = foldM (\<lambda>i (fm, msg, out, overridden). do {
       (f, msg, sends, b) \<leftarrow> onSend hash me msg t targets (fm_objects fm ! i);
       Some (fm\<lparr>fm_objects := (fm_objects fm)[i := f]\<rparr>, msg, out @ sends, overridden \<or> b) })
     (case fm_sendFaults fm t of None \<Rightarrow> [] | Some is \<Rightarrow> is) (fm, msg, [], False)"

definition applyReceive :: "json \<Rightarrow> interfaceId \<Rightarrow> faultManager \<Rightarrow> (faultManager \<times> send list) option" where
  "applyReceive msg src fm = foldM (\<lambda>i (fm, out). do {
       (f, sends) \<leftarrow> onReceive msg src (fm_objects fm ! i);
       Some (fm\<lparr>fm_objects := (fm_objects fm)[i := f]\<rparr>, out @ sends) }) (fm_receiveFaults fm) (fm, [])"

subsection \<open>Byzantine peers\<close>

record 'p byzantine =
  bz_faults :: faultManager
  bz_peer :: 'p

text \<open>One send of the algorithm, as the virtual methods of \<open>ByzantinePeer\<close> treat it.\<close>

fun byz_send :: "(json \<Rightarrow> string) \<Rightarrow> interfaceId \<Rightarrow> send \<Rightarrow> faultManager \<times> send list \<Rightarrow> (faultManager \<times> send list) option" where
  "byz_send hash me (UnicastTo msg d) (fm, out) =
     (let (fm, msg, skip) = applyUnicastTo msg d fm in Some (fm, out @ (if skip then [] else [UnicastTo msg d])))"
| "byz_send hash me (Unicast msg) (fm, out) = do {
     (fm, msg, sends, skip) \<leftarrow> applySend hash me msg ''unicast'' [] fm;
     Some (fm, out @ sends @ (if skip then [] else [Unicast msg])) }"
| "byz_send hash me (Multicast msg targets) (fm, out) = do {
     (fm, msg, sends, skip) \<leftarrow> applySend hash me msg ''multicast'' targets fm;
     Some (fm, out @ sends @ (if skip then [] else [Multicast msg targets])) }"
| "byz_send hash me (Broadcast msg) (fm, out) = do {
     (fm, msg, sends, skip) \<leftarrow> applySend hash me msg ''broadcast'' [] fm;
     Some (fm, out @ sends @ (if skip then [] else [Broadcast msg])) }"
| "byz_send hash me (BroadcastBut msg d) (fm, out) = Some (fm, out @ [BroadcastBut msg d])"
| "byz_send hash me (RandomMulticast msg) (fm, out) = do {
     (fm, msg, sends, skip) \<leftarrow> applySend hash me msg ''randomMulticast'' [] fm;
     Some (fm, out @ sends @ (if skip then [] else [RandomMulticast msg])) }"

definition byz_sends :: "(json \<Rightarrow> string) \<Rightarrow> interfaceId \<Rightarrow> send list \<Rightarrow> faultManager \<Rightarrow> (faultManager \<times> send list) option" where
  "byz_sends hash me sends fm = foldM (byz_send hash me) sends (fm, [])"

text \<open>A computation of the algorithm with its sends filtered.\<close>

definition with_state :: "'q \<Rightarrow> 'p node \<Rightarrow> 'q node" where
  "with_state s p = \<lparr>nd_iface = nd_iface p, nd_crashRecoveryRound = nd_crashRecoveryRound p, nd_state = s\<rparr>"

definition byz_run :: "(json \<Rightarrow> string) \<Rightarrow> 'p perform \<Rightarrow> ('p byzantine) perform" where
  "byz_run hash alg now p g = do {
     (q, sends, g) \<leftarrow> alg now (with_state (bz_peer (nd_state p)) p) g;
     (fm, out) \<leftarrow> byz_sends hash (publicId p) sends (bz_faults (nd_state p));
     Some (with_state \<lparr>bz_faults = fm, bz_peer = nd_state q\<rparr> q, out, g) }"

text \<open>
  \<open>applyPerformComputation\<close>: a parasite runs the protocol step of a proof-of-work peer on its private
  chain; \<open>step\<close> is \<open>None\<close> for a peer of another class.
\<close>

definition applyPerformComputation :: "(json \<Rightarrow> string) \<Rightarrow> (string list \<Rightarrow> 'p perform) option \<Rightarrow> int
    \<Rightarrow> ('p byzantine) node \<Rightarrow> rng \<Rightarrow> (('p byzantine) node \<times> send list \<times> rng \<times> bool) option" where
  "applyPerformComputation hash step now p g = foldM (\<lambda>i (p, out, g, overridden).
       case (fm_objects (bz_faults (nd_state p)) ! i, step) of
         (Parasite f, Some run) \<Rightarrow> do {
           (p, sends, g) \<leftarrow> byz_run hash (run (selectPrivateParents f)) now p g;
           Some (p, out @ sends, g, True) }
       | _ \<Rightarrow> Some (p, out, g, overridden)) (fm_computationFaults (bz_faults (nd_state p))) (p, [], g, False)"

definition byz_perform :: "(json \<Rightarrow> string) \<Rightarrow> (string list \<Rightarrow> 'p perform) option \<Rightarrow> 'p perform \<Rightarrow> ('p byzantine) perform" where
  "byz_perform hash step alg now p g = do {
     (p, out, g, skipRegular) \<leftarrow> applyPerformComputation hash step now p g;
     if skipRegular then Some (p, out, g)
     else do { (p, sends, g) \<leftarrow> byz_run hash alg now p g; Some (p, out @ sends, g) } }"

subsection \<open>A manager with one fault, and one with none\<close>

lemma applySend_none: "fm_sendFaults fm t = None \<Longrightarrow> applySend hash me msg t targets fm = Some (fm, msg, [], False)"
  by (simp add: applySend_def)

lemma sendFaults_one_equivocate:
  "fm_sendFaults (addFault (Equivocate f) new_faultManager) = [''multicast'' \<mapsto> [0]]"
  by (simp add: addFault_def new_faultManager_def knownSendTypes_def add_to_def Let_def)

lemma applySend_equivocate:
  "applySend hash me msg ''multicast'' targets (addFault (Equivocate f) new_faultManager) =
     map_option (\<lambda>(m, out, b). (addFault (Equivocate f) new_faultManager, m, out, b)) (equivocate_onSend hash msg ''multicast'' targets f)"
  by (cases "equivocate_onSend hash msg ''multicast'' targets f")
     (auto simp: applySend_def sendFaults_one_equivocate, auto simp: addFault_def new_faultManager_def Let_def)

lemma byz_sends_honest: "byz_sends hash me sends new_faultManager = Some (new_faultManager, sends)"
proof -
  have "byz_send hash me x (new_faultManager, out) = Some (new_faultManager, out @ [x])" for x out
    by (cases x) (simp_all add: applyUnicastTo_def applySend_none, simp_all add: new_faultManager_def applySend_def)
  then have "foldM (byz_send hash me) sends (new_faultManager, out) = Some (new_faultManager, out @ sends)" for out
    by (induction sends arbitrary: out) simp_all
  then show ?thesis by (simp add: byz_sends_def)
qed

text \<open>
  Claim C19. A Byzantine peer without faults is the ordinary peer: a round of it returns what the
  algorithm's own computation returns, with the same sends in the same order.
\<close>

theorem byzantine_without_faults:
  "byz_perform hash step alg now (with_state \<lparr>bz_faults = new_faultManager, bz_peer = s\<rparr> p) g =
     map_option (\<lambda>(q, sends, g). (with_state \<lparr>bz_faults = new_faultManager, bz_peer = nd_state q\<rparr> q, sends, g))
       (alg now (with_state s p) g)"
proof -
  have "fm_computationFaults new_faultManager = []" by (simp add: new_faultManager_def)
  then show ?thesis
    by (cases "alg now (with_state s p) g")
       (auto simp: byz_perform_def applyPerformComputation_def byz_run_def with_state_def byz_sends_honest)
qed

subsection \<open>What equivocation sends\<close>

lemma jset_other: "jset k v j = Some j' \<Longrightarrow> jset k w j = Some j'' \<Longrightarrow> v \<noteq> w \<Longrightarrow> j' \<noteq> j''"
  by (metis jfind_jset option.inject)

lemma set_flip_read:
  assumes "set_flip b m = Some m'"
  shows "\<exists>p r. jfind ''proposal'' m' = Some p \<and> jfind ''Request'' p = Some r \<and> jfind ''fault_flip'' r = Some (JBool b)"
  using assms unfolding set_flip_def by (elim bind_SomeE) (blast intro: jfind_jset_same)

lemma equivocate_variants_differ:
  assumes "equivocate_variants hash mt msg = Some (m, alt)"
  shows "m \<noteq> alt"
proof (cases "mt = ''checkpoint''")
  case True
  then show ?thesis using assms
    by (auto simp: equivocate_variants_def dest!: jfind_jset_same elim!: bind_SomeE split: option.splits json.splits)
next
  case False
  with assms have "set_flip False msg = Some m" "set_flip True msg = Some alt"
    by (auto simp: equivocate_variants_def elim!: bind_SomeE)
  from set_flip_read [OF this(1)] set_flip_read [OF this(2)] show ?thesis by auto
qed

text \<open>
  When the two groups of an equivocating peer divide the targets of a multicast of one of its
  message types, the peer sends two different messages instead of one, and every target gets exactly
  one of the two.
\<close>

theorem equivocate_splits:
  assumes "byz_send hash me (Multicast msg targets) (addFault (Equivocate f) new_faultManager, out) = Some (fm', out')"
    and "jfind ''MessageType'' msg = Some (JStr mt)" and "mt \<in> eq_applicableMessageTypes f" and "targets \<noteq> []"
    and "set targets \<subseteq> set (eq_quorumA f) \<union> set (eq_quorumB f)" and "set (eq_quorumA f) \<inter> set (eq_quorumB f) = {}"
  shows "\<exists>m alt A B. out' = out @ [Multicast m A, Multicast alt B] \<and> m \<noteq> alt \<and> set A \<union> set B = set targets \<and>
           set A \<inter> set B = {} \<and> fm' = addFault (Equivocate f) new_faultManager"
proof -
  have idx: "jindex msg ''MessageType'' = Some (JStr mt)" using assms(2) by (cases msg) auto
  have on: "equivocate_onSend hash msg ''multicast'' targets f = do {
      (m, alt) \<leftarrow> equivocate_variants hash mt msg;
      Some (m, [Multicast m (intersectTargets targets (eq_quorumA f)), Multicast alt (intersectTargets targets (eq_quorumB f))], True) }"
    using assms(2-4) idx by (simp add: equivocate_onSend_def contains_def Let_def)
  from assms(1) on obtain m alt where v: "equivocate_variants hash mt msg = Some (m, alt)"
    and out: "out' = out @ [Multicast m (intersectTargets targets (eq_quorumA f)), Multicast alt (intersectTargets targets (eq_quorumB f))]"
    and fm: "fm' = addFault (Equivocate f) new_faultManager"
    by (auto simp: applySend_equivocate elim!: bind_SomeE)
  show ?thesis using out fm equivocate_variants_differ [OF v] assms(5,6) by (auto simp: intersectTargets_def)
qed

definition example_equivocate :: equivocateFault where
  "example_equivocate = \<lparr>eq_quorumA = [0, 2], eq_quorumB = [1, 3], eq_applicableMessageTypes = {''checkpoint''}\<rparr>"

definition example_checkpoint :: json where
  "example_checkpoint = jobject [(''MessageType'', JStr ''checkpoint''), (''digest'', JStr ''7'')]"

theorem equivocate_splits_witness:
  "\<exists>m alt A B. snd (the (byz_send (\<lambda>_. []) 0 (Multicast example_checkpoint [0, 1, 2, 3])
       (addFault (Equivocate example_equivocate) new_faultManager, []))) = [] @ [Multicast m A, Multicast alt B] \<and>
     m \<noteq> alt \<and> set A \<union> set B = set [0, 1, 2, 3] \<and> set A \<inter> set B = {}"
proof -
  obtain fm' out' where run: "byz_send (\<lambda>_. []) 0 (Multicast example_checkpoint [0, 1, 2, 3])
      (addFault (Equivocate example_equivocate) new_faultManager, []) = Some (fm', out')"
    by (simp add: applySend_equivocate equivocate_onSend_def example_equivocate_def example_checkpoint_def
        contains_def equivocate_variants_def jset_jobject)
  show ?thesis using equivocate_splits [OF run, of "''checkpoint''"]
    unfolding run by (simp add: example_equivocate_def example_checkpoint_def) blast
qed

subsection \<open>What a parasite withholds\<close>

text \<open>The states a parasite with a given threshold and coalition can reach by its hooks.\<close>

inductive parasite_reach :: "int \<Rightarrow> idset \<Rightarrow> parasiteFault \<Rightarrow> bool" for lead collaborators where
  start: "parasite_reach lead collaborators (new_parasiteFault lead collaborators)"
| sending: "parasite_reach lead collaborators f \<Longrightarrow> parasite_onSend me msg t f = Some (f', m, out, b) \<Longrightarrow>
    parasite_reach lead collaborators f'"
| receiving: "parasite_reach lead collaborators f \<Longrightarrow> parasite_onReceive msg src f = Some (f', out) \<Longrightarrow>
    parasite_reach lead collaborators f'"

definition parasite_stored :: "parasiteFault \<Rightarrow> bool" where
  "parasite_stored f \<longleftrightarrow> 1 \<le> pf_leadThreshold f \<and> distinct (map sb_hash (pf_privateChain f)) \<and>
     pf_privateHashes f = set (map sb_hash (pf_privateChain f)) \<and>
     (\<forall>b \<in> set (pf_privateChain f). sb_height b \<le> pf_privateHeight f)"

definition parasite_inv :: "parasiteFault \<Rightarrow> bool" where
  "parasite_inv f \<longleftrightarrow> parasite_stored f \<and>
     (pf_privateChain f \<noteq> [] \<longrightarrow> pf_privateHeight f < pf_publicHeight f + pf_leadThreshold f)"

lemma parasite_inv_stored: "parasite_inv f \<Longrightarrow> parasite_stored f"
  by (simp add: parasite_inv_def)

lemma storePrivate_stored: "storePrivate msg f = Some f' \<Longrightarrow> parasite_stored f \<Longrightarrow> parasite_stored f'"
  by (fastforce simp: storePrivate_def parasite_stored_def stored_block_def split: option.splits if_splits elim!: bind_SomeE)

lemma tryRelease_inv: "tryRelease f = (f', out) \<Longrightarrow> parasite_stored f \<Longrightarrow> parasite_inv f'"
  by (auto simp: tryRelease_def parasite_inv_def parasite_stored_def split: if_splits)

lemma parasite_onSend_inv:
  "parasite_onSend me msg t f = Some (f', m, out, b) \<Longrightarrow> parasite_inv f \<Longrightarrow> parasite_inv f'"
  unfolding parasite_onSend_def
  by (elim bind_SomeE if_Some_condE)
     (auto elim!: bind_SomeE split: prod.splits intro: tryRelease_inv storePrivate_stored dest: parasite_inv_stored)

lemma parasite_onReceive_inv:
  "parasite_onReceive msg src f = Some (f', out) \<Longrightarrow> parasite_inv f \<Longrightarrow> parasite_inv f'"
  unfolding parasite_onReceive_def
  by (elim bind_SomeE if_Some_condE)
     (auto elim!: bind_SomeE intro: tryRelease_inv storePrivate_stored dest: parasite_inv_stored,
      auto simp: parasite_inv_def parasite_stored_def)

lemma parasite_reach_inv: "parasite_reach lead collaborators f \<Longrightarrow> parasite_inv f"
proof (induction rule: parasite_reach.induct)
  case start
  show ?case by (simp add: parasite_inv_def parasite_stored_def new_parasiteFault_def)
qed (auto intro: parasite_onSend_inv parasite_onReceive_inv)

text \<open>
  A parasite never holds a block back once its lead is reached: in every state that its
  hooks can reach, each withheld block is lower than the public height plus the threshold, and no
  block is withheld twice.
\<close>

theorem parasite_lead_bound:
  assumes "parasite_reach lead collaborators f" and "b \<in> set (pf_privateChain f)"
  shows "sb_height b < pf_publicHeight f + pf_leadThreshold f \<and> distinct (map sb_hash (pf_privateChain f))"
  using parasite_reach_inv [OF assms(1)] assms(2) by (fastforce simp: parasite_inv_def parasite_stored_def)

definition example_block :: "string \<Rightarrow> int \<Rightarrow> json" where
  "example_block hash height = jobject [(''type'', JStr ''PoW''), (''messageType'', JStr ''block''),
     (''block'', jobject [(''hash'', JStr hash), (''length'', JInt height)])]"

lemma example_withheld:
  "case parasite_onSend 1 (example_block ''a'' 1) ''broadcast'' (new_parasiteFault 2 [2]) of None \<Rightarrow> False
   | Some (f, _) \<Rightarrow> map sb_hash (pf_privateChain f) = [''a'']"
  by code_simp

theorem parasite_lead_bound_witness:
  "\<exists>f b. parasite_reach 2 [2] f \<and> pf_privateChain f = [b] \<and> sb_height b < pf_publicHeight f + pf_leadThreshold f"
proof -
  from example_withheld obtain f m out r where
    run: "parasite_onSend 1 (example_block ''a'' 1) ''broadcast'' (new_parasiteFault 2 [2]) = Some (f, m, out, r)"
    and one: "map sb_hash (pf_privateChain f) = [''a'']"
    by (auto split: option.splits)
  from one obtain b where b: "pf_privateChain f = [b]" by auto
  have f: "parasite_reach 2 [2] f" by (rule parasite_reach.sending [OF parasite_reach.start run])
  show ?thesis using parasite_lead_bound [OF f, of b] b f by (intro exI [of _ f] exI [of _ b]) simp
qed

end
