(* ===== verification/PBFTPeer.thy ===== *)
theory PBFTPeer
  imports Committee Faults
begin

text \<open>
  The PBFT peer (src/quantas/PBFTPeer/PBFTPeer.cpp). The hash of a request and of the confirmed prefix
  come from \<open>std::hash\<close> on the printed JSON: they are parameters, with the peer's identifier and the
  round, of the environment \<open>penv\<close>. The nested map of received messages is the list of its entries
  \<open>(seqNum, view, type, message)\<close> in the order of their insertion.

  A phase may run the next one at once; the depth of these calls is counted by fuel.
\<close>

subsection \<open>State\<close>

datatype phase = PrePreparePhase | PreparePhase | CommitPhase | ViewChangePhase | NewViewPhase

record pbft =
  pb_committee :: committee
  pb_unhandledRequests :: "(int \<times> json) list"
  pb_confirmedTrans :: "json list"
  pb_latency :: int
  pb_currentClientRequestId :: int
  pb_phase :: phase
  pb_view :: int
  pb_viewChangeTimer :: int
  pb_viewChangeDelay :: int
  pb_checkpointInterval :: int
  pb_lowWaterMark :: int
  pb_highWaterMark :: int
  pb_lastStableCheckpoint :: int
  pb_viewChangeAnchorSeq :: int
  pb_receivedMessages :: "(int \<times> int \<times> string \<times> json) list"

record penv =
  pe_me :: interfaceId
  pe_now :: int
  pe_digest :: "json \<Rightarrow> string"
  pe_stateDigest :: "json list \<Rightarrow> string"

type_synonym pbft_ctx = "pbft \<times> send list"

definition WINDOW :: int where
  "WINDOW = 128"

definition new_pbft :: "committee \<Rightarrow> pbft" where
  "new_pbft cm = \<lparr>pb_committee = cm, pb_unhandledRequests = [], pb_confirmedTrans = [], pb_latency = 0,
     pb_currentClientRequestId = 0, pb_phase = PrePreparePhase, pb_view = 0, pb_viewChangeTimer = 10,
     pb_viewChangeDelay = 10, pb_checkpointInterval = 10, pb_lowWaterMark = 0, pb_highWaterMark = WINDOW,
     pb_lastStableCheckpoint = 0, pb_viewChangeAnchorSeq = 0, pb_receivedMessages = []\<rparr>"

text \<open>\<open>_receivedMessages[n][v].equal_range(t)\<close> and the insertion.\<close>

definition messages_of :: "int \<Rightarrow> int \<Rightarrow> string \<Rightarrow> pbft \<Rightarrow> json list" where
  "messages_of n v t c = map (\<lambda>(_, _, _, m). m) (filter (\<lambda>(n', v', t', _). n' = n \<and> v' = v \<and> t' = t) (pb_receivedMessages c))"

definition record_message :: "int \<Rightarrow> int \<Rightarrow> string \<Rightarrow> json \<Rightarrow> pbft \<Rightarrow> pbft" where
  "record_message n v t m c = c\<lparr>pb_receivedMessages := pb_receivedMessages c @ [(n, v, t, m)]\<rparr>"

text \<open>Insertion into the multimap of unhandled requests, keyed by round.\<close>

definition add_unhandled :: "int \<Rightarrow> json \<Rightarrow> (int \<times> json) list \<Rightarrow> (int \<times> json) list" where
  "add_unhandled r m q = takeWhile (\<lambda>(r', _). r' \<le> r) q @ [(r, m)] @ dropWhile (\<lambda>(r', _). r' \<le> r) q"

subsection \<open>Reading messages\<close>

text \<open>Reading an integer member of a constant value, and comparing it.\<close>

definition int_at :: "json \<Rightarrow> string \<Rightarrow> int option" where
  "int_at m k = do { j \<leftarrow> jat m k; get_int j }"

definition is_at :: "json \<Rightarrow> string \<Rightarrow> int \<Rightarrow> bool option" where
  "is_at m k n = do { j \<leftarrow> jat m k; Some (json_is_int j n) }"

text \<open>Short-circuit conjunction, and the first message that a loop accepts.\<close>

definition andM :: "bool option \<Rightarrow> bool option \<Rightarrow> bool option" where
  "andM a b = do { x \<leftarrow> a; if x then b else Some False }"

fun first_message :: "(json \<Rightarrow> bool option) \<Rightarrow> json list \<Rightarrow> json option option" where
  "first_message p [] = Some None"
| "first_message p (m # ms) = do { b \<leftarrow> p m; if b then Some (Some m) else first_message p ms }"

definition sender_set :: "(json \<Rightarrow> bool option) \<Rightarrow> json list \<Rightarrow> idset option" where
  "sender_set p ms = foldM (\<lambda>m S. do {
     b \<leftarrow> p m;
     if b then do { j \<leftarrow> jat m ''from_id''; i \<leftarrow> get_id j; Some (idset_insert i S) } else Some S }) ms []"

subsection \<open>Quorums and certificates\<close>

definition pbft_f :: "pbft \<Rightarrow> int" where
  "pbft_f c = (if cm_size (pb_committee c) \<ge> 1 then (cm_size (pb_committee c) - 1) div 3 else 0)"

definition pbft_quorum :: "pbft \<Rightarrow> int" where
  "pbft_quorum c = 2 * pbft_f c"

definition leaderFor :: "int \<Rightarrow> pbft \<Rightarrow> interfaceId" where
  "leaderFor v c = (let S = cm_members (pb_committee c) in
     if S = [] then NO_PEER_ID else S ! nat (to_size_t v mod int (length S)))"

definition nextSeq :: "pbft \<Rightarrow> int" where
  "nextSeq c = int (length (pb_confirmedTrans c))"

definition request_of :: "json \<Rightarrow> json option" where
  "request_of m = do { p \<leftarrow> jat m ''proposal''; jat p ''Request'' }"

definition has_request :: "json \<Rightarrow> bool option" where
  "has_request m = (if contains m ''proposal'' then do { p \<leftarrow> jat m ''proposal''; Some (contains p ''Request'') } else Some False)"

definition hasPrePrepare :: "penv \<Rightarrow> int \<Rightarrow> int \<Rightarrow> string \<Rightarrow> pbft \<Rightarrow> bool option" where
  "hasPrePrepare e v n d c = do {
     r \<leftarrow> first_message (\<lambda>m.
        andM (Some (contains m ''proposal''))
       (andM (do { p \<leftarrow> jat m ''proposal''; Some (contains p ''view'') })
       (andM (do { p \<leftarrow> jat m ''proposal''; w \<leftarrow> int_at p ''view''; Some (w = v) })
       (andM (is_at m ''seqNum'' n)
       (andM (do { q \<leftarrow> request_of m; Some (pe_digest e q = d) })
             (is_at m ''from_id'' (leaderFor v c))))))) (messages_of n v ''pre-prepare'' c);
     Some (r \<noteq> None) }"

text \<open>A prepare or commit message counts for \<open>(v, n, d)\<close>.\<close>

definition matches :: "penv \<Rightarrow> int \<Rightarrow> int \<Rightarrow> string \<Rightarrow> json \<Rightarrow> bool option" where
  "matches e v n d m =
        andM (has_request m)
       (andM (do { p \<leftarrow> jat m ''proposal''; w \<leftarrow> int_at p ''view''; Some (w = v) })
       (andM (is_at m ''seqNum'' n)
             (do { q \<leftarrow> request_of m; Some (pe_digest e q = d) })))"

definition countPrepares :: "penv \<Rightarrow> int \<Rightarrow> int \<Rightarrow> string \<Rightarrow> pbft \<Rightarrow> int option" where
  "countPrepares e v n d c = do { S \<leftarrow> sender_set (matches e v n d) (messages_of n v ''prepare'' c); Some (int (length S)) }"

definition countCommits :: "penv \<Rightarrow> int \<Rightarrow> int \<Rightarrow> string \<Rightarrow> pbft \<Rightarrow> int option" where
  "countCommits e v n d c = do { S \<leftarrow> sender_set (matches e v n d) (messages_of n v ''commit'' c); Some (int (length S)) }"

definition isPrepared :: "penv \<Rightarrow> int \<Rightarrow> int \<Rightarrow> string \<Rightarrow> pbft \<Rightarrow> bool option" where
  "isPrepared e v n d c = andM (hasPrePrepare e v n d c) (do { k \<leftarrow> countPrepares e v n d c; Some (k > pbft_quorum c) })"

definition isCommitted :: "penv \<Rightarrow> int \<Rightarrow> int \<Rightarrow> string \<Rightarrow> pbft \<Rightarrow> bool option" where
  "isCommitted e v n d c = do { k \<leftarrow> countCommits e v n d c; Some (k > pbft_quorum c) }"

subsection \<open>Checkpoints\<close>

fun tally_loop :: "int \<Rightarrow> json list \<Rightarrow> (string \<Rightarrow> int) \<Rightarrow> bool option" where
  "tally_loop q [] tally = Some False"
| "tally_loop q (m # ms) tally = do {
     d \<leftarrow> value_string m ''digest'' ''__'';
     let tally = tally(d := tally d + 1);
     if tally d > q then Some True else tally_loop q ms tally }"

definition stableCheckpointReady :: "int \<Rightarrow> pbft \<Rightarrow> bool option" where
  "stableCheckpointReady n c =
     (if n mod pb_checkpointInterval c \<noteq> 0 then Some False
      else tally_loop (pbft_quorum c) (messages_of n (pb_view c) ''checkpoint'' c) (\<lambda>_. 0))"

definition maybeStableCheckpoint :: "pbft \<Rightarrow> pbft option" where
  "maybeStableCheckpoint c =
     (let n = nextSeq c in
      if n mod pb_checkpointInterval c \<noteq> 0 then Some c
      else do {
        b \<leftarrow> stableCheckpointReady n c;
        if \<not> b then Some c
        else Some (c\<lparr>pb_lastStableCheckpoint := n, pb_lowWaterMark := n, pb_highWaterMark := n + WINDOW,
                     pb_receivedMessages := filter (\<lambda>(s, _). \<not> s < n) (pb_receivedMessages c)\<rparr>) })"

definition sendCheckpoint :: "penv \<Rightarrow> pbft_ctx \<Rightarrow> pbft_ctx" where
  "sendCheckpoint e = (\<lambda>(c, out).
     let seqNum = nextSeq c in
     if seqNum mod pb_checkpointInterval c \<noteq> 0 then (c, out)
     else let msg = jobject
            [(''type'', JStr ''Consensus''), (''consensusId'', JInt (cm_id (pb_committee c))), (''MessageType'', JStr ''checkpoint''),
             (''seqNum'', JInt seqNum), (''digest'', JStr (pe_stateDigest e (pb_confirmedTrans c))),
             (''from_id'', JInt (pe_me e)), (''view'', JInt (pb_view c))]
          in (record_message seqNum (pb_view c) ''checkpoint'' msg c, out @ [Multicast msg (cm_members (pb_committee c))]))"

subsection \<open>Requests and view changes\<close>

definition submitRequest :: "penv \<Rightarrow> pbft_ctx \<Rightarrow> pbft_ctx" where
  "submitRequest e = (\<lambda>(c, out).
     let msg = jobject
       [(''type'', JStr ''Request''), (''requestId'', JInt (pb_currentClientRequestId c)), (''submitterId'', JInt (pe_me e)),
        (''consensusId'', JInt (cm_id (pb_committee c))), (''roundSubmitted'', JInt (pe_now e)), (''fault_flip'', JBool False)]
     in (c\<lparr>pb_currentClientRequestId := pb_currentClientRequestId c + 1,
           pb_unhandledRequests := add_unhandled (pe_now e) msg (pb_unhandledRequests c)\<rparr>,
         out @ [Multicast msg (cm_members (pb_committee c))]))"

text \<open>The prepared pre-prepare of sequence number \<open>s\<close> in the old view, for the proof of a view change.\<close>

definition prepared_at :: "penv \<Rightarrow> int \<Rightarrow> pbft \<Rightarrow> int \<Rightarrow> json option option" where
  "prepared_at e oldView c s = first_message (\<lambda>pp.
     andM (do { w \<leftarrow> int_at pp ''view''; Some (w = oldView) })
          (do { q \<leftarrow> request_of pp; isPrepared e oldView s (pe_digest e q) c })) (messages_of s oldView ''pre-prepare'' c)"

definition prepared_proof :: "penv \<Rightarrow> int \<Rightarrow> pbft \<Rightarrow> json list option" where
  "prepared_proof e oldView c = foldM (\<lambda>s acc. do {
     r \<leftarrow> prepared_at e oldView c s; Some (case r of None \<Rightarrow> acc | Some pp \<Rightarrow> acc @ [pp]) })
     [pb_lastStableCheckpoint c + 1..nextSeq c - 1] []"

definition requestViewChange :: "penv \<Rightarrow> pbft_ctx \<Rightarrow> pbft_ctx option" where
  "requestViewChange e = (\<lambda>(c, out). do {
     let oldView = pb_view c;
     let c = c\<lparr>pb_viewChangeAnchorSeq := pb_lastStableCheckpoint c, pb_view := oldView + 1\<rparr>;
     proof \<leftarrow> prepared_proof e oldView c;
     let vc = jobject
       [(''type'', JStr ''Consensus''), (''consensusId'', JInt (cm_id (pb_committee c))), (''MessageType'', JStr ''viewChange''),
        (''seqNum'', JInt (pb_viewChangeAnchorSeq c)), (''newView'', JInt (pb_view c)), (''view'', JInt oldView),
        (''lastStable'', JInt (pb_lastStableCheckpoint c)), (''preparedProof'', JArr proof), (''from_id'', JInt (pe_me e))];
     let c = record_message (pb_viewChangeAnchorSeq c) oldView ''viewChange'' vc c;
     Some (c\<lparr>pb_viewChangeTimer := pe_now e + pb_viewChangeDelay c, pb_phase := ViewChangePhase\<rparr>,
           out @ [Multicast vc (cm_members (pb_committee c))]) })"

definition viewChange_senders :: "pbft \<Rightarrow> idset option" where
  "viewChange_senders c = sender_set (\<lambda>m. do { w \<leftarrow> int_at m ''newView''; Some (w = pb_view c) })
     (messages_of (pb_viewChangeAnchorSeq c) (pb_view c - 1) ''viewChange'' c)"

subsection \<open>The phases\<close>

text \<open>
  Each phase returns the new state, the sends and whether the next phase is to run at once: in the code
  every such call is the last action of the phase.
\<close>

definition prePrepareMessage :: "penv \<Rightarrow> int \<Rightarrow> json \<Rightarrow> json \<Rightarrow> pbft \<Rightarrow> json" where
  "prePrepareMessage e v n tx c = jobject
     [(''type'', JStr ''Consensus''), (''consensusId'', JInt (cm_id (pb_committee c))), (''MessageType'', JStr ''pre-prepare''),
      (''seqNum'', n), (''view'', JInt v), (''proposal'', jobject [(''Request'', tx), (''view'', JInt v)]),
      (''from_id'', JInt (pe_me e))]"

definition late :: "penv \<Rightarrow> pbft \<Rightarrow> bool" where
  "late e c = (to_size_t (pb_viewChangeTimer c) < pe_now e)"

definition late_view :: "penv \<Rightarrow> pbft \<Rightarrow> bool" where
  "late_view e c = (pe_now e \<ge> to_size_t (pb_viewChangeTimer c))"

text \<open>The message that a phase derives from a pre-prepare, and its multicast.\<close>

definition derive :: "penv \<Rightarrow> string \<Rightarrow> json \<Rightarrow> json option" where
  "derive e t pp = do { m \<leftarrow> jset ''MessageType'' (JStr t) pp; jset ''from_id'' (JInt (pe_me e)) m }"

definition announce :: "penv \<Rightarrow> string \<Rightarrow> json \<Rightarrow> pbft_ctx \<Rightarrow> pbft_ctx option" where
  "announce e t pp = (\<lambda>(c, out). do {
     m \<leftarrow> derive e t pp;
     Some (record_message (nextSeq c) (pb_view c) t m c, out @ [Multicast m (cm_members (pb_committee c))]) })"

definition prePrepare_leader :: "penv \<Rightarrow> pbft_ctx \<Rightarrow> pbft_ctx option" where
  "prePrepare_leader e s = do {
     let (c, out) = (if pb_unhandledRequests (fst s) = [] then submitRequest e s else s);
     case pb_unhandledRequests c of [] \<Rightarrow> None | (_, tx) # _ \<Rightarrow> do {
       let msg = prePrepareMessage e (pb_view c) (JInt (nextSeq c)) tx c;
       let c = record_message (nextSeq c) (pb_view c) ''pre-prepare'' msg c;
       Some (c\<lparr>pb_phase := PreparePhase\<rparr>, out @ [Multicast msg (cm_members (pb_committee c))]) } }"

definition accepts_prePrepare :: "int \<Rightarrow> pbft \<Rightarrow> json \<Rightarrow> bool option" where
  "accepts_prePrepare n c m =
        andM (do { w \<leftarrow> int_at m ''view''; Some (w = pb_view c) })
       (andM (is_at m ''from_id'' (leaderFor (pb_view c) c))
       (andM (is_at m ''seqNum'' n)
             (has_request m)))"

definition prePreparePhase :: "penv \<Rightarrow> pbft_ctx \<Rightarrow> (pbft_ctx \<times> bool) option" where
  "prePreparePhase e = (\<lambda>(c, out). do {
     c \<leftarrow> maybeStableCheckpoint c;
     if late e c then do { s \<leftarrow> requestViewChange e (c, out); Some (s, False) }
     else if pe_me e = leaderFor (pb_view c) c then do { s \<leftarrow> prePrepare_leader e (c, out); Some (s, False) }
     else do {
       r \<leftarrow> first_message (accepts_prePrepare (nextSeq c) c) (messages_of (nextSeq c) (pb_view c) ''pre-prepare'' c);
       case r of
         None \<Rightarrow> Some ((c, out), False)
       | Some pp \<Rightarrow> do { (c, out) \<leftarrow> announce e ''prepare'' pp (c, out); Some ((c\<lparr>pb_phase := PreparePhase\<rparr>, out), True) } } })"

definition is_prepared_prePrepare :: "penv \<Rightarrow> int \<Rightarrow> pbft \<Rightarrow> json \<Rightarrow> bool option" where
  "is_prepared_prePrepare e n c pp =
        andM (do { w \<leftarrow> int_at pp ''view''; Some (w = pb_view c) })
       (andM (has_request pp)
             (do { q \<leftarrow> request_of pp; isPrepared e (pb_view c) n (pe_digest e q) c }))"

definition preparePhase :: "penv \<Rightarrow> pbft_ctx \<Rightarrow> (pbft_ctx \<times> bool) option" where
  "preparePhase e = (\<lambda>(c, out). do {
     c \<leftarrow> maybeStableCheckpoint c;
     if late e c then do { s \<leftarrow> requestViewChange e (c, out); Some (s, False) }
     else do {
       r \<leftarrow> first_message (is_prepared_prePrepare e (nextSeq c) c) (messages_of (nextSeq c) (pb_view c) ''pre-prepare'' c);
       case r of
         None \<Rightarrow> Some ((c, out), False)
       | Some pp \<Rightarrow> do { (c, out) \<leftarrow> announce e ''commit'' pp (c, out); Some ((c\<lparr>pb_phase := CommitPhase\<rparr>, out), True) } } })"

definition is_committed_prePrepare :: "penv \<Rightarrow> int \<Rightarrow> pbft \<Rightarrow> json \<Rightarrow> bool option" where
  "is_committed_prePrepare e n c pp =
        andM (do { w \<leftarrow> int_at pp ''view''; Some (w = pb_view c) })
       (andM (is_at pp ''from_id'' (leaderFor (pb_view c) c))
       (andM (has_request pp)
             (do { q \<leftarrow> request_of pp; isCommitted e (pb_view c) n (pe_digest e q) c })))"

text \<open>The loop that removes the first unhandled request equal to the decided one.\<close>

fun remove_unhandled :: "json \<Rightarrow> (int \<times> json) list \<Rightarrow> (int \<times> json) list" where
  "remove_unhandled req [] = []"
| "remove_unhandled req ((r, m) # q) = (if m = req then q else (r, m) # remove_unhandled req q)"

definition decide :: "penv \<Rightarrow> json \<Rightarrow> pbft_ctx \<Rightarrow> pbft_ctx option" where
  "decide e req = (\<lambda>(c, out). do {
     let c = c\<lparr>pb_confirmedTrans := pb_confirmedTrans c @ [req]\<rparr>;
     j \<leftarrow> jindex req ''roundSubmitted'';
     r \<leftarrow> get_int j;
     let c = c\<lparr>pb_latency := pb_latency c + (pe_now e - r), pb_viewChangeTimer := pe_now e + pb_viewChangeDelay c\<rparr>;
     let (c, out) = sendCheckpoint e (c, out);
     Some (c\<lparr>pb_unhandledRequests := remove_unhandled req (pb_unhandledRequests c), pb_phase := PrePreparePhase\<rparr>, out) })"

definition commitPhase :: "penv \<Rightarrow> pbft_ctx \<Rightarrow> (pbft_ctx \<times> bool) option" where
  "commitPhase e = (\<lambda>(c, out). do {
     c \<leftarrow> maybeStableCheckpoint c;
     if late e c then do { s \<leftarrow> requestViewChange e (c, out); Some (s, False) }
     else do {
       r \<leftarrow> first_message (is_committed_prePrepare e (nextSeq c) c) (messages_of (nextSeq c) (pb_view c) ''pre-prepare'' c);
       case r of
         None \<Rightarrow> Some ((c, out), False)
       | Some pp \<Rightarrow> do { req \<leftarrow> request_of pp; s \<leftarrow> decide e req (c, out); Some (s, True) } } })"

text \<open>The prepared pre-prepare of the highest view for sequence number \<open>n\<close> among the view changes.\<close>

definition better_proof :: "int \<Rightarrow> json \<Rightarrow> json option \<times> int \<Rightarrow> (json option \<times> int) option" where
  "better_proof n pp = (\<lambda>(best, bestV). do {
     b \<leftarrow> is_at pp ''seqNum'' n;
     if b then do {
       p \<leftarrow> jat pp ''proposal''; pv \<leftarrow> int_at p ''view'';
       Some (if pv > bestV then (Some pp, pv) else (best, bestV)) }
     else Some (best, bestV) })"

definition best_proof :: "int \<Rightarrow> pbft \<Rightarrow> json option option" where
  "best_proof n c = do {
     (best, _) \<leftarrow> foldM (\<lambda>m s. do {
         w \<leftarrow> int_at m ''newView'';
         if w \<noteq> pb_view c then Some s
         else do { ps \<leftarrow> jat m ''preparedProof''; foldM (better_proof n) (jelems ps) s } })
       (messages_of (pb_viewChangeAnchorSeq c) (pb_view c - 1) ''viewChange'' c) (None, -1);
     Some best }"

definition newView_proof :: "pbft \<Rightarrow> json list option" where
  "newView_proof c = foldM (\<lambda>n acc. do {
     r \<leftarrow> best_proof n c; Some (case r of None \<Rightarrow> acc | Some pp \<Rightarrow> acc @ [pp]) })
     [pb_lastStableCheckpoint c + 1..pb_highWaterMark c] []"

definition newViewMessage :: "penv \<Rightarrow> json list \<Rightarrow> pbft \<Rightarrow> json" where
  "newViewMessage e prepared c = jobject
     [(''type'', JStr ''Consensus''), (''consensusId'', JInt (cm_id (pb_committee c))), (''MessageType'', JStr ''newView''),
      (''seqNum'', JInt (pb_viewChangeAnchorSeq c)), (''view'', JInt (pb_view c)),
      (''lastStable'', JInt (pb_lastStableCheckpoint c)), (''preparedProof'', JArr prepared), (''from_id'', JInt (pe_me e))]"

definition viewChangePhase :: "penv \<Rightarrow> pbft_ctx \<Rightarrow> (pbft_ctx \<times> bool) option" where
  "viewChangePhase e = (\<lambda>(c, out). do {
     c \<leftarrow> maybeStableCheckpoint c;
     if late_view e c then do { s \<leftarrow> requestViewChange e (c, out); Some (s, False) }
     else do {
       S \<leftarrow> viewChange_senders c;
       if int (length S) \<le> pbft_quorum c then Some ((c, out), False)
       else do {
         (c, out) \<leftarrow> (if pe_me e = leaderFor (pb_view c) c then do {
             prepared \<leftarrow> newView_proof c;
             let nv = newViewMessage e prepared c;
             Some (record_message (pb_viewChangeAnchorSeq c) (pb_view c) ''newView'' nv c, out @ [Multicast nv (cm_members (pb_committee c))]) }
           else Some (c, out));
         Some ((c\<lparr>pb_phase := NewViewPhase\<rparr>, out), False) } } })"

definition reissue :: "penv \<Rightarrow> json \<Rightarrow> pbft_ctx \<Rightarrow> pbft_ctx option" where
  "reissue e pp = (\<lambda>(c, out). do {
     sq \<leftarrow> jat pp ''seqNum'';
     req \<leftarrow> request_of pp;
     let p = prePrepareMessage e (pb_view c) sq req c;
     n \<leftarrow> get_int sq;
     Some (record_message n (pb_view c) ''pre-prepare'' p c, out @ [Multicast p (cm_members (pb_committee c))]) })"

definition newViewPhase :: "penv \<Rightarrow> pbft_ctx \<Rightarrow> (pbft_ctx \<times> bool) option" where
  "newViewPhase e = (\<lambda>(c, out). do {
     c \<leftarrow> maybeStableCheckpoint c;
     if late_view e c then do { s \<leftarrow> requestViewChange e (c, out); Some (s, False) }
     else do {
       r \<leftarrow> first_message (\<lambda>m. andM (is_at m ''from_id'' (leaderFor (pb_view c) c))
                                     (do { w \<leftarrow> int_at m ''view''; Some (w = pb_view c) }))
              (messages_of (pb_viewChangeAnchorSeq c) (pb_view c) ''newView'' c);
       case r of
         None \<Rightarrow> Some ((c, out), False)
       | Some nv \<Rightarrow> do {
           S \<leftarrow> viewChange_senders c;
           if int (length S) \<le> 2 * pbft_f c then Some ((c, out), False)
           else do {
             let c = c\<lparr>pb_lowWaterMark := pb_lastStableCheckpoint c, pb_highWaterMark := pb_lastStableCheckpoint c + WINDOW\<rparr>;
             ps \<leftarrow> jindex nv ''preparedProof'';
             (c, out) \<leftarrow> foldM (reissue e) (jelems ps) (c, out);
             Some ((c\<lparr>pb_viewChangeTimer := pe_now e + pb_viewChangeDelay c, pb_phase := PrePreparePhase\<rparr>, out), True) } } } })"

fun phase_of :: "phase \<Rightarrow> penv \<Rightarrow> pbft_ctx \<Rightarrow> (pbft_ctx \<times> bool) option" where
  "phase_of PrePreparePhase = prePreparePhase"
| "phase_of PreparePhase = preparePhase"
| "phase_of CommitPhase = commitPhase"
| "phase_of ViewChangePhase = viewChangePhase"
| "phase_of NewViewPhase = newViewPhase"

text \<open>
  \<open>runPhase\<close> with its tail calls counted: \<open>True\<close> in the result says that the count ended while a phase
  was still to run. \<open>phase_fuel\<close> is a count that never ends too early (\<open>runPhase_returns\<close>).
\<close>

fun run_phases :: "nat \<Rightarrow> penv \<Rightarrow> pbft_ctx \<Rightarrow> (pbft_ctx \<times> bool) option" where
  "run_phases 0 e s = Some (s, True)"
| "run_phases (Suc k) e s = do {
     (s, again) \<leftarrow> phase_of (pb_phase (fst s)) e s;
     if again then run_phases k e s else Some (s, False) }"

definition phase_fuel :: "pbft \<Rightarrow> nat" where
  "phase_fuel c = 3 * (length (pb_receivedMessages c) + sum_list (map (\<lambda>(_, _, _, m).
     case jfind ''preparedProof'' m of None \<Rightarrow> 0 | Some ps \<Rightarrow> length (jelems ps)) (pb_receivedMessages c))) + 3"

definition runPhase :: "penv \<Rightarrow> pbft_ctx \<Rightarrow> pbft_ctx option" where
  "runPhase e s = map_option fst (run_phases (phase_fuel (fst s)) e s)"

subsection \<open>The peer\<close>

type_synonym pbftPeer = "(int \<times> pbft) list"

definition pbft_dispatch :: "int \<Rightarrow> json \<Rightarrow> pbftPeer \<Rightarrow> pbftPeer option" where
  "pbft_dispatch now msg cs =
     (if \<not> contains msg ''type'' \<or> \<not> contains msg ''consensusId'' then Some cs
      else do {
        t \<leftarrow> jindex msg ''type'';
        if t = JStr ''Request'' then do {
          j \<leftarrow> jindex msg ''consensusId''; targetId \<leftarrow> get_int j;
          Some (map (\<lambda>(k, c). (k, if k = targetId
            then c\<lparr>pb_unhandledRequests := add_unhandled now msg (pb_unhandledRequests c)\<rparr> else c)) cs) }
        else if t = JStr ''Consensus'' then do {
          j \<leftarrow> jindex msg ''consensusId''; targetId \<leftarrow> get_int j;
          if map_of cs targetId = None \<or> \<not> contains msg ''seqNum'' then Some cs
          else do {
            j \<leftarrow> jindex msg ''seqNum''; sq \<leftarrow> get_int j;
            if \<not> contains msg ''view'' then Some cs
            else do {
              j \<leftarrow> jindex msg ''view''; v \<leftarrow> get_int j;
              if \<not> contains msg ''MessageType'' then Some cs
              else do {
                j \<leftarrow> jindex msg ''MessageType''; mt \<leftarrow> get_string j;
                Some (map (\<lambda>(k, c). (k, if k = targetId then record_message sq v mt msg c else c)) cs) } } } }
        else Some cs })"

definition pbft_performComputation :: "(json \<Rightarrow> string) \<Rightarrow> (json list \<Rightarrow> string) \<Rightarrow> pbftPeer perform" where
  "pbft_performComputation digest stateDigest now p g = do {
     let e = \<lparr>pe_me = publicId p, pe_now = now, pe_digest = digest, pe_stateDigest = stateDigest\<rparr>;
     cs \<leftarrow> foldM (pbft_dispatch now) (map pk_body (if_inStream (nd_iface p))) (nd_state p);
     (cs, out) \<leftarrow> foldM (\<lambda>(k, c) (cs, out). do {
         (c, out) \<leftarrow> runPhase e (c, out); Some (cs @ [(k, c)], out) }) cs ([], []);
     Some (p\<lparr>nd_iface := (nd_iface p)\<lparr>if_inStream := []\<rparr>, nd_state := cs\<rparr>, out, g) }"

text \<open>\<open>initParameters\<close>: one committee of all peers, the first peers equivocate between alternating groups.\<close>

fun alternate :: "bool \<Rightarrow> idset \<Rightarrow> idset \<times> idset" where
  "alternate flip [] = ([], [])"
| "alternate flip (i # is) = (let (A, B) = alternate (\<not> flip) is in if flip then (i # A, B) else (A, i # B))"

definition pbft_initParameters :: "json \<Rightarrow> (pbftPeer byzantine) node list \<Rightarrow> (pbftPeer byzantine) node list option" where
  "pbft_initParameters parameters ps = do {
     byzantine_count \<leftarrow> value_int parameters ''byzantine_count'' 0;
     let cm = fold addMember (map publicId ps) (new_committee 0);
     let (A, B) = alternate True (cm_members cm);
     let fault = Equivocate \<lparr>eq_quorumA = A, eq_quorumB = B,
           eq_applicableMessageTypes = {''pre-prepare'', ''prepare'', ''commit'', ''checkpoint''}\<rparr>;
     ps \<leftarrow> foldM (\<lambda>i ps. if i < length ps
        then Some (ps[i := with_state ((nd_state (ps ! i))\<lparr>bz_faults := addFault fault (bz_faults (nd_state (ps ! i)))\<rparr>) (ps ! i)])
        else None) [0..<nat byzantine_count] ps;
     Some (map (\<lambda>p. with_state ((nd_state p)\<lparr>bz_peer := (0, new_pbft cm) # filter (\<lambda>(k, _). k \<noteq> 0) (bz_peer (nd_state p))\<rparr>) p) ps) }"

text \<open>The values \<open>endOfRound\<close> logs: latency and share of flipped requests per confirmed one, and throughput.\<close>

definition pbft_endOfRound :: "pbftPeer list \<Rightarrow> real \<times> real \<times> real" where
  "pbft_endOfRound ps =
     (let cs = map snd (concat ps);
          confirmed = sum_list (map (\<lambda>c. real (length (pb_confirmedTrans c))) cs);
          latency = sum_list (map (\<lambda>c. real_of_int (pb_latency c)) cs);
          faulty = sum_list (map (\<lambda>c. real (length (filter (\<lambda>t. jfind ''fault_flip'' t = Some (JBool True)) (pb_confirmedTrans c)))) cs)
      in (if confirmed > 0 then (latency / confirmed, faulty / confirmed, confirmed / real (length ps))
          else (0, 0, confirmed / real (length ps))))"

end
