(* ===== verification/PBFTSafety.thy ===== *)
theory PBFTSafety
  imports PBFTPeer
begin

text \<open>
  Results on the PBFT peer: the chain of phases that one call of \<open>runPhase\<close> starts ends; a peer sends
  at most one commit for a view and sequence number, in increasing order; a decision rests on a commit
  certificate; and certificates of committees of \<open>3 f + 1\<close> members share a correct member, while those
  of other sizes need not.
\<close>

lemmas phase_defs = prePreparePhase_def preparePhase_def commitPhase_def viewChangePhase_def newViewPhase_def

subsection \<open>Frame of the operations\<close>

text \<open>\<open>same_slot c c'\<close>: the view and the decided requests are the same.\<close>

definition same_slot :: "pbft \<Rightarrow> pbft \<Rightarrow> bool" where
  "same_slot c c' \<longleftrightarrow> pb_view c' = pb_view c \<and> pb_confirmedTrans c' = pb_confirmedTrans c"

lemma maybeStableCheckpointE:
  assumes "maybeStableCheckpoint c = Some c'"
  obtains "same_slot c c'" and "pb_phase c' = pb_phase c" and "pb_committee c' = pb_committee c"
    and "mset (pb_receivedMessages c') \<subseteq># mset (pb_receivedMessages c)"
proof -
  have "same_slot c c' \<and> pb_phase c' = pb_phase c \<and> pb_committee c' = pb_committee c \<and>
      mset (pb_receivedMessages c') \<subseteq># mset (pb_receivedMessages c)"
    using assms
    by (auto simp: maybeStableCheckpoint_def same_slot_def Let_def mset_filter elim!: bind_SomeE split: if_splits)
  then show ?thesis using that by blast
qed

lemma nextSeq_same: "same_slot c c' \<Longrightarrow> nextSeq c' = nextSeq c"
  by (simp add: same_slot_def nextSeq_def)

lemma record_message_frame [simp]:
  "pb_view (record_message n v t m c) = pb_view c"
  "pb_phase (record_message n v t m c) = pb_phase c"
  "pb_committee (record_message n v t m c) = pb_committee c"
  "pb_confirmedTrans (record_message n v t m c) = pb_confirmedTrans c"
  "nextSeq (record_message n v t m c) = nextSeq c"
  "pb_receivedMessages (record_message n v t m c) = pb_receivedMessages c @ [(n, v, t, m)]"
  by (simp_all add: record_message_def nextSeq_def)

lemma first_message_Some: "first_message p ms = Some (Some m) \<Longrightarrow> m \<in> set ms \<and> p m = Some True"
  by (induction ms) (auto elim!: bind_SomeE split: if_splits)

lemma messages_of_set: "m \<in> set (messages_of n v t c) \<longleftrightarrow> (n, v, t, m) \<in> set (pb_receivedMessages c)"
  by (force simp: messages_of_def)

lemma andM_True [simp]: "andM a b = Some True \<longleftrightarrow> a = Some True \<and> b = Some True"
  by (auto simp: andM_def Option.bind_eq_Some_conv)

lemma sendCheckpointE:
  assumes "sendCheckpoint e (c, out) = (c', out')"
  obtains "c' = c" and "out' = out"
  | m where "c' = record_message (nextSeq c) (pb_view c) ''checkpoint'' m c" and "out' = out @ [Multicast m (cm_members (pb_committee c))]"
    and "jfind ''MessageType'' m = Some (JStr ''checkpoint'')" and "int_at m ''seqNum'' = Some (nextSeq c)"
  using assms by (auto simp: sendCheckpoint_def Let_def int_at_def split: if_splits)

subsection \<open>Termination of the phases\<close>

text \<open>The pre-prepares of the current view that are not yet decided.\<close>

definition open_prePrepares :: "pbft \<Rightarrow> nat" where
  "open_prePrepares c = length (filter (\<lambda>(n, v, t, _). t = ''pre-prepare'' \<and> v = pb_view c \<and> nextSeq c \<le> n) (pb_receivedMessages c))"

fun phase_rank :: "phase \<Rightarrow> nat \<Rightarrow> nat \<Rightarrow> nat" where
  "phase_rank PrePreparePhase r m = 3 * r + 1"
| "phase_rank PreparePhase r m = 3 * r"
| "phase_rank CommitPhase r m = 3 * r - 1"
| "phase_rank _ r m = 3 * m + 2"

definition proof_sizes :: "pbft \<Rightarrow> nat" where
  "proof_sizes c = length (pb_receivedMessages c) + sum_list (map (\<lambda>(_, _, _, m).
     case jfind ''preparedProof'' m of None \<Rightarrow> 0 | Some ps \<Rightarrow> length (jelems ps)) (pb_receivedMessages c))"

definition rank :: "pbft \<Rightarrow> nat" where
  "rank c = phase_rank (pb_phase c) (open_prePrepares c) (proof_sizes c)"

lemma open_filter:
  assumes "same_slot c c'" and "mset (pb_receivedMessages c') \<subseteq># mset (pb_receivedMessages c)"
  shows "open_prePrepares c' \<le> open_prePrepares c"
proof -
  have "size (filter_mset P (mset (pb_receivedMessages c'))) \<le> size (filter_mset P (mset (pb_receivedMessages c)))" for P
    by (intro size_mset_mono multiset_filter_mono assms)
  then have "length (filter P (pb_receivedMessages c')) \<le> length (filter P (pb_receivedMessages c))" for P
    by (metis mset_filter size_mset)
  then show ?thesis using assms(1) by (simp add: open_prePrepares_def same_slot_def nextSeq_def)
qed

lemma open_record: "t \<noteq> ''pre-prepare'' \<Longrightarrow> open_prePrepares (record_message n v t m c) = open_prePrepares c"
  by (simp add: open_prePrepares_def)

lemma open_record_le: "open_prePrepares (record_message n v t m c) \<le> Suc (open_prePrepares c)"
  by (simp add: open_prePrepares_def)

lemma open_phase [simp]: "open_prePrepares (c\<lparr>pb_phase := p\<rparr>) = open_prePrepares c"
  by (simp add: open_prePrepares_def nextSeq_def)

lemma open_received: "(nextSeq c, pb_view c, ''pre-prepare'', m) \<in> set (pb_receivedMessages c) \<Longrightarrow> 0 < open_prePrepares c"
  by (force simp: open_prePrepares_def filter_empty_conv)

lemma open_le: "open_prePrepares c \<le> proof_sizes c"
  by (simp add: open_prePrepares_def proof_sizes_def le_add1 le_trans [OF length_filter_le])
lemma announceE:
  assumes "announce e t pp (c, out) = Some (c', out')"
  obtains m where "derive e t pp = Some m" and "c' = record_message (nextSeq c) (pb_view c) t m c"
    and "out' = out @ [Multicast m (cm_members (pb_committee c))]"
  using assms by (auto simp: announce_def elim!: bind_SomeE)

lemma checkpoint_open: "maybeStableCheckpoint c = Some c' \<Longrightarrow> open_prePrepares c' \<le> open_prePrepares c"
  by (erule maybeStableCheckpointE) (rule open_filter)

lemma progress_prePrepare:
  assumes "prePreparePhase e (c, out) = Some ((c', out'), True)"
  shows "pb_phase c' = PreparePhase \<and> open_prePrepares c' \<le> open_prePrepares c"
  using assms checkpoint_open
  by (fastforce simp: prePreparePhase_def open_record elim!: bind_SomeE announceE split: if_splits option.splits)

lemma progress_prepare:
  assumes "preparePhase e (c, out) = Some ((c', out'), True)"
  shows "pb_phase c' = CommitPhase \<and> open_prePrepares c' \<le> open_prePrepares c \<and> 0 < open_prePrepares c"
proof -
  from assms obtain d pp where d: "maybeStableCheckpoint c = Some d"
    and pp: "pp \<in> set (messages_of (nextSeq d) (pb_view d) ''pre-prepare'' d)"
    and c': "pb_phase c' = CommitPhase" "open_prePrepares c' = open_prePrepares d"
    by (fastforce simp: preparePhase_def open_record elim!: bind_SomeE announceE split: if_splits option.splits
        dest!: first_message_Some)
  from pp have "0 < open_prePrepares d" by (intro open_received) (simp add: messages_of_set)
  with c' checkpoint_open [OF d] show ?thesis by simp
qed

lemma decide_frame:
  assumes "decide e req (c, out) = Some (c', out')"
  shows "pb_phase c' = PrePreparePhase" and "pb_view c' = pb_view c" and "pb_committee c' = pb_committee c"
    and "pb_confirmedTrans c' = pb_confirmedTrans c @ [req]"
    and "pb_receivedMessages c' = pb_receivedMessages c \<or>
         (\<exists>m. pb_receivedMessages c' = pb_receivedMessages c @ [(nextSeq c', pb_view c, ''checkpoint'', m)])"
  using assms
  by (auto simp: decide_def nextSeq_def elim!: bind_SomeE sendCheckpointE split: prod.splits)

lemma open_decided:
  assumes "decide e req (c, out) = Some (c', out')" and "(nextSeq c, pb_view c, ''pre-prepare'', m) \<in> set (pb_receivedMessages c)"
  shows "open_prePrepares c' < open_prePrepares c"
proof -
  have next': "nextSeq c' = nextSeq c + 1" using decide_frame(4) [OF assms(1)] by (simp add: nextSeq_def)
  have "open_prePrepares c' = length (filter (\<lambda>(n, v, t, _). t = ''pre-prepare'' \<and> v = pb_view c \<and> nextSeq c + 1 \<le> n) (pb_receivedMessages c))"
    using decide_frame(2,5) [OF assms(1)] next' by (auto simp: open_prePrepares_def)
  also have "\<dots> < open_prePrepares c"
    unfolding open_prePrepares_def
    by (rule length_filter_less_mono [where y = "(nextSeq c, pb_view c, ''pre-prepare'', m)"]) (use assms(2) in auto)
  finally show ?thesis .
qed

lemma progress_commit:
  assumes "commitPhase e (c, out) = Some ((c', out'), True)"
  shows "pb_phase c' = PrePreparePhase \<and> open_prePrepares c' < open_prePrepares c"
proof -
  from assms obtain d pp req where d: "maybeStableCheckpoint c = Some d"
    and pp: "pp \<in> set (messages_of (nextSeq d) (pb_view d) ''pre-prepare'' d)" and c': "decide e req (d, out) = Some (c', out')"
    by (fastforce simp: commitPhase_def elim!: bind_SomeE split: if_splits option.splits dest!: first_message_Some)
  from open_decided [OF c'] pp checkpoint_open [OF d] decide_frame(1) [OF c'] show ?thesis
    by (force simp: messages_of_set)
qed

lemma reissue_open:
  assumes "foldM (reissue e) ps (c, out) = Some (c', out')"
  shows "open_prePrepares c' \<le> open_prePrepares c + length ps"
  using assms
proof (induction ps arbitrary: c out)
  case (Cons pp ps)
  from Cons.prems obtain d out1 where d: "reissue e pp (c, out) = Some (d, out1)" "foldM (reissue e) ps (d, out1) = Some (c', out')"
    by (auto elim!: bind_SomeE)
  from d(1) have "open_prePrepares d \<le> Suc (open_prePrepares c)"
    by (auto simp: reissue_def Let_def open_record_le elim!: bind_SomeE)
  with Cons.IH [OF d(2)] show ?case by simp
qed simp

lemma proof_size_member:
  assumes "(n, v, t, nv) \<in> set (pb_receivedMessages c)" and "jfind ''preparedProof'' nv = Some ps"
  shows "open_prePrepares c + length (jelems ps) \<le> proof_sizes c"
proof -
  have "length (jelems ps) \<in> set (map (\<lambda>(_, _, _, m). case jfind ''preparedProof'' m of None \<Rightarrow> 0 | Some ps \<Rightarrow> length (jelems ps)) (pb_receivedMessages c))"
    using assms by force
  from member_le_sum_list [OF this] show ?thesis
    by (simp add: proof_sizes_def open_prePrepares_def add_mono)
qed

lemma newViewPhaseE:
  assumes "newViewPhase e (c, out) = Some ((c', out'), True)"
  obtains d nv ps d1 d2 where "maybeStableCheckpoint c = Some d"
    and "nv \<in> set (messages_of (pb_viewChangeAnchorSeq d) (pb_view d) ''newView'' d)"
    and "jindex nv ''preparedProof'' = Some ps"
    and "d1 = d\<lparr>pb_lowWaterMark := pb_lastStableCheckpoint d, pb_highWaterMark := pb_lastStableCheckpoint d + WINDOW\<rparr>"
    and "foldM (reissue e) (jelems ps) (d1, out) = Some (d2, out')"
    and "c' = d2\<lparr>pb_viewChangeTimer := pe_now e + pb_viewChangeDelay d2, pb_phase := PrePreparePhase\<rparr>"
proof -
  from assms obtain d r where d: "maybeStableCheckpoint c = Some d" and "\<not> late_view e d"
    and r: "first_message (\<lambda>m. andM (is_at m ''from_id'' (leaderFor (pb_view d) d)) (do { w \<leftarrow> int_at m ''view''; Some (w = pb_view d) }))
              (messages_of (pb_viewChangeAnchorSeq d) (pb_view d) ''newView'' d) = Some (Some r)"
    and rest: "do { S \<leftarrow> viewChange_senders d;
        if int (length S) \<le> 2 * pbft_f d then Some ((d, out), False)
        else do {
          let c = d\<lparr>pb_lowWaterMark := pb_lastStableCheckpoint d, pb_highWaterMark := pb_lastStableCheckpoint d + WINDOW\<rparr>;
          ps \<leftarrow> jindex r ''preparedProof'';
          (c, out) \<leftarrow> foldM (reissue e) (jelems ps) (c, out);
          Some ((c\<lparr>pb_viewChangeTimer := pe_now e + pb_viewChangeDelay c, pb_phase := PrePreparePhase\<rparr>, out), True) } } = Some ((c', out'), True)"
    unfolding newViewPhase_def by (auto elim!: bind_SomeE split: if_splits option.splits)
  from rest show ?thesis
    by (elim bind_SomeE if_Some_condE) (simp, auto simp: Let_def elim!: bind_SomeE intro: that [OF d first_message_Some [OF r, THEN conjunct1] _ refl])
qed

lemma progress_newView:
  assumes "newViewPhase e (c, out) = Some ((c', out'), True)"
  shows "pb_phase c' = PrePreparePhase \<and> open_prePrepares c' \<le> proof_sizes c"
proof -
  from assms obtain d nv ps d1 d2 where d: "maybeStableCheckpoint c = Some d"
    and nv: "nv \<in> set (messages_of (pb_viewChangeAnchorSeq d) (pb_view d) ''newView'' d)"
    and ps: "jindex nv ''preparedProof'' = Some ps"
    and d1: "d1 = d\<lparr>pb_lowWaterMark := pb_lastStableCheckpoint d, pb_highWaterMark := pb_lastStableCheckpoint d + WINDOW\<rparr>"
    and re: "foldM (reissue e) (jelems ps) (d1, out) = Some (d2, out')"
    and c': "c' = d2\<lparr>pb_viewChangeTimer := pe_now e + pb_viewChangeDelay d2, pb_phase := PrePreparePhase\<rparr>"
    by (rule newViewPhaseE)
  from nv d have nv': "(pb_viewChangeAnchorSeq d, pb_view d, ''newView'', nv) \<in> set (pb_receivedMessages c)"
    by (auto simp: messages_of_set elim!: maybeStableCheckpointE) (metis mset_subset_eqD set_mset_mset)
  have "open_prePrepares c + length (jelems ps) \<le> proof_sizes c"
  proof (cases "jfind ''preparedProof'' nv")
    case None
    with ps have "ps = JNull" by (cases nv) auto
    with open_le show ?thesis by simp
  next
    case (Some ps')
    with ps have "ps' = ps" by (cases nv) auto
    with Some proof_size_member [OF nv'] show ?thesis by simp
  qed
  moreover have "open_prePrepares d1 = open_prePrepares d" by (simp add: d1 open_prePrepares_def nextSeq_def)
  moreover have "open_prePrepares c' = open_prePrepares d2" by (simp add: c' open_prePrepares_def nextSeq_def)
  ultimately show ?thesis using reissue_open [OF re] checkpoint_open [OF d] by (simp add: c')
qed

lemma phase_progress:
  assumes "phase_of (pb_phase c) e (c, out) = Some ((c', out'), True)"
  shows "rank c' < rank c"
proof (cases "pb_phase c")
  case PrePreparePhase
  with assms progress_prePrepare [of e c out c' out'] show ?thesis by (simp add: rank_def)
next
  case PreparePhase
  with assms progress_prepare [of e c out c' out'] show ?thesis by (simp add: rank_def) linarith
next
  case CommitPhase
  with assms progress_commit [of e c out c' out'] show ?thesis by (simp add: rank_def) linarith
next
  case ViewChangePhase
  with assms show ?thesis by (auto simp: viewChangePhase_def elim!: bind_SomeE split: if_splits)
next
  case NewViewPhase
  with assms progress_newView [of e c out c' out'] show ?thesis by (simp add: rank_def)
qed

lemma run_phases_ends: "rank (fst s) < k \<Longrightarrow> run_phases k e s \<noteq> Some (s', True)"
proof (induction k arbitrary: s)
  case (Suc k)
  obtain c out where s: "s = (c, out)" by fastforce
  show ?case
  proof
    assume "run_phases (Suc k) e s = Some (s', True)"
    then obtain t where t: "phase_of (pb_phase c) e (c, out) = Some (t, True)" "run_phases k e t = Some (s', True)"
      by (auto simp: s elim!: bind_SomeE split: if_splits)
    have "rank (fst t) < k" using phase_progress [of c e out "fst t" "snd t"] t(1) Suc.prems by (simp add: s)
    with Suc.IH t(2) show False by blast
  qed
qed simp

lemma rank_fuel: "rank c < phase_fuel c"
  using open_le [of c] by (cases "pb_phase c") (auto simp: rank_def phase_fuel_def proof_sizes_def)

text \<open>
  Claim C22. A call of \<open>runPhase\<close> ends: the chain of phases it runs one after the other, deciding as
  many sequence numbers as there are certificates for, is over within \<open>phase_fuel\<close> phases, whatever
  messages were received. More fuel changes nothing.
\<close>

theorem runPhase_returns:
  "run_phases (phase_fuel (fst s)) e s \<noteq> Some (s', True) \<and>
   map_option fst (run_phases (phase_fuel (fst s) + k) e s) = runPhase e s"
proof -
  have more: "run_phases n e t = Some (u, False) \<or> run_phases n e t = None \<Longrightarrow> run_phases (n + k) e t = run_phases n e t" for n t u
    by (induction n arbitrary: t) (auto elim!: bind_SomeE split: if_splits bind_splits)
  have ends: "run_phases (phase_fuel (fst s)) e s \<noteq> Some (t, True)" for t
    by (rule run_phases_ends) (rule rank_fuel)
  then have "run_phases (phase_fuel (fst s) + k) e s = run_phases (phase_fuel (fst s)) e s"
  proof (cases "run_phases (phase_fuel (fst s)) e s")
    case (Some r)
    obtain t b where "r = (t, b)" by fastforce
    with Some ends [of t] have "run_phases (phase_fuel (fst s)) e s = Some (t, False)" by (cases b) simp_all
    then show ?thesis by (intro more) simp
  qed (simp add: more)
  with ends show ?thesis by (simp add: runPhase_def)
qed

subsection \<open>One commit per view and sequence number\<close>

definition is_commit :: "json \<Rightarrow> bool" where
  "is_commit m \<longleftrightarrow> jfind ''MessageType'' m = Some (JStr ''commit'')"

fun commit_key :: "send \<Rightarrow> (int \<times> int) list" where
  "commit_key (Multicast m _) = (if is_commit m then [(the (int_at m ''view''), the (int_at m ''seqNum''))] else [])"
| "commit_key _ = []"

definition commit_keys :: "send list \<Rightarrow> (int \<times> int) list" where
  "commit_keys out = concat (map commit_key out)"

definition slot_less :: "int \<times> int \<Rightarrow> int \<times> int \<Rightarrow> bool" where
  "slot_less p q \<longleftrightarrow> fst p < fst q \<or> fst p = fst q \<and> snd p < snd q"

text \<open>The states of a consensus instance: messages are dispatched to it and its phases run.\<close>

inductive pbft_reach :: "committee \<Rightarrow> pbft_ctx \<Rightarrow> bool" for cm where
  init: "pbft_reach cm (new_pbft cm, [])"
| dispatch: "pbft_reach cm (c, out) \<Longrightarrow> pbft_dispatch now msg [(k, c)] = Some [(k, c')] \<Longrightarrow> pbft_reach cm (c', out)"
| phase: "pbft_reach cm s \<Longrightarrow> phase_of (pb_phase (fst s)) e s = Some (s', again) \<Longrightarrow> pbft_reach cm s'"

text \<open>The first slot for which no commit was sent, and the invariant.\<close>

definition frontier :: "pbft \<Rightarrow> int \<times> int" where
  "frontier c = (pb_view c, nextSeq c + (if pb_phase c = CommitPhase then 1 else 0))"

definition entry_ok :: "int \<Rightarrow> int \<Rightarrow> string \<Rightarrow> json \<Rightarrow> bool" where
  "entry_ok n v t m \<longleftrightarrow> (t = ''pre-prepare'' \<longrightarrow> int_at m ''seqNum'' = Some n) \<and>
     (t = ''commit'' \<longrightarrow> is_commit m \<and> int_at m ''view'' = Some v \<and> int_at m ''seqNum'' = Some n)"

definition entries_ok :: "pbft \<Rightarrow> bool" where
  "entries_ok c \<longleftrightarrow> (\<forall>(n, v, t, m) \<in> set (pb_receivedMessages c). entry_ok n v t m)"

definition commits_ok :: "pbft_ctx \<Rightarrow> bool" where
  "commits_ok = (\<lambda>(c, out). entries_ok c \<and> sorted_wrt slot_less (commit_keys out) \<and>
     (\<forall>k \<in> set (commit_keys out). slot_less k (frontier c)))"

definition slot_le :: "int \<times> int \<Rightarrow> int \<times> int \<Rightarrow> bool" where
  "slot_le p q \<longleftrightarrow> fst p < fst q \<or> fst p = fst q \<and> snd p \<le> snd q"

lemma slot_less_le: "slot_less p q \<Longrightarrow> slot_le q r \<Longrightarrow> slot_less p r"
  by (auto simp: slot_less_def slot_le_def)

lemma slot_le_trans: "slot_le p q \<Longrightarrow> slot_le q r \<Longrightarrow> slot_le p r"
  by (auto simp: slot_le_def)

lemma slot_le_refl [simp]: "slot_le p p"
  by (simp add: slot_le_def)

lemma commit_keys_append [simp]: "commit_keys (xs @ ys) = commit_keys xs @ commit_keys ys"
  by (simp add: commit_keys_def)

lemma commit_keys_simps [simp]:
  "commit_keys [] = []"
  "commit_keys [Multicast m S] = (if is_commit m then [(the (int_at m ''view''), the (int_at m ''seqNum''))] else [])"
  by (simp_all add: commit_keys_def)

lemma jat_jfind: "jat j k = jfind k j"
  by (cases j) auto

text \<open>A step that sends no commit and moves the frontier forward.\<close>

definition silent :: "pbft_ctx \<Rightarrow> pbft_ctx \<Rightarrow> bool" where
  "silent = (\<lambda>(c, out) (c', out'). commit_keys out' = commit_keys out \<and> slot_le (frontier c) (frontier c') \<and>
     (entries_ok c \<longrightarrow> entries_ok c') \<and> pb_committee c' = pb_committee c)"

lemma silent_trans: "silent s t \<Longrightarrow> silent t u \<Longrightarrow> silent s u"
  by (auto simp: silent_def dest: slot_le_trans)

lemma silent_ok: "silent s s' \<Longrightarrow> commits_ok s \<Longrightarrow> commits_ok s'"
  by (auto simp: silent_def commits_ok_def intro: slot_less_le)

lemma silent_refl [simp]: "silent s s"
  by (auto simp: silent_def)

lemma entries_record:
  "entries_ok c \<Longrightarrow> entry_ok n v t m \<Longrightarrow> entries_ok (record_message n v t m c)"
  by (auto simp: entries_ok_def)

lemma frontier_record [simp]: "frontier (record_message n v t m c) = frontier c"
  by (simp add: frontier_def)

lemma silent_record:
  "\<not> is_commit m \<Longrightarrow> entry_ok n v t m \<Longrightarrow> silent (c, out) (record_message n v t m c, out @ [Multicast m S])"
  by (auto simp: silent_def intro: entries_record)

lemma entries_frame: "pb_receivedMessages c' = pb_receivedMessages c \<Longrightarrow> entries_ok c \<Longrightarrow> entries_ok c'"
  by (simp add: entries_ok_def)

lemma entries_subset: "set (pb_receivedMessages c') \<subseteq> set (pb_receivedMessages c) \<Longrightarrow> entries_ok c \<Longrightarrow> entries_ok c'"
  by (auto simp: entries_ok_def)

lemma silent_checkpoint: "maybeStableCheckpoint c = Some c' \<Longrightarrow> silent (c, out) (c', out)"
  by (erule maybeStableCheckpointE)
     (auto simp: silent_def frontier_def same_slot_def nextSeq_def dest!: set_mset_mono entries_subset)

lemma silent_requestViewChange: "requestViewChange e (c, out) = Some (c', out') \<Longrightarrow> silent (c, out) (c', out')"
  by (auto simp: requestViewChange_def Let_def silent_def frontier_def slot_le_def entries_ok_def entry_ok_def is_commit_def elim!: bind_SomeE)

lemma silent_phase: "pb_phase c \<noteq> CommitPhase \<or> p = CommitPhase \<Longrightarrow> silent (c, out) (c\<lparr>pb_phase := p\<rparr>, out)"
  by (auto simp: silent_def frontier_def slot_le_def nextSeq_def intro: entries_frame)

lemma silent_submitRequest: "submitRequest e (c, out) = (c', out') \<Longrightarrow> silent (c, out) (c', out')"
  by (auto simp: submitRequest_def Let_def silent_def frontier_def nextSeq_def entries_ok_def is_commit_def)

lemma prePrepareMessage_reads [simp]:
  "int_at (prePrepareMessage e v (JInt n) tx c) ''seqNum'' = Some n"
  "int_at (prePrepareMessage e v j tx c) ''seqNum'' = get_int j"
  "\<not> is_commit (prePrepareMessage e v j tx c)"
  by (simp_all add: prePrepareMessage_def int_at_def is_commit_def)

lemma phase_submitRequest: "submitRequest e (c, out) = (c', out') \<Longrightarrow> pb_phase c' = pb_phase c"
  by (auto simp: submitRequest_def Let_def)

lemma silent_leader:
  assumes "prePrepare_leader e (c, out) = Some (c', out')" and "pb_phase c \<noteq> CommitPhase"
  shows "silent (c, out) (c', out')"
proof -
  obtain d out1 where d: "(if pb_unhandledRequests c = [] then submitRequest e (c, out) else (c, out)) = (d, out1)"
    by fastforce
  then have s: "silent (c, out) (d, out1)" and ph: "pb_phase d = pb_phase c"
    using silent_submitRequest phase_submitRequest by (auto split: if_splits)
  from assms(1) d obtain r tx q where
    "c' = (record_message (nextSeq d) (pb_view d) ''pre-prepare'' (prePrepareMessage e (pb_view d) (JInt (nextSeq d)) tx d) d)\<lparr>pb_phase := PreparePhase\<rparr>"
    "out' = out1 @ [Multicast (prePrepareMessage e (pb_view d) (JInt (nextSeq d)) tx d) (cm_members (pb_committee d))]"
    by (auto simp: prePrepare_leader_def Let_def split: list.splits)
  then show ?thesis using ph assms(2)
    by (auto intro!: silent_trans [OF s] silent_trans [OF silent_record silent_phase] simp: entry_ok_def)
qed

lemma deriveE:
  assumes "derive e t pp = Some m"
  obtains "jfind ''MessageType'' m = Some (JStr t)" and "jfind ''view'' m = jfind ''view'' pp" and "jfind ''seqNum'' m = jfind ''seqNum'' pp"
  using assms by (auto simp: derive_def jfind_jset elim!: bind_SomeE)

lemma silent_announce:
  assumes "announce e t pp (c, out) = Some (c', out')" and "t \<noteq> ''commit''" and "t \<noteq> ''pre-prepare''"
  shows "silent (c, out) (c', out') \<and> pb_phase c' = pb_phase c"
  using assms by (auto elim!: announceE deriveE simp: is_commit_def entry_ok_def intro!: silent_record)

lemma silent_decide:
  assumes "decide e req (c, out) = Some (c', out')" and "pb_phase c = CommitPhase"
  shows "silent (c, out) (c', out')"
proof -
  have "commit_keys out' = commit_keys out"
    using assms(1) by (auto simp: decide_def is_commit_def elim!: bind_SomeE sendCheckpointE split: prod.splits)
  moreover have "frontier c' = frontier c"
    using decide_frame(1,2,4) [OF assms(1)] assms(2) by (simp add: frontier_def nextSeq_def)
  moreover have "pb_committee c' = pb_committee c" by (rule decide_frame(3) [OF assms(1)])
  moreover have "entries_ok c \<Longrightarrow> entries_ok c'"
    using decide_frame(5) [OF assms(1)] by (auto simp: entries_ok_def entry_ok_def)
  ultimately show ?thesis by (simp add: silent_def)
qed

lemma silent_reissue: "reissue e pp (c, out) = Some (c', out') \<Longrightarrow> silent (c, out) (c', out') \<and> pb_phase c' = pb_phase c"
  by (auto simp: reissue_def Let_def entry_ok_def intro!: silent_record elim!: bind_SomeE)

lemma silent_reissues:
  assumes "foldM (reissue e) ps (c, out) = Some (c', out')"
  shows "silent (c, out) (c', out') \<and> pb_phase c' = pb_phase c"
proof -
  have "silent (c, out) (c', out') \<and> pb_phase (fst (c', out')) = pb_phase c"
  proof (rule foldM_invariant [OF assms, of "\<lambda>s. silent (c, out) s \<and> pb_phase (fst s) = pb_phase c"])
    fix x s s'
    assume "silent (c, out) s \<and> pb_phase (fst s) = pb_phase c" "reissue e x s = Some s'"
    then show "silent (c, out) s' \<and> pb_phase (fst s') = pb_phase c"
      using silent_reissue [of e x "fst s" "snd s" "fst s'" "snd s'"] by (auto dest: silent_trans)
  qed simp
  then show ?thesis by simp
qed

text \<open>Every phase but a successful prepare is silent.\<close>

lemma late_silent:
  assumes "maybeStableCheckpoint c = Some d" and "requestViewChange e (d, out) = Some (c', out')"
  shows "silent (c, out) (c', out')"
  using silent_trans [OF silent_checkpoint [OF assms(1)] silent_requestViewChange [OF assms(2)]] .

lemma phase_checkpoint: "maybeStableCheckpoint c = Some d \<Longrightarrow> pb_phase d = pb_phase c"
  by (erule maybeStableCheckpointE)

lemma silent_prePreparePhase:
  assumes "prePreparePhase e (c, out) = Some ((c', out'), b)" and "pb_phase c = PrePreparePhase"
  shows "silent (c, out) (c', out')"
proof -
  from assms(1) obtain d where d: "maybeStableCheckpoint c = Some d"
    and or: "requestViewChange e (d, out) = Some (c', out') \<or> prePrepare_leader e (d, out) = Some (c', out') \<or>
        (c', out') = (d, out) \<or>
        (\<exists>pp d'. announce e ''prepare'' pp (d, out) = Some (d', out') \<and> c' = d'\<lparr>pb_phase := PreparePhase\<rparr>)"
    unfolding prePreparePhase_def by (fastforce elim!: bind_SomeE split: if_splits option.splits)
  note cp = silent_checkpoint [OF d, of out]
  have ph: "pb_phase d = PrePreparePhase" using phase_checkpoint [OF d] assms(2) by simp
  from or show ?thesis
    using late_silent [OF d] silent_trans [OF cp silent_leader] cp ph
    by (auto dest!: silent_announce intro!: silent_trans [OF silent_trans [OF cp] silent_phase])
qed

lemma silent_commitPhase:
  assumes "commitPhase e (c, out) = Some ((c', out'), b)" and "pb_phase c = CommitPhase"
  shows "silent (c, out) (c', out')"
proof -
  from assms(1) obtain d where d: "maybeStableCheckpoint c = Some d"
    and or: "requestViewChange e (d, out) = Some (c', out') \<or> (c', out') = (d, out) \<or> (\<exists>req. decide e req (d, out) = Some (c', out'))"
    unfolding commitPhase_def by (fastforce elim!: bind_SomeE split: if_splits option.splits)
  from or show ?thesis
    using late_silent [OF d] silent_trans [OF silent_checkpoint [OF d] silent_decide] silent_checkpoint [OF d]
      phase_checkpoint [OF d] assms(2) by auto
qed

lemma newViewMessage_silent: "\<not> is_commit (newViewMessage e ps c)"
  by (simp add: newViewMessage_def is_commit_def)

lemma silent_viewChangePhase:
  assumes "viewChangePhase e (c, out) = Some ((c', out'), b)" and "pb_phase c = ViewChangePhase"
  shows "silent (c, out) (c', out')"
proof -
  from assms(1) obtain d where d: "maybeStableCheckpoint c = Some d"
    and or: "requestViewChange e (d, out) = Some (c', out') \<or> (c', out') = (d, out) \<or> (c', out') = (d\<lparr>pb_phase := NewViewPhase\<rparr>, out) \<or>
      (\<exists>ps. c' = (record_message (pb_viewChangeAnchorSeq d) (pb_view d) ''newView'' (newViewMessage e ps d) d)\<lparr>pb_phase := NewViewPhase\<rparr> \<and>
         out' = out @ [Multicast (newViewMessage e ps d) (cm_members (pb_committee d))])"
    by (auto simp: viewChangePhase_def Let_def elim!: bind_SomeE split: if_splits) blast
  note cp = silent_checkpoint [OF d, of out]
  have ph: "pb_phase d \<noteq> CommitPhase" using phase_checkpoint [OF d] assms(2) by simp
  from or show ?thesis
    using late_silent [OF d] cp silent_trans [OF cp silent_phase] ph
    by (auto intro!: silent_trans [OF silent_trans [OF cp silent_record] silent_phase] simp: newViewMessage_silent entry_ok_def)
qed

lemma newViewPhase_stays:
  "newViewPhase e (c, out) = Some ((c', out'), False) \<Longrightarrow>
   \<exists>d. maybeStableCheckpoint c = Some d \<and> (requestViewChange e (d, out) = Some (c', out') \<or> (c', out') = (d, out))"
  unfolding newViewPhase_def by (auto elim!: bind_SomeE simp: Let_def split: if_splits option.splits)

lemma silent_newViewPhase:
  assumes "newViewPhase e (c, out) = Some ((c', out'), b)" and "pb_phase c = NewViewPhase"
  shows "silent (c, out) (c', out')"
proof (cases b)
  case True
  with assms(1) have run: "newViewPhase e (c, out) = Some ((c', out'), True)" by simp
  from this obtain d nv ps d1 d2 where d: "maybeStableCheckpoint c = Some d"
    and d1: "d1 = d\<lparr>pb_lowWaterMark := pb_lastStableCheckpoint d, pb_highWaterMark := pb_lastStableCheckpoint d + WINDOW\<rparr>"
    and re: "foldM (reissue e) (jelems ps) (d1, out) = Some (d2, out')"
    and c': "c' = d2\<lparr>pb_viewChangeTimer := pe_now e + pb_viewChangeDelay d2, pb_phase := PrePreparePhase\<rparr>"
    by (rule newViewPhaseE)
  have s1: "silent (d, out) (d1, out)" by (auto simp: d1 silent_def frontier_def nextSeq_def intro: entries_frame)
  have ph: "pb_phase d1 = NewViewPhase" using phase_checkpoint [OF d] assms(2) by (simp add: d1)
  have s2: "silent (d2, out') (c', out')" using silent_reissues [OF re] ph
    by (auto simp: c' silent_def frontier_def nextSeq_def intro: entries_frame)
  show ?thesis
    using silent_trans [OF silent_trans [OF silent_checkpoint [OF d] s1] silent_trans [OF conjunct1 [OF silent_reissues [OF re]] s2]] .
next
  case False
  with assms(1) newViewPhase_stays [of e c out c' out'] obtain d where "maybeStableCheckpoint c = Some d"
    "requestViewChange e (d, out) = Some (c', out') \<or> (c', out') = (d, out)" by auto
  then show ?thesis using late_silent silent_checkpoint by auto
qed

lemma prepare_commits:
  assumes "preparePhase e (c, out) = Some ((c', out'), b)" and "pb_phase c = PreparePhase" and "commits_ok (c, out)"
  shows "commits_ok (c', out') \<and> pb_committee c' = pb_committee c"
proof -
  from assms(1) obtain d where d: "maybeStableCheckpoint c = Some d"
    and or: "requestViewChange e (d, out) = Some (c', out') \<or> (c', out') = (d, out) \<or>
      (\<exists>pp d'. first_message (is_prepared_prePrepare e (nextSeq d) d) (messages_of (nextSeq d) (pb_view d) ''pre-prepare'' d) = Some (Some pp) \<and>
         announce e ''commit'' pp (d, out) = Some (d', out') \<and> c' = d'\<lparr>pb_phase := CommitPhase\<rparr>)"
    unfolding preparePhase_def by (fastforce elim!: bind_SomeE split: if_splits option.splits)
  have ok: "commits_ok (d, out)" by (rule silent_ok [OF silent_checkpoint [OF d] assms(3)])
  have cm: "pb_committee d = pb_committee c" using d by (rule maybeStableCheckpointE)
  have ph: "pb_phase d = PreparePhase" using phase_checkpoint [OF d] assms(2) by simp
  from or consider (s) "silent (c, out) (c', out')" | (commit) pp d' where
      "first_message (is_prepared_prePrepare e (nextSeq d) d) (messages_of (nextSeq d) (pb_view d) ''pre-prepare'' d) = Some (Some pp)"
      "announce e ''commit'' pp (d, out) = Some (d', out')" "c' = d'\<lparr>pb_phase := CommitPhase\<rparr>"
    using late_silent [OF d] silent_checkpoint [OF d] by auto
  then show ?thesis
  proof cases
    case s
    then show ?thesis using silent_ok [OF s assms(3)] by (simp add: silent_def)
  next
    case commit
    from first_message_Some [OF commit(1)] have mem: "(nextSeq d, pb_view d, ''pre-prepare'', pp) \<in> set (pb_receivedMessages d)"
      and vw: "int_at pp ''view'' = Some (pb_view d)"
      by (auto simp: messages_of_set is_prepared_prePrepare_def Option.bind_eq_Some_conv)
    from commit(2) obtain m where m: "derive e ''commit'' pp = Some m" and d': "d' = record_message (nextSeq d) (pb_view d) ''commit'' m d"
      and out': "out' = out @ [Multicast m (cm_members (pb_committee d))]" by (rule announceE)
    have key: "is_commit m" "int_at m ''view'' = Some (pb_view d)" "int_at m ''seqNum'' = Some (nextSeq d)"
      using m vw mem ok by (auto elim!: deriveE simp: is_commit_def int_at_def jat_jfind commits_ok_def entries_ok_def entry_ok_def)
    have fr: "frontier d = (pb_view d, nextSeq d)" "frontier c' = (pb_view d, nextSeq d + 1)"
      using ph by (auto simp: frontier_def commit(3) d' nextSeq_def)
    have ent: "entries_ok c'" using ok key by (auto simp: commit(3) d' commits_ok_def entries_ok_def entry_ok_def)
    have "pb_committee c' = pb_committee c" by (simp add: commit(3) d' cm)
    then show ?thesis using ok ent key fr
      by (auto simp: commits_ok_def out' sorted_wrt_append slot_less_def)
  qed
qed

lemma silent_both: "silent (c, out) (c', out') \<Longrightarrow> commits_ok (c, out) \<Longrightarrow> commits_ok (c', out') \<and> pb_committee c' = pb_committee c"
  using silent_ok by (auto simp: silent_def)

lemma phase_commits:
  assumes "phase_of (pb_phase c) e (c, out) = Some ((c', out'), b)" and "commits_ok (c, out)"
  shows "commits_ok (c', out') \<and> pb_committee c' = pb_committee c"
  using assms silent_both [OF silent_prePreparePhase] prepare_commits silent_both [OF silent_commitPhase]
    silent_both [OF silent_viewChangePhase] silent_both [OF silent_newViewPhase]
  by (cases "pb_phase c") auto

lemma contains_at: "contains m k \<Longrightarrow> jindex m k = Some j \<Longrightarrow> int_at m k = get_int j"
  by (cases m) (auto simp: contains_def int_at_def)

lemma contains_string: "contains m k \<Longrightarrow> jindex m k = Some j \<Longrightarrow> get_string j = Some t \<Longrightarrow> jfind k m = Some (JStr t)"
  by (cases m; cases j) (auto simp: contains_def)

lemma dispatch_cases:
  assumes "pbft_dispatch now msg [(k, c)] = Some [(k, c')]"
  shows "c' = c \<or> (\<exists>q. c' = c\<lparr>pb_unhandledRequests := q\<rparr>) \<or>
    (\<exists>n v t. c' = record_message n v t msg c \<and> int_at msg ''seqNum'' = Some n \<and>
       int_at msg ''view'' = Some v \<and> jfind ''MessageType'' msg = Some (JStr t))"
  using assms unfolding pbft_dispatch_def
  by (elim bind_SomeE if_Some_condE; simp add: contains_at contains_string split: if_splits) blast+

lemma dispatch_commits:
  assumes "pbft_dispatch now msg [(k, c)] = Some [(k, c')]" and "commits_ok (c, out)"
  shows "commits_ok (c', out) \<and> pb_committee c' = pb_committee c"
proof -
  have "silent (c, out) (c', out)"
    using dispatch_cases [OF assms(1)]
    by (auto simp: silent_def frontier_def nextSeq_def entry_ok_def is_commit_def intro: entries_frame entries_record)
  then show ?thesis using assms(2) by (rule silent_both)
qed

lemma reach_commits: "pbft_reach cm s \<Longrightarrow> commits_ok s \<and> pb_committee (fst s) = cm"
proof (induction rule: pbft_reach.induct)
  case init
  show ?case by (simp add: commits_ok_def entries_ok_def new_pbft_def)
next
  case (phase s e s' again)
  then show ?case using phase_commits [of "fst s" e "snd s" "fst s'" "snd s'" again] by simp
next
  case (dispatch c out now msg k c')
  then show ?case using dispatch_commits [of now msg k c c' out] by simp
qed

lemma slots_distinct: "sorted_wrt slot_less ks \<Longrightarrow> distinct ks"
  by (induction ks) (auto simp: slot_less_def)

text \<open>A round of \<open>performComputation\<close> stays within the reachable states.\<close>

lemma reach_run_phases: "run_phases k e s = Some (s', b) \<Longrightarrow> pbft_reach cm s \<Longrightarrow> pbft_reach cm s'"
proof (induction k arbitrary: s)
  case (Suc k)
  from Suc.prems(1) obtain t again where t: "phase_of (pb_phase (fst s)) e s = Some (t, again)"
    and rest: "(if again then run_phases k e t else Some (t, False)) = Some (s', b)"
    by (auto elim!: bind_SomeE)
  have "pbft_reach cm t" by (rule pbft_reach.phase [OF Suc.prems(2) t])
  then show ?case using Suc.IH [of t] rest by (auto split: if_splits)
qed simp

lemma dispatch_single: "pbft_dispatch now msg [(k, c)] = Some cs \<Longrightarrow> \<exists>c'. cs = [(k, c')]"
  unfolding pbft_dispatch_def by (elim bind_SomeE if_SomeE; simp) blast+

lemma reach_dispatches:
  "foldM (pbft_dispatch now) msgs [(k, c)] = Some cs \<Longrightarrow> pbft_reach cm (c, out) \<Longrightarrow> \<exists>c'. cs = [(k, c')] \<and> pbft_reach cm (c', out)"
proof (induction msgs arbitrary: c)
  case (Cons m msgs)
  from Cons.prems(1) obtain ds where d: "pbft_dispatch now m [(k, c)] = Some ds" "foldM (pbft_dispatch now) msgs ds = Some cs"
    by (auto elim!: bind_SomeE)
  from dispatch_single [OF d(1)] obtain c1 where ds: "ds = [(k, c1)]" by blast
  then have "pbft_reach cm (c1, out)" using pbft_reach.dispatch [OF Cons.prems(2)] d(1) by blast
  then show ?case using Cons.IH d(2) ds by blast
qed auto

text \<open>
  Claim C21. A peer sends at most one commit message for each view and sequence number: the slots of
  the commits it multicasts strictly increase, whatever messages it receives. So no peer that runs
  this code commits to two requests in one slot.
\<close>

theorem pbft_commit_once:
  assumes "pbft_reach cm (c, out)"
  shows "sorted_wrt slot_less (commit_keys out) \<and> distinct (commit_keys out)"
proof -
  have s: "sorted_wrt slot_less (commit_keys out)" using reach_commits [OF assms] by (simp add: commits_ok_def)
  with slots_distinct show ?thesis by blast
qed

text \<open>A committee of four in which a backup receives a proposal with the prepares and commits of the other backups.\<close>

definition example_committee :: "nat \<Rightarrow> committee" where
  "example_committee n = fold addMember (map int [0..<n]) (new_committee 0)"

definition example_env :: "interfaceId \<Rightarrow> penv" where
  "example_env me = \<lparr>pe_me = me, pe_now = 1, pe_digest = (\<lambda>j. if is_object j then ''a'' else ''b''), pe_stateDigest = (\<lambda>_. [])\<rparr>"

definition example_pbft_message :: "string \<Rightarrow> int \<Rightarrow> json" where
  "example_pbft_message t sender = jobject
     [(''type'', JStr ''Consensus''), (''consensusId'', JInt 0), (''MessageType'', JStr t), (''seqNum'', JInt 0), (''view'', JInt 0),
      (''proposal'', jobject [(''Request'', jobject [(''roundSubmitted'', JInt 0)]), (''view'', JInt 0)]), (''from_id'', JInt sender)]"

definition example_pbft_messages :: "interfaceId \<Rightarrow> json list" where
  "example_pbft_messages me = (let others = filter (\<lambda>i. i \<noteq> me) [1, 2, 3] in
     example_pbft_message ''pre-prepare'' 0 # map (example_pbft_message ''prepare'') others @ map (example_pbft_message ''commit'') others)"

definition example_pbft_run :: "interfaceId \<Rightarrow> pbft_ctx option" where
  "example_pbft_run me = (case foldM (pbft_dispatch 1) (example_pbft_messages me) [(0, new_pbft (example_committee 4))] of
        None \<Rightarrow> None | Some cs \<Rightarrow> map_option fst (run_phases 2 (example_env me) (snd (hd cs), [])))"

lemma example_pbft_run_commits: "case example_pbft_run 1 of None \<Rightarrow> False | Some (c, out) \<Rightarrow> commit_keys out = [(0, 0)]"
  by code_simp

lemma example_pbft_run_reach: "example_pbft_run me = Some s \<Longrightarrow> pbft_reach (example_committee 4) s"
proof -
  assume "example_pbft_run me = Some s"
  then obtain cs where cs: "foldM (pbft_dispatch 1) (example_pbft_messages me) [(0, new_pbft (example_committee 4))] = Some cs"
    and "map_option fst (run_phases 2 (example_env me) (snd (hd cs), [])) = Some s"
    unfolding example_pbft_run_def by (auto split: option.splits)
  with reach_dispatches [OF cs pbft_reach.init] reach_run_phases show ?thesis by auto
qed

theorem pbft_commit_once_witness:
  "\<exists>c out. example_pbft_run 1 = Some (c, out) \<and> commit_keys out = [(0, 0)] \<and> sorted_wrt slot_less (commit_keys out) \<and>
     distinct (commit_keys out)"
proof -
  from example_pbft_run_commits obtain c out where run: "example_pbft_run 1 = Some (c, out)" "commit_keys out = [(0, 0)]"
    by (auto split: option.splits)
  with pbft_commit_once [OF example_pbft_run_reach [OF run(1)]] show ?thesis by blast
qed

subsection \<open>Certificates and agreement\<close>

definition from_id :: "json \<Rightarrow> interfaceId option" where
  "from_id m = do { j \<leftarrow> jat m ''from_id''; get_id j }"

lemma sender_set_sound:
  assumes "sender_set p ms = Some S"
  shows "wf_idset S \<and> (\<forall>s \<in> set S. \<exists>m \<in> set ms. p m = Some True \<and> from_id m = Some s)"
  using assms unfolding sender_set_def
proof (rule foldM_invariant [where I = "\<lambda>S. wf_idset S \<and> (\<forall>s \<in> set S. \<exists>m \<in> set ms. p m = Some True \<and> from_id m = Some s)"])
  fix m T T'
  assume "m \<in> set ms" "wf_idset T \<and> (\<forall>s \<in> set T. \<exists>m \<in> set ms. p m = Some True \<and> from_id m = Some s)"
    "do { b \<leftarrow> p m; if b then do { j \<leftarrow> jat m ''from_id''; i \<leftarrow> get_id j; Some (idset_insert i T) } else Some T } = Some T'"
  then show "wf_idset T' \<and> (\<forall>s \<in> set T'. \<exists>m \<in> set ms. p m = Some True \<and> from_id m = Some s)"
    by (fastforce simp: set_insort_insert from_id_def wf_idset_insert elim!: bind_SomeE split: if_splits)
qed simp

text \<open>
  A request is decided only with a commit certificate: the decided request is that of a
  pre-prepare of the leader of the view, recorded for the slot, and more than \<open>2 f\<close> distinct senders
  have sent commit messages for the slot whose request has the same digest.
\<close>

lemma decision_certificate:
  assumes "commitPhase e (c, out) = Some ((c', out'), True)"
  shows "\<exists>pp req S. pb_confirmedTrans c' = pb_confirmedTrans c @ [req] \<and>
    pp \<in> set (messages_of (nextSeq c) (pb_view c) ''pre-prepare'' c) \<and> request_of pp = Some req \<and>
    is_at pp ''from_id'' (leaderFor (pb_view c) c) = Some True \<and>
    distinct S \<and> int (length S) > pbft_quorum c \<and>
    (\<forall>s \<in> set S. \<exists>m \<in> set (messages_of (nextSeq c) (pb_view c) ''commit'' c).
       from_id m = Some s \<and> matches e (pb_view c) (nextSeq c) (pe_digest e req) m = Some True)"
proof -
  from assms obtain d pp req where d: "maybeStableCheckpoint c = Some d"
    and fm: "first_message (is_committed_prePrepare e (nextSeq d) d) (messages_of (nextSeq d) (pb_view d) ''pre-prepare'' d) = Some (Some pp)"
    and req: "request_of pp = Some req" and dec: "decide e req (d, out) = Some (c', out')"
    by (auto simp: commitPhase_def elim!: bind_SomeE split: if_splits option.splits)
  from d have slot: "nextSeq d = nextSeq c" "pb_view d = pb_view c" "pb_confirmedTrans d = pb_confirmedTrans c" "pb_committee d = pb_committee c"
    and sub: "set (messages_of n v t d) \<subseteq> set (messages_of n v t c)" for n v t
    by (auto elim!: maybeStableCheckpointE simp: same_slot_def nextSeq_def messages_of_set dest!: set_mset_mono)
  then have same: "pbft_quorum d = pbft_quorum c" "leaderFor v d = leaderFor v c" for v
    by (simp_all add: pbft_quorum_def pbft_f_def leaderFor_def)
  from first_message_Some [OF fm] req have com: "isCommitted e (pb_view d) (nextSeq d) (pe_digest e req) d = Some True"
    and lead: "is_at pp ''from_id'' (leaderFor (pb_view d) d) = Some True"
    by (auto simp: is_committed_prePrepare_def)
  from com obtain S where S: "sender_set (matches e (pb_view d) (nextSeq d) (pe_digest e req)) (messages_of (nextSeq d) (pb_view d) ''commit'' d) = Some S"
    "int (length S) > pbft_quorum d"
    by (auto simp: isCommitted_def countCommits_def elim!: bind_SomeE)
  from sender_set_sound [OF S(1)] have "distinct S" and snd: "\<forall>s \<in> set S. \<exists>m \<in> set (messages_of (nextSeq c) (pb_view c) ''commit'' c).
       from_id m = Some s \<and> matches e (pb_view c) (nextSeq c) (pe_digest e req) m = Some True"
    using sub [of "nextSeq d" "pb_view d" "''commit''"] by (auto simp: wf_idset_def slot) blast
  then show ?thesis
    using first_message_Some [OF fm] sub [of "nextSeq d" "pb_view d" "''pre-prepare''"] req lead S(2) decide_frame(4) [OF dec]
    by (rule_tac exI [of _ pp], rule_tac exI [of _ req], rule_tac exI [of _ S]) (auto simp: slot same)
qed

text \<open>The code's threshold is a Byzantine quorum rule when the committee has \<open>3 f + 1\<close> members.\<close>

definition pbft_enough :: "nat \<Rightarrow> nat \<Rightarrow> bool" where
  "pbft_enough n a \<longleftrightarrow> n mod 3 = 1 \<and> 2 * ((n - 1) div 3) < a"

interpretation pbftQuorum: quorum pbft_enough "\<lambda>n. (n - 1) div 3"
proof
  fix n a b :: nat
  assume "pbft_enough n a" "pbft_enough n b"
  moreover from this have "n = 3 * ((n - 1) div 3) + 1" by (simp add: pbft_enough_def) presburger
  ultimately show "n + (n - 1) div 3 < a + b" by (simp add: pbft_enough_def)
qed (simp add: pbft_enough_def)

lemma pbft_quorum_enough:
  "length (cm_members (pb_committee c)) mod 3 = 1 \<Longrightarrow> int k > pbft_quorum c \<Longrightarrow> pbft_enough (length (cm_members (pb_committee c))) k"
proof -
  assume n: "length (cm_members (pb_committee c)) mod 3 = 1" and k: "int k > pbft_quorum c"
  define n where "n = length (cm_members (pb_committee c))"
  have pos: "1 \<le> n" using n by (cases n) (auto simp: n_def)
  have "pbft_quorum c = int (2 * ((n - 1) div 3))"
    using pos by (simp add: pbft_quorum_def pbft_f_def cm_size_def zdiv_int of_nat_diff flip: n_def)
  with k n show ?thesis by (simp add: pbft_enough_def flip: n_def)
qed

lemma commit_keys_unique:
  assumes "distinct (commit_keys out)" and "Multicast m T \<in> set out" and "Multicast m' T' \<in> set out"
    and "is_commit m" and "is_commit m'" and "int_at m ''view'' = int_at m' ''view''" and "int_at m ''seqNum'' = int_at m' ''seqNum''"
  shows "m = m'"
proof (rule ccontr)
  assume ne: "m \<noteq> m'"
  from split_list [OF assms(2)] obtain xs ys where out: "out = xs @ Multicast m T # ys" by blast
  let ?k = "(the (int_at m ''view''), the (int_at m ''seqNum''))"
  from out ne assms(3) have "Multicast m' T' \<in> set xs \<union> set ys" by auto
  then have "?k \<in> set (commit_keys xs) \<union> set (commit_keys ys)"
    using assms(5-7) by (auto simp: commit_keys_def intro!: bexI)
  moreover have "commit_keys out = commit_keys xs @ [?k] @ commit_keys ys"
    using assms(4) by (simp add: out commit_keys_def)
  ultimately show False using assms(1) by auto
qed

lemma entry_of_reached:
  assumes "pbft_reach cm (c, out)" and "m \<in> set (messages_of n v ''commit'' c)"
  shows "is_commit m \<and> int_at m ''view'' = Some v \<and> int_at m ''seqNum'' = Some n"
  using reach_commits [OF assms(1)] assms(2)
  by (auto simp: commits_ok_def entries_ok_def entry_ok_def messages_of_set)

lemma matches_digest: "matches e v n d m = Some True \<Longrightarrow> \<exists>q. request_of m = Some q \<and> pe_digest e q = d"
  by (auto simp: matches_def elim!: bind_SomeE)

text \<open>
  Claim C20. Agreement: in a committee of \<open>3 f + 1\<close> peers of which at most \<open>f\<close> are faulty, two peers
  that decide the same sequence number in the same view decide requests with the same digest. The
  messages of correct members are authentic: a commit recorded under the name of a correct member was
  multicast by it, and the correct members run the code.
\<close>

theorem pbft_agreement:
  assumes n: "length (cm_members cm) mod 3 = 1" and wf: "wf_committee cm"
    and F: "finite F" "card F \<le> (length (cm_members cm) - 1) div 3"
    and r1: "pbft_reach cm (c1, out1)" and d1: "commitPhase e1 (c1, out1) = Some ((c1', out1'), True)"
    and r2: "pbft_reach cm (c2, out2)" and d2: "commitPhase e2 (c2, out2) = Some ((c2', out2'), True)"
    and slot: "pb_view c1 = pb_view c2" "nextSeq c1 = nextSeq c2" and dig: "pe_digest e1 = pe_digest e2"
    and correct: "\<And>s. s \<in> set (cm_members cm) \<Longrightarrow> s \<notin> F \<Longrightarrow> \<exists>c. pbft_reach cm (c, sent s)"
    and auth: "\<And>n v m s. (n, v, ''commit'', m) \<in> set (pb_receivedMessages c1) \<union> set (pb_receivedMessages c2) \<Longrightarrow>
      from_id m = Some s \<Longrightarrow> s \<in> set (cm_members cm) \<and> (s \<notin> F \<longrightarrow> (\<exists>T. Multicast m T \<in> set (sent s)))"
  shows "pe_digest e1 (last (pb_confirmedTrans c1')) = pe_digest e2 (last (pb_confirmedTrans c2'))"
proof -
  let ?M = "cm_members cm"
  have cmt: "pb_committee c1 = cm" "pb_committee c2 = cm" using reach_commits [OF r1] reach_commits [OF r2] by simp_all
  from decision_certificate [OF d1] obtain q1 S1 where q1: "pb_confirmedTrans c1' = pb_confirmedTrans c1 @ [q1]"
    and S1: "distinct S1" "int (length S1) > pbft_quorum c1"
      "\<forall>s \<in> set S1. \<exists>m \<in> set (messages_of (nextSeq c1) (pb_view c1) ''commit'' c1).
         from_id m = Some s \<and> matches e1 (pb_view c1) (nextSeq c1) (pe_digest e1 q1) m = Some True" by blast
  from decision_certificate [OF d2] obtain q2 S2 where q2: "pb_confirmedTrans c2' = pb_confirmedTrans c2 @ [q2]"
    and S2: "distinct S2" "int (length S2) > pbft_quorum c2"
      "\<forall>s \<in> set S2. \<exists>m \<in> set (messages_of (nextSeq c2) (pb_view c2) ''commit'' c2).
         from_id m = Some s \<and> matches e2 (pb_view c2) (nextSeq c2) (pe_digest e2 q2) m = Some True" by blast
  have sub: "set S1 \<subseteq> set ?M" "set S2 \<subseteq> set ?M" using S1(3) S2(3) auth by (fastforce simp: messages_of_set)+
  have card: "card (set ?M) = length ?M" using wf by (simp add: wf_committee_def wf_idset_def distinct_card)
  have en: "pbft_enough (card (set ?M)) (card (set S1))" "pbft_enough (card (set ?M)) (card (set S2))"
    using pbft_quorum_enough [of c1 "length S1"] pbft_quorum_enough [of c2 "length S2"] n S1(1,2) S2(1,2)
    by (simp_all add: cmt card distinct_card)
  from pbftQuorum.correct_member [OF _ sub en _ F(1)] F(2) obtain s where s: "s \<in> set S1" "s \<in> set S2" "s \<notin> F"
    by (auto simp: card)
  from S1(3) s(1) obtain m1 where m1: "m1 \<in> set (messages_of (nextSeq c1) (pb_view c1) ''commit'' c1)" "from_id m1 = Some s"
    "matches e1 (pb_view c1) (nextSeq c1) (pe_digest e1 q1) m1 = Some True" by blast
  from S2(3) s(2) obtain m2 where m2: "m2 \<in> set (messages_of (nextSeq c2) (pb_view c2) ''commit'' c2)" "from_id m2 = Some s"
    "matches e2 (pb_view c2) (nextSeq c2) (pe_digest e2 q2) m2 = Some True" by blast
  from auth m1(1,2) m2(1,2) s(3) obtain T1 T2 where T: "Multicast m1 T1 \<in> set (sent s)" "Multicast m2 T2 \<in> set (sent s)"
    by (fastforce simp: messages_of_set)
  from correct s sub obtain cs where "pbft_reach cm (cs, sent s)" by blast
  then have "distinct (commit_keys (sent s))" using reach_commits [of cm "(cs, sent s)"] slots_distinct by (simp add: commits_ok_def)
  then have "m1 = m2"
    using T entry_of_reached [OF r1 m1(1)] entry_of_reached [OF r2 m2(1)] slot by (intro commit_keys_unique) auto
  with matches_digest [OF m1(3)] matches_digest [OF m2(3)] q1 q2 dig show ?thesis by auto
qed

text \<open>The witness: backups 1 and 2 of a committee of four decide the same slot.\<close>

definition example_sent :: "interfaceId \<Rightarrow> send list" where
  "example_sent s = (if s \<in> {1, 2, 3} then (case example_pbft_run s of None \<Rightarrow> [] | Some (_, out) \<Rightarrow> out) else [])"

definition has_multicast :: "json \<Rightarrow> send list \<Rightarrow> bool" where
  "has_multicast m out = list_ex (\<lambda>x. case x of Multicast m' _ \<Rightarrow> m' = m | _ \<Rightarrow> False) out"

lemma has_multicast_iff: "has_multicast m out \<longleftrightarrow> (\<exists>T. Multicast m T \<in> set out)"
  unfolding has_multicast_def by (induction out) (auto split: send.splits)

definition example_authentic :: "pbft \<Rightarrow> bool" where
  "example_authentic c = list_all (\<lambda>(n, v, t, m). t \<noteq> ''commit'' \<or>
     (case from_id m of None \<Rightarrow> False | Some s \<Rightarrow> s \<in> {1, 2, 3} \<and> has_multicast m (example_sent s))) (pb_receivedMessages c)"

definition example_decides :: "interfaceId \<Rightarrow> bool" where
  "example_decides me = (case example_pbft_run me of None \<Rightarrow> False | Some (c, out) \<Rightarrow>
     pb_view c = 0 \<and> nextSeq c = 0 \<and> example_authentic c \<and>
     (case commitPhase (example_env me) (c, out) of None \<Rightarrow> False | Some (_, b) \<Rightarrow> b))"

lemma example_decide: "example_decides 1" "example_decides 2"
  by code_simp+

lemma example_committee_four: "cm_members (example_committee 4) = [0, 1, 2, 3]"
  by code_simp

lemma example_decidesE:
  assumes "example_decides me"
  obtains c out c' out' where "example_pbft_run me = Some (c, out)" and "pb_view c = 0" and "nextSeq c = 0"
    and "example_authentic c" and "commitPhase (example_env me) (c, out) = Some ((c', out'), True)"
  using assms unfolding example_decides_def by (auto split: option.splits)

lemma example_sent_reach: "\<exists>c. pbft_reach (example_committee 4) (c, example_sent s)"
  using pbft_reach.init example_pbft_run_reach unfolding example_sent_def
  by (fastforce split: option.splits)

lemma example_authenticD:
  assumes "example_authentic c" and "(n, v, ''commit'', m) \<in> set (pb_receivedMessages c)" and "from_id m = Some s"
  shows "s \<in> {1, 2, 3} \<and> (\<exists>T. Multicast m T \<in> set (example_sent s))"
proof -
  from assms have "s \<in> {1, 2, 3} \<and> has_multicast m (example_sent s)"
    by (force simp: example_authentic_def list_all_iff)
  then show ?thesis by (simp add: has_multicast_iff)
qed

theorem pbft_agreement_witness:
  "\<exists>c1 out1 c1' out1' c2 out2 c2' out2'. example_pbft_run 1 = Some (c1, out1) \<and> example_pbft_run 2 = Some (c2, out2) \<and>
     commitPhase (example_env 1) (c1, out1) = Some ((c1', out1'), True) \<and>
     commitPhase (example_env 2) (c2, out2) = Some ((c2', out2'), True) \<and>
     pe_digest (example_env 1) (last (pb_confirmedTrans c1')) = pe_digest (example_env 2) (last (pb_confirmedTrans c2'))"
proof -
  from example_decide(1) obtain c1 out1 c1' out1' where c1: "example_pbft_run 1 = Some (c1, out1)" "pb_view c1 = 0" "nextSeq c1 = 0"
    "example_authentic c1" "commitPhase (example_env 1) (c1, out1) = Some ((c1', out1'), True)" by (rule example_decidesE)
  from example_decide(2) obtain c2 out2 c2' out2' where c2: "example_pbft_run 2 = Some (c2, out2)" "pb_view c2 = 0" "nextSeq c2 = 0"
    "example_authentic c2" "commitPhase (example_env 2) (c2, out2) = Some ((c2', out2'), True)" by (rule example_decidesE)
  have "pe_digest (example_env 1) (last (pb_confirmedTrans c1')) = pe_digest (example_env 2) (last (pb_confirmedTrans c2'))"
  proof (rule pbft_agreement [of "example_committee 4" "{0}" c1 out1 "example_env 1" c1' out1' c2 out2 "example_env 2" c2' out2' example_sent])
    show "wf_committee (example_committee 4)" by (simp add: wf_committee_def example_committee_four wf_idset_def)
    show "pbft_reach (example_committee 4) (c1, out1)" "pbft_reach (example_committee 4) (c2, out2)"
      using c1(1) c2(1) by (auto intro: example_pbft_run_reach)
    show "\<exists>c. pbft_reach (example_committee 4) (c, example_sent s)" for s by (rule example_sent_reach)
    show "s \<in> set (cm_members (example_committee 4)) \<and> (s \<notin> {0} \<longrightarrow> (\<exists>T. Multicast m T \<in> set (example_sent s)))"
      if "(n, v, ''commit'', m) \<in> set (pb_receivedMessages c1) \<union> set (pb_receivedMessages c2)" "from_id m = Some s" for n v m s
      using that example_authenticD [OF c1(4)] example_authenticD [OF c2(4)] by (fastforce simp: example_committee_four)
  qed (use c1 c2 in \<open>simp_all add: example_committee_four example_env_def\<close>)
  with c1 c2 show ?thesis by blast
qed

end
