(* ===== verification/PoW.thy ===== *)
theory PoW
  imports Faults Committee "HOL-Library.AList"
begin

text \<open>
  The ledger of the proof-of-work peers (src/quantas/Common/Pow.hpp) with the two chain rules built on
  it (BitcoinPeer/PoWBitcoin.hpp, EthereumPeer/PoWEthereum.hpp).

  The hash tables of blocks and of children are association lists; the order in which the code
  iterates over them is unspecified and no result here depends on it. The virtual method
  \<open>preferCandidate\<close> is the argument \<open>prefer\<close> of the operations that call it. The graph searches keep
  the code's stack or queue and its set of visited hashes; each counts its turns with fuel, \<open>None\<close> when
  it runs out, and the fuel the code's calls get is shown to be enough in \<open>PoWSearch\<close>.
\<close>

subsection \<open>Blocks and ledger\<close>

record blockRecord =
  br_hash :: string
  br_parents :: "string list"
  br_miner :: interfaceId
  br_height :: int
  br_parasite :: bool

record pow =
  pw_committee :: committee
  pw_blocks :: "(string \<times> blockRecord) list"
  pw_bestHash :: string
  pw_children :: "(string \<times> string list) list"

definition GENESIS :: string where
  "GENESIS = ''GENESIS''"

definition genesis_block :: blockRecord where
  "genesis_block = \<lparr>br_hash = GENESIS, br_parents = [], br_miner = NO_PEER_ID, br_height = 0, br_parasite = False\<rparr>"

definition new_pow :: "committee \<Rightarrow> pow" where
  "new_pow cm = \<lparr>pw_committee = cm, pw_blocks = [(GENESIS, genesis_block)], pw_bestHash = GENESIS,
     pw_children = [(GENESIS, [])]\<rparr>"

definition findBlock :: "string \<Rightarrow> pow \<Rightarrow> blockRecord option" where
  "findBlock h p = map_of (pw_blocks p) h"

definition children_of :: "string \<Rightarrow> pow \<Rightarrow> string list" where
  "children_of h p = (case map_of (pw_children p) h of None \<Rightarrow> [] | Some cs \<Rightarrow> cs)"

definition bestTip :: "pow \<Rightarrow> blockRecord option" where
  "bestTip p = findBlock (pw_bestHash p) p"

definition bestHeight :: "pow \<Rightarrow> int" where
  "bestHeight p = (case findBlock (pw_bestHash p) p of None \<Rightarrow> 0 | Some r \<Rightarrow> br_height r)"

definition heightOf :: "string \<Rightarrow> pow \<Rightarrow> int" where
  "heightOf h p = (case findBlock h p of None \<Rightarrow> 0 | Some r \<Rightarrow> br_height r)"

definition allBlocks :: "pow \<Rightarrow> blockRecord list" where
  "allBlocks p = map snd (pw_blocks p)"

definition tips :: "pow \<Rightarrow> string list" where
  "tips p = filter (\<lambda>h. children_of h p = []) (map fst (pw_blocks p))"

definition selectParentsForNextBlock :: "blockRecord option \<Rightarrow> string list" where
  "selectParentsForNextBlock best = (case best of Some b \<Rightarrow> [br_hash b] | None \<Rightarrow> [GENESIS])"

definition parentsForNextBlock :: "pow \<Rightarrow> string list" where
  "parentsForNextBlock p = selectParentsForNextBlock (bestTip p)"

subsection \<open>Searches\<close>

text \<open>Edges of the tables, the bound on the turns of a search.\<close>

definition parent_entries :: "pow \<Rightarrow> nat" where
  "parent_entries p = sum_list (map (\<lambda>(_, r). length (br_parents r)) (pw_blocks p))"

definition child_entries :: "pow \<Rightarrow> nat" where
  "child_entries p = sum_list (map (\<lambda>(_, cs). length cs) (pw_children p))"

text \<open>\<open>hasFullAncestry\<close>: the parents not yet visited are marked and pushed; the last one is on top.\<close>

definition push_new :: "string list \<Rightarrow> string list \<Rightarrow> string list \<Rightarrow> string list \<times> string list" where
  "push_new ps stack visited = fold (\<lambda>q (st, vis). if q \<in> set vis then (st, vis) else (q # st, q # vis)) ps (stack, visited)"

fun ancestry_loop :: "nat \<Rightarrow> pow \<Rightarrow> string list \<Rightarrow> string list \<Rightarrow> bool option" where
  "ancestry_loop 0 p stack visited = None"
| "ancestry_loop (Suc k) p [] visited = Some True"
| "ancestry_loop (Suc k) p (current # stack) visited = (case findBlock current p of
       None \<Rightarrow> Some False
     | Some r \<Rightarrow> let (stack, visited) = push_new (br_parents r) stack visited in ancestry_loop k p stack visited)"

definition hasFullAncestry :: "string \<Rightarrow> pow \<Rightarrow> bool option" where
  "hasFullAncestry h p = ancestry_loop (parent_entries p + 2) p [h] []"

fun ancestor_loop :: "nat \<Rightarrow> string \<Rightarrow> pow \<Rightarrow> string list \<Rightarrow> string list \<Rightarrow> bool option" where
  "ancestor_loop 0 a p stack visited = None"
| "ancestor_loop (Suc k) a p [] visited = Some False"
| "ancestor_loop (Suc k) a p (current # stack) visited =
     (if current \<in> set visited then ancestor_loop k a p stack visited
      else case findBlock current p of
          None \<Rightarrow> ancestor_loop k a p stack (current # visited)
        | Some r \<Rightarrow> if a \<in> set (br_parents r) then Some True
                    else ancestor_loop k a p (rev (br_parents r) @ stack) (current # visited))"

definition isAncestor :: "string \<Rightarrow> string \<Rightarrow> pow \<Rightarrow> bool option" where
  "isAncestor a d p = (if a = d then Some False else ancestor_loop (parent_entries p + 2) a p [d] [])"

fun subtree_loop :: "nat \<Rightarrow> pow \<Rightarrow> string list \<Rightarrow> string list \<Rightarrow> int \<Rightarrow> int option" where
  "subtree_loop 0 p stack visited n = None"
| "subtree_loop (Suc k) p [] visited n = Some n"
| "subtree_loop (Suc k) p (current # stack) visited n =
     (if current \<in> set visited then subtree_loop k p stack visited n
      else subtree_loop k p (rev (children_of current p) @ stack) (current # visited) (n + 1))"

definition subtreeSize :: "string \<Rightarrow> pow \<Rightarrow> int option" where
  "subtreeSize h p = subtree_loop (child_entries p + 2) p [h] [] 0"

text \<open>
  \<open>chainToGenesis\<close> follows the first parents; a cycle among them makes the code loop for ever, so the
  turns are counted up to the number of blocks.
\<close>

fun chain_loop :: "nat \<Rightarrow> pow \<Rightarrow> string \<Rightarrow> string list \<Rightarrow> string list option" where
  "chain_loop 0 p current path = None"
| "chain_loop (Suc k) p current path = (case findBlock current p of
       None \<Rightarrow> Some path
     | Some r \<Rightarrow> (case br_parents r of
           [] \<Rightarrow> Some (current # path)
         | q # _ \<Rightarrow> chain_loop k p q (current # path)))"

definition chainToGenesis :: "string \<Rightarrow> pow \<Rightarrow> string list option" where
  "chainToGenesis tip p = do {
     path \<leftarrow> chain_loop (length (pw_blocks p) + 1) p tip [];
     Some (if path = [] \<or> hd path \<noteq> GENESIS then GENESIS # path else path) }"

subsection \<open>Chain rules\<close>

type_synonym chain_rule = "pow \<Rightarrow> blockRecord \<Rightarrow> blockRecord \<Rightarrow> bool option"

definition pow_prefer :: chain_rule where
  "pow_prefer p candidate incumbent = Some (br_height candidate > br_height incumbent)"

definition bitcoin_prefer :: chain_rule where
  "bitcoin_prefer p candidate incumbent =
     Some (if br_height candidate \<noteq> br_height incumbent then br_height candidate > br_height incumbent
           else br_hash candidate < br_hash incumbent)"

definition ethereum_prefer :: chain_rule where
  "ethereum_prefer p candidate incumbent = do {
     above \<leftarrow> isAncestor (br_hash incumbent) (br_hash candidate) p;
     if above then Some True
     else do {
       below \<leftarrow> isAncestor (br_hash candidate) (br_hash incumbent) p;
       if below then Some False
       else do {
         candidateWeight \<leftarrow> subtreeSize (br_hash candidate) p;
         incumbentWeight \<leftarrow> subtreeSize (br_hash incumbent) p;
         Some (if candidateWeight \<noteq> incumbentWeight then candidateWeight > incumbentWeight
               else if br_height candidate \<noteq> br_height incumbent then br_height candidate > br_height incumbent
               else br_hash candidate < br_hash incumbent) } } }"

subsection \<open>Registration\<close>

definition max_parent_height :: "string list \<Rightarrow> pow \<Rightarrow> int" where
  "max_parent_height ps p =
     (if list_all (\<lambda>q. findBlock q p \<noteq> None) ps then fold (\<lambda>q m. max m (heightOf q p)) ps (-1) else -1)"

definition recomputeHeight :: "string \<Rightarrow> pow \<Rightarrow> pow" where
  "recomputeHeight h p = (case findBlock h p of
       None \<Rightarrow> p
     | Some r \<Rightarrow> (let m = max_parent_height (br_parents r) p;
                      height = (if br_parents r = [] then 0 else if m \<ge> 0 then m + 1 else 0)
                  in p\<lparr>pw_blocks := AList.update h (r\<lparr>br_height := height\<rparr>) (pw_blocks p)\<rparr>))"

definition maybePromoteBest :: "chain_rule \<Rightarrow> string \<Rightarrow> pow \<Rightarrow> pow option" where
  "maybePromoteBest prefer h p = (case findBlock h p of
       None \<Rightarrow> Some p
     | Some r \<Rightarrow> do {
         full \<leftarrow> hasFullAncestry h p;
         if \<not> full \<or> h = pw_bestHash p then Some p
         else (case bestTip p of
             None \<Rightarrow> Some (p\<lparr>pw_bestHash := h\<rparr>)
           | Some incumbent \<Rightarrow> do { b \<leftarrow> prefer p r incumbent; Some (if b then p\<lparr>pw_bestHash := h\<rparr> else p) }) })"

definition best_candidate :: "chain_rule \<Rightarrow> pow \<Rightarrow> string \<times> blockRecord \<Rightarrow> (string \<times> blockRecord) option \<Rightarrow> (string \<times> blockRecord) option option" where
  "best_candidate prefer p = (\<lambda>(h, r) best. do {
     full \<leftarrow> hasFullAncestry h p;
     if \<not> full then Some best
     else (case best of None \<Rightarrow> Some (Some (h, r))
       | Some (_, b) \<Rightarrow> do { x \<leftarrow> prefer p r b; Some (if x then Some (h, r) else best) }) })"

definition ensureBestValid :: "chain_rule \<Rightarrow> pow \<Rightarrow> pow option" where
  "ensureBestValid prefer p = do {
     valid \<leftarrow> (if findBlock (pw_bestHash p) p = None then Some False else hasFullAncestry (pw_bestHash p) p);
     if valid then Some p
     else do {
       best \<leftarrow> foldM (best_candidate prefer p) (pw_blocks p) None;
       Some (p\<lparr>pw_bestHash := (case best of None \<Rightarrow> GENESIS | Some (h, _) \<Rightarrow> h)\<rparr>) } }"

fun propagate_loop :: "nat \<Rightarrow> chain_rule \<Rightarrow> string list \<Rightarrow> string list \<Rightarrow> pow \<Rightarrow> pow option" where
  "propagate_loop 0 prefer queue visited p = None"
| "propagate_loop (Suc k) prefer [] visited p = Some p"
| "propagate_loop (Suc k) prefer (current # queue) visited p =
     (if current \<in> set visited then propagate_loop k prefer queue visited p
      else do {
        p \<leftarrow> maybePromoteBest prefer current (recomputeHeight current p);
        propagate_loop k prefer (queue @ children_of current p) (current # visited) p })"

definition propagateUpdates :: "chain_rule \<Rightarrow> string \<Rightarrow> pow \<Rightarrow> pow option" where
  "propagateUpdates prefer rootHash p = do {
     p \<leftarrow> propagate_loop (child_entries p + 2) prefer [rootHash] [] p;
     ensureBestValid prefer p }"

definition add_child :: "string \<Rightarrow> string \<Rightarrow> (string \<times> string list) list \<Rightarrow> (string \<times> string list) list" where
  "add_child h parent ch = (let vec = (case map_of ch parent of None \<Rightarrow> [] | Some cs \<Rightarrow> cs) in
     AList.update parent (if h \<in> set vec then vec else vec @ [h]) ch)"

definition registerBlock :: "chain_rule \<Rightarrow> string \<Rightarrow> string list \<Rightarrow> interfaceId \<Rightarrow> bool \<Rightarrow> pow \<Rightarrow> (blockRecord \<times> pow) option" where
  "registerBlock prefer h parents miner parasiteFlag p = (case findBlock h p of
       Some r \<Rightarrow> (let r = r\<lparr>br_parasite := (br_parasite r \<or> parasiteFlag)\<rparr>
                  in Some (r, p\<lparr>pw_blocks := AList.update h r (pw_blocks p)\<rparr>))
     | None \<Rightarrow> do {
         let r = \<lparr>br_hash = h, br_parents = parents, br_miner = miner, br_height = 0, br_parasite = parasiteFlag\<rparr>;
         let ch = (case map_of (pw_children p) h of None \<Rightarrow> AList.update h [] (pw_children p) | Some _ \<Rightarrow> pw_children p);
         let p = p\<lparr>pw_blocks := AList.update h r (pw_blocks p), pw_children := fold (add_child h) parents ch\<rparr>;
         p \<leftarrow> propagateUpdates prefer h p;
         r \<leftarrow> findBlock h p;
         Some (r, p) })"

end
