(* ===== verification/PoWSearch.thy ===== *)
theory PoWSearch
  imports PoW
begin

text \<open>
  The searches of the ledger compute what their names say, with the fuel the code's calls get: ancestry,
  ancestors and the size of a subtree, over the relation of a block to its parents and of a hash to its
  children.
\<close>

subsection \<open>The relations\<close>

definition parent_rel :: "pow \<Rightarrow> (string \<times> string) set" where
  "parent_rel p = {(x, q). \<exists>r. findBlock x p = Some r \<and> q \<in> set (br_parents r)}"

definition child_rel :: "pow \<Rightarrow> (string \<times> string) set" where
  "child_rel p = {(x, c). c \<in> set (children_of x p)}"

definition full :: "string \<Rightarrow> pow \<Rightarrow> bool" where
  "full h p \<longleftrightarrow> (\<forall>a. (h, a) \<in> (parent_rel p)\<^sup>* \<longrightarrow> findBlock a p \<noteq> None)"

text \<open>A set closed under a relation contains all that is reachable from its members.\<close>

lemma rtrancl_closed: "(x, y) \<in> R\<^sup>* \<Longrightarrow> x \<in> S \<Longrightarrow> (\<And>a b. a \<in> S \<Longrightarrow> (a, b) \<in> R \<Longrightarrow> b \<in> S) \<Longrightarrow> y \<in> S"
  by (induction rule: rtrancl_induct) auto

subsection \<open>The measure of a search\<close>

text \<open>What the unvisited entries of a table still contribute to the stack.\<close>

definition rest_sum :: "('a \<times> 'b \<Rightarrow> nat) \<Rightarrow> 'a set \<Rightarrow> ('a \<times> 'b) list \<Rightarrow> nat" where
  "rest_sum f V al = sum_list (map f (filter (\<lambda>(k, _). k \<notin> V) al))"

lemma rest_sum_mono: "V \<subseteq> W \<Longrightarrow> rest_sum f W al \<le> rest_sum f V al"
  by (induction al) (auto simp: rest_sum_def)

lemma rest_sum_visit: "map_of al q = Some v \<Longrightarrow> q \<notin> V \<Longrightarrow> rest_sum f (insert q V) al + f (q, v) \<le> rest_sum f V al"
proof (induction al)
  case (Cons kv al)
  obtain k w where kv: "kv = (k, w)" by fastforce
  show ?case
  proof (cases "k = q")
    case True
    then show ?thesis using Cons.prems rest_sum_mono [of V "insert q V" f al] by (simp add: kv rest_sum_def subset_insertI)
  next
    case False
    then show ?thesis using Cons by (simp add: kv rest_sum_def)
  qed
qed simp

lemma rest_sum_empty: "rest_sum f {} al = sum_list (map f al)"
  by (simp add: rest_sum_def)

subsection \<open>Full ancestry\<close>

lemma push_new_Cons:
  "push_new (q # ps) stack vis = (if q \<in> set vis then push_new ps stack vis else push_new ps (q # stack) (q # vis))"
  by (simp add: push_new_def)

lemma push_new_sets:
  "push_new ps stack vis = (stack', vis') \<Longrightarrow> set vis' = set vis \<union> set ps \<and> set stack' = set stack \<union> (set ps - set vis)"
proof (induction ps arbitrary: stack vis)
  case (Cons q ps)
  then show ?case by (auto simp: push_new_Cons split: if_splits)
qed (simp add: push_new_def)

lemma push_new_measure:
  assumes "push_new ps stack vis = (stack', vis')" and "set ps \<subseteq> A" and "finite A"
  shows "length stack' + card (A - set vis') = length stack + card (A - set vis)"
  using assms(1,2)
proof (induction ps arbitrary: stack vis)
  case (Cons q ps)
  show ?case
  proof (cases "q \<in> set vis")
    case False
    have "A - set (q # vis) = A - set vis - {q}" by auto
    then have "card (A - set vis) = Suc (card (A - set (q # vis)))"
      using card.remove [of "A - set vis" q] Cons.prems(2) False assms(3) by auto
    then show ?thesis using Cons.IH [of "q # stack" "q # vis"] Cons.prems False by (simp add: push_new_Cons)
  qed (use Cons in \<open>simp add: push_new_Cons\<close>)
qed (simp add: push_new_def)

definition all_parents :: "pow \<Rightarrow> string set" where
  "all_parents p = (\<Union>(_, r) \<in> set (pw_blocks p). set (br_parents r))"

lemma finite_all_parents [simp]: "finite (all_parents p)"
  by (auto simp: all_parents_def)

lemma card_all_parents: "card (all_parents p) \<le> parent_entries p"
proof -
  have "card (\<Union>(_, r) \<in> set bs. set (br_parents r)) \<le> sum_list (map (\<lambda>(_, r). length (br_parents r)) bs)"
    for bs :: "(string \<times> blockRecord) list"
  proof (induction bs)
    case (Cons b bs)
    obtain h r where b: "b = (h, r)" by fastforce
    show ?case using Cons card_Un_le [of "set (br_parents r)" "\<Union>(_, r) \<in> set bs. set (br_parents r)"] card_length [of "br_parents r"]
      by (simp add: b)
  qed simp
  then show ?thesis by (simp add: all_parents_def parent_entries_def)
qed

lemma findBlock_parents: "findBlock x p = Some r \<Longrightarrow> set (br_parents r) \<subseteq> all_parents p"
  by (auto simp: findBlock_def all_parents_def dest!: map_of_SomeD)

lemma ancestry_loop_correct:
  assumes "set stack \<union> set vis \<subseteq> {a. (h, a) \<in> (parent_rel p)\<^sup>*}"
    and "\<And>x. x \<in> insert h (set vis) \<Longrightarrow> x \<in> set stack \<or> (\<exists>r. findBlock x p = Some r \<and> set (br_parents r) \<subseteq> set vis)"
    and "length stack + card (all_parents p - set vis) < k"
  shows "ancestry_loop k p stack vis = Some (full h p)"
  using assms
proof (induction k p stack vis rule: ancestry_loop.induct)
  case (2 k p vis)
  have "a \<in> insert h (set vis)" if "(h, a) \<in> (parent_rel p)\<^sup>*" for a
    using that by (rule rtrancl_closed) (use 2(2) in \<open>fastforce simp: parent_rel_def\<close>)+
  then have "full h p" using 2(2) by (fastforce simp: full_def)
  then show ?case by simp
next
  case (3 k p current stack vis)
  have reach: "(h, current) \<in> (parent_rel p)\<^sup>*" using 3(2) by auto
  show ?case
  proof (cases "findBlock current p")
    case None
    then have "\<not> full h p" using reach by (auto simp: full_def)
    then show ?thesis using None by simp
  next
    case (Some r)
    obtain stack' vis' where push: "push_new (br_parents r) stack vis = (stack', vis')" by fastforce
    note sets = push_new_sets [OF push]
    have "(h, q) \<in> (parent_rel p)\<^sup>*" if "q \<in> set (br_parents r)" for q
      using reach that Some by (auto simp: parent_rel_def intro: rtrancl_into_rtrancl)
    then have a: "set stack' \<union> set vis' \<subseteq> {a. (h, a) \<in> (parent_rel p)\<^sup>*}" using 3(2) sets by auto
    have b: "x \<in> set stack' \<or> (\<exists>r. findBlock x p = Some r \<and> set (br_parents r) \<subseteq> set vis')" if "x \<in> insert h (set vis')" for x
    proof (cases "x \<in> insert h (set vis)")
      case True
      then show ?thesis using 3(3) [OF True] sets Some by auto
    next
      case False
      then show ?thesis using that sets by auto
    qed
    have c: "length stack' + card (all_parents p - set vis') < k"
      using push_new_measure [OF push findBlock_parents [OF Some]] 3(4) by simp
    show ?thesis using 3(1) [OF Some push [symmetric] refl a b c] Some push by simp
  qed
qed simp

lemma hasFullAncestry_correct: "hasFullAncestry h p = Some (full h p)"
proof -
  have "card (all_parents p - set []) \<le> parent_entries p" using card_all_parents by simp
  then show ?thesis unfolding hasFullAncestry_def
    by (intro ancestry_loop_correct) auto
qed

subsection \<open>Ancestors and subtrees\<close>

lemma ancestor_loop_correct:
  assumes "set stack \<union> set vis \<subseteq> {x. (d, x) \<in> (parent_rel p)\<^sup>*}" and "d \<in> set stack \<union> set vis"
    and "\<And>x r. x \<in> set vis \<Longrightarrow> findBlock x p = Some r \<Longrightarrow> a \<notin> set (br_parents r) \<and> set (br_parents r) \<subseteq> set stack \<union> set vis"
    and "length stack + rest_sum (\<lambda>(_, r). length (br_parents r)) (set vis) (pw_blocks p) < k"
  shows "ancestor_loop k a p stack vis = Some ((d, a) \<in> (parent_rel p)\<^sup>+)"
  using assms
proof (induction k a p stack vis rule: ancestor_loop.induct)
  case (2 k a p vis)
  have "x \<in> set vis" if "(d, x) \<in> (parent_rel p)\<^sup>*" for x
    using that by (rule rtrancl_closed) (use 2(2,3) in \<open>auto simp: parent_rel_def\<close>)
  then have "(d, a) \<notin> (parent_rel p)\<^sup>+" using 2(3) by (auto dest!: tranclD2 simp: parent_rel_def)
  then show ?case by simp
next
  case (3 k a p current stack vis)
  have reach: "(d, current) \<in> (parent_rel p)\<^sup>*" using 3(4) by auto
  show ?case
  proof (cases "current \<in> set vis")
    case True
    then show ?thesis using 3(1) [OF True] 3(4-7) by (auto simp: insert_absorb)
  next
    case new: False
    show ?thesis
    proof (cases "findBlock current p")
      case None
      have "rest_sum (\<lambda>(_, r). length (br_parents r)) (set (current # vis)) (pw_blocks p) \<le>
          rest_sum (\<lambda>(_, r). length (br_parents r)) (set vis) (pw_blocks p)" by (rule rest_sum_mono) auto
      then show ?thesis using 3(2) [OF new None] 3(4-7) new None by fastforce
    next
      case (Some r)
      show ?thesis
      proof (cases "a \<in> set (br_parents r)")
        case True
        then have "(current, a) \<in> parent_rel p" using Some by (auto simp: parent_rel_def)
        then have "(d, a) \<in> (parent_rel p)\<^sup>+" using reach by (rule rtrancl_into_trancl1 [rotated])
        then show ?thesis using Some True new by simp
      next
        case False
        have up: "(d, q) \<in> (parent_rel p)\<^sup>*" if "q \<in> set (br_parents r)" for q
          using reach that Some by (auto simp: parent_rel_def intro: rtrancl_into_rtrancl)
        have "rest_sum (\<lambda>(_, r). length (br_parents r)) (insert current (set vis)) (pw_blocks p) + length (br_parents r) \<le>
            rest_sum (\<lambda>(_, r). length (br_parents r)) (set vis) (pw_blocks p)"
          using rest_sum_visit [of "pw_blocks p" current r "set vis" "\<lambda>(_, r). length (br_parents r)"] Some new by (simp add: findBlock_def)
        then have m: "length (rev (br_parents r) @ stack) + rest_sum (\<lambda>(_, r). length (br_parents r)) (set (current # vis)) (pw_blocks p) < k"
          using 3(7) by simp
        have cl: "a \<notin> set (br_parents s) \<and> set (br_parents s) \<subseteq> set (rev (br_parents r) @ stack) \<union> set (current # vis)"
          if "x \<in> set (current # vis)" "findBlock x p = Some s" for x s
          using that 3(6) [of x s] Some False by (cases "x = current") auto
        have "ancestor_loop k a p (rev (br_parents r) @ stack) (current # vis) = Some ((d, a) \<in> (parent_rel p)\<^sup>+)"
        proof (rule 3(3) [OF new Some False _ _ _ m])
          show "set (rev (br_parents r) @ stack) \<union> set (current # vis) \<subseteq> {x. (d, x) \<in> (parent_rel p)\<^sup>*}" using 3(4) up by auto
          show "d \<in> set (rev (br_parents r) @ stack) \<union> set (current # vis)" using 3(5) by auto
        qed (rule cl)
        then show ?thesis using Some new False by simp
      qed
    qed
  qed
qed simp

lemma isAncestor_correct: "isAncestor a d p = Some (a \<noteq> d \<and> (d, a) \<in> (parent_rel p)\<^sup>+)"
proof (cases "a = d")
  case False
  have "ancestor_loop (parent_entries p + 2) a p [d] [] = Some ((d, a) \<in> (parent_rel p)\<^sup>+)"
    by (rule ancestor_loop_correct) (auto simp: rest_sum_empty parent_entries_def)
  then show ?thesis using False by (simp add: isAncestor_def)
qed (simp add: isAncestor_def)

lemma children_of_table: "children_of x p \<noteq> [] \<Longrightarrow> map_of (pw_children p) x = Some (children_of x p)"
  by (auto simp: children_of_def split: option.splits)

lemma child_rest:
  "x \<notin> V \<Longrightarrow> rest_sum (\<lambda>(_, cs). length cs) (insert x V) (pw_children p) + length (children_of x p)
    \<le> rest_sum (\<lambda>(_, cs). length cs) V (pw_children p)"
  using rest_sum_visit [of "pw_children p" x "children_of x p" V "\<lambda>(_, cs). length cs"] children_of_table [of x p]
    rest_sum_mono [of V "insert x V" "\<lambda>(_, cs). length cs" "pw_children p"]
  by (cases "children_of x p = []") (auto simp: subset_insertI)

lemma subtree_loop_correct:
  assumes "set stack \<union> set vis \<subseteq> {x. (h, x) \<in> (child_rel p)\<^sup>*}" and "h \<in> set stack \<union> set vis"
    and "\<And>x. x \<in> set vis \<Longrightarrow> set (children_of x p) \<subseteq> set stack \<union> set vis" and "n = int (card (set vis))"
    and "length stack + rest_sum (\<lambda>(_, cs). length cs) (set vis) (pw_children p) < k"
  shows "subtree_loop k p stack vis n = Some (int (card {x. (h, x) \<in> (child_rel p)\<^sup>*}))"
  using assms
proof (induction k p stack vis n rule: subtree_loop.induct)
  case (2 k p vis n)
  have "x \<in> set vis" if "(h, x) \<in> (child_rel p)\<^sup>*" for x
    using that by (rule rtrancl_closed) (use 2(2,3) in \<open>auto simp: child_rel_def\<close>)
  then have "{x. (h, x) \<in> (child_rel p)\<^sup>*} = set vis" using 2(1) by auto
  then show ?case using 2(4) by simp
next
  case (3 k p current stack vis n)
  show ?case
  proof (cases "current \<in> set vis")
    case True
    then show ?thesis using 3(1) [OF True] 3(3-7) by (auto simp: insert_absorb)
  next
    case False
    have up: "(h, q) \<in> (child_rel p)\<^sup>*" if "q \<in> set (children_of current p)" for q
      using 3(3) that by (auto simp: child_rel_def intro: rtrancl_into_rtrancl)
    have m: "length (rev (children_of current p) @ stack) + rest_sum (\<lambda>(_, cs). length cs) (set (current # vis)) (pw_children p) < k"
      using child_rest [of current "set vis" p] False 3(7) by simp
    show ?thesis using 3(2) [OF False _ _ _ _ m] 3(3-6) up False by (simp add: subset_iff) blast
  qed
qed simp

lemma subtreeSize_correct: "subtreeSize h p = Some (int (card {x. (h, x) \<in> (child_rel p)\<^sup>*}))"
  unfolding subtreeSize_def by (rule subtree_loop_correct) (auto simp: rest_sum_empty child_entries_def)

end
