(* ===== verification/PoWLedger.thy ===== *)
theory PoWLedger
  imports PoWSearch
begin

text \<open>
  The ledger follows the longest chain. \<open>chain_order\<close> is what a chain rule has to promise to the ledger
  (the virtual \<open>preferCandidate\<close>): it compares the two records by a strict order that is total on
  blocks with different hashes. For such a rule, and blocks with one parent each as the miners make
  them, registering blocks in any order (a block may arrive before its parent) keeps every height one
  above the parent's and the best tip the greatest among the blocks whose ancestry is complete.
\<close>

subsection \<open>The invariant of the ledger\<close>

definition height_ok :: "string \<Rightarrow> pow \<Rightarrow> bool" where
  "height_ok h p \<longleftrightarrow> (\<forall>r. findBlock h p = Some r \<longrightarrow> br_height r = (case br_parents r of [] \<Rightarrow> 0
     | q # _ \<Rightarrow> (case findBlock q p of None \<Rightarrow> 0 | Some s \<Rightarrow> br_height s + 1)))"

definition graph_ok :: "(string \<Rightarrow> nat) \<Rightarrow> pow \<Rightarrow> bool" where
  "graph_ok rank p \<longleftrightarrow>
     (\<forall>h r. findBlock h p = Some r \<longrightarrow> br_hash r = h \<and> 0 \<le> br_height r \<and> length (br_parents r) \<le> 1 \<and>
       (br_parents r = [] \<longrightarrow> h = GENESIS)) \<and>
     (\<forall>x c. c \<in> set (children_of x p) \<longleftrightarrow> (c, x) \<in> parent_rel p) \<and>
     (\<forall>(x, q) \<in> parent_rel p. rank q < rank x)"

definition best_ok :: "(blockRecord \<Rightarrow> blockRecord \<Rightarrow> bool) \<Rightarrow> string set \<Rightarrow> pow \<Rightarrow> bool" where
  "best_ok lt P p \<longleftrightarrow> pw_bestHash p \<notin> P \<and> full (pw_bestHash p) p \<and>
     (\<exists>b. bestTip p = Some b \<and> (\<forall>h r. findBlock h p = Some r \<longrightarrow> full h p \<longrightarrow> h \<notin> P \<longrightarrow> h \<noteq> pw_bestHash p \<longrightarrow> lt r b))"

text \<open>\<open>P\<close> is the set of blocks whose update is pending; it is empty between registrations.\<close>

definition ledger_ok :: "(blockRecord \<Rightarrow> blockRecord \<Rightarrow> bool) \<Rightarrow> (string \<Rightarrow> nat) \<Rightarrow> string set \<Rightarrow> pow \<Rightarrow> bool" where
  "ledger_ok lt rank P p \<longleftrightarrow> graph_ok rank p \<and> (\<forall>h. h \<notin> P \<longrightarrow> height_ok h p) \<and> best_ok lt P p"

subsection \<open>Effect of the updates on the graph\<close>

definition same_graph :: "pow \<Rightarrow> pow \<Rightarrow> bool" where
  "same_graph p p' \<longleftrightarrow> pw_children p' = pw_children p \<and>
     (\<forall>h. map_option br_parents (findBlock h p') = map_option br_parents (findBlock h p))"

lemma same_graph_parents: "same_graph p p' \<Longrightarrow> parent_rel p' = parent_rel p"
proof -
  have le: "same_graph a b \<Longrightarrow> parent_rel a \<subseteq> parent_rel b" for a b
  proof
    fix e assume "same_graph a b" "e \<in> parent_rel a"
    then obtain x q r where e: "e = (x, q)" "findBlock x a = Some r" "q \<in> set (br_parents r)"
      by (auto simp: parent_rel_def)
    with \<open>same_graph a b\<close> have "map_option br_parents (findBlock x b) = Some (br_parents r)" by (simp add: same_graph_def)
    with e show "e \<in> parent_rel b" by (auto simp: parent_rel_def)
  qed
  assume "same_graph p p'"
  then show ?thesis using le [of p p'] le [of p' p] by (auto simp: same_graph_def)
qed

lemma same_graph_dom: "same_graph p p' \<Longrightarrow> findBlock h p' = None \<longleftrightarrow> findBlock h p = None"
  by (metis same_graph_def option.map_disc_iff)

lemma same_graph_full: "same_graph p p' \<Longrightarrow> full h p' \<longleftrightarrow> full h p"
  by (simp add: full_def same_graph_parents same_graph_dom)

lemma same_graph_children: "same_graph p p' \<Longrightarrow> children_of x p' = children_of x p"
  by (simp add: same_graph_def children_of_def)

lemma findBlock_best [simp]: "findBlock h (p\<lparr>pw_bestHash := b\<rparr>) = findBlock h p"
  by (simp add: findBlock_def)

lemma findBlock_children [simp]: "findBlock h (p\<lparr>pw_children := c\<rparr>) = findBlock h p"
  by (simp add: findBlock_def)

lemma findBlock_update [simp]:
  "findBlock x (p\<lparr>pw_blocks := AList.update h r (pw_blocks p)\<rparr>) = (if x = h then Some r else findBlock x p)"
  by (simp add: findBlock_def update_conv')

lemma same_graph_best [simp]: "same_graph p (p\<lparr>pw_bestHash := b\<rparr>)"
  by (simp add: same_graph_def)

lemma recomputeHeight_effect:
  assumes "findBlock h p = Some r" and "graph_ok rank p"
  obtains r' where "findBlock h (recomputeHeight h p) = Some r'" and "br_parents r' = br_parents r" and "br_hash r' = br_hash r"
    and "\<And>x. x \<noteq> h \<Longrightarrow> findBlock x (recomputeHeight h p) = findBlock x p"
    and "pw_bestHash (recomputeHeight h p) = pw_bestHash p" and "same_graph p (recomputeHeight h p)"
    and "0 \<le> br_height r'" and "height_ok h (recomputeHeight h p)"
proof -
  let ?m = "max_parent_height (br_parents r) p"
  let ?r = "r\<lparr>br_height := (if br_parents r = [] then 0 else if ?m \<ge> 0 then ?m + 1 else 0)\<rparr>"
  let ?p = "recomputeHeight h p"
  have p: "?p = p\<lparr>pw_blocks := AList.update h ?r (pw_blocks p)\<rparr>" using assms(1) by (simp add: recomputeHeight_def Let_def)
  have find: "findBlock x ?p = (if x = h then Some ?r else findBlock x p)" for x unfolding p by (rule findBlock_update)
  have len: "length (br_parents r) \<le> 1" using assms by (auto simp: graph_ok_def)
  have no_self: "h \<notin> set (br_parents r)" using assms by (force simp: graph_ok_def parent_rel_def)
  have ok: "height_ok h ?p"
  proof (cases "br_parents r")
    case (Cons q qs)
    with len have q: "br_parents r = [q]" by simp
    have nn: "findBlock q p = Some s \<Longrightarrow> 0 \<le> br_height s" for s using assms(2) by (auto simp: graph_ok_def)
    show ?thesis using q no_self nn
      by (auto simp: height_ok_def find max_parent_height_def heightOf_def split: option.splits)
  qed (simp add: height_ok_def find)
  show ?thesis
    by (rule that [of ?r]) (use assms(1) ok in \<open>auto simp: find same_graph_def\<close>, simp_all add: p)
qed

text \<open>The queue: below the root \<open>h\<close>, parents are visited before their children.\<close>

definition queue_ok :: "string \<Rightarrow> string list \<Rightarrow> string list \<Rightarrow> pow \<Rightarrow> bool" where
  "queue_ok h Q V p \<longleftrightarrow> h \<in> set V \<union> set Q \<and>
     (\<forall>q \<in> set Q. (q, h) \<in> (parent_rel p)\<^sup>* \<and> findBlock q p \<noteq> None) \<and>
     (\<forall>x \<in> set V \<union> set Q. x = h \<or> (\<forall>y. (x, y) \<in> parent_rel p \<longrightarrow> y \<in> set V)) \<and>
     (\<forall>v \<in> set V. set (children_of v p) \<subseteq> set V \<union> set Q)"

lemma queue_step:
  assumes "queue_ok h (q # Q) V p" and "graph_ok rank p" and "same_graph p p'"
  shows "queue_ok h (Q @ children_of q p') (q # V) p'"
proof -
  note same = same_graph_parents [OF assms(3)] same_graph_dom [OF assms(3)] same_graph_children [OF assms(3)]
  have kid: "(c, h) \<in> (parent_rel p)\<^sup>*" "findBlock c p \<noteq> None" "(c, y) \<in> parent_rel p \<Longrightarrow> y = q"
    if c: "c \<in> set (children_of q p)" for c y
  proof -
    have e: "(c, q) \<in> parent_rel p" using assms(2) c by (auto simp: graph_ok_def)
    moreover have "(q, h) \<in> (parent_rel p)\<^sup>*" using assms(1) by (auto simp: queue_ok_def)
    ultimately show "(c, h) \<in> (parent_rel p)\<^sup>*" by (rule converse_rtrancl_into_rtrancl)
    from e show "findBlock c p \<noteq> None" by (auto simp: parent_rel_def)
    assume "(c, y) \<in> parent_rel p"
    with e obtain r where "findBlock c p = Some r" "q \<in> set (br_parents r)" "y \<in> set (br_parents r)" by (auto simp: parent_rel_def)
    moreover from this have "length (br_parents r) \<le> 1" using assms(2) by (auto simp: graph_ok_def)
    ultimately show "y = q" by (cases "br_parents r") auto
  qed
  then show ?thesis using assms(1) unfolding queue_ok_def same by (simp add: ball_Un) blast
qed

subsection \<open>A new block in the tables\<close>

definition add_block :: "string \<Rightarrow> string \<Rightarrow> interfaceId \<Rightarrow> bool \<Rightarrow> pow \<Rightarrow> pow" where
  "add_block h q miner flag p = p\<lparr>pw_blocks := AList.update h
       \<lparr>br_hash = h, br_parents = [q], br_miner = miner, br_height = 0, br_parasite = flag\<rparr> (pw_blocks p),
     pw_children := add_child h q (case map_of (pw_children p) h of None \<Rightarrow> AList.update h [] (pw_children p) | Some _ \<Rightarrow> pw_children p)\<rparr>"

lemma registerBlock_new:
  "findBlock h p = None \<Longrightarrow> registerBlock rule h [q] miner flag p = do {
     p \<leftarrow> propagateUpdates rule h (add_block h q miner flag p); r \<leftarrow> findBlock h p; Some (r, p) }"
  by (simp add: registerBlock_def add_block_def Let_def)

lemma add_block_find:
  "findBlock x (add_block h q miner flag p) =
     (if x = h then Some \<lparr>br_hash = h, br_parents = [q], br_miner = miner, br_height = 0, br_parasite = flag\<rparr> else findBlock x p)"
  by (simp add: add_block_def findBlock_def update_conv')

lemma add_block_bestHash [simp]: "pw_bestHash (add_block h q miner flag p) = pw_bestHash p"
  by (simp add: add_block_def)

lemma add_block_parents:
  assumes "findBlock h p = None"
  shows "parent_rel (add_block h q miner flag p) = insert (h, q) (parent_rel p)"
  using assms by (auto simp: parent_rel_def add_block_find split: if_splits)

lemma children_ensure:
  "children_of x (p\<lparr>pw_children := (case map_of (pw_children p) h of None \<Rightarrow> AList.update h [] (pw_children p) | Some _ \<Rightarrow> pw_children p)\<rparr>) = children_of x p"
  by (auto simp: children_of_def update_conv' split: option.splits)

lemma add_block_children:
  "c \<in> set (children_of x (add_block h q miner flag p)) \<longleftrightarrow> c \<in> set (children_of x p) \<or> x = q \<and> c = h"
proof -
  let ?ch = "case map_of (pw_children p) h of None \<Rightarrow> AList.update h [] (pw_children p) | Some _ \<Rightarrow> pw_children p"
  have "children_of x (add_block h q miner flag p) =
      (if x = q then (let old = children_of q (p\<lparr>pw_children := ?ch\<rparr>) in if h \<in> set old then old else old @ [h])
       else children_of x (p\<lparr>pw_children := ?ch\<rparr>))"
    by (simp add: add_block_def children_of_def add_child_def Let_def update_conv')
  then show ?thesis unfolding children_ensure by (auto simp: Let_def)
qed

text \<open>Paths that do not start below the new block stay as they were.\<close>

lemma path_to_new: "(x, h) \<in> (insert (h, q) R)\<^sup>* \<Longrightarrow> (x, h) \<in> R\<^sup>*"
  by (induction rule: converse_rtrancl_induct) (auto intro: converse_rtrancl_into_rtrancl)

lemma path_beside:
  assumes "(x, a) \<in> (insert (h, q) R)\<^sup>*" and "(x, h) \<notin> (insert (h, q) R)\<^sup>*"
  shows "(x, a) \<in> R\<^sup>*"
  using assms(1)
proof (induction rule: rtrancl_induct)
  case (step y z)
  then show ?case using assms(2) by (cases "y = h") (auto intro: rtrancl_into_rtrancl)
qed simp

lemma full_beside:
  assumes h: "findBlock h p = None" and x: "(x, h) \<notin> (parent_rel (add_block h q miner flag p))\<^sup>*"
  shows "full x (add_block h q miner flag p) \<longleftrightarrow> full x p"
proof -
  note rel = add_block_parents [OF h, of q miner flag]
  have "(x, a) \<in> (parent_rel (add_block h q miner flag p))\<^sup>* \<longleftrightarrow> (x, a) \<in> (parent_rel p)\<^sup>*" for a
    using path_beside [of x a h q "parent_rel p"] x rtrancl_mono [of "parent_rel p" "insert (h, q) (parent_rel p)"]
    unfolding rel by blast
  moreover have "findBlock a (add_block h q miner flag p) = findBlock a p" if "(x, a) \<in> (parent_rel (add_block h q miner flag p))\<^sup>*" for a
    using that x by (auto simp: add_block_find)
  ultimately show ?thesis by (auto simp: full_def)
qed

lemma full_not_below:
  assumes "findBlock h p = None" and "full x p"
  shows "(x, h) \<notin> (parent_rel (add_block h q miner flag p))\<^sup>*"
  using assms path_to_new [of x h q "parent_rel p"] unfolding add_block_parents [OF assms(1)] full_def by blast

lemma add_block_ok:
  assumes ok: "ledger_ok lt rank {} p" and h: "findBlock h p = None" and rk: "rank q < rank h"
  shows "ledger_ok lt rank {x. (x, h) \<in> (parent_rel (add_block h q miner flag p))\<^sup>*} (add_block h q miner flag p)"
proof -
  let ?p = "add_block h q miner flag p"
  have g: "graph_ok rank p" and hs: "\<And>x. height_ok x p" and best: "best_ok lt {} p" using ok by (auto simp: ledger_ok_def)
  have "graph_ok rank ?p"
    using g rk h by (auto simp: graph_ok_def add_block_find add_block_parents add_block_children)
  moreover have "height_ok x ?p" if x: "x \<notin> {x. (x, h) \<in> (parent_rel ?p)\<^sup>*}" for x
  proof -
    have "x \<noteq> h" "(x, h) \<notin> parent_rel ?p" using x by auto
    then show ?thesis using hs [of x]
      by (auto simp: height_ok_def add_block_find add_block_parents [OF h] parent_rel_def split: list.splits option.splits)
  qed
  moreover have "best_ok lt {x. (x, h) \<in> (parent_rel ?p)\<^sup>*} ?p"
  proof -
    from best obtain b where b: "bestTip p = Some b" "full (pw_bestHash p) p"
      and mx: "\<And>x r. findBlock x p = Some r \<Longrightarrow> full x p \<Longrightarrow> x \<noteq> pw_bestHash p \<Longrightarrow> lt r b" by (auto simp: best_ok_def)
    have nb: "(pw_bestHash p, h) \<notin> (parent_rel ?p)\<^sup>*" by (rule full_not_below [OF h b(2)])
    then have "bestTip ?p = Some b" using b(1) by (auto simp: bestTip_def add_block_find)
    moreover have "lt r b" if "findBlock x ?p = Some r" "full x ?p" "(x, h) \<notin> (parent_rel ?p)\<^sup>*" "x \<noteq> pw_bestHash p" for x r
      using that mx [of x r] full_beside [OF h that(3)] by (auto simp: add_block_find split: if_splits)
    ultimately show ?thesis using nb full_beside [OF h nb] b(2) by (simp add: best_ok_def)
  qed
  ultimately show ?thesis by (simp add: ledger_ok_def)
qed

subsection \<open>The contract of a chain rule\<close>

locale chain_order =
  fixes prefers :: chain_rule and lt :: "blockRecord \<Rightarrow> blockRecord \<Rightarrow> bool"
  assumes prefer_lt: "prefers p candidate incumbent = Some (lt incumbent candidate)"
    and lt_trans: "lt a b \<Longrightarrow> lt b c \<Longrightarrow> lt a c"
    and lt_total: "br_hash a \<noteq> br_hash b \<Longrightarrow> lt a b \<or> lt b a"
    and lt_flag: "lt (a\<lparr>br_parasite := x\<rparr>) b = lt a b" "lt a (b\<lparr>br_parasite := x\<rparr>) = lt a b"
begin

text \<open>Visiting one pending block: its height is made right and it is compared with the best tip.\<close>

lemma visit_block:
  assumes ok: "ledger_ok lt rank P p" and q: "q \<in> P" and r: "findBlock q p = Some r"
    and later: "\<And>c. (c, q) \<in> parent_rel p \<Longrightarrow> c \<in> P"
  obtains p' where "maybePromoteBest prefers q (recomputeHeight q p) = Some p'" and "ledger_ok lt rank (P - {q}) p'" and "same_graph p p'"
proof -
  have g: "graph_ok rank p" and hs: "\<And>h. h \<notin> P \<Longrightarrow> height_ok h p" and best: "best_ok lt P p"
    using ok by (auto simp: ledger_ok_def)
  from recomputeHeight_effect [OF r g] obtain r1 where
    r1: "findBlock q (recomputeHeight q p) = Some r1" "br_parents r1 = br_parents r" "br_hash r1 = br_hash r"
    and others: "\<And>x. x \<noteq> q \<Longrightarrow> findBlock x (recomputeHeight q p) = findBlock x p"
    and bh: "pw_bestHash (recomputeHeight q p) = pw_bestHash p" and same: "same_graph p (recomputeHeight q p)"
    and nn: "0 \<le> br_height r1" and hq: "height_ok q (recomputeHeight q p)" by blast
  define p1 where "p1 = recomputeHeight q p"
  note [simp] = p1_def [symmetric]
  have "br_hash s = h \<and> 0 \<le> br_height s \<and> length (br_parents s) \<le> 1 \<and> (br_parents s = [] \<longrightarrow> h = GENESIS)"
    if "findBlock h p1 = Some s" for h s
    using g r r1 nn others that by (cases "h = q") (auto simp: graph_ok_def)
  then have g1: "graph_ok rank p1"
    using g same_graph_parents [OF same] same_graph_children [OF same] by (simp add: graph_ok_def)
  have h1: "height_ok h p1" if h: "h \<notin> P - {q}" for h
  proof (cases "h = q")
    case False
    with h have "h \<notin> P" by simp
    moreover have "(h, q) \<notin> parent_rel p" using later \<open>h \<notin> P\<close> by blast
    ultimately show ?thesis using hs [of h] others [of h] others False
      by (auto simp: height_ok_def parent_rel_def split: list.splits option.splits)
  qed (use hq in simp)
  from best obtain b where b: "bestTip p = Some b" and fb: "full (pw_bestHash p) p" "pw_bestHash p \<notin> P"
    and mx: "\<And>h s. findBlock h p = Some s \<Longrightarrow> full h p \<Longrightarrow> h \<notin> P \<Longrightarrow> h \<noteq> pw_bestHash p \<Longrightarrow> lt s b"
    by (auto simp: best_ok_def)
  have ne: "q \<noteq> pw_bestHash p" using q fb(2) by blast
  have b1: "bestTip p1 = Some b" using b ne others [of "pw_bestHash p"] bh by (simp add: bestTip_def)
  have run: "maybePromoteBest prefers q p1 =
      Some (if full q p \<and> lt b r1 then p1\<lparr>pw_bestHash := q\<rparr> else p1)"
    using r1(1) b1 ne bh same_graph_full [OF same, of q] by (simp add: maybePromoteBest_def hasFullAncestry_correct prefer_lt)
  have hash: "br_hash r1 \<noteq> br_hash b" using ne b r r1(3) g by (auto simp: bestTip_def graph_ok_def)
  have mx1: "h = q \<or> lt s b" if "findBlock h p1 = Some s" "full h p" "h \<notin> P - {q}" "h \<noteq> pw_bestHash p" for h s
    using that mx [of h s] others [of h] by (cases "h = q") auto
  show ?thesis
  proof (cases "full q p \<and> lt b r1")
    case True
    let ?p = "p1\<lparr>pw_bestHash := q\<rparr>"
    have "best_ok lt (P - {q}) ?p"
      unfolding best_ok_def
    proof (intro conjI exI [of _ r1] allI impI)
      show "full (pw_bestHash ?p) ?p" using True same_graph_full [OF same] same_graph_full [OF same_graph_best] by simp
      show "bestTip ?p = Some r1" using r1(1) by (simp add: bestTip_def)
      fix h s
      assume a: "findBlock h ?p = Some s" "full h ?p" "h \<notin> P - {q}" "h \<noteq> pw_bestHash ?p"
      then have f: "full h p" using same_graph_full [OF same] same_graph_full [OF same_graph_best] by simp
      show "lt s r1"
      proof (cases "h = pw_bestHash p")
        case True
        then have "s = b" using a(1) b1 bh by (simp add: bestTip_def)
        then show ?thesis using \<open>full q p \<and> lt b r1\<close> by simp
      next
        case False
        then show ?thesis using mx1 [of h s] a f \<open>full q p \<and> lt b r1\<close> lt_trans by auto
      qed
    qed simp
    moreover have "graph_ok rank ?p" using g1 by (simp add: graph_ok_def parent_rel_def children_of_def)
    moreover have "height_ok h ?p" if "h \<notin> P - {q}" for h using h1 [OF that] by (simp add: height_ok_def split: list.splits)
    ultimately show ?thesis using that [of ?p] run True same
      by (simp add: ledger_ok_def same_graph_def)
  next
    case False
    have "best_ok lt (P - {q}) p1"
      unfolding best_ok_def
    proof (intro conjI exI [of _ b] allI impI)
      show "pw_bestHash p1 \<notin> P - {q}" "full (pw_bestHash p1) p1" "bestTip p1 = Some b"
        using fb bh b1 same_graph_full [OF same] by simp_all
      fix h s
      assume a: "findBlock h p1 = Some s" "full h p1" "h \<notin> P - {q}" "h \<noteq> pw_bestHash p1"
      then have f: "full h p" using same_graph_full [OF same] by simp
      show "lt s b"
      proof (cases "h = q")
        case True
        then have "s = r1" "\<not> lt b r1" using a(1) r1(1) False f by auto
        then show ?thesis using lt_total [OF hash] by blast
      next
        case False
        then show ?thesis using mx1 [of h s] a f bh by auto
      qed
    qed
    then show ?thesis using that [of p1] run False same g1 h1 by (simp add: ledger_ok_def)
  qed
qed

lemma propagate_loop_ok:
  assumes "ledger_ok lt rank ({x. (x, h) \<in> (parent_rel p)\<^sup>*} - set V) p" and "queue_ok h Q V p"
    and "length Q + rest_sum (\<lambda>(_, cs). length cs) (set V) (pw_children p) < k"
  shows "\<exists>p'. propagate_loop k prefers Q V p = Some p' \<and> ledger_ok lt rank {} p' \<and> same_graph p p'"
  using assms
proof (induction k arbitrary: Q V p)
  case (Suc k)
  have g: "graph_ok rank p" using Suc.prems(1) by (simp add: ledger_ok_def)
  show ?case
  proof (cases Q)
    case Nil
    have "x \<in> set V" if "(x, h) \<in> (parent_rel p)\<^sup>*" for x
    proof (rule rtrancl_closed)
      show "(h, x) \<in> ((parent_rel p)\<inverse>)\<^sup>*" using that by (simp add: rtrancl_converse)
      show "h \<in> set V" using Suc.prems(2) Nil by (simp add: queue_ok_def)
      show "b \<in> set V" if "a \<in> set V" "(a, b) \<in> (parent_rel p)\<inverse>" for a b
        using that Suc.prems(2) g Nil by (fastforce simp: queue_ok_def graph_ok_def)
    qed
    then have none: "{x. (x, h) \<in> (parent_rel p)\<^sup>*} - set V = {}" by auto
    show ?thesis using Suc.prems(1) [unfolded none] Nil by (simp add: same_graph_def)
  next
    case (Cons q Q')
    show ?thesis
    proof (cases "q \<in> set V")
      case True
      have "queue_ok h Q' V p" using Suc.prems(2) Cons True by (auto simp: queue_ok_def)
      then show ?thesis using Suc.IH [where Q = Q' and V = V and p = p] Suc.prems(1,3) Cons True by simp
    next
      case False
      let ?P = "{x. (x, h) \<in> (parent_rel p)\<^sup>*} - set V"
      from Suc.prems(2) Cons obtain r where r: "findBlock q p = Some r" and qh: "(q, h) \<in> (parent_rel p)\<^sup>*"
        by (auto simp: queue_ok_def)
      have later: "c \<in> ?P" if c: "(c, q) \<in> parent_rel p" for c
      proof -
        have "rank y \<le> rank x" if "(x, y) \<in> (parent_rel p)\<^sup>*" for x y
          using that by induction (use g in \<open>fastforce simp: graph_ok_def\<close>)+
        then have "c \<noteq> h" using c qh g by (force simp: graph_ok_def)
        then have "c \<notin> set V" using Suc.prems(2) c False by (auto simp: queue_ok_def)
        then show ?thesis using c qh by (auto intro: converse_rtrancl_into_rtrancl)
      qed
      from visit_block [OF Suc.prems(1) _ r later] qh False obtain p' where
        p': "maybePromoteBest prefers q (recomputeHeight q p) = Some p'" "ledger_ok lt rank (?P - {q}) p'" "same_graph p p'" by auto
      have P: "?P - {q} = {x. (x, h) \<in> (parent_rel p')\<^sup>*} - set (q # V)" using same_graph_parents [OF p'(3)] by auto
      have m: "length (Q' @ children_of q p') + rest_sum (\<lambda>(_, cs). length cs) (set (q # V)) (pw_children p') < k"
        using child_rest [of q "set V" p] False Suc.prems(3) Cons same_graph_children [OF p'(3)] p'(3) by (simp add: same_graph_def)
      from Suc.IH [OF p'(2) [unfolded P] _ m] queue_step [OF _ g p'(3)] Suc.prems(2) Cons obtain p'' where
        "propagate_loop k prefers (Q' @ children_of q p') (q # V) p' = Some p''" "ledger_ok lt rank {} p''" "same_graph p' p''" by blast
      then show ?thesis using p' False Cons by (auto simp: same_graph_def)
    qed
  qed
qed simp

lemma propagateUpdates_ok:
  assumes "ledger_ok lt rank {x. (x, h) \<in> (parent_rel p)\<^sup>*} p" and "findBlock h p \<noteq> None"
  shows "\<exists>p'. propagateUpdates prefers h p = Some p' \<and> ledger_ok lt rank {} p' \<and> same_graph p p'"
proof -
  have q: "queue_ok h [h] [] p" using assms(2) by (simp add: queue_ok_def)
  have "length [h] + rest_sum (\<lambda>(_, cs). length cs) (set []) (pw_children p) < child_entries p + 2"
    by (simp add: rest_sum_empty child_entries_def)
  from propagate_loop_ok [OF _ q this, of rank] assms(1) obtain p' where
    p': "propagate_loop (child_entries p + 2) prefers [h] [] p = Some p'" "ledger_ok lt rank {} p'" "same_graph p p'" by auto
  then have "ensureBestValid prefers p' = Some p'"
    by (auto simp: ensureBestValid_def ledger_ok_def best_ok_def bestTip_def hasFullAncestry_correct)
  then show ?thesis using p' by (auto simp: propagateUpdates_def)
qed

lemma flag_ok:
  assumes ok: "ledger_ok lt rank {} p" and r: "findBlock h p = Some r"
  shows "ledger_ok lt rank {} (p\<lparr>pw_blocks := AList.update h (r\<lparr>br_parasite := f\<rparr>) (pw_blocks p)\<rparr>)"
proof -
  let ?p = "p\<lparr>pw_blocks := AList.update h (r\<lparr>br_parasite := f\<rparr>) (pw_blocks p)\<rparr>"
  have same: "same_graph p ?p" using r by (simp add: same_graph_def)
  have g: "graph_ok rank p" and hs: "\<And>x. height_ok x p" and best: "best_ok lt {} p" using ok by (auto simp: ledger_ok_def)
  have "graph_ok rank ?p"
    using g r same_graph_parents [OF same] same_graph_children [OF same] by (auto simp: graph_ok_def)
  moreover have "height_ok x ?p" for x
    using hs [of x] r by (fastforce simp: height_ok_def split: list.splits option.splits)
  moreover have "best_ok lt {} ?p"
    using best r unfolding best_ok_def same_graph_full [OF same] bestTip_def
    by (cases "h = pw_bestHash p") (auto simp: lt_flag)
  ultimately show ?thesis by (simp add: ledger_ok_def)
qed

lemma register_ok:
  assumes ok: "ledger_ok lt rank {} p" and rk: "rank q < rank h"
  shows "\<exists>r p'. registerBlock prefers h [q] miner flag p = Some (r, p') \<and> ledger_ok lt rank {} p' \<and>
    (\<forall>x. findBlock x p' = None \<longleftrightarrow> x \<noteq> h \<and> findBlock x p = None)"
proof (cases "findBlock h p")
  case (Some r)
  then show ?thesis using flag_ok [OF ok Some] by (auto simp: registerBlock_def Let_def)
next
  case None
  from propagateUpdates_ok [OF add_block_ok [OF ok None rk]] obtain p' where
    p': "propagateUpdates prefers h (add_block h q miner flag p) = Some p'" "ledger_ok lt rank {} p'"
      "same_graph (add_block h q miner flag p) p'" by (auto simp: add_block_find)
  obtain r where "findBlock h p' = Some r" using same_graph_dom [OF p'(3), of h] by (auto simp: add_block_find)
  moreover have "findBlock x p' = None \<longleftrightarrow> x \<noteq> h \<and> findBlock x p = None" for x
    using same_graph_dom [OF p'(3), of x] by (simp add: add_block_find)
  ultimately show ?thesis using p' None by (simp add: registerBlock_new)
qed

end

subsection \<open>The chain of a block\<close>

lemma parent_full: "full x p \<Longrightarrow> (x, q) \<in> parent_rel p \<Longrightarrow> full q p"
  by (auto simp: full_def intro: converse_rtrancl_into_rtrancl)

lemma chain_of_full:
  assumes g: "graph_ok rank p" and hs: "\<And>h. height_ok h p"
  shows "full x p \<Longrightarrow> findBlock x p = Some r \<Longrightarrow>
    \<exists>ys. int (length (x # ys)) = br_height r + 1 \<and> last (x # ys) = GENESIS \<and> distinct (x # ys) \<and>
      (\<forall>y \<in> set ys. rank y < rank x \<and> findBlock y p \<noteq> None) \<and>
      (\<forall>k path. length (x # ys) \<le> k \<longrightarrow> chain_loop k p x path = Some (rev (x # ys) @ path))"
proof (induction "rank x" arbitrary: x r rule: less_induct)
  case less
  show ?case
  proof (cases "br_parents r")
    case Nil
    then have "x = GENESIS" "br_height r = 0" using less.prems(2) g hs [of x] by (auto simp: graph_ok_def height_ok_def)
    moreover have "chain_loop k p x path = Some (x # path)" if "1 \<le> k" for k path
      using that less.prems(2) Nil by (cases k) simp_all
    ultimately show ?thesis by (intro exI [of _ "[]"]) simp
  next
    case (Cons q qs)
    have e: "(x, q) \<in> parent_rel p" using less.prems(2) Cons by (auto simp: parent_rel_def)
    then have rk: "rank q < rank x" using g by (auto simp: graph_ok_def)
    have "full q p" using less.prems(1) e by (rule parent_full)
    moreover from this obtain s where s: "findBlock q p = Some s" by (auto simp: full_def)
    ultimately obtain ys where ys: "int (length (q # ys)) = br_height s + 1" "last (q # ys) = GENESIS" "distinct (q # ys)"
      "\<forall>y \<in> set ys. rank y < rank q \<and> findBlock y p \<noteq> None"
      "\<forall>k path. length (q # ys) \<le> k \<longrightarrow> chain_loop k p q path = Some (rev (q # ys) @ path)"
      using less.hyps [OF rk] by blast
    have "br_height r = br_height s + 1" using hs [of x] less.prems(2) Cons s by (simp add: height_ok_def)
    moreover have "chain_loop k p x path = Some (rev (x # q # ys) @ path)" if "length (x # q # ys) \<le> k" for k path
      using that less.prems(2) Cons ys(5) by (cases k) auto
    moreover have "\<forall>y \<in> set (q # ys). rank y < rank x \<and> findBlock y p \<noteq> None" using ys(4) rk s by auto
    moreover from this have "distinct (x # q # ys)" using ys(3) by auto
    ultimately show ?thesis using ys(1,2) by (intro exI [of _ "q # ys"]) simp
  qed
qed

lemma chain_height:
  assumes g: "graph_ok rank p" and hs: "\<And>h. height_ok h p" and x: "full x p" "findBlock x p = Some r"
  shows "\<exists>path. chainToGenesis x p = Some path \<and> hd path = GENESIS \<and> last path = x \<and> int (length path) = br_height r + 1"
proof -
  from chain_of_full [OF g hs x] obtain ys where ys: "int (length (x # ys)) = br_height r + 1" "last (x # ys) = GENESIS"
    "distinct (x # ys)" "\<forall>y \<in> set ys. rank y < rank x \<and> findBlock y p \<noteq> None"
    "\<forall>k path. length (x # ys) \<le> k \<longrightarrow> chain_loop k p x path = Some (rev (x # ys) @ path)" by blast
  have "set (x # ys) \<subseteq> set (map fst (pw_blocks p))" using ys(4) x(2) by (auto simp: findBlock_def map_of_eq_None_iff dest!: map_of_SomeD intro: rev_image_eqI)
  then have "length (x # ys) \<le> length (pw_blocks p)"
    using ys(3) card_mono [of "set (map fst (pw_blocks p))" "set (x # ys)"] card_length [of "map fst (pw_blocks p)"]
    by (simp add: distinct_card)
  then have "chain_loop (length (pw_blocks p) + 1) p x [] = Some (rev (x # ys))"
    using ys(5) [rule_format, of "length (pw_blocks p) + 1" "[]"] by (simp del: chain_loop.simps)
  moreover have "hd (rev (x # ys)) = GENESIS" unfolding hd_rev by (rule ys(2))
  ultimately show ?thesis using ys(1) by (auto simp: chainToGenesis_def)
qed

subsection \<open>Bitcoin's rule\<close>

definition bitcoin_lt :: "blockRecord \<Rightarrow> blockRecord \<Rightarrow> bool" where
  "bitcoin_lt a b \<longleftrightarrow> br_height a < br_height b \<or> br_height a = br_height b \<and> br_hash b < br_hash a"

interpretation bitcoin: chain_order bitcoin_prefer bitcoin_lt
  by unfold_locales (auto simp: bitcoin_prefer_def bitcoin_lt_def)

text \<open>The blocks of a list, each with its hash, its parent, its miner and its flag, registered in turn.\<close>

definition register_all :: "chain_rule \<Rightarrow> (string \<times> string \<times> interfaceId \<times> bool) list \<Rightarrow> pow \<Rightarrow> pow option" where
  "register_all rule bs p = foldM (\<lambda>(h, q, miner, flag) p. map_option snd (registerBlock rule h [q] miner flag p)) bs p"

lemma new_pow_ok: "ledger_ok bitcoin_lt rank {} (new_pow cm)"
proof -
  have find: "findBlock h (new_pow cm) = (if h = GENESIS then Some genesis_block else None)" for h
    by (simp add: findBlock_def new_pow_def)
  have rel: "parent_rel (new_pow cm) = {}" by (auto simp: parent_rel_def find genesis_block_def split: if_splits)
  have "children_of x (new_pow cm) = []" for x by (simp add: children_of_def new_pow_def)
  then show ?thesis using find rel
    by (auto simp: ledger_ok_def graph_ok_def best_ok_def height_ok_def bestTip_def full_def genesis_block_def split: if_splits)
       (simp_all add: new_pow_def)
qed

lemma bitcoin_register_all:
  assumes "\<And>h q miner flag. (h, q, miner, flag) \<in> set bs \<Longrightarrow> rank q < rank h" and "ledger_ok bitcoin_lt rank {} p"
  shows "\<exists>p'. register_all bitcoin_prefer bs p = Some p' \<and> ledger_ok bitcoin_lt rank {} p' \<and>
    (\<forall>x. findBlock x p' = None \<longleftrightarrow> x \<notin> fst ` set bs \<and> findBlock x p = None)"
  using assms
proof (induction bs arbitrary: p)
  case (Cons b bs)
  obtain h q miner flag where b: "b = (h, q, miner, flag)" by (cases b)
  from bitcoin.register_ok [OF Cons.prems(2), of q h miner flag] Cons.prems(1) [of h q miner flag] obtain r p1 where
    p1: "registerBlock bitcoin_prefer h [q] miner flag p = Some (r, p1)" "ledger_ok bitcoin_lt rank {} p1"
      "\<forall>x. findBlock x p1 = None \<longleftrightarrow> x \<noteq> h \<and> findBlock x p = None" by (auto simp: b)
  from Cons.IH [OF _ p1(2)] Cons.prems(1) obtain p' where
    "register_all bitcoin_prefer bs p1 = Some p'" "ledger_ok bitcoin_lt rank {} p'"
    "\<forall>x. findBlock x p' = None \<longleftrightarrow> x \<notin> fst ` set bs \<and> findBlock x p1 = None" by (metis list.set_intros(2))
  then show ?case using p1 by (auto simp: register_all_def b)
qed (simp add: register_all_def)

text \<open>
  Claim C23. Bitcoin's longest chain: blocks that each name one parent and form no cycle may be
  registered in any order, also before their parents. Every registration returns, and afterwards the
  best tip is a block whose ancestry is known, and among all blocks whose ancestry is known it has the
  greatest height, or among those the smallest hash; the height of each of them is the number of blocks
  on its chain above genesis.
\<close>

theorem bitcoin_longest_chain:
  fixes rank :: "string \<Rightarrow> nat"
  assumes "list_all (\<lambda>(h, q, _). rank q < rank h) bs"
  shows "\<exists>p b. register_all bitcoin_prefer bs (new_pow cm) = Some p \<and> bestTip p = Some b \<and>
    hasFullAncestry (br_hash b) p = Some True \<and> (\<forall>(h, _) \<in> set bs. findBlock h p \<noteq> None) \<and>
    (\<forall>h r. findBlock h p = Some r \<and> hasFullAncestry h p = Some True \<longrightarrow>
       (h = br_hash b \<or> bitcoin_lt r b) \<and>
       (\<exists>path. chainToGenesis h p = Some path \<and> hd path = GENESIS \<and> last path = h \<and> int (length path) = br_height r + 1))"
proof -
  obtain p where p: "register_all bitcoin_prefer bs (new_pow cm) = Some p" and ok: "ledger_ok bitcoin_lt rank {} p"
    and known: "\<forall>(h, _) \<in> set bs. findBlock h p \<noteq> None"
  proof -
    have rk: "rank q < rank h" if "(h, q, miner, flag) \<in> set bs" for h q miner flag
      using assms that by (auto simp: list_all_iff)
    have "\<exists>p. register_all bitcoin_prefer bs (new_pow cm) = Some p \<and> ledger_ok bitcoin_lt rank {} p \<and>
        (\<forall>x. findBlock x p = None \<longleftrightarrow> x \<notin> fst ` set bs \<and> findBlock x (new_pow cm) = None)"
      by (rule bitcoin_register_all) (erule rk, rule new_pow_ok)
    with that show thesis by force
  qed
  from ok obtain b where b: "bestTip p = Some b"
    and mx: "\<And>h r. findBlock h p = Some r \<Longrightarrow> full h p \<Longrightarrow> h \<noteq> pw_bestHash p \<Longrightarrow> bitcoin_lt r b"
    by (auto simp: ledger_ok_def best_ok_def)
  have "br_hash b = pw_bestHash p" using ok b by (auto simp: ledger_ok_def graph_ok_def bestTip_def)
  moreover have "\<exists>path. chainToGenesis h p = Some path \<and> hd path = GENESIS \<and> last path = h \<and> int (length path) = br_height r + 1"
    if "findBlock h p = Some r" "full h p" for h r
    using chain_height [of rank p h r] ok that by (simp add: ledger_ok_def)
  moreover have "full (pw_bestHash p) p" using ok by (simp add: ledger_ok_def best_ok_def)
  ultimately show ?thesis using p b mx known
    by (intro exI [of _ p] exI [of _ b]) (simp add: hasFullAncestry_correct, blast)
qed

definition example_blocks :: "(string \<times> string \<times> interfaceId \<times> bool) list" where
  "example_blocks = [(''A2'', ''A1'', 1, False), (''A'', GENESIS, 1, False), (''B'', GENESIS, 2, False), (''A1'', ''A'', 3, False)]"

definition example_rank :: "string \<Rightarrow> nat" where
  "example_rank h = (if h = GENESIS then 0 else length h + (if h = ''A2'' then 1 else 0))"

lemma example_blocks_registered:
  "case register_all bitcoin_prefer example_blocks (new_pow (new_committee 0)) of None \<Rightarrow> False
   | Some p \<Rightarrow> hasFullAncestry ''A2'' p = Some True \<and> findBlock ''A2'' p \<noteq> None"
  by code_simp

theorem bitcoin_longest_chain_witness:
  "\<exists>p b r. register_all bitcoin_prefer example_blocks (new_pow (new_committee 0)) = Some p \<and> bestTip p = Some b \<and>
     findBlock ''A2'' p = Some r \<and> (''A2'' = br_hash b \<or> bitcoin_lt r b) \<and>
     (\<exists>path. chainToGenesis ''A2'' p = Some path \<and> hd path = GENESIS \<and> last path = ''A2'' \<and> int (length path) = br_height r + 1)"
proof -
  have "list_all (\<lambda>(h, q, _). example_rank q < example_rank h) example_blocks"
    by (simp add: example_blocks_def example_rank_def GENESIS_def)
  from bitcoin_longest_chain [OF this, of "new_committee 0"] example_blocks_registered
  show ?thesis by (auto split: option.splits)
qed

subsection \<open>Ethereum's rule\<close>


















end
