(* ===== verification/PowPeers.thy ===== *)
theory PowPeers
  imports PoWLedger
begin

text \<open>
  The mining peers (src/quantas/Common/PowPeer.hpp, BitcoinPeer/BitcoinPeer.cpp,
  EthereumPeer/EthereumPeer.cpp). The two peers share their protocol step: it is modelled once, over
  the chain rule of the ledger and the two points in which the sources differ, and each peer is its
  instance; the counter \<open>minedBlocks\<close>, which nothing reads, is Bitcoin's only. \<open>now\<close> is the current round.
\<close>

subsection \<open>State and messages\<close>

record pendingTx =
  tx_id :: int
  tx_roundSubmitted :: int
  tx_submitter :: interfaceId

record powPeer =
  bp_pow :: "pow option"
  bp_submitRate :: int
  bp_mineRate :: int
  bp_mineDenominator :: int
  bp_queue :: "pendingTx list"
  bp_knownTransactions :: "(interfaceId \<times> int) set"
  bp_localSubmitted :: int
  bp_minedBlocks :: int

definition new_powPeer :: powPeer where
  "new_powPeer = \<lparr>bp_pow = None, bp_submitRate = 20, bp_mineRate = 1, bp_mineDenominator = 100, bp_queue = [],
     bp_knownTransactions = {}, bp_localSubmitted = 0, bp_minedBlocks = 0\<rparr>"

definition setPoW :: "pow \<Rightarrow> powPeer \<Rightarrow> powPeer" where
  "setPoW l p = p\<lparr>bp_pow := Some l\<rparr>"

definition int_string :: "int \<Rightarrow> string" where
  "int_string i = (if i < 0 then ''-'' @ to_string (nat (- i)) else to_string (nat i))"

definition tx_json :: "pendingTx \<Rightarrow> json" where
  "tx_json t = jobject [(''id'', JInt (tx_id t)), (''roundSubmitted'', JInt (tx_roundSubmitted t)), (''submitter'', JInt (tx_submitter t))]"

definition buildTransactionMessage :: "interfaceId \<Rightarrow> pendingTx \<Rightarrow> json" where
  "buildTransactionMessage me pending = jobject
     [(''type'', JStr ''PoW''), (''powId'', JInt 0), (''messageType'', JStr ''transaction''), (''transaction'', tx_json pending),
      (''from_id'', JInt me)]"

definition buildBlockMessage :: "interfaceId \<Rightarrow> blockRecord \<Rightarrow> string list \<Rightarrow> int \<Rightarrow> pendingTx \<Rightarrow> json" where
  "buildBlockMessage me r parents minedRound pending = jobject
     [(''type'', JStr ''PoW''), (''powId'', JInt 0), (''messageType'', JStr ''block''),
      (''block'', jobject
        [(''hash'', JStr (br_hash r)), (''parents'', JArr (map JStr parents)), (''miner'', JInt me), (''length'', JInt (br_height r)),
         (''parasite'', JBool (br_parasite r)), (''transaction'', tx_json pending), (''roundMined'', JInt minedRound)]),
      (''from_id'', JInt me)]"

subsection \<open>Receiving\<close>

definition receive_transaction :: "json \<Rightarrow> powPeer \<Rightarrow> powPeer option" where
  "receive_transaction msg p = do {
     txJson \<leftarrow> jindex msg ''transaction'';
     txId \<leftarrow> value_int txJson ''id'' (-1);
     from \<leftarrow> value_id msg ''from_id'' NO_PEER_ID;
     submitter \<leftarrow> value_id txJson ''submitter'' from;
     if txId < 0 \<or> submitter = NO_PEER_ID \<or> (submitter, txId) \<in> bp_knownTransactions p then Some p
     else do {
       r \<leftarrow> value_int txJson ''roundSubmitted'' (-1);
       Some (p\<lparr>bp_knownTransactions := insert (submitter, txId) (bp_knownTransactions p),
               bp_queue := bp_queue p @ [\<lparr>tx_id = txId, tx_roundSubmitted = r, tx_submitter = submitter\<rparr>]\<rparr>) } }"

text \<open>The first queued transaction of a key is erased.\<close>

fun erase_tx :: "interfaceId \<Rightarrow> int \<Rightarrow> pendingTx list \<Rightarrow> pendingTx list" where
  "erase_tx submitter txId [] = []"
| "erase_tx submitter txId (t # q) = (if tx_id t = txId \<and> tx_submitter t = submitter then q else t # erase_tx submitter txId q)"

definition drop_mined :: "json \<Rightarrow> powPeer \<Rightarrow> powPeer option" where
  "drop_mined blkJson p =
     (if \<not> contains blkJson ''transaction'' then Some p
      else do {
        txJson \<leftarrow> jat blkJson ''transaction'';
        txId \<leftarrow> value_int txJson ''id'' (-1);
        miner \<leftarrow> value_id blkJson ''miner'' NO_PEER_ID;
        submitter \<leftarrow> value_id txJson ''submitter'' miner;
        if txId \<ge> 0 \<and> submitter \<noteq> NO_PEER_ID
        then Some (p\<lparr>bp_knownTransactions := insert (submitter, txId) (bp_knownTransactions p),
                     bp_queue := erase_tx submitter txId (bp_queue p)\<rparr>)
        else Some p })"

text \<open>
  \<open>orphan\<close> is the parent that names a block without hash and without parents: the first element of an
  empty vector, undefined, in Bitcoin's code, and genesis in Ethereum's.
\<close>

definition block_parents :: "json \<Rightarrow> string list option" where
  "block_parents blkJson =
     (if contains blkJson ''parents'' then do {
        ps \<leftarrow> jat blkJson ''parents'';
        foldM (\<lambda>j acc. do { s \<leftarrow> get_string j; Some (acc @ [s]) }) (jelems ps) [] }
      else Some [])"

definition receive_block :: "chain_rule \<Rightarrow> string option \<Rightarrow> int \<Rightarrow> json \<Rightarrow> pow \<Rightarrow> powPeer \<Rightarrow> powPeer option" where
  "receive_block rule orphan now msg ledger p = do {
     blkJson \<leftarrow> jindex msg ''block'';
     hash \<leftarrow> value_string blkJson ''hash'' [];
     parents \<leftarrow> block_parents blkJson;
     miner \<leftarrow> value_id blkJson ''miner'' NO_PEER_ID;
     minedRound \<leftarrow> value_int blkJson ''roundMined'' now;
     hash \<leftarrow> (if hash = [] then (case parents of
          q # _ \<Rightarrow> Some (int_string miner @ '':'' @ q)
        | [] \<Rightarrow> map_option (\<lambda>q. int_string miner @ '':'' @ q) orphan) else Some hash);
     parasite \<leftarrow> value_bool blkJson ''parasite'' False;
     (r, ledger) \<leftarrow> registerBlock rule hash parents miner parasite ledger;
     drop_mined blkJson (p\<lparr>bp_pow := Some ledger\<rparr>) }"

definition receive_pow :: "chain_rule \<Rightarrow> string option \<Rightarrow> int \<Rightarrow> json \<Rightarrow> powPeer \<Rightarrow> powPeer option" where
  "receive_pow rule orphan now msg p = (case bp_pow p of None \<Rightarrow> Some p | Some ledger \<Rightarrow>
     if jfind ''type'' msg \<noteq> Some (JStr ''PoW'') then Some p
     else do {
       messageType \<leftarrow> value_string msg ''messageType'' [];
       if messageType = ''transaction'' then receive_transaction msg p
       else if messageType = ''block'' then receive_block rule orphan now msg ledger p
       else Some p })"

definition pow_checkInStrm :: "chain_rule \<Rightarrow> string option \<Rightarrow> int \<Rightarrow> json list \<Rightarrow> powPeer \<Rightarrow> powPeer option" where
  "pow_checkInStrm rule orphan now msgs p = foldM (receive_pow rule orphan now) msgs p"

subsection \<open>Submitting and mining\<close>

definition guardSubmit :: "powPeer \<Rightarrow> rng \<Rightarrow> (bool \<times> rng) option" where
  "guardSubmit p g = (if bp_submitRate p > 0 then do { (v, g) \<leftarrow> randMod (bp_submitRate p) g; Some (v = 0, g) } else Some (False, g))"

definition guardMine :: "powPeer \<Rightarrow> rng \<Rightarrow> (bool \<times> rng) option" where
  "guardMine p g =
     (if bp_mineRate p \<le> 0 \<or> bp_mineDenominator p \<le> 0 \<or> bp_queue p = [] then Some (False, g)
      else do { (v, g) \<leftarrow> randMod (bp_mineDenominator p) g; Some (v < bp_mineRate p, g) })"

definition makeTransaction :: "interfaceId \<Rightarrow> int \<Rightarrow> powPeer \<Rightarrow> pendingTx \<times> powPeer" where
  "makeTransaction me now p =
     (\<lparr>tx_id = bp_localSubmitted p + 1, tx_roundSubmitted = now, tx_submitter = me\<rparr>, p\<lparr>bp_localSubmitted := bp_localSubmitted p + 1\<rparr>)"

definition submit_transaction :: "interfaceId \<Rightarrow> int \<Rightarrow> powPeer \<Rightarrow> powPeer \<times> send list" where
  "submit_transaction me now p = (let (pending, p) = makeTransaction me now p in
     (p\<lparr>bp_queue := bp_queue p @ [pending], bp_knownTransactions := insert (tx_submitter pending, tx_id pending) (bp_knownTransactions p)\<rparr>,
      [Broadcast (buildTransactionMessage me pending)]))"

definition getParents :: "pow \<Rightarrow> string list" where
  "getParents ledger = (let ps = parentsForNextBlock ledger in if ps = [] then [GENESIS] else ps)"

definition mine_block :: "chain_rule \<Rightarrow> interfaceId \<Rightarrow> int \<Rightarrow> string list \<Rightarrow> pow \<Rightarrow> powPeer \<Rightarrow> (powPeer \<times> send list) option" where
  "mine_block rule me now overrideParents ledger p = (case bp_queue p of [] \<Rightarrow> None | pending # queue \<Rightarrow> do {
     let p = p\<lparr>bp_minedBlocks := bp_minedBlocks p + 1, bp_queue := queue\<rparr>;
     let parents = (if overrideParents = [] then getParents ledger else overrideParents);
     let hash = int_string me @ '':'' @ int_string (tx_id pending) @ '':'' @ int_string now;
     (r, ledger) \<leftarrow> registerBlock rule hash parents me (overrideParents \<noteq> []) ledger;
     Some (p\<lparr>bp_pow := Some ledger\<rparr>, [Broadcast (buildBlockMessage me r (br_parents r) now pending)]) })"

text \<open>\<open>runProtocolStep\<close>; a peer without a ledger does nothing.\<close>

definition pow_runProtocolStep :: "chain_rule \<Rightarrow> string option \<Rightarrow> string list \<Rightarrow> powPeer perform" where
  "pow_runProtocolStep rule orphan overrideParents now n g = (case bp_pow (nd_state n) of
       None \<Rightarrow> Some (n, [], g)
     | Some _ \<Rightarrow> do {
         let me = publicId n;
         p \<leftarrow> pow_checkInStrm rule orphan now (map pk_body (if_inStream (nd_iface n))) (nd_state n);
         let n = n\<lparr>nd_iface := (nd_iface n)\<lparr>if_inStream := []\<rparr>\<rparr>;
         (submit, g) \<leftarrow> guardSubmit p g;
         let (p, out) = (if submit then submit_transaction me now p else (p, []));
         (mine, g) \<leftarrow> guardMine p g;
         if \<not> mine then Some (n\<lparr>nd_state := p\<rparr>, out, g)
         else do {
           ledger \<leftarrow> bp_pow p;
           (p, mined) \<leftarrow> mine_block rule me now overrideParents ledger p;
           Some (n\<lparr>nd_state := p\<rparr>, out @ mined, g) } })"

definition bitcoin_runProtocolStep :: "string list \<Rightarrow> powPeer perform" where
  "bitcoin_runProtocolStep = pow_runProtocolStep bitcoin_prefer None"

definition ethereum_runProtocolStep :: "string list \<Rightarrow> powPeer perform" where
  "ethereum_runProtocolStep = pow_runProtocolStep ethereum_prefer (Some GENESIS)"

text \<open>The peers with their faults.\<close>

definition bitcoin_perform :: "(json \<Rightarrow> string) \<Rightarrow> (powPeer byzantine) perform" where
  "bitcoin_perform hash = byz_perform hash (Some bitcoin_runProtocolStep) (bitcoin_runProtocolStep [])"

definition ethereum_perform :: "(json \<Rightarrow> string) \<Rightarrow> (powPeer byzantine) perform" where
  "ethereum_perform hash = byz_perform hash (Some ethereum_runProtocolStep) (ethereum_runProtocolStep [])"

subsection \<open>Configuration\<close>

text \<open>
  The peer on which \<open>initParameters\<close> is called is the first one; only its submit rate is set. A list
  of mining rates replaces the default rate where it has an integer.
\<close>

fun configured_rates :: "int \<Rightarrow> json list \<Rightarrow> nat \<Rightarrow> int list" where
  "configured_rates d js 0 = []"
| "configured_rates d [] (Suc n) = d # configured_rates d [] n"
| "configured_rates d (j # js) (Suc n) = (case j of JInt v \<Rightarrow> v | _ \<Rightarrow> d) # configured_rates d js n"

definition mine_settings :: "int \<Rightarrow> int \<Rightarrow> int \<Rightarrow> int \<times> int" where
  "mine_settings mineScaler totalRate rate =
     (let localRate = max 0 rate; others = max 0 (totalRate - localRate); denominator = max 1 (others * mineScaler)
      in (min localRate denominator, denominator))"

definition set_mining :: "int list \<Rightarrow> int \<Rightarrow> (powPeer byzantine) node list \<Rightarrow> (powPeer byzantine) node list" where
  "set_mining rates mineScaler ps =
     (let totalRate = sum_list (map (max 0) rates) in
      map (\<lambda>(p, rate). let (r, d) = mine_settings mineScaler totalRate rate in
        with_state ((nd_state p)\<lparr>bz_peer := (bz_peer (nd_state p))\<lparr>bp_mineRate := r, bp_mineDenominator := d\<rparr>\<rparr>) p) (zip ps rates))"

definition parasite_indices :: "json \<Rightarrow> nat \<Rightarrow> nat list option" where
  "parasite_indices cfg n = (case jfind ''peerIndices'' cfg of
       Some (JArr js) \<Rightarrow> Some (sort (remdups (concat (map (\<lambda>j. case j of JInt v \<Rightarrow> [nat (max 0 v)] | _ \<Rightarrow> []) js))))
     | _ \<Rightarrow> do { c \<leftarrow> value_int cfg ''count'' 0; Some [0..<nat (min (to_size_t c) (int n))] })"

definition add_parasites :: "json \<Rightarrow> (powPeer byzantine) node list \<Rightarrow> (powPeer byzantine) node list option" where
  "add_parasites cfg ps = do {
     leadThreshold \<leftarrow> value_int cfg ''leadThreshold'' 1;
     indices \<leftarrow> parasite_indices cfg (length ps);
     let indices = filter (\<lambda>i. i < length ps) indices;
     let ids = idset_of (map (\<lambda>i. publicId (ps ! i)) indices);
     Some (fold (\<lambda>i ps. let p = ps ! i; f = Parasite (new_parasiteFault leadThreshold (removeAll (publicId p) ids)) in
       ps[i := with_state ((nd_state p)\<lparr>bz_faults := addFault f (bz_faults (nd_state p))\<rparr>) p]) indices ps) }"

definition set_submitRate :: "int \<Rightarrow> (powPeer byzantine) node \<Rightarrow> (powPeer byzantine) node" where
  "set_submitRate r p = with_state ((nd_state p)\<lparr>bz_peer := (bz_peer (nd_state p))\<lparr>bp_submitRate := r\<rparr>\<rparr>) p"

definition install_ledgers :: "(powPeer byzantine) node list \<Rightarrow> (powPeer byzantine) node list" where
  "install_ledgers ps = (let cm = fold addMember (map publicId ps) (new_committee 0) in
     map (\<lambda>p. if bp_pow (bz_peer (nd_state p)) = None
       then with_state ((nd_state p)\<lparr>bz_peer := setPoW (new_pow cm) (bz_peer (nd_state p))\<rparr>) p else p) ps)"

definition pow_initParameters :: "json \<Rightarrow> (powPeer byzantine) node list \<Rightarrow> (powPeer byzantine) node list option" where
  "pow_initParameters parameters ps = (case ps of [] \<Rightarrow> Some [] | first # rest \<Rightarrow> do {
     submitRate \<leftarrow> value_int parameters ''submitRate'' (bp_submitRate (bz_peer (nd_state first)));
     defaultRate \<leftarrow> value_int parameters ''mineRate'' (bp_mineRate (bz_peer (nd_state first)));
     mineScaler \<leftarrow> value_int parameters ''mineScaler'' 1;
     let arr = (case jfind ''mineRates'' parameters of Some (JArr js) \<Rightarrow> js | _ \<Rightarrow> []);
     let rates = configured_rates defaultRate arr (length ps);
     let ps = install_ledgers (set_mining rates (max 1 mineScaler) (set_submitRate submitRate first # rest));
     case jfind ''parasiteFault'' parameters of
       Some (JObj kvs) \<Rightarrow> add_parasites (JObj kvs) ps
     | _ \<Rightarrow> Some ps })"

text \<open>Bitcoin's peer ignores parameters that are not an object; Ethereum's reads them, which throws.\<close>

definition bitcoin_initParameters :: "json \<Rightarrow> (powPeer byzantine) node list \<Rightarrow> (powPeer byzantine) node list option" where
  "bitcoin_initParameters parameters ps = (if \<not> is_object parameters then Some ps else pow_initParameters parameters ps)"

definition ethereum_initParameters :: "json \<Rightarrow> (powPeer byzantine) node list \<Rightarrow> (powPeer byzantine) node list option" where
  "ethereum_initParameters parameters ps = pow_initParameters parameters ps"

subsection \<open>A transaction is mined once\<close>

definition tx_key :: "pendingTx \<Rightarrow> interfaceId \<times> int" where
  "tx_key t = (tx_submitter t, tx_id t)"

text \<open>The transactions of the blocks that a peer has broadcast.\<close>

fun mined_key :: "send \<Rightarrow> (interfaceId \<times> int) list" where
  "mined_key (Broadcast m) = (case jfind ''block'' m of None \<Rightarrow> [] | Some b \<Rightarrow> (case jfind ''transaction'' b of None \<Rightarrow> []
     | Some t \<Rightarrow> (case (value_id t ''submitter'' NO_PEER_ID, value_int t ''id'' (-1)) of (Some s, Some i) \<Rightarrow> [(s, i)] | _ \<Rightarrow> [])))"
| "mined_key _ = []"

definition mined_keys :: "send list \<Rightarrow> (interfaceId \<times> int) list" where
  "mined_keys out = concat (map mined_key out)"

lemma mined_keys_simps [simp]: "mined_keys [] = []" "mined_keys (xs @ ys) = mined_keys xs @ mined_keys ys"
  by (simp_all add: mined_keys_def)

lemma mined_key_transaction [simp]: "mined_keys [Broadcast (buildTransactionMessage me t)] = []"
  by (simp add: mined_keys_def buildTransactionMessage_def)

lemma mined_key_block [simp]: "mined_keys [Broadcast (buildBlockMessage me r ps now t)] = [tx_key t]"
  by (simp add: mined_keys_def buildBlockMessage_def tx_json_def tx_key_def)

definition queue_inv :: "interfaceId \<Rightarrow> powPeer \<Rightarrow> (interfaceId \<times> int) list \<Rightarrow> bool" where
  "queue_inv me p mined \<longleftrightarrow> distinct (mined @ map tx_key (bp_queue p)) \<and>
     (\<forall>k \<in> set (mined @ map tx_key (bp_queue p)). k \<in> bp_knownTransactions p) \<and>
     (\<forall>i. (me, i) \<in> bp_knownTransactions p \<longrightarrow> i \<le> bp_localSubmitted p)"

text \<open>A message whose transaction, when it is the peer's own, has one of its first \<open>n\<close> numbers.\<close>

definition own_upto :: "interfaceId \<Rightarrow> int \<Rightarrow> chain_rule \<Rightarrow> string option \<Rightarrow> int \<Rightarrow> json \<Rightarrow> bool" where
  "own_upto me n rule orphan now msg \<longleftrightarrow> (\<forall>p p' i. receive_pow rule orphan now msg p = Some p' \<longrightarrow>
     (me, i) \<in> bp_knownTransactions p' - bp_knownTransactions p \<longrightarrow> i \<le> n)"

lemma set_erase_tx: "set (erase_tx s i q) \<subseteq> set q"
  by (induction q) auto

lemma distinct_erase_tx: "distinct (map tx_key q) \<Longrightarrow> distinct (map tx_key (erase_tx s i q))"
  using set_erase_tx by (induction q) fastforce+

lemma receive_transaction_cases:
  assumes "receive_transaction msg p = Some p'"
  shows "p' = p \<or> (\<exists>t. tx_key t \<notin> bp_knownTransactions p \<and>
    p' = p\<lparr>bp_knownTransactions := insert (tx_key t) (bp_knownTransactions p), bp_queue := bp_queue p @ [t]\<rparr>)"
  using assms unfolding receive_transaction_def 
  by (elim bind_SomeE if_Some_condE)
     (auto simp: tx_key_def intro!: exI [where x = "\<lparr>tx_id = i, tx_roundSubmitted = r, tx_submitter = s\<rparr>" for i r s])

lemma drop_mined_cases:
  assumes "drop_mined blk p = Some p'"
  shows "p' = p \<or> (\<exists>s i. p' = p\<lparr>bp_knownTransactions := insert (s, i) (bp_knownTransactions p), bp_queue := erase_tx s i (bp_queue p)\<rparr>)"
  using assms unfolding drop_mined_def by (elim bind_SomeE if_Some_condE) auto

lemma receive_pow_cases:
  assumes "receive_pow rule orphan now msg p = Some p'"
  shows "p' = p \<or>
    (\<exists>t. tx_key t \<notin> bp_knownTransactions p \<and>
      p' = p\<lparr>bp_knownTransactions := insert (tx_key t) (bp_knownTransactions p), bp_queue := bp_queue p @ [t]\<rparr>) \<or>
    bp_pow p \<noteq> None \<and> (\<exists>l. p' = p\<lparr>bp_pow := Some l\<rparr> \<or>
      (\<exists>s i. p' = p\<lparr>bp_pow := Some l, bp_knownTransactions := insert (s, i) (bp_knownTransactions p),
        bp_queue := erase_tx s i (bp_queue p)\<rparr>))"
proof -
  from assms have "p' = p \<or> receive_transaction msg p = Some p' \<or> (bp_pow p \<noteq> None \<and> (\<exists>blk l. drop_mined blk (p\<lparr>bp_pow := Some l\<rparr>) = Some p'))"
    unfolding receive_pow_def receive_block_def by (auto split: option.splits if_splits elim!: bind_SomeE)
  then show ?thesis
  proof (elim disjE conjE exE)
    assume "receive_transaction msg p = Some p'"
    from receive_transaction_cases [OF this] show ?thesis by blast
  next
    fix blk l assume "bp_pow p \<noteq> None" "drop_mined blk (p\<lparr>bp_pow := Some l\<rparr>) = Some p'"
    with drop_mined_cases [OF this(2)] show ?thesis by auto
  qed simp
qed

lemma receive_queue:
  assumes "receive_pow rule orphan now msg p = Some p'" and "queue_inv me p mined" and "own_upto me n rule orphan now msg"
    and "n \<le> bp_localSubmitted p"
  shows "queue_inv me p' mined \<and> bp_localSubmitted p' = bp_localSubmitted p"
proof -
  have "(me, i) \<in> bp_knownTransactions p' - bp_knownTransactions p \<Longrightarrow> i \<le> bp_localSubmitted p" for i
    using assms(1,3,4) by (fastforce simp: own_upto_def)
  then have own: "(me, i) \<in> bp_knownTransactions p' \<Longrightarrow> i \<le> bp_localSubmitted p" for i
    using assms(2) by (cases "(me, i) \<in> bp_knownTransactions p") (simp_all add: queue_inv_def)
  have erased: "distinct (mined @ map tx_key (erase_tx s i (bp_queue p))) \<and>
      (\<forall>k \<in> set (mined @ map tx_key (erase_tx s i (bp_queue p))). k \<in> bp_knownTransactions p)" for s i
    using assms(2) distinct_erase_tx [of "bp_queue p" s i] set_erase_tx [of s i "bp_queue p"] by (auto simp: queue_inv_def)
  from receive_pow_cases [OF assms(1)] consider (add) t where "tx_key t \<notin> bp_knownTransactions p"
        "p' = p\<lparr>bp_knownTransactions := insert (tx_key t) (bp_knownTransactions p), bp_queue := bp_queue p @ [t]\<rparr>"
    | (drop) l s i where "p' = p\<lparr>bp_pow := Some l, bp_knownTransactions := insert (s, i) (bp_knownTransactions p),
        bp_queue := erase_tx s i (bp_queue p)\<rparr>"
    | (same) "bp_queue p' = bp_queue p" "bp_knownTransactions p' = bp_knownTransactions p" "bp_localSubmitted p' = bp_localSubmitted p"
    by auto
  then show ?thesis
  proof cases
    case add
    then show ?thesis using assms(2) own unfolding queue_inv_def by auto
  next
    case drop
    then show ?thesis using erased [of s i] own unfolding queue_inv_def drop by simp
  qed (use assms(2) in \<open>simp add: queue_inv_def\<close>)
qed

lemma receive_all_queue:
  assumes "pow_checkInStrm rule orphan now msgs p = Some p'" and "queue_inv me p mined"
    and "\<forall>m \<in> set msgs. own_upto me (bp_localSubmitted p) rule orphan now m"
  shows "queue_inv me p' mined \<and> bp_localSubmitted p' = bp_localSubmitted p"
  using assms unfolding pow_checkInStrm_def
  by (rule_tac foldM_invariant [where I = "\<lambda>q. queue_inv me q mined \<and> bp_localSubmitted q = bp_localSubmitted p"])
     (auto dest!: receive_queue)

lemma submit_queue: "queue_inv me p mined \<Longrightarrow> submit_transaction me now p = (p', out) \<Longrightarrow> queue_inv me p' mined \<and> mined_keys out = []"
  by (fastforce simp: submit_transaction_def makeTransaction_def queue_inv_def tx_key_def)

lemma mine_queue:
  assumes "queue_inv me p mined" and "mine_block rule me now ov l p = Some (p', out)"
  shows "queue_inv me p' (mined @ mined_keys out)"
proof -
  from assms(2) obtain t q where "bp_queue p = t # q" "bp_queue p' = q" "mined_keys out = [tx_key t]"
    and same: "bp_knownTransactions p' = bp_knownTransactions p" "bp_localSubmitted p' = bp_localSubmitted p"
    by (auto simp: mine_block_def Let_def split: list.splits elim!: bind_SomeE)
  then have same_list: "(mined @ mined_keys out) @ map tx_key (bp_queue p') = mined @ map tx_key (bp_queue p)" by simp
  show ?thesis using assms(1) unfolding queue_inv_def same_list same .
qed

lemma step_queue:
  assumes step: "pow_runProtocolStep rule orphan ov now n g = Some (n', out, g')" and inv: "queue_inv (publicId n) (nd_state n) mined"
    and own: "\<forall>m \<in> set (map pk_body (if_inStream (nd_iface n))). own_upto (publicId n) (bp_localSubmitted (nd_state n)) rule orphan now m"
  shows "queue_inv (publicId n) (nd_state n') (mined @ mined_keys out) \<and> publicId n' = publicId n"
proof (cases "bp_pow (nd_state n)")
  case None
  with step inv show ?thesis by (simp add: pow_runProtocolStep_def)
next
  case (Some l)
  with step obtain p b g1 p1 out1 b2 g2 where p: "pow_checkInStrm rule orphan now (map pk_body (if_inStream (nd_iface n))) (nd_state n) = Some p"
    and p1: "(if b then submit_transaction (publicId n) now p else (p, [])) = (p1, out1)"
    and fin: "(nd_state n' = p1 \<and> out = out1 \<or> (\<exists>l q mined. mine_block rule (publicId n) now ov l p1 = Some (q, mined) \<and> nd_state n' = q \<and> out = out1 @ mined))
        \<and> publicId n' = publicId n"
    by (fastforce simp: pow_runProtocolStep_def Let_def elim!: bind_SomeE split: prod.splits if_splits)
  from receive_all_queue [OF p inv own] have "queue_inv (publicId n) p mined" by blast
  with p1 submit_queue have "queue_inv (publicId n) p1 mined" "mined_keys out1 = []" by (auto split: if_splits)
  with fin mine_queue show ?thesis by auto
qed

text \<open>The rounds of a peer that starts without transactions, on arbitrary messages.\<close>

inductive pow_rounds :: "chain_rule \<Rightarrow> string option \<Rightarrow> powPeer node \<Rightarrow> send list \<Rightarrow> bool" for rule orphan where
  start: "bp_queue (nd_state n) = [] \<Longrightarrow> bp_knownTransactions (nd_state n) = {} \<Longrightarrow> pow_rounds rule orphan n []"
| round: "pow_rounds rule orphan n out \<Longrightarrow>
    m = n\<lparr>nd_iface := (nd_iface n)\<lparr>if_inStream := packets\<rparr>\<rparr> \<Longrightarrow>
    \<forall>x \<in> set (map pk_body packets). own_upto (publicId n) (bp_localSubmitted (nd_state n)) rule orphan now x \<Longrightarrow>
    pow_runProtocolStep rule orphan ov now m g = Some (n', sends, g') \<Longrightarrow> pow_rounds rule orphan n' (out @ sends)"

text \<open>
  Claim C25. A miner puts each transaction into at most one of its blocks, whatever transactions and
  blocks it receives, repeated ones included, as long as nobody announces transactions in its name
  that it has not made.
\<close>

theorem pow_mines_once:
  assumes "pow_rounds rule orphan n out"
  shows "distinct (mined_keys out)"
proof -
  from assms have "queue_inv (publicId n) (nd_state n) (mined_keys out)"
  proof (induction rule: pow_rounds.induct)
    case (start n)
    then show ?case by (simp add: queue_inv_def)
  next
    case (round n out m packets now ov g n' sends g')
    from step_queue [OF round(4), of "mined_keys out"] round(2,3,5) show ?case by simp
  qed
  then show ?thesis by (simp add: queue_inv_def)
qed

definition example_miner :: "powPeer node" where
  "example_miner = \<lparr>nd_iface = new_iface 1 0, nd_crashRecoveryRound = 0,
     nd_state = setPoW (new_pow (new_committee 0)) (new_powPeer\<lparr>bp_submitRate := 0, bp_mineDenominator := 1\<rparr>)\<rparr>"

definition example_tx :: json where
  "example_tx = buildTransactionMessage 2 \<lparr>tx_id = 5, tx_roundSubmitted = 0, tx_submitter = 2\<rparr>"

definition example_packets :: "packet list" where
  "example_packets = [\<lparr>pk_targetId = 1, pk_sourceId = 2, pk_body = example_tx, pk_delay = 0, pk_round = 0, pk_sendTimestamp = 0\<rparr>]"

lemma example_tx_foreign: "own_upto 1 n rule orphan now example_tx"
  by (auto simp: own_upto_def receive_pow_def receive_transaction_def example_tx_def buildTransactionMessage_def tx_json_def NO_PEER_ID_def
      split: option.splits if_splits)

lemma example_mining:
  "case bitcoin_runProtocolStep [] 3 (example_miner\<lparr>nd_iface := (nd_iface example_miner)\<lparr>if_inStream := example_packets\<rparr>\<rparr>) (\<lambda>_. 0) of
     None \<Rightarrow> False | Some (n, out, g) \<Rightarrow> mined_keys out = [(2, 5)]"
  by code_simp

theorem pow_mines_once_witness:
  "\<exists>n out g. bitcoin_runProtocolStep [] 3 (example_miner\<lparr>nd_iface := (nd_iface example_miner)\<lparr>if_inStream := example_packets\<rparr>\<rparr>) (\<lambda>_. 0)
      = Some (n, out, g) \<and> mined_keys out = [(2, 5)] \<and> distinct (mined_keys ([] @ out))"
proof -
  from example_mining obtain n out g where
    run: "bitcoin_runProtocolStep [] 3 (example_miner\<lparr>nd_iface := (nd_iface example_miner)\<lparr>if_inStream := example_packets\<rparr>\<rparr>) (\<lambda>_. 0) = Some (n, out, g)"
    and mined: "mined_keys out = [(2, 5)]" by (auto split: option.splits)
  have "pow_rounds bitcoin_prefer None n ([] @ out)"
  proof (rule pow_rounds.round [where n = example_miner and packets = example_packets])
    show "pow_rounds bitcoin_prefer None example_miner []"
      by (rule pow_rounds.start) (simp_all add: example_miner_def setPoW_def new_powPeer_def)
    show "\<forall>x \<in> set (map pk_body example_packets). own_upto (publicId example_miner) (bp_localSubmitted (nd_state example_miner)) bitcoin_prefer None 3 x"
      using example_tx_foreign by (simp add: example_packets_def example_miner_def new_iface_def)
  qed (use run in \<open>auto simp: bitcoin_runProtocolStep_def\<close>)
  from pow_mines_once [OF this] run mined show ?thesis by auto
qed

subsection \<open>The configured rates\<close>

lemma mine_settings_bounds:
  "mine_settings s t r = (n, d) \<Longrightarrow> 0 \<le> n \<and> n \<le> d \<and> 1 \<le> d"
proof -
  have "0 \<le> min (max 0 r) (max 1 x) \<and> min (max 0 r) (max 1 x) \<le> max 1 x \<and> 1 \<le> max 1 x" for x :: int by linarith
  then show "mine_settings s t r = (n, d) \<Longrightarrow> 0 \<le> n \<and> n \<le> d \<and> 1 \<le> d"
    unfolding mine_settings_def Let_def prod.inject by blast
qed

definition miner_ok :: "(powPeer byzantine) node \<Rightarrow> bool" where
  "miner_ok p \<longleftrightarrow> 0 \<le> bp_mineRate (bz_peer (nd_state p)) \<and> bp_mineRate (bz_peer (nd_state p)) \<le> bp_mineDenominator (bz_peer (nd_state p)) \<and>
     1 \<le> bp_mineDenominator (bz_peer (nd_state p))"

lemma with_state_simps [simp]: "nd_state (with_state s p) = s" "nd_iface (with_state s p) = nd_iface p"
  by (simp_all add: with_state_def)

lemma length_configured_rates [simp]: "length (configured_rates d js n) = n"
  by (induction d js n rule: configured_rates.induct) simp_all

lemma set_mining_ok: "length rates = length ps \<Longrightarrow> length (set_mining rates s ps) = length ps \<and> (\<forall>p \<in> set (set_mining rates s ps). miner_ok p)"
  using mine_settings_bounds by (fastforce simp: set_mining_def Let_def miner_ok_def split: prod.splits)

lemma add_parasites_keep:
  assumes "add_parasites cfg ps = Some ps'"
  shows "map (\<lambda>p. bz_peer (nd_state p)) ps' = map (\<lambda>p. bz_peer (nd_state p)) ps"
proof -
  have upd: "map (\<lambda>p. bz_peer (nd_state p)) (fold (\<lambda>i ps. let p = ps ! i; f = F p in
      ps[i := with_state ((nd_state p)\<lparr>bz_faults := addFault f (bz_faults (nd_state p))\<rparr>) p]) is qs) = map (\<lambda>p. bz_peer (nd_state p)) qs"
    for F :: "(powPeer byzantine) node \<Rightarrow> fault" and "is" and qs :: "(powPeer byzantine) node list"
    by (rule fold_frame [where h = "map (\<lambda>p. bz_peer (nd_state p))"])
       (simp add: Let_def map_list_update_same)
  from assms show ?thesis
    by (auto simp: add_parasites_def Let_def elim!: bind_SomeE intro: upd [unfolded Let_def])
qed

text \<open>
  Claim C26. A configuration leaves every miner with a probability: its rate is between zero and its
  denominator, which is positive, whatever rates and scale the file gives (as long as their sums
  and products fit an \<open>int\<close>), and every miner has a ledger. The submit rate of the file reaches the
  first peer only.
\<close>

theorem pow_configuration:
  assumes "pow_initParameters parameters ps = Some ps'"
  shows "length ps' = length ps \<and> (\<forall>p \<in> set ps'. miner_ok p \<and> bp_pow (bz_peer (nd_state p)) \<noteq> None) \<and>
    map (\<lambda>p. bp_submitRate (bz_peer (nd_state p))) (tl ps') = map (\<lambda>p. bp_submitRate (bz_peer (nd_state p))) (tl ps)"
proof (cases ps)
  case Nil
  with assms show ?thesis by (simp add: pow_initParameters_def)
next
  case (Cons first rest)
  let ?peer = "\<lambda>p :: (powPeer byzantine) node. bz_peer (nd_state p)"
  from assms [unfolded Cons] obtain submitRate d arr scaler where
    ps': "(case jfind ''parasiteFault'' parameters of
       Some (JObj kvs) \<Rightarrow> add_parasites (JObj kvs) (install_ledgers (set_mining (configured_rates d arr (length (first # rest))) scaler (set_submitRate submitRate first # rest)))
     | _ \<Rightarrow> Some (install_ledgers (set_mining (configured_rates d arr (length (first # rest))) scaler (set_submitRate submitRate first # rest)))) = Some ps'"
    unfolding pow_initParameters_def Let_def by (auto elim!: bind_SomeE)
  define rates where "rates = configured_rates d arr (length (first # rest))"
  define f where "f = set_submitRate submitRate first"
  define qs where "qs = install_ledgers (set_mining rates scaler (f # rest))"
  have len: "length rates = Suc (length rest)" by (simp add: rates_def)
  have "ps' = qs \<or> (\<exists>cfg. add_parasites cfg qs = Some ps')"
    using ps' unfolding qs_def rates_def f_def by (auto split: option.splits json.splits)
  note ps' = this
  have same: "map ?peer ps' = map ?peer qs" using ps' add_parasites_keep by blast
  note mining = set_mining_ok [of rates "f # rest" scaler]
  have "miner_ok p \<and> bp_pow (?peer p) \<noteq> None" if "p \<in> set qs" for p
    using that mining len by (auto simp: qs_def install_ledgers_def Let_def miner_ok_def setPoW_def)
  then have "\<forall>x \<in> set (map ?peer qs). 0 \<le> bp_mineRate x \<and> bp_mineRate x \<le> bp_mineDenominator x \<and> 1 \<le> bp_mineDenominator x \<and> bp_pow x \<noteq> None"
    by (auto simp: miner_ok_def)
  then have ok: "\<forall>p \<in> set ps'. miner_ok p \<and> bp_pow (?peer p) \<noteq> None" unfolding same [symmetric] by (auto simp: miner_ok_def)
  have "map (\<lambda>p. bp_submitRate (?peer p)) (set_mining rates scaler (f # rest)) = map (\<lambda>p. bp_submitRate (?peer p)) (f # rest)"
    using len by (intro nth_equalityI) (auto simp: set_mining_def Let_def nth_Cons split: prod.splits nat.splits)
  then have "map (\<lambda>p. bp_submitRate (?peer p)) qs = map (\<lambda>p. bp_submitRate (?peer p)) (f # rest)"
    by (simp add: qs_def install_ledgers_def Let_def o_def setPoW_def if_distrib cong: if_cong)
  moreover have "map (\<lambda>p. bp_submitRate (?peer p)) ps' = map bp_submitRate (map ?peer qs)" unfolding same [symmetric] by simp
  ultimately have sub: "map (\<lambda>p. bp_submitRate (?peer p)) ps' = map (\<lambda>p. bp_submitRate (?peer p)) (f # rest)" by (simp add: o_def)
  then have "length ps' = length ps" using Cons by (metis length_map length_Cons)
  moreover have "map (\<lambda>p. bp_submitRate (?peer p)) (tl ps') = map (\<lambda>p. bp_submitRate (?peer p)) (tl ps)"
    using sub Cons by (cases ps') simp_all
  ultimately show ?thesis using ok by blast
qed

definition example_miners :: "(powPeer byzantine) node list" where
  "example_miners = map (with_state \<lparr>bz_faults = new_faultManager, bz_peer = new_powPeer\<rparr>) [example_miner, example_miner]"

definition example_rates :: json where
  "example_rates = jobject [(''submitRate'', JInt 7), (''mineRates'', JArr [JInt 9, JInt 2])]"

lemma example_configured:
  "case pow_initParameters example_rates example_miners of None \<Rightarrow> False
   | Some ps \<Rightarrow> map (\<lambda>p. (bp_mineRate (bz_peer (nd_state p)), bp_mineDenominator (bz_peer (nd_state p)))) ps = [(2, 2), (2, 9)]"
  by code_simp

theorem pow_configuration_witness:
  "\<exists>p q. pow_initParameters example_rates example_miners = Some [p, q] \<and> miner_ok p \<and> miner_ok q \<and>
     bp_submitRate (bz_peer (nd_state q)) = 20"
proof -
  from example_configured obtain ps' where run: "pow_initParameters example_rates example_miners = Some ps'"
    by (auto split: option.splits)
  note facts = pow_configuration [OF run]
  then obtain p q where "ps' = [p, q]" by (auto simp: example_miners_def length_Suc_conv numeral_2_eq_2)
  with facts run show ?thesis by (auto simp: example_miners_def new_powPeer_def)
qed

end
