(* ===== verification/DataLink.thy ===== *)
theory DataLink
  imports Network
begin

text \<open>
  The stop-and-wait peers: src/quantas/StableDataLinkPeer/StableDataLinkPeer.cpp and
  src/quantas/AltBitPeer/AltBitPeer.cpp. Peer 0 sends numbered data, the other peer acknowledges.
  A handler maps the state of the peer and the sends made so far to the new ones; \<open>me\<close> is the public
  identifier, \<open>partner\<close> the peer it talks to, \<open>now\<close> the current round. The field \<open>alive\<close>, which nothing
  reads, is left out.
\<close>

subsection \<open>StableDataLinkPeer\<close>

record dataLink =
  dl_requestsSatisfied :: int
  dl_messagesSent :: int
  dl_timeOutRate :: int
  dl_previousMessageRound :: int
  dl_nextMessageNum :: int
  dl_lastSentMessageNum :: int
  dl_lastDeliveredMessageNum :: int
  dl_awaitingAck :: bool

definition new_dataLink :: dataLink where
  "new_dataLink = \<lparr>dl_requestsSatisfied = 0, dl_messagesSent = 0, dl_timeOutRate = 4, dl_previousMessageRound = 0,
     dl_nextMessageNum = 1, dl_lastSentMessageNum = 0, dl_lastDeliveredMessageNum = 0, dl_awaitingAck = False\<rparr>"

type_synonym link_ctx = "dataLink \<times> send list"

definition partnerId :: "interfaceId \<Rightarrow> idset \<Rightarrow> interfaceId" where
  "partnerId me neighbors = (case neighbors of n # _ \<Rightarrow> n | [] \<Rightarrow> if me = 0 then 1 else 0)"

definition dl_sendMessage :: "int \<Rightarrow> interfaceId \<Rightarrow> json \<Rightarrow> link_ctx \<Rightarrow> link_ctx" where
  "dl_sendMessage now peer msg = (\<lambda>(p, out).
     (p\<lparr>dl_messagesSent := dl_messagesSent p + 1, dl_previousMessageRound := to_int32 now\<rparr>, out @ [UnicastTo msg peer]))"

definition link_message :: "string \<Rightarrow> int \<Rightarrow> int \<Rightarrow> json" where
  "link_message action now messageNum = jobject
     [(''action'', JStr action), (''roundSubmitted'', JInt now), (''messageNum'', JInt messageNum)]"

definition dl_sendData :: "interfaceId \<Rightarrow> int \<Rightarrow> int \<Rightarrow> link_ctx \<Rightarrow> link_ctx" where
  "dl_sendData partner now messageNum = dl_sendMessage now partner (link_message ''data'' now messageNum)"

definition dl_sendAck :: "interfaceId \<Rightarrow> int \<Rightarrow> int \<Rightarrow> link_ctx \<Rightarrow> link_ctx" where
  "dl_sendAck partner now messageNum s =
     (if messageNum < 0 then s else dl_sendMessage now partner (link_message ''ack'' now messageNum) s)"

definition dl_submitTrans :: "interfaceId \<Rightarrow> interfaceId \<Rightarrow> int \<Rightarrow> link_ctx \<Rightarrow> link_ctx" where
  "dl_submitTrans me partner now = (\<lambda>(p, out).
     if me \<noteq> 0 then (p, out)
     else let p = p\<lparr>dl_lastSentMessageNum := dl_nextMessageNum p, dl_awaitingAck := True\<rparr>;
              (p, out) = dl_sendData partner now (dl_nextMessageNum p) (p, out)
          in (p\<lparr>dl_nextMessageNum := dl_nextMessageNum p + 1\<rparr>, out))"

definition dl_resendData :: "interfaceId \<Rightarrow> int \<Rightarrow> link_ctx \<Rightarrow> link_ctx" where
  "dl_resendData partner now = (\<lambda>(p, out).
     if \<not> dl_awaitingAck p \<or> dl_lastSentMessageNum p \<le> 0 then (p, out)
     else dl_sendData partner now (dl_lastSentMessageNum p) (p, out))"

definition dl_handleAck :: "interfaceId \<Rightarrow> interfaceId \<Rightarrow> int \<Rightarrow> int \<Rightarrow> link_ctx \<Rightarrow> link_ctx" where
  "dl_handleAck me partner now messageNum = (\<lambda>(p, out).
     if me \<noteq> 0 \<or> \<not> dl_awaitingAck p \<or> messageNum \<noteq> dl_lastSentMessageNum p then (p, out)
     else dl_submitTrans me partner now
       (p\<lparr>dl_previousMessageRound := to_int32 now, dl_awaitingAck := False, dl_requestsSatisfied := dl_requestsSatisfied p + 1\<rparr>, out))"

definition dl_handleData :: "interfaceId \<Rightarrow> int \<Rightarrow> int \<Rightarrow> link_ctx \<Rightarrow> link_ctx" where
  "dl_handleData partner now messageNum = (\<lambda>(p, out).
     if messageNum < 0 then (p, out)
     else dl_sendAck partner now messageNum
       (p\<lparr>dl_previousMessageRound := to_int32 now,
          dl_lastDeliveredMessageNum := max messageNum (dl_lastDeliveredMessageNum p)\<rparr>, out))"

definition dl_receive :: "interfaceId \<Rightarrow> interfaceId \<Rightarrow> int \<Rightarrow> json \<Rightarrow> link_ctx \<Rightarrow> link_ctx option" where
  "dl_receive me partner now msg s = do {
     action \<leftarrow> value_string msg ''action'' [];
     messageNum \<leftarrow> value_int msg ''messageNum'' (-1);
     Some (if action = ''ack'' then dl_handleAck me partner now messageNum s
           else if action = ''data'' then dl_handleData partner now messageNum s
           else s) }"

text \<open>\<open>performComputation\<close>; the sum of two \<open>int\<close> is compared with a \<open>size_t\<close>.\<close>

definition dl_performComputation :: "interfaceId \<Rightarrow> interfaceId \<Rightarrow> int \<Rightarrow> json list \<Rightarrow> dataLink \<Rightarrow> link_ctx option" where
  "dl_performComputation me partner now msgs p = do {
     let s = (if me = 0 \<and> \<not> dl_awaitingAck p \<and> dl_nextMessageNum p = 1 then dl_submitTrans me partner now (p, []) else (p, []));
     s \<leftarrow> foldM (dl_receive me partner now) msgs s;
     Some (if me = 0 \<and> dl_awaitingAck (fst s) \<and> to_size_t (dl_previousMessageRound (fst s) + dl_timeOutRate (fst s)) < now
           then dl_resendData partner now s else s) }"

definition dataLink_perform :: "dataLink perform" where
  "dataLink_perform now n g = do {
     (p, out) \<leftarrow> dl_performComputation (publicId n) (partnerId (publicId n) (if_neighbors (nd_iface n))) now
        (map pk_body (if_inStream (nd_iface n))) (nd_state n);
     Some (n\<lparr>nd_iface := (nd_iface n)\<lparr>if_inStream := []\<rparr>, nd_state := p\<rparr>, out, g) }"

text \<open>The values \<open>endOfRound\<close> logs: utility, messages and throughput.\<close>

definition dl_endOfRound :: "dataLink list \<Rightarrow> real \<times> real \<times> real" where
  "dl_endOfRound ps =
     (let totalSatisfied = sum_list (map (\<lambda>p. real_of_int (dl_requestsSatisfied p)) ps);
          totalMessages = sum_list (map (\<lambda>p. real_of_int (dl_messagesSent p)) ps)
      in (if totalMessages > 0 then totalSatisfied / totalMessages * 100 else 0, totalMessages,
          if ps = [] then 0 else totalSatisfied / real (length ps)))"

subsection \<open>AltBitPeer\<close>

record altBit =
  ab_currentTransaction :: int
  ab_requestsSatisfied :: int
  ab_messagesSent :: int
  ab_ns :: int
  ab_timeOutRate :: int
  ab_previousMessageRound :: int

definition new_altBit :: altBit where
  "new_altBit = \<lparr>ab_currentTransaction = 1, ab_requestsSatisfied = 0, ab_messagesSent = 0, ab_ns = 1, ab_timeOutRate = 4,
     ab_previousMessageRound = 0\<rparr>"

definition ab_sendMessage :: "interfaceId \<Rightarrow> json \<Rightarrow> altBit \<times> send list \<Rightarrow> altBit \<times> send list" where
  "ab_sendMessage peer msg = (\<lambda>(p, out). (p\<lparr>ab_messagesSent := ab_messagesSent p + 1\<rparr>, out @ [UnicastTo msg peer]))"

definition ab_submitTrans :: "int \<Rightarrow> altBit \<times> send list \<Rightarrow> altBit \<times> send list" where
  "ab_submitTrans now = (\<lambda>(p, out). let (p, out) = ab_sendMessage 1 (link_message ''data'' now (ab_ns p)) (p, out)
     in (p\<lparr>ab_currentTransaction := ab_currentTransaction p + 1\<rparr>, out))"

definition ab_receive :: "int \<Rightarrow> json \<Rightarrow> altBit \<times> send list \<Rightarrow> (altBit \<times> send list) option" where
  "ab_receive now msg = (\<lambda>(p, out). do {
     action \<leftarrow> jindex msg ''action'';
     if action = JStr ''ack'' then do {
       num \<leftarrow> jindex msg ''messageNum'';
       Some (if json_is_int num (ab_ns p)
         then ab_submitTrans now (p\<lparr>ab_previousMessageRound := to_int32 now,
           ab_requestsSatisfied := ab_requestsSatisfied p + 1, ab_ns := ab_ns p + 1\<rparr>, out)
         else (p, out)) }
     else if action = JStr ''data'' then do {
       num \<leftarrow> jindex msg ''messageNum'';
       ns \<leftarrow> get_int num;
       reply \<leftarrow> jset ''action'' (JStr ''ack'') msg;
       Some (ab_sendMessage 0 reply (p\<lparr>ab_previousMessageRound := to_int32 now, ab_ns := ns\<rparr>, out)) }
     else Some (p, out) })"

definition ab_performComputation :: "interfaceId \<Rightarrow> int \<Rightarrow> json list \<Rightarrow> altBit \<Rightarrow> (altBit \<times> send list) option" where
  "ab_performComputation me now msgs p = do {
     (p, out) \<leftarrow> foldM (ab_receive now) msgs (p, []);
     Some (if ab_messagesSent p = 0 \<and> me = 0 then ab_submitTrans now (p, out)
           else if to_size_t (ab_previousMessageRound p + ab_timeOutRate p) < now
           then (let p = p\<lparr>ab_previousMessageRound := to_int32 now\<rparr> in
             if me = 0 then ab_sendMessage 1 (link_message ''data'' now (ab_ns p)) (p, out)
             else ab_sendMessage 0 (link_message ''ack'' now (ab_ns p)) (p, out))
           else (p, out)) }"

definition altBit_perform :: "altBit perform" where
  "altBit_perform now n g = do {
     (p, out) \<leftarrow> ab_performComputation (publicId n) now (map pk_body (if_inStream (nd_iface n))) (nd_state n);
     Some (n\<lparr>nd_iface := (nd_iface n)\<lparr>if_inStream := []\<rparr>, nd_state := p\<rparr>, out, g) }"

text \<open>The time-out is read as a \<open>size_t\<close>, by default the last round, and stored in an \<open>int\<close>.\<close>

definition ab_initParameters :: "int \<Rightarrow> json \<Rightarrow> altBit list \<Rightarrow> altBit list option" where
  "ab_initParameters final parameters ps = do {
     rate \<leftarrow> value_id parameters ''timeOutRate'' final;
     Some (map (\<lambda>p. p\<lparr>ab_timeOutRate := to_int32 rate\<rparr>) ps) }"

text \<open>Logged from the round \<open>final\<close> on, the last one.\<close>

definition ab_endOfRound :: "int \<Rightarrow> int \<Rightarrow> altBit list \<Rightarrow> (real \<times> real \<times> real) option" where
  "ab_endOfRound final now ps =
     (if final \<le> now then
        (let throughput = sum_list (map (\<lambda>p. real_of_int (ab_requestsSatisfied p)) ps);
             messages = sum_list (map (\<lambda>p. real_of_int (ab_messagesSent p)) ps)
         in Some (if messages > 0 then throughput / messages * 100 else 0, messages, throughput))
      else None)"


subsection \<open>Stop-and-wait refines a one-place channel\<close>

text \<open>
  The specification: of the numbers submitted, delivered and confirmed, the next number is submitted
  when everything submitted is confirmed, delivered when it is submitted, confirmed when delivered.
\<close>

inductive link_spec :: "int \<times> int \<times> int \<Rightarrow> int \<times> int \<times> int \<Rightarrow> bool" where
  submit: "confirmed = submitted \<Longrightarrow> link_spec (submitted, delivered, confirmed) (submitted + 1, delivered, confirmed)"
| deliver: "delivered < submitted \<Longrightarrow> link_spec (submitted, delivered, confirmed) (submitted, delivered + 1, confirmed)"
| confirm: "confirmed < delivered \<Longrightarrow> link_spec (submitted, delivered, confirmed) (submitted, delivered, confirmed + 1)"

text \<open>
  The two peers and everything they have sent each other. A step hands a peer any list of messages
  of this history: the network may lose, delay, reorder and repeat them.
\<close>

record linkSys =
  ls_sender :: dataLink
  ls_receiver :: dataLink
  ls_data :: "json list"
  ls_acks :: "json list"

definition sent_to :: "interfaceId \<Rightarrow> send list \<Rightarrow> json list" where
  "sent_to d out = concat (map (\<lambda>s. case s of UnicastTo m d' \<Rightarrow> if d' = d then [m] else [] | _ \<Rightarrow> []) out)"

definition link_init :: linkSys where
  "link_init = \<lparr>ls_sender = new_dataLink, ls_receiver = new_dataLink, ls_data = [], ls_acks = []\<rparr>"

inductive link_step :: "linkSys \<Rightarrow> linkSys \<Rightarrow> bool" where
  sender: "set msgs \<subseteq> set (ls_acks c) \<Longrightarrow> dl_performComputation 0 1 now msgs (ls_sender c) = Some (p, out) \<Longrightarrow>
    link_step c (c\<lparr>ls_sender := p, ls_data := ls_data c @ sent_to 1 out\<rparr>)"
| receiver: "set msgs \<subseteq> set (ls_data c) \<Longrightarrow> dl_performComputation 1 0 now msgs (ls_receiver c) = Some (p, out) \<Longrightarrow>
    link_step c (c\<lparr>ls_receiver := p, ls_acks := ls_acks c @ sent_to 0 out\<rparr>)"

definition link_view :: "linkSys \<Rightarrow> int \<times> int \<times> int" where
  "link_view c = (dl_lastSentMessageNum (ls_sender c), dl_lastDeliveredMessageNum (ls_receiver c), dl_requestsSatisfied (ls_sender c))"

definition link_msg :: "string \<Rightarrow> int \<Rightarrow> json \<Rightarrow> bool" where
  "link_msg action k m = (value_string m ''action'' [] = Some action \<and> value_int m ''messageNum'' (-1) = Some k)"

definition numbered :: "string \<Rightarrow> int \<Rightarrow> json list \<Rightarrow> bool" where
  "numbered action n ms = (\<forall>m \<in> set ms. \<exists>k. link_msg action k m \<and> 1 \<le> k \<and> k \<le> n)"

lemma link_message_msg [simp]: "link_msg action' k' (link_message action now k) \<longleftrightarrow> action' = action \<and> k' = k"
  by (auto simp: link_msg_def link_message_def)

lemma sent_to_simps [simp]:
  "sent_to d [] = []" "sent_to d (out @ out') = sent_to d out @ sent_to d out'"
  "sent_to d [UnicastTo m d'] = (if d' = d then [m] else [])"
  by (simp_all add: sent_to_def)

lemma numbered_simps [simp]: "numbered a n []" "numbered a n (xs @ ys) \<longleftrightarrow> numbered a n xs \<and> numbered a n ys"
  "numbered a n (x # xs) \<longleftrightarrow> (\<exists>k. link_msg a k x \<and> 1 \<le> k \<and> k \<le> n) \<and> numbered a n xs"
  by (auto simp: numbered_def)

lemma numbered_mono: "numbered a n ms \<Longrightarrow> n \<le> n' \<Longrightarrow> numbered a n' ms"
  by (fastforce simp: numbered_def)

lemma numbered_subset: "numbered a n ms \<Longrightarrow> set ms' \<subseteq> set ms \<Longrightarrow> numbered a n ms'"
  by (auto simp: numbered_def)

lemma dl_receive_ack: "link_msg ''ack'' k m \<Longrightarrow> dl_receive me partner now m s = Some (dl_handleAck me partner now k s)"
  by (simp add: dl_receive_def link_msg_def)

lemma dl_receive_data: "link_msg ''data'' k m \<Longrightarrow> dl_receive me partner now m s = Some (dl_handleData partner now k s)"
  by (simp add: dl_receive_def link_msg_def)

text \<open>The sender, when the receiver has \<open>d\<close> as its last number.\<close>

definition sender_ok :: "int \<Rightarrow> dataLink \<Rightarrow> bool" where
  "sender_ok d p = (dl_nextMessageNum p = dl_lastSentMessageNum p + 1 \<and>
     dl_requestsSatisfied p = (if dl_awaitingAck p then dl_lastSentMessageNum p - 1 else 0) \<and>
     (\<not> dl_awaitingAck p \<longrightarrow> dl_lastSentMessageNum p = 0) \<and>
     0 \<le> dl_requestsSatisfied p \<and> dl_requestsSatisfied p \<le> d \<and> d \<le> dl_lastSentMessageNum p)"

definition sender_run :: "int \<Rightarrow> dataLink \<Rightarrow> link_ctx \<Rightarrow> bool" where
  "sender_run d p0 = (\<lambda>(p, out). sender_ok d p \<and> numbered ''data'' (dl_lastSentMessageNum p) (sent_to 1 out) \<and>
     link_spec\<^sup>*\<^sup>* (dl_lastSentMessageNum p0, d, dl_requestsSatisfied p0) (dl_lastSentMessageNum p, d, dl_requestsSatisfied p))"

definition receiver_run :: "int \<Rightarrow> int \<Rightarrow> dataLink \<Rightarrow> link_ctx \<Rightarrow> bool" where
  "receiver_run n c r0 = (\<lambda>(r, out). dl_lastDeliveredMessageNum r \<le> n \<and> numbered ''ack'' (dl_lastDeliveredMessageNum r) (sent_to 0 out) \<and>
     link_spec\<^sup>*\<^sup>* (n, dl_lastDeliveredMessageNum r0, c) (n, dl_lastDeliveredMessageNum r, c))"

lemma link_spec_mono: "link_spec\<^sup>*\<^sup>* v v' \<Longrightarrow> fst v \<le> fst v' \<and> fst (snd v) \<le> fst (snd v') \<and> snd (snd v) \<le> snd (snd v')"
  by (induction rule: rtranclp_induct) (auto elim!: link_spec.cases)

lemma submit_run:
  assumes "dl_nextMessageNum p = dl_lastSentMessageNum p + 1" "dl_requestsSatisfied p = dl_lastSentMessageNum p"
    and "d = dl_lastSentMessageNum p" "0 \<le> d" "numbered ''data'' d (sent_to 1 out)"
    and spec: "link_spec\<^sup>*\<^sup>* (dl_lastSentMessageNum p0, d, dl_requestsSatisfied p0) (d, d, d)"
  shows "sender_run d p0 (dl_submitTrans 0 1 now (p, out))"
proof -
  have "link_spec (d, d, d) (d + 1, d, d)" by (rule link_spec.submit) simp
  with spec have "link_spec\<^sup>*\<^sup>* (dl_lastSentMessageNum p0, d, dl_requestsSatisfied p0) (d + 1, d, d)" by (rule rtranclp.rtrancl_into_rtrancl)
  with assms show ?thesis
    by (auto simp: sender_run_def dl_submitTrans_def dl_sendData_def dl_sendMessage_def sender_ok_def Let_def elim: numbered_mono)
qed

lemma ack_run:
  assumes run: "sender_run d p0 s" and "k \<le> d"
  shows "sender_run d p0 (dl_handleAck 0 1 now k s)"
proof -
  obtain p out where s [simp]: "s = (p, out)" by fastforce
  note ok = run [unfolded sender_run_def sender_ok_def, simplified]
  show ?thesis
  proof (cases "dl_awaitingAck p \<and> k = dl_lastSentMessageNum p")
    case True
    with ok \<open>k \<le> d\<close> have d: "d = dl_lastSentMessageNum p" "dl_requestsSatisfied p = d - 1" by auto
    have "link_spec (d, d, d - 1) (d, d, d - 1 + 1)" by (rule link_spec.confirm) simp
    then have "link_spec\<^sup>*\<^sup>* (dl_lastSentMessageNum p0, d, dl_requestsSatisfied p0) (d, d, d)"
      using ok d by (metis (no_types, lifting) diff_add_cancel rtranclp.rtrancl_into_rtrancl)
    with True ok d show ?thesis by (simp add: dl_handleAck_def submit_run)
  qed (use run in \<open>auto simp: dl_handleAck_def\<close>)
qed

lemma data_run:
  assumes run: "receiver_run n c r0 s" and k: "1 \<le> k" "k \<le> n" "n \<le> dl_lastDeliveredMessageNum r0 + 1"
  shows "receiver_run n c r0 (dl_handleData 0 now k s)"
proof -
  obtain r out where s [simp]: "s = (r, out)" by fastforce
  note ok = run [unfolded receiver_run_def, simplified]
  then have mono: "dl_lastDeliveredMessageNum r0 \<le> dl_lastDeliveredMessageNum r" using link_spec_mono by fastforce
  have "link_spec\<^sup>*\<^sup>* (n, dl_lastDeliveredMessageNum r0, c) (n, max k (dl_lastDeliveredMessageNum r), c)"
  proof (cases "dl_lastDeliveredMessageNum r < k")
    case True
    with k mono have "k = dl_lastDeliveredMessageNum r + 1" "dl_lastDeliveredMessageNum r < n" by auto
    with link_spec.deliver [of "dl_lastDeliveredMessageNum r" n c] ok show ?thesis
      by (auto simp: max_def intro: rtranclp.rtrancl_into_rtrancl)
  qed (use ok in \<open>simp add: max_def\<close>)
  with ok k show ?thesis
    by (auto simp: receiver_run_def dl_handleData_def dl_sendAck_def dl_sendMessage_def elim: numbered_mono)
qed

lemma acks_run:
  assumes "sender_run d p0 s" and "numbered ''ack'' d msgs"
  shows "\<exists>s'. foldM (dl_receive 0 1 now) msgs s = Some s' \<and> sender_run d p0 s'"
proof (rule foldM_total [where I = "sender_run d p0", OF assms(1)])
  fix m s
  assume "m \<in> set msgs" "sender_run d p0 s"
  with assms(2) obtain k where "link_msg ''ack'' k m" "sender_run d p0 (dl_handleAck 0 1 now k s)"
    by (auto simp: numbered_def intro: ack_run)
  then show "\<exists>s'. dl_receive 0 1 now m s = Some s' \<and> sender_run d p0 s'" by (simp add: dl_receive_ack)
qed

lemma datas_run:
  assumes "receiver_run n c r0 s" and "numbered ''data'' n msgs" and "n \<le> dl_lastDeliveredMessageNum r0 + 1"
  shows "\<exists>s'. foldM (dl_receive 1 0 now) msgs s = Some s' \<and> receiver_run n c r0 s'"
proof (rule foldM_total [where I = "receiver_run n c r0", OF assms(1)])
  fix m s
  assume "m \<in> set msgs" "receiver_run n c r0 s"
  with assms(2,3) obtain k where "link_msg ''data'' k m" "receiver_run n c r0 (dl_handleData 0 now k s)"
    by (auto simp: numbered_def intro: data_run)
  then show "\<exists>s'. dl_receive 1 0 now m s = Some s' \<and> receiver_run n c r0 s'" by (simp add: dl_receive_data)
qed

lemma resend_run: "sender_run d p0 s \<Longrightarrow> sender_run d p0 (dl_resendData 1 now s)"
  by (auto simp: sender_run_def sender_ok_def dl_resendData_def dl_sendData_def dl_sendMessage_def split: if_splits)

text \<open>One \<open>performComputation\<close> of each peer returns and runs the specification.\<close>

lemma sender_perform:
  assumes "sender_ok d p0" and "numbered ''ack'' d msgs"
  shows "\<exists>s. dl_performComputation 0 1 now msgs p0 = Some s \<and> sender_run d p0 s"
proof -
  let ?s = "if \<not> dl_awaitingAck p0 \<and> dl_nextMessageNum p0 = 1 then dl_submitTrans 0 1 now (p0, []) else (p0, [])"
  have "sender_run d p0 ?s"
  proof (cases "\<not> dl_awaitingAck p0 \<and> dl_nextMessageNum p0 = 1")
    case True
    with assms have "dl_lastSentMessageNum p0 = 0" "dl_requestsSatisfied p0 = 0" "d = 0" by (auto simp: sender_ok_def)
    with True show ?thesis by (simp add: submit_run)
  qed (use assms in \<open>auto simp: sender_run_def\<close>)
  from acks_run [OF this assms(2), of now] obtain s where "foldM (dl_receive 0 1 now) msgs ?s = Some s" "sender_run d p0 s"
    by blast
  then show ?thesis unfolding dl_performComputation_def Let_def by (simp add: resend_run)
qed

lemma receiver_perform:
  assumes "dl_lastDeliveredMessageNum r0 \<le> n" "n \<le> dl_lastDeliveredMessageNum r0 + 1" and "numbered ''data'' n msgs"
  shows "\<exists>s. dl_performComputation 1 0 now msgs r0 = Some s \<and> receiver_run n c r0 s"
  using datas_run [of n c r0 "(r0, [])" msgs now] assms by (auto simp: dl_performComputation_def receiver_run_def)

definition link_inv :: "linkSys \<Rightarrow> bool" where
  "link_inv c = (sender_ok (dl_lastDeliveredMessageNum (ls_receiver c)) (ls_sender c) \<and>
     numbered ''data'' (dl_lastSentMessageNum (ls_sender c)) (ls_data c) \<and>
     numbered ''ack'' (dl_lastDeliveredMessageNum (ls_receiver c)) (ls_acks c))"

lemma link_step_simulates:
  assumes "link_inv c" and "link_step c c'"
  shows "link_inv c' \<and> link_spec\<^sup>*\<^sup>* (link_view c) (link_view c')"
  using assms(2)
proof cases
  case (sender msgs now p out)
  let ?d = "dl_lastDeliveredMessageNum (ls_receiver c)"
  have "numbered ''ack'' ?d msgs" using assms(1) sender by (auto simp: link_inv_def elim: numbered_subset)
  with sender_perform [of ?d "ls_sender c" msgs now] assms(1) sender
  have run: "sender_run ?d (ls_sender c) (p, out)" by (auto simp: link_inv_def)
  with assms(1) sender link_spec_mono show ?thesis
    by (fastforce simp: link_inv_def sender_run_def link_view_def elim: numbered_mono)
next
  case (receiver msgs now p out)
  let ?n = "dl_lastSentMessageNum (ls_sender c)"
  have "numbered ''data'' ?n msgs" using assms(1) receiver by (auto simp: link_inv_def elim: numbered_subset)
  moreover have "dl_lastDeliveredMessageNum (ls_receiver c) \<le> ?n" "?n \<le> dl_lastDeliveredMessageNum (ls_receiver c) + 1"
    using assms(1) by (auto simp: link_inv_def sender_ok_def split: if_splits)
  ultimately have run: "receiver_run ?n (dl_requestsSatisfied (ls_sender c)) (ls_receiver c) (p, out)"
    using receiver_perform [of "ls_receiver c" ?n msgs now] receiver by auto
  then have "dl_lastDeliveredMessageNum (ls_receiver c) \<le> dl_lastDeliveredMessageNum p"
    using link_spec_mono by (fastforce simp: receiver_run_def)
  moreover from this have "numbered ''ack'' (dl_lastDeliveredMessageNum p) (ls_acks c)"
    using assms(1) numbered_mono unfolding link_inv_def by blast
  ultimately show ?thesis using run assms(1) receiver
    by (auto simp: link_inv_def receiver_run_def link_view_def sender_ok_def elim: numbered_mono)
qed

lemma link_init_inv: "link_inv link_init"
  by (simp add: link_inv_def link_init_def sender_ok_def new_dataLink_def)

lemma link_reachable_inv: "link_step\<^sup>*\<^sup>* link_init c \<Longrightarrow> link_inv c"
  by (induction rule: rtranclp_induct) (auto simp: link_init_inv dest: link_step_simulates)


subsection \<open>A timeout and one round trip make progress\<close>

lemma receive_mono:
  assumes "dl_receive me partner now m s = Some s'"
  shows "dl_requestsSatisfied (fst s) \<le> dl_requestsSatisfied (fst s') \<and> set (sent_to d (snd s)) \<subseteq> set (sent_to d (snd s'))"
  using assms
  by (cases s) (auto simp: dl_receive_def dl_handleAck_def dl_handleData_def dl_sendAck_def dl_submitTrans_def dl_sendData_def
    dl_sendMessage_def Let_def split: if_splits elim!: bind_SomeE)

lemma receive_all_mono:
  assumes "foldM (dl_receive me partner now) msgs s = Some s'"
  shows "dl_requestsSatisfied (fst s) \<le> dl_requestsSatisfied (fst s') \<and> set (sent_to d (snd s)) \<subseteq> set (sent_to d (snd s'))"
  by (rule foldM_invariant [OF assms]) (auto dest!: receive_mono [where d = d])

lemma foldM_visit:
  assumes "foldM f xs s = Some s'" and "x \<in> set xs"
  obtains ys zs t t' where "xs = ys @ x # zs" "foldM f ys s = Some t" "f x t = Some t'" "foldM f zs t' = Some s'"
proof -
  from assms(2) obtain ys zs where "xs = ys @ x # zs" by (auto dest: split_list)
  with assms(1) that show ?thesis by (auto simp: foldM_append elim!: bind_SomeE)
qed

lemma data_acknowledged:
  assumes "foldM (dl_receive 1 0 now) msgs s = Some s'" and "m \<in> set msgs" "link_msg ''data'' k m" "1 \<le> k"
  shows "\<exists>m' \<in> set (sent_to 0 (snd s')). link_msg ''ack'' k m'"
proof -
  from assms(1,2) obtain zs t t' where t: "dl_receive 1 0 now m t = Some t'" "foldM (dl_receive 1 0 now) zs t' = Some s'"
    by (rule foldM_visit)
  from t(1) assms(3,4) have "link_message ''ack'' now k \<in> set (sent_to 0 (snd t'))"
    by (cases t) (auto simp: dl_receive_data dl_handleData_def dl_sendAck_def dl_sendMessage_def)
  with receive_all_mono [OF t(2), of 0] show ?thesis by (force intro: bexI [of _ "link_message ''ack'' now k"])
qed

lemma ack_confirms:
  assumes run: "sender_run d p0 s" and all: "numbered ''ack'' d msgs" and fold: "foldM (dl_receive 0 1 now) msgs s = Some s'"
    and m: "m \<in> set msgs" "link_msg ''ack'' n m" and n: "n \<le> dl_requestsSatisfied (fst s) + 1" "1 \<le> n"
  shows "n \<le> dl_requestsSatisfied (fst s')"
proof -
  from fold m(1) obtain ys zs t t' where t: "msgs = ys @ m # zs" "foldM (dl_receive 0 1 now) ys s = Some t"
    "dl_receive 0 1 now m t = Some t'" "foldM (dl_receive 0 1 now) zs t' = Some s'"
    by (rule foldM_visit)
  from acks_run [OF run, of ys now] all t(1,2) have "sender_run d p0 t" by auto
  then have ok: "sender_ok d (fst t)" by (auto simp: sender_run_def)
  have "n \<le> dl_requestsSatisfied (fst t')"
  proof (cases "n \<le> dl_requestsSatisfied (fst t)")
    case True
    with receive_mono [OF t(3)] show ?thesis by fastforce
  next
    case False
    with n receive_all_mono [OF t(2)] have sat: "dl_requestsSatisfied (fst t) = n - 1" by fastforce
    with ok n m all have "dl_awaitingAck (fst t)" "dl_lastSentMessageNum (fst t) = n"
      by (auto simp: sender_ok_def numbered_def link_msg_def split: if_splits dest!: bspec [where x = m])
    with t(3) m(2) sat show ?thesis
      by (cases t) (auto simp: dl_receive_ack dl_handleAck_def dl_submitTrans_def dl_sendData_def dl_sendMessage_def Let_def)
  qed
  with receive_all_mono [OF t(4)] show ?thesis by fastforce
qed

lemma acks_ignored:
  assumes "foldM (dl_receive 0 1 now) msgs s = Some s'" and "numbered ''ack'' d msgs"
  shows "dl_requestsSatisfied (fst s) < dl_requestsSatisfied (fst s') \<or> s' = s"
proof (rule foldM_invariant [OF assms(1)])
  fix m t t'
  assume "m \<in> set msgs" and t: "dl_requestsSatisfied (fst s) < dl_requestsSatisfied (fst t) \<or> t = s"
    and step: "dl_receive 0 1 now m t = Some t'"
  with assms(2) have "t' = t \<or> dl_requestsSatisfied (fst t) < dl_requestsSatisfied (fst t')"
    by (cases t) (auto simp: numbered_def dl_receive_ack dl_handleAck_def dl_submitTrans_def dl_sendData_def dl_sendMessage_def Let_def
      split: if_splits dest!: bspec [where x = m])
  with t show "dl_requestsSatisfied (fst s) < dl_requestsSatisfied (fst t') \<or> t' = s" by auto
qed simp

lemma timeout_resends:
  assumes run: "dl_performComputation 0 1 now msgs p = Some (p', out)" and ok: "sender_ok d p" "numbered ''ack'' d msgs"
    and "dl_awaitingAck p" and late: "to_size_t (dl_previousMessageRound p + dl_timeOutRate p) < now"
  shows "dl_requestsSatisfied p < dl_requestsSatisfied p' \<or>
    link_message ''data'' now (dl_lastSentMessageNum p) \<in> set (sent_to 1 out) \<and> dl_requestsSatisfied p' = dl_requestsSatisfied p"
proof -
  let ?fin = "\<lambda>s. if dl_awaitingAck (fst s) \<and> to_size_t (dl_previousMessageRound (fst s) + dl_timeOutRate (fst s)) < now
    then dl_resendData 1 now s else s"
  from run assms(4) obtain s where s: "foldM (dl_receive 0 1 now) msgs (p, []) = Some s" "?fin s = (p', out)"
    by (auto simp: dl_performComputation_def Let_def elim!: bind_SomeE)
  have same: "dl_requestsSatisfied (fst (?fin s)) = dl_requestsSatisfied (fst s)"
    by (cases s) (simp add: dl_resendData_def dl_sendData_def dl_sendMessage_def)
  consider "dl_requestsSatisfied p < dl_requestsSatisfied (fst s)" | "s = (p, [])"
    using acks_ignored [OF s(1) ok(2)] by auto
  then show ?thesis
  proof cases
    case 1
    with same s(2) show ?thesis by simp
  next
    case 2
    with s(2) assms(4) late ok(1) show ?thesis
      by (auto simp: dl_resendData_def dl_sendData_def dl_sendMessage_def sender_ok_def)
  qed
qed


text \<open>What the sender counts never decreases in a computation, and an acknowledgement of its number confirms it.\<close>

lemma perform_receives:
  assumes "dl_performComputation 0 1 now msgs p = Some (q, out)" and "dl_awaitingAck p"
  obtains s where "foldM (dl_receive 0 1 now) msgs (p, []) = Some s" "dl_requestsSatisfied (fst s) = dl_requestsSatisfied q"
  using assms
  by (auto simp: dl_performComputation_def dl_resendData_def dl_sendData_def dl_sendMessage_def Let_def
    split: if_splits prod.splits elim!: bind_SomeE)

lemma sender_third:
  assumes p: "dl_performComputation 0 1 now a s0 = Some (p, out)" and ok0: "sender_ok d0 s0" "numbered ''ack'' d0 a"
    and late: "dl_awaitingAck s0" "to_size_t (dl_previousMessageRound s0 + dl_timeOutRate s0) < now"
    and r: "dl_performComputation 1 0 now' (b @ sent_to 1 out @ b') r0 = Some (r, out')"
    and q: "dl_performComputation 0 1 now'' (e @ sent_to 0 out' @ e') p = Some (q, out'')"
    and ok: "sender_ok d p" "numbered ''ack'' d (e @ sent_to 0 out' @ e')"
  shows "dl_requestsSatisfied s0 < dl_requestsSatisfied q"
proof -
  have "sender_run d0 s0 (p, out)" using sender_perform [OF ok0, of now] p by auto
  then have "dl_lastSentMessageNum s0 \<le> dl_lastSentMessageNum p" using link_spec_mono by (fastforce simp: sender_run_def)
  with ok0(1) late(1) ok(1) have wait: "dl_awaitingAck p" by (auto simp: sender_ok_def)
  from q wait obtain s where s: "foldM (dl_receive 0 1 now'') (e @ sent_to 0 out' @ e') (p, []) = Some s"
    "dl_requestsSatisfied (fst s) = dl_requestsSatisfied q" by (rule perform_receives)
  from timeout_resends [OF p ok0 late] consider "dl_requestsSatisfied s0 < dl_requestsSatisfied p"
    | "link_message ''data'' now (dl_lastSentMessageNum s0) \<in> set (sent_to 1 out)" "dl_requestsSatisfied p = dl_requestsSatisfied s0"
    by blast
  then show ?thesis
  proof cases
    case 1
    with receive_all_mono [OF s(1)] s(2) show ?thesis by fastforce
  next
    case 2
    let ?n = "dl_lastSentMessageNum s0"
    have n: "?n = dl_requestsSatisfied s0 + 1" "1 \<le> ?n" using ok0(1) late(1) by (auto simp: sender_ok_def)
    from r obtain t where "foldM (dl_receive 1 0 now') (b @ sent_to 1 out @ b') (r0, []) = Some t" "t = (r, out')"
      by (auto simp: dl_performComputation_def Let_def elim!: bind_SomeE)
    with data_acknowledged [of now' "b @ sent_to 1 out @ b'" "(r0, [])" t "link_message ''data'' now ?n" ?n] 2 n
    obtain m where "m \<in> set (e @ sent_to 0 out' @ e')" "link_msg ''ack'' ?n m" by auto
    moreover have "sender_run d p (p, [])" using ok(1) by (simp add: sender_run_def)
    ultimately have "?n \<le> dl_requestsSatisfied (fst s)" using ack_confirms [OF _ ok(2) s(1)] n 2 by auto
    with n s(2) show ?thesis by simp
  qed
qed

text \<open>The steps of the two peers at the level of the invariant.\<close>

lemma sender_returns:
  assumes "link_inv c" and "set msgs \<subseteq> set (ls_acks c)"
  obtains p out where "dl_performComputation 0 1 now msgs (ls_sender c) = Some (p, out)"
    "link_inv (c\<lparr>ls_sender := p, ls_data := ls_data c @ sent_to 1 out\<rparr>)"
proof -
  have "numbered ''ack'' (dl_lastDeliveredMessageNum (ls_receiver c)) msgs" "sender_ok (dl_lastDeliveredMessageNum (ls_receiver c)) (ls_sender c)"
    using assms by (auto simp: link_inv_def elim: numbered_subset)
  from sender_perform [OF this(2,1), of now] obtain p out where "dl_performComputation 0 1 now msgs (ls_sender c) = Some (p, out)"
    by auto
  with link_step_simulates [OF assms(1) link_step.sender [OF assms(2) this]] that show ?thesis by blast
qed

lemma receiver_returns:
  assumes "link_inv c" and "set msgs \<subseteq> set (ls_data c)"
  obtains p out where "dl_performComputation 1 0 now msgs (ls_receiver c) = Some (p, out)"
    "link_inv (c\<lparr>ls_receiver := p, ls_acks := ls_acks c @ sent_to 0 out\<rparr>)"
proof -
  have "numbered ''data'' (dl_lastSentMessageNum (ls_sender c)) msgs"
    "dl_lastDeliveredMessageNum (ls_receiver c) \<le> dl_lastSentMessageNum (ls_sender c)"
    "dl_lastSentMessageNum (ls_sender c) \<le> dl_lastDeliveredMessageNum (ls_receiver c) + 1"
    using assms by (auto simp: link_inv_def sender_ok_def elim: numbered_subset split: if_splits)
  from receiver_perform [OF this(2,3,1), of now 0] obtain p out where "dl_performComputation 1 0 now msgs (ls_receiver c) = Some (p, out)"
    by auto
  with link_step_simulates [OF assms(1) link_step.receiver [OF assms(2) this]] that show ?thesis by blast
qed

text \<open>
  Claim C27. The stop-and-wait peers implement the one-place channel: over a network that loses, delays,
  reorders and repeats messages at will, every step of a peer from a reachable state is a sequence of
  steps of the specification on the numbers submitted, delivered and confirmed. So data is delivered
  once, in order and without gaps, and what the sender counts as satisfied has been delivered.
\<close>

theorem link_refines:
  assumes "link_step\<^sup>*\<^sup>* link_init c" and "link_step c c'"
  shows "link_spec\<^sup>*\<^sup>* (link_view c) (link_view c')"
  using link_step_simulates [OF link_reachable_inv [OF assms(1)] assms(2)] by blast

text \<open>
  Claim C28. Losses are recovered: in any reachable state in which the sender waits, once its timeout has
  passed, a computation of the sender, one of the receiver that gets what the sender has just sent, and
  one of the sender that gets what the receiver has just sent satisfy another request. All three return,
  whatever old messages arrive as well.
\<close>

theorem link_progress:
  assumes "link_step\<^sup>*\<^sup>* link_init c" and "dl_awaitingAck (ls_sender c)"
    and "to_size_t (dl_previousMessageRound (ls_sender c) + dl_timeOutRate (ls_sender c)) < now"
    and "set a \<subseteq> set (ls_acks c)" "set (b @ b') \<subseteq> set (ls_data c)" "set (e @ e') \<subseteq> set (ls_acks c)"
  shows "\<exists>p out r out' q out''.
    dl_performComputation 0 1 now a (ls_sender c) = Some (p, out) \<and>
    dl_performComputation 1 0 now' (b @ sent_to 1 out @ b') (ls_receiver c) = Some (r, out') \<and>
    dl_performComputation 0 1 now'' (e @ sent_to 0 out' @ e') p = Some (q, out'') \<and>
    dl_requestsSatisfied (ls_sender c) < dl_requestsSatisfied q"
proof -
  let ?n = "dl_lastSentMessageNum (ls_sender c)"
  have inv: "link_inv c" using assms(1) by (rule link_reachable_inv)
  from sender_returns [OF inv assms(4), of now] obtain p out where
    p: "dl_performComputation 0 1 now a (ls_sender c) = Some (p, out)"
      "link_inv (c\<lparr>ls_sender := p, ls_data := ls_data c @ sent_to 1 out\<rparr>)" (is "link_inv ?c1") by blast
  have "set (b @ sent_to 1 out @ b') \<subseteq> set (ls_data ?c1)" using assms(5) by auto
  from receiver_returns [OF p(2) this, of now'] obtain r out' where
    r: "dl_performComputation 1 0 now' (b @ sent_to 1 out @ b') (ls_receiver c) = Some (r, out')"
      "link_inv (?c1\<lparr>ls_receiver := r, ls_acks := ls_acks ?c1 @ sent_to 0 out'\<rparr>)" (is "link_inv ?c2") by auto
  have sub: "set (e @ sent_to 0 out' @ e') \<subseteq> set (ls_acks ?c2)" using assms(6) by auto
  from sender_returns [OF r(2) sub, of now''] obtain q out'' where
    "dl_performComputation 0 1 now'' (e @ sent_to 0 out' @ e') (ls_sender ?c2) = Some (q, out'')" by blast
  then have q: "dl_performComputation 0 1 now'' (e @ sent_to 0 out' @ e') p = Some (q, out'')" by simp
  have ok: "sender_ok (dl_lastDeliveredMessageNum r) p" using r(2) by (simp add: link_inv_def)
  have new: "numbered ''ack'' (dl_lastDeliveredMessageNum r) (e @ sent_to 0 out' @ e')"
    by (rule numbered_subset [OF _ sub]) (use r(2) in \<open>simp add: link_inv_def\<close>)
  have acks: "sender_ok (dl_lastDeliveredMessageNum (ls_receiver c)) (ls_sender c)"
    "numbered ''ack'' (dl_lastDeliveredMessageNum (ls_receiver c)) a"
    using inv assms(4) by (auto simp: link_inv_def elim: numbered_subset)
  from sender_third [OF p(1) acks assms(2,3) r(1) q ok new] p r q show ?thesis by blast
qed


definition example_sender :: dataLink where
  "example_sender = new_dataLink\<lparr>dl_messagesSent := 1, dl_previousMessageRound := 1, dl_nextMessageNum := 2,
     dl_lastSentMessageNum := 1, dl_awaitingAck := True\<rparr>"

definition example_link :: linkSys where
  "example_link = \<lparr>ls_sender = example_sender, ls_receiver = new_dataLink, ls_data = [link_message ''data'' 1 1], ls_acks = []\<rparr>"

lemma example_link_step: "link_step link_init example_link"
proof -
  have "dl_performComputation 0 1 1 [] (ls_sender link_init) = Some (example_sender, [UnicastTo (link_message ''data'' 1 1) 1])"
    by (simp add: link_init_def dl_performComputation_def new_dataLink_def dl_submitTrans_def dl_sendData_def dl_sendMessage_def
      example_sender_def to_int32_def to_size_t_def)
  from link_step.sender [OF _ this] show ?thesis by (simp add: link_init_def example_link_def)
qed

lemma example_link_reachable: "link_step\<^sup>*\<^sup>* link_init example_link"
  using example_link_step by (rule r_into_rtranclp)

theorem link_refines_witness: "\<exists>c. link_step example_link c \<and> link_view c = (1, 1, 0) \<and> link_spec\<^sup>*\<^sup>* (1, 0, 0) (link_view c)"
proof -
  have "dl_performComputation 1 0 2 (ls_data example_link) (ls_receiver example_link) =
      Some (new_dataLink\<lparr>dl_messagesSent := 1, dl_previousMessageRound := 2, dl_lastDeliveredMessageNum := 1\<rparr>,
        [UnicastTo (link_message ''ack'' 2 1) 0])"
    by (simp add: example_link_def dl_performComputation_def new_dataLink_def dl_receive_def dl_handleData_def
      dl_sendAck_def dl_sendMessage_def to_int32_def link_message_def)
  note step = link_step.receiver [OF _ this, simplified]
  from link_refines [OF example_link_reachable step] step show ?thesis
    by (auto simp: link_view_def example_link_def example_sender_def new_dataLink_def)
qed

theorem link_progress_witness: "\<exists>p out r out' q out''.
    dl_performComputation 0 1 6 [] example_sender = Some (p, out) \<and>
    dl_performComputation 1 0 7 (sent_to 1 out) new_dataLink = Some (r, out') \<and>
    dl_performComputation 0 1 8 (sent_to 0 out') p = Some (q, out'') \<and> 0 < dl_requestsSatisfied q"
  using link_progress [OF example_link_reachable, of 6 "[]" "[]" "[]" "[]" "[]" 7 8]
  by (simp add: example_link_def example_sender_def new_dataLink_def to_size_t_def)

subsection \<open>A request that nobody has seen is satisfied\<close>

text \<open>A peer of the alternating-bit protocol over rounds in which it receives nothing, with what it sends.\<close>

fun ab_idle :: "interfaceId \<Rightarrow> int list \<Rightarrow> altBit \<Rightarrow> (altBit \<times> send list) option" where
  "ab_idle me [] p = Some (p, [])"
| "ab_idle me (now # rounds) p = do {
     (p, out) \<leftarrow> ab_performComputation me now [] p;
     (p, out') \<leftarrow> ab_idle me rounds p;
     Some (p, out @ out') }"

lemma ab_idle_acks:
  assumes "ab_idle me rounds p = Some (r, sent)" and "me \<noteq> 0" and "x \<in> set sent"
  shows "\<exists>now. x = UnicastTo (link_message ''ack'' now (ab_ns p)) 0"
  using assms(1,3)
proof (induction rounds arbitrary: p sent)
  case (Cons now rounds)
  from Cons.prems(1) obtain q out out' where 1: "ab_performComputation me now [] p = Some (q, out)"
    "ab_idle me rounds q = Some (r, out')" "sent = out @ out'" by (auto simp: monad)
  have "ab_ns q = ab_ns p \<and> (\<forall>y \<in> set out. y = UnicastTo (link_message ''ack'' now (ab_ns p)) 0)"
    using 1(1) assms(2) by (auto simp: ab_performComputation_def ab_sendMessage_def Let_def split: if_splits)
  then show ?case using Cons.IH [OF 1(2)] Cons.prems(2) 1(3) by auto
qed simp

lemma ab_ack_counted:
  "\<exists>s' out. ab_performComputation 0 now [link_message ''ack'' r k] s = Some (s', out) \<and>
     ab_requestsSatisfied s' = ab_requestsSatisfied s + (if ab_ns s = k then 1 else 0)"
  by (auto simp: ab_performComputation_def ab_receive_def ab_submitTrans_def ab_sendMessage_def link_message_def Let_def)

text \<open>
  Claim C29. The alternating-bit receiver acknowledges what it has not received. Its number starts at one, as the
  sender's does, and its timeout acknowledges that number: whatever the time-out and the rounds, every message
  that a receiver sends before it has received anything is such an acknowledgement, and a sender that gets it
  counts a request as satisfied exactly when it still waits for its first message to be delivered.
\<close>

theorem altbit_false_ack:
  assumes "ab_idle 1 rounds (new_altBit\<lparr>ab_timeOutRate := rate\<rparr>) = Some (r, sent)" and "x \<in> set sent"
  shows "\<exists>m. x = UnicastTo m 0 \<and> (\<forall>s now. \<exists>s' out. ab_performComputation 0 now [m] s = Some (s', out) \<and>
     ab_requestsSatisfied s' = ab_requestsSatisfied s + (if ab_ns s = 1 then 1 else 0))"
proof -
  obtain now where "x = UnicastTo (link_message ''ack'' now 1) 0"
    using ab_idle_acks [OF assms(1) _ assms(2)] by (auto simp: new_altBit_def)
  then show ?thesis using ab_ack_counted by blast
qed

theorem altbit_false_ack_witness:
  "\<exists>s out s' out'. ab_performComputation 0 1 [] new_altBit = Some (s, out) \<and> length (sent_to 1 out) = 1 \<and>
     ab_performComputation 0 6 [link_message ''ack'' 5 1] s = Some (s', out') \<and>
     ab_requestsSatisfied s = 0 \<and> ab_requestsSatisfied s' = 1"
proof -
  have idle: "ab_idle 1 [1, 5] (new_altBit\<lparr>ab_timeOutRate := 4\<rparr>) = Some
      (new_altBit\<lparr>ab_messagesSent := 1, ab_previousMessageRound := 5\<rparr>, [UnicastTo (link_message ''ack'' 5 1) 0])"
    by (simp add: ab_performComputation_def new_altBit_def ab_sendMessage_def to_size_t_def to_int32_def)
  have "\<exists>s out. ab_performComputation 0 1 [] new_altBit = Some (s, out) \<and> length (sent_to 1 out) = 1 \<and> ab_ns s = 1 \<and> ab_requestsSatisfied s = 0"
    by (simp add: ab_performComputation_def new_altBit_def ab_submitTrans_def ab_sendMessage_def)
  then show ?thesis using altbit_false_ack [OF idle, of "UnicastTo (link_message ''ack'' 5 1) 0"] by fastforce
qed

end
