(* ===== verification/Routing.thy ===== *)
theory Routing
  imports Network
begin

text \<open>
  Lookups that travel from peer to peer. The overlay peers (LinearChordPeer, KademliaPeer) handle a
  lookup in the same way: the target counts it, every other peer forwards it to one neighbour.
  \<open>lookup_run\<close> follows a lookup through the peers; the locale states what a handler must promise for the
  lookup to arrive, and each overlay interprets it on its own handler.
\<close>

subsection \<open>Following a lookup\<close>

type_synonym 'p lookup_handler = "int \<Rightarrow> 'p node \<Rightarrow> json \<Rightarrow> rng \<Rightarrow> ('p \<times> send list \<times> rng) option"

text \<open>
  The peer \<open>u\<close> handles the message \<open>m\<close> in round \<open>r 0\<close>; a peer that forwards it hands it to the next one,
  which handles it in a later round. The result is the peer that sends nothing and its new state.
\<close>

fun lookup_run :: "'p lookup_handler \<Rightarrow> 'p node list \<Rightarrow> nat \<Rightarrow> (nat \<Rightarrow> int) \<Rightarrow> interfaceId \<Rightarrow> json \<Rightarrow> rng \<Rightarrow> (interfaceId \<times> 'p) option" where
  "lookup_run handle ps 0 r u m g = None"
| "lookup_run handle ps (Suc n) r u m g = (case find (\<lambda>nd. publicId nd = u) ps of None \<Rightarrow> None
     | Some nd \<Rightarrow> (case handle (r 0) nd m g of None \<Rightarrow> None
         | Some (p, out, g) \<Rightarrow> (case out of [] \<Rightarrow> Some (u, p)
             | [UnicastTo m' v] \<Rightarrow> lookup_run handle ps n (\<lambda>k. r (Suc k)) v m' g
             | _ \<Rightarrow> None)))"

text \<open>A lookup for the target \<open>t\<close> that has made \<open>h\<close> hops.\<close>

definition is_lookup :: "interfaceId \<Rightarrow> int \<Rightarrow> json \<Rightarrow> bool" where
  "is_lookup t h m = (is_object m \<and> value_id m ''targetId'' NO_PEER_ID = Some t \<and> value_int m ''hops'' 0 = Some h \<and>
     (\<forall>now. \<exists>s. value_int m ''roundSubmitted'' now = Some s))"

lemma is_lookup_forward:
  assumes "is_lookup t h m" and "jset ''hops'' (JInt (h + 1)) m = Some m'" and "jset ''lastHop'' (JInt u) m' = Some m''"
  shows "is_lookup t (h + 1) m''"
proof -
  note object = jset_is_object [OF assms(2)]
  note last = value_with_jset [OF assms(3) object]
  note hops = value_with_jset [OF assms(2)]
  from assms(1) show ?thesis
    by (simp add: is_lookup_def last hops jset_is_object [OF assms(3)])
qed

text \<open>Every peer has all others among its neighbours; a peer of an overlay.\<close>

definition fully_connected :: "'p node list \<Rightarrow> bool" where
  "fully_connected ps = (\<forall>nd \<in> set ps. \<forall>q \<in> set ps. publicId q \<noteq> publicId nd \<longrightarrow> publicId q \<in> nbrs nd)"

definition overlay_node :: "'p \<Rightarrow> interfaceId \<Rightarrow> idset \<Rightarrow> 'p node" where
  "overlay_node p i ns = \<lparr>nd_iface = (new_iface i i)\<lparr>if_neighbors := ns\<rparr>, nd_crashRecoveryRound = 0, nd_state = p\<rparr>"

lemma overlay_node_simps [simp]:
  "publicId (overlay_node p i ns) = i" "if_neighbors (nd_iface (overlay_node p i ns)) = ns" "nd_state (overlay_node p i ns) = p"
  by (simp_all add: overlay_node_def new_iface_def)

lemma ex_find: "nd \<in> set ps \<Longrightarrow> \<exists>nd'. find (\<lambda>x. f x = f nd) ps = Some nd' \<and> nd' \<in> set ps \<and> f nd' = f nd"
  by (induction ps) auto

subsection \<open>What a handler promises\<close>

locale lookup_routing =
  fixes net_ok :: "'p node list \<Rightarrow> bool"
    and handle :: "'p lookup_handler"
    and dist :: "'p node list \<Rightarrow> interfaceId \<Rightarrow> interfaceId \<Rightarrow> nat"
    and lookup :: "'p node list \<Rightarrow> interfaceId \<Rightarrow> int \<Rightarrow> json \<Rightarrow> bool"
  assumes closer: "net_ok ps \<Longrightarrow> nd \<in> set ps \<Longrightarrow> t \<in> publicId ` set ps \<Longrightarrow> lookup ps t h m \<Longrightarrow>
      (\<exists>p g'. handle now nd m g = Some (p, [], g')) \<or>
      (\<exists>p m' v g'. handle now nd m g = Some (p, [UnicastTo m' v], g') \<and> v \<in> publicId ` set ps \<and> lookup ps t (h + 1) m' \<and>
        dist ps v t < dist ps (publicId nd) t)"
begin

lemma find_peer:
  assumes "u \<in> publicId ` set ps"
  obtains nd where "find (\<lambda>nd. publicId nd = u) ps = Some nd" "nd \<in> set ps" "publicId nd = u"
  using assms ex_find [where f = publicId] by force

lemma ends:
  assumes "net_ok ps" and "u \<in> publicId ` set ps" and "t \<in> publicId ` set ps" and "lookup ps t h m" and "dist ps u t < n"
  shows "\<exists>v p. lookup_run handle ps n r u m g = Some (v, p)"
  using assms(2-5)
proof (induction n arbitrary: u h m r g)
  case (Suc n)
  from Suc.prems(1) obtain nd where nd: "find (\<lambda>nd. publicId nd = u) ps = Some nd" "nd \<in> set ps" "publicId nd = u"
    by (rule find_peer)
  from closer [OF assms(1) nd(2) Suc.prems(2,3), of "r 0" g] show ?case
  proof (elim disjE exE conjE)
    fix p m' v g'
    assume step: "handle (r 0) nd m g = Some (p, [UnicastTo m' v], g')" "v \<in> publicId ` set ps" "lookup ps t (h + 1) m'"
      "dist ps v t < dist ps (publicId nd) t"
    with Suc.prems(4) nd(3) have "dist ps v t < n" by simp
    from Suc.IH [OF step(2) Suc.prems(2) step(3) this] nd step(1) show ?thesis by simp
  qed (use nd in simp)
qed simp

end

locale live_routing = lookup_routing +
  fixes counted :: "int \<Rightarrow> 'a \<Rightarrow> 'a \<Rightarrow> bool"
  assumes arrive: "net_ok ps \<Longrightarrow> nd \<in> set ps \<Longrightarrow> lookup ps (publicId nd) h m \<Longrightarrow>
      \<exists>p g'. handle now nd m g = Some (p, [], g') \<and> counted h (nd_state nd) p"
    and forwards: "net_ok ps \<Longrightarrow> nd \<in> set ps \<Longrightarrow> t \<in> publicId ` set ps \<Longrightarrow> t \<noteq> publicId nd \<Longrightarrow> lookup ps t h m \<Longrightarrow>
      handle now nd m g \<noteq> Some (p, [], g')"
begin

lemma delivered:
  assumes "net_ok ps" and "u \<in> publicId ` set ps" and "t \<in> publicId ` set ps" and "lookup ps t h m" and "dist ps u t < n"
  shows "\<exists>k nd p. k \<le> dist ps u t \<and> nd \<in> set ps \<and> publicId nd = t \<and> counted (h + int k) (nd_state nd) p \<and>
    lookup_run handle ps n r u m g = Some (t, p)"
  using assms(2-5)
proof (induction n arbitrary: u h m r g)
  case (Suc n)
  from Suc.prems(1) obtain nd where nd: "find (\<lambda>nd. publicId nd = u) ps = Some nd" "nd \<in> set ps" "publicId nd = u"
    by (rule find_peer)
  show ?case
  proof (cases "t = u")
    case True
    with nd Suc.prems(3) arrive [OF assms(1) nd(2), of h m "r 0" g] show ?thesis by force
  next
    case False
    with nd forwards [OF assms(1) nd(2) Suc.prems(2), of h m "r 0" g] closer [OF assms(1) nd(2) Suc.prems(2,3), of "r 0" g] Suc.prems(3)
    obtain p m' v g' where
      step: "handle (r 0) nd m g = Some (p, [UnicastTo m' v], g')" "v \<in> publicId ` set ps" "lookup ps t (h + 1) m'"
        "dist ps v t < dist ps u t" by blast
    with Suc.prems(4) have "dist ps v t < n" by simp
    from Suc.IH [OF step(2) Suc.prems(2) step(3) this, of "\<lambda>k. r (Suc k)" g'] obtain k nd' q where
      k: "k \<le> dist ps v t" "nd' \<in> set ps" "publicId nd' = t" "counted (h + 1 + int k) (nd_state nd') q"
        "lookup_run handle ps n (\<lambda>k. r (Suc k)) v m' g' = Some (t, q)" by auto
    with step(4) have "Suc k \<le> dist ps u t" by simp
    moreover have "h + 1 + int k = h + int (Suc k)" by simp
    moreover have "lookup_run handle ps (Suc n) r u m g = Some (t, q)" using nd(1) step(1) k(5) by simp
    ultimately show ?thesis using k(2-4) by (metis (no_types, lifting))
  qed
qed simp

end

end
