(* ===== verification/LinearChord.thy ===== *)
theory LinearChord
  imports Routing
begin

text \<open>
  The ring overlay: src/quantas/LinearChordPeer/LinearChordPeer.cpp. Positions on the ring are natural
  numbers; the differences the code takes modulo the ring size do not go below zero. A handler maps the
  state of the peer to the new one and its sends; \<open>me\<close> is the public identifier.
\<close>

subsection \<open>State and configuration\<close>

record fingerEntry =
  fe_nodeId :: interfaceId
  fe_ringIndex :: nat
  fe_skip :: nat
  fe_skipNormalized :: nat

record chordPeer =
  lc_ringOrder :: "interfaceId list"
  lc_indexById :: "interfaceId \<rightharpoonup> nat"
  lc_fingers :: "fingerEntry list"
  lc_selfIndex :: nat
  lc_initialized :: bool
  lc_requestsSatisfied :: int
  lc_totalHops :: int
  lc_totalLatency :: int

definition new_chordPeer :: chordPeer where
  "new_chordPeer = \<lparr>lc_ringOrder = [], lc_indexById = Map.empty, lc_fingers = [], lc_selfIndex = 0, lc_initialized = False,
     lc_requestsSatisfied = 0, lc_totalHops = 0, lc_totalLatency = 0\<rparr>"

text \<open>The number of bits of \<open>m\<close>: the loop that counts while \<open>1 << bits\<close> is at most \<open>m\<close>.\<close>

function finger_bits :: "nat \<Rightarrow> nat \<Rightarrow> nat" where
  "finger_bits m b = (if 2 ^ b \<le> m then finger_bits m (Suc b) else b)"
  by pat_completeness auto
termination
  by (relation "measure (\<lambda>(m, b). m - b)") (auto intro!: diff_less_mono2 dest: less_le_trans [OF less_exp])

declare finger_bits.simps [simp del]

definition add_finger :: "interfaceId \<Rightarrow> nat \<Rightarrow> interfaceId list \<Rightarrow> nat \<Rightarrow> fingerEntry list \<Rightarrow> fingerEntry list" where
  "add_finger me self ring k fingers =
     (let ringSize = length ring; skip = 2 ^ k; normalized = skip mod ringSize; idx = (self + skip) mod ringSize; nodeId = ring ! idx
      in if normalized = 0 \<or> nodeId = me \<or> fingers \<noteq> [] \<and> fe_nodeId (last fingers) = nodeId then fingers
         else fingers @ [\<lparr>fe_nodeId = nodeId, fe_ringIndex = idx, fe_skip = skip, fe_skipNormalized = normalized\<rparr>])"

definition buildFingerTable :: "interfaceId \<Rightarrow> chordPeer \<Rightarrow> chordPeer" where
  "buildFingerTable me p =
     (if length (lc_ringOrder p) \<le> 1 then p\<lparr>lc_fingers := []\<rparr>
      else p\<lparr>lc_fingers := fold (add_finger me (lc_selfIndex p) (lc_ringOrder p))
                [0..<finger_bits (length (lc_ringOrder p) - 1) 0] []\<rparr>)"

definition index_map :: "interfaceId list \<Rightarrow> interfaceId \<rightharpoonup> nat" where
  "index_map ring = fold (\<lambda>i m. m(ring ! i \<mapsto> i)) [0..<length ring] Map.empty"

definition lc_configure :: "interfaceId list \<Rightarrow> interfaceId \<Rightarrow> chordPeer \<Rightarrow> chordPeer" where
  "lc_configure ring me p = buildFingerTable me (p\<lparr>lc_ringOrder := ring, lc_indexById := index_map ring,
     lc_selfIndex := (case index_map ring me of Some i \<Rightarrow> i | None \<Rightarrow> 0), lc_requestsSatisfied := 0, lc_totalHops := 0,
     lc_totalLatency := 0, lc_initialized := True\<rparr>)"

definition lc_initParameters :: "chordPeer node list \<Rightarrow> chordPeer node list" where
  "lc_initParameters ps = (let ring = sort (map publicId ps) in map (\<lambda>n. n\<lparr>nd_state := lc_configure ring (publicId n) (nd_state n)\<rparr>) ps)"

subsection \<open>The next hop\<close>

definition ring_distance :: "chordPeer \<Rightarrow> nat \<Rightarrow> nat" where
  "ring_distance p i = (i + length (lc_ringOrder p) - lc_selfIndex p) mod length (lc_ringOrder p)"

definition selectFinger :: "interfaceId \<Rightarrow> idset \<Rightarrow> chordPeer \<Rightarrow> interfaceId" where
  "selectFinger target neighborSet p =
     (if length (lc_ringOrder p) \<le> 1 then NO_PEER_ID
      else case lc_indexById p target of None \<Rightarrow> NO_PEER_ID
        | Some i \<Rightarrow> (let d = ring_distance p i in
            if d = 0 then NO_PEER_ID
            else fst (fold (\<lambda>e (best, bestSkip).
              if fe_nodeId e \<in> set neighborSet \<and> fe_skipNormalized e \<noteq> 0 \<and> fe_skipNormalized e \<le> d \<and> fe_skipNormalized e > bestSkip
              then (fe_nodeId e, fe_skipNormalized e) else (best, bestSkip)) (lc_fingers p) (NO_PEER_ID, 0))))"

text \<open>The neighbour with the least clockwise distance that is at most \<open>bound\<close>.\<close>

definition nearest_neighbor :: "nat \<Rightarrow> idset \<Rightarrow> chordPeer \<Rightarrow> interfaceId" where
  "nearest_neighbor bound neighborSet p =
     fst (fold (\<lambda>n (best, bestDistance). case lc_indexById p n of None \<Rightarrow> (best, bestDistance)
       | Some i \<Rightarrow> (let d = ring_distance p i in
           if d \<noteq> 0 \<and> d \<le> bound \<and> d < bestDistance then (n, d) else (best, bestDistance)))
       neighborSet (NO_PEER_ID, length (lc_ringOrder p)))"

definition chooseClockwiseNeighbor :: "interfaceId \<Rightarrow> idset \<Rightarrow> chordPeer \<Rightarrow> interfaceId" where
  "chooseClockwiseNeighbor target neighborSet p =
     (if length (lc_ringOrder p) \<le> 1 \<or> neighborSet = [] then NO_PEER_ID
      else case lc_indexById p target of None \<Rightarrow> NO_PEER_ID
        | Some i \<Rightarrow> (let d = ring_distance p i in
            if d = 0 then NO_PEER_ID
            else let best = nearest_neighbor d neighborSet p in
              if best \<noteq> NO_PEER_ID then best else nearest_neighbor (length (lc_ringOrder p)) neighborSet p))"

definition next_hop :: "interfaceId \<Rightarrow> idset \<Rightarrow> chordPeer \<Rightarrow> interfaceId" where
  "next_hop target neighborSet p = (let h = selectFinger target neighborSet p in
     if h = NO_PEER_ID then chooseClockwiseNeighbor target neighborSet p else h)"

definition dispatchLookup :: "interfaceId \<Rightarrow> json \<Rightarrow> interfaceId \<Rightarrow> idset \<Rightarrow> send list option" where
  "dispatchLookup me msg nextHop neighborSet =
     (if nextHop = NO_PEER_ID \<or> nextHop = me \<or> nextHop \<notin> set neighborSet then Some []
      else do {
        hops \<leftarrow> value_int msg ''hops'' 0;
        msg \<leftarrow> jset ''hops'' (JInt (hops + 1)) msg;
        msg \<leftarrow> jset ''lastHop'' (JInt me) msg;
        Some [UnicastTo msg nextHop] })"

subsection \<open>Lookups\<close>

definition lc_handleLookup :: "interfaceId \<Rightarrow> idset \<Rightarrow> int \<Rightarrow> json \<Rightarrow> chordPeer \<Rightarrow> (chordPeer \<times> send list) option" where
  "lc_handleLookup me neighborSet now msg p = do {
     target \<leftarrow> value_id msg ''targetId'' NO_PEER_ID;
     if target = NO_PEER_ID then Some (p, [])
     else if target = me then do {
       hops \<leftarrow> value_int msg ''hops'' 0;
       submitted \<leftarrow> value_int msg ''roundSubmitted'' (to_int32 now);
       Some (p\<lparr>lc_requestsSatisfied := lc_requestsSatisfied p + 1, lc_totalHops := lc_totalHops p + hops,
               lc_totalLatency := lc_totalLatency p + (to_int32 now - submitted)\<rparr>, []) }
     else do {
       out \<leftarrow> dispatchLookup me msg (next_hop target neighborSet p) neighborSet;
       Some (p, out) } }"

definition lc_receive :: "interfaceId \<Rightarrow> idset \<Rightarrow> int \<Rightarrow> json \<Rightarrow> chordPeer \<times> send list \<Rightarrow> (chordPeer \<times> send list) option" where
  "lc_receive me neighborSet now msg = (\<lambda>(p, out).
     if jfind ''type'' msg \<noteq> Some (JStr ''LinearChord'') then Some (p, out)
     else do {
       messageType \<leftarrow> value_string msg ''messageType'' [];
       if messageType \<noteq> ''lookup'' then Some (p, out)
       else do { (p, sends) \<leftarrow> lc_handleLookup me neighborSet now msg p; Some (p, out @ sends) } })"

definition chord_perform :: "chordPeer perform" where
  "chord_perform now n g =
     (if \<not> lc_initialized (nd_state n) then Some (n, [], g)
      else do {
        (p, out) \<leftarrow> foldM (lc_receive (publicId n) (if_neighbors (nd_iface n)) now) (map pk_body (if_inStream (nd_iface n))) (nd_state n, []);
        Some (n\<lparr>nd_iface := (nd_iface n)\<lparr>if_inStream := []\<rparr>, nd_state := p\<rparr>, out, g) })"

definition makeLookupTemplate :: "interfaceId \<Rightarrow> int \<Rightarrow> interfaceId \<Rightarrow> int \<Rightarrow> json" where
  "makeLookupTemplate me now target transactionId = jobject
     [(''type'', JStr ''LinearChord''), (''messageType'', JStr ''lookup''), (''transactionId'', JInt transactionId),
      (''originId'', JInt me), (''targetId'', JInt target), (''roundSubmitted'', JInt (to_int32 now)), (''hops'', JInt 0)]"

definition pickRandomTarget :: "interfaceId \<Rightarrow> chordPeer \<Rightarrow> rng \<Rightarrow> (interfaceId \<times> rng) option" where
  "pickRandomTarget me p g = (let ring = lc_ringOrder p in
     if ring = [] then Some (me, g)
     else do {
       (index, g) \<leftarrow> randMod (int (length ring)) g;
       let candidate = ring ! nat index;
       Some (if candidate = me \<and> length ring > 1 then ring ! ((nat index + 1) mod length ring) else candidate, g) })"

definition lc_submitLookup :: "interfaceId \<Rightarrow> idset \<Rightarrow> int \<Rightarrow> int \<Rightarrow> chordPeer \<Rightarrow> rng \<Rightarrow> (chordPeer \<times> send list \<times> rng) option" where
  "lc_submitLookup me neighborSet now transactionId p g =
     (if \<not> lc_initialized p \<or> lc_ringOrder p = [] then Some (p, [], g)
      else do {
        (target, g) \<leftarrow> pickRandomTarget me p g;
        if target = me then Some (p\<lparr>lc_requestsSatisfied := lc_requestsSatisfied p + 1\<rparr>, [], g)
        else do {
          out \<leftarrow> dispatchLookup me (makeLookupTemplate me now target transactionId) (next_hop target neighborSet p) neighborSet;
          Some (p, out, g) } })"

text \<open>
  \<open>endOfRound\<close>: one random peer submits a lookup with the next transaction number; logged are the
  averages of hops and latency, when a request has been satisfied, and the satisfied requests.
\<close>

definition lc_endOfRound :: "int \<Rightarrow> chordPeer node list \<Rightarrow> int \<Rightarrow> rng \<Rightarrow>
    (chordPeer node list \<times> (nat \<times> send list) list \<times> int \<times> rng \<times> ((real \<times> real) option \<times> real) option) option" where
  "lc_endOfRound now ps nextTransactionId g =
     (if ps = [] then Some (ps, [], nextTransactionId, g, None)
      else do {
        (idx, g) \<leftarrow> randMod (int (length ps)) g;
        let n = ps ! nat idx;
        (p, out, g) \<leftarrow> lc_submitLookup (publicId n) (if_neighbors (nd_iface n)) now nextTransactionId (nd_state n) g;
        let ps = ps[nat idx := n\<lparr>nd_state := p\<rparr>];
        let satisfied = sum_list (map (\<lambda>n. lc_requestsSatisfied (nd_state n)) ps);
        let hops = sum_list (map (\<lambda>n. lc_totalHops (nd_state n)) ps);
        let latency = sum_list (map (\<lambda>n. lc_totalLatency (nd_state n)) ps);
        Some (ps, [(nat idx, out)], nextTransactionId + 1, g,
          Some (if satisfied > 0 then Some (of_int hops / of_int satisfied, of_int latency / of_int satisfied) else None, of_int satisfied)) })"


subsection \<open>The finger table\<close>

lemma finger_bits_spec: "m < 2 ^ finger_bits m b \<and> b \<le> finger_bits m b \<and> (\<forall>c. b \<le> c \<longrightarrow> c < finger_bits m b \<longrightarrow> 2 ^ c \<le> m)"
proof (induction m b rule: finger_bits.induct)
  case (1 m b)
  show ?case
  proof (cases "2 ^ b \<le> m")
    case True
    have eq: "finger_bits m b = finger_bits m (Suc b)" using True by (subst finger_bits.simps) simp
    show ?thesis unfolding eq using 1 [OF True] True by (metis Suc_leD Suc_leI le_neq_implies_less)
  qed (simp add: finger_bits.simps)
qed

lemma finger_bits_le: "m < 2 ^ c \<Longrightarrow> finger_bits m 0 \<le> c"
  using finger_bits_spec [of m 0] by (meson leD leI le0)

lemma index_map_upto:
  assumes "distinct ring"
  shows "k \<le> length ring \<Longrightarrow> fold (\<lambda>i m. m(ring ! i \<mapsto> i)) [0..<k] Map.empty x = Some j \<longleftrightarrow> j < k \<and> ring ! j = x"
proof (induction k)
  case (Suc k)
  with assms show ?case by (auto simp: less_Suc_eq nth_eq_iff_index_eq)
qed simp

lemma index_map_iff: "distinct ring \<Longrightarrow> index_map ring x = Some j \<longleftrightarrow> j < length ring \<and> ring ! j = x"
  by (simp add: index_map_def index_map_upto)

lemma ring_mod: "x < 2 * n \<Longrightarrow> x mod n = (if x < n then x else x - (n :: nat))"
  by (simp add: le_mod_geq)

lemma ring_mod_inj:
  assumes "(i + s) mod n = (i + s') mod n" and "s < n" "s' < n" "i < (n :: nat)"
  shows "s = s'"
proof -
  have "(i + s) mod n = (if i + s < n then i + s else i + s - n)" by (rule ring_mod) (use assms in linarith)
  moreover have "(i + s') mod n = (if i + s' < n then i + s' else i + s' - n)" by (rule ring_mod) (use assms in linarith)
  ultimately show ?thesis using assms by (simp split: if_splits)
qed

lemma ring_mod_other: "i < n \<Longrightarrow> 0 < s \<Longrightarrow> s < (n :: nat) \<Longrightarrow> (i + s) mod n \<noteq> i"
  by (subst ring_mod) auto

lemma ring_diff: "i < n \<Longrightarrow> j < (n :: nat) \<Longrightarrow> (j + n - i) mod n = (if i \<le> j then j - i else j + n - i)"
  by (subst ring_mod) auto

lemma ring_shift:
  assumes "i < n" "j < n" and d: "d = (j + n - i) mod n" and "s \<le> (d :: nat)"
  shows "(j + n - (i + s) mod n) mod n = d - s"
proof -
  have d: "d = (if i \<le> j then j - i else j + n - i)" using assms(1-3) by (simp add: ring_diff)
  have "d < n" using assms(1-3) by simp
  with assms have sum: "(i + s) mod n = (if i + s < n then i + s else i + s - n)" by (intro ring_mod) linarith
  have "(i + s) mod n < n" using assms(1) by simp
  from ring_diff [OF this assms(2)] show ?thesis
    unfolding sum using d assms(1,2,4) by (auto split: if_splits)
qed

definition finger_entry :: "nat \<Rightarrow> interfaceId list \<Rightarrow> nat \<Rightarrow> fingerEntry" where
  "finger_entry self ring k = \<lparr>fe_nodeId = ring ! ((self + 2 ^ k) mod length ring), fe_ringIndex = (self + 2 ^ k) mod length ring,
     fe_skip = 2 ^ k, fe_skipNormalized = 2 ^ k\<rparr>"

lemma fingers_upto:
  assumes "distinct ring" "self < length ring" "k \<le> finger_bits (length ring - 1) 0" "2 \<le> length ring"
  shows "fold (add_finger (ring ! self) self ring) [0..<k] [] = map (finger_entry self ring) [0..<k]"
  using assms(3)
proof (induction k)
  case (Suc k)
  let ?n = "length ring"
  have small: "2 ^ c < ?n" if "c < Suc k" for c
  proof -
    from that Suc.prems have "c < finger_bits (?n - 1) 0" by simp
    with finger_bits_spec [of "?n - 1" 0] have "2 ^ c \<le> ?n - 1" by blast
    with assms(4) show ?thesis by linarith
  qed
  have n: "(self + s) mod ?n < ?n" for s by (rule mod_less_divisor) (use assms(4) in linarith)
  have "ring ! ((self + 2 ^ k) mod ?n) \<noteq> ring ! self"
    using ring_mod_other [of self ?n "2 ^ k"] small [of k] assms(1,2) n by (auto simp: nth_eq_iff_index_eq)
  moreover have "ring ! ((self + 2 ^ c) mod ?n) \<noteq> ring ! ((self + 2 ^ k) mod ?n)" if "Suc c = k" for c
    using ring_mod_inj [of self "2 ^ c" ?n "2 ^ k"] small [of k] small [of c] that assms(1,2,4) n by (auto simp: nth_eq_iff_index_eq)
  ultimately show ?case using Suc small [of k]
    by (cases k) (auto simp: add_finger_def Let_def finger_entry_def last_map)
qed simp

subsection \<open>A hop goes to the farthest finger before the target\<close>

lemma fold_best:
  fixes f :: "'a \<Rightarrow> nat"
  assumes "fold (\<lambda>e (b, s). if P e \<and> f e > s then (g e, f e) else (b, s)) es (b0, s0) = (b, s)"
  shows "s0 \<le> s \<and> (\<forall>e \<in> set es. P e \<longrightarrow> f e \<le> s) \<and> ((b, s) = (b0, s0) \<or> (\<exists>e \<in> set es. P e \<and> b = g e \<and> s = f e))"
  using assms
proof (induction es arbitrary: b0 s0)
  case (Cons e es)
  then show ?case by (fastforce split: if_splits)
qed simp


text \<open>
  A configured network: every peer has the ring of all identifiers, its own index and its fingers; the
  counters may have any values.
\<close>

definition chord_peer_ready :: "interfaceId list \<Rightarrow> interfaceId \<Rightarrow> chordPeer \<Rightarrow> bool" where
  "chord_peer_ready ring me p = (p\<lparr>lc_requestsSatisfied := 0, lc_totalHops := 0, lc_totalLatency := 0\<rparr> = lc_configure ring me new_chordPeer)"

definition chord_ready :: "chordPeer node list \<Rightarrow> bool" where
  "chord_ready ps = (distinct (map publicId ps) \<and> NO_PEER_ID \<notin> publicId ` set ps \<and>
     (\<forall>nd \<in> set ps. chord_peer_ready (sort (map publicId ps)) (publicId nd) (nd_state nd)))"

text \<open>Every peer has its successor on the ring among its neighbours.\<close>

definition chord_successors :: "chordPeer node list \<Rightarrow> bool" where
  "chord_successors ps = (let ring = sort (map publicId ps) in
     \<forall>nd \<in> set ps. \<forall>i < length ring. ring ! i = publicId nd \<longrightarrow> ring ! ((i + 1) mod length ring) \<in> nbrs nd)"

lemma lc_configure_fields:
  assumes "distinct ring" "i < length ring"
  shows "lc_ringOrder (lc_configure ring (ring ! i) p) = ring" "lc_indexById (lc_configure ring (ring ! i) p) = index_map ring"
    "lc_selfIndex (lc_configure ring (ring ! i) p) = i" "lc_initialized (lc_configure ring (ring ! i) p)"
    "2 \<le> length ring \<Longrightarrow> lc_fingers (lc_configure ring (ring ! i) p) = map (finger_entry i ring) [0..<finger_bits (length ring - 1) 0]"
proof -
  have self: "index_map ring (ring ! i) = Some i" using assms by (simp add: index_map_iff)
  show "lc_ringOrder (lc_configure ring (ring ! i) p) = ring" "lc_indexById (lc_configure ring (ring ! i) p) = index_map ring"
    "lc_selfIndex (lc_configure ring (ring ! i) p) = i" "lc_initialized (lc_configure ring (ring ! i) p)"
    by (simp_all add: lc_configure_def buildFingerTable_def self)
  assume "2 \<le> length ring"
  with assms show "lc_fingers (lc_configure ring (ring ! i) p) = map (finger_entry i ring) [0..<finger_bits (length ring - 1) 0]"
    by (simp add: lc_configure_def buildFingerTable_def self fingers_upto)
qed

lemma lc_configure_reset: "lc_configure ring me p = lc_configure ring me new_chordPeer"
  by (cases p) (simp add: lc_configure_def buildFingerTable_def new_chordPeer_def)

lemma lc_initParameters_ready:
  "distinct (map publicId ps) \<Longrightarrow> NO_PEER_ID \<notin> publicId ` set ps \<Longrightarrow> chord_ready (lc_initParameters ps)"
proof -
  have "(lc_configure ring me p)\<lparr>lc_requestsSatisfied := 0, lc_totalHops := 0, lc_totalLatency := 0\<rparr> = lc_configure ring me p" for ring me p
    by (simp add: lc_configure_def buildFingerTable_def)
  then show "distinct (map publicId ps) \<Longrightarrow> NO_PEER_ID \<notin> publicId ` set ps \<Longrightarrow> chord_ready (lc_initParameters ps)"
    by (auto simp: chord_ready_def lc_initParameters_def Let_def chord_peer_ready_def o_def image_image lc_configure_reset [of _ _ "nd_state _"])
qed

lemma ready_fields:
  assumes "chord_peer_ready ring (ring ! i) p" "distinct ring" "i < length ring"
  shows "lc_ringOrder p = ring" "lc_indexById p = index_map ring" "lc_selfIndex p = i"
    "2 \<le> length ring \<Longrightarrow> lc_fingers p = map (finger_entry i ring) [0..<finger_bits (length ring - 1) 0]"
proof -
  note conf = lc_configure_fields [OF assms(2,3), of new_chordPeer, folded assms(1) [unfolded chord_peer_ready_def]]
  from conf show "lc_ringOrder p = ring" "lc_indexById p = index_map ring" "lc_selfIndex p = i"
    "2 \<le> length ring \<Longrightarrow> lc_fingers p = map (finger_entry i ring) [0..<finger_bits (length ring - 1) 0]"
    by simp_all
qed

lemma selectFinger_farthest:
  assumes ready: "chord_peer_ready ring (ring ! i) p" "distinct ring" "NO_PEER_ID \<notin> set ring" and ij: "i < length ring" "j < length ring" "i \<noteq> j"
    and d: "d = (j + length ring - i) mod length ring"
    and k: "k < finger_bits (length ring - 1) 0" "2 ^ k \<le> d" "ring ! ((i + 2 ^ k) mod length ring) \<in> set neighborSet"
  shows "\<exists>s. selectFinger (ring ! j) neighborSet p = ring ! ((i + s) mod length ring) \<and>
    ring ! ((i + s) mod length ring) \<in> set neighborSet \<and> 2 ^ k \<le> s \<and> s \<le> d"
proof -
  let ?P = "\<lambda>e. fe_nodeId e \<in> set neighborSet \<and> fe_skipNormalized e \<noteq> 0 \<and> fe_skipNormalized e \<le> d"
  let ?step = "\<lambda>e (b, s). if ?P e \<and> fe_skipNormalized e > s then (fe_nodeId e, fe_skipNormalized e) else (b, s)"
  let ?es = "map (finger_entry i ring) [0..<finger_bits (length ring - 1) 0]"
  have n: "2 \<le> length ring" using ij by linarith
  note fields = ready_fields [OF ready(1,2) ij(1)]
  obtain b s where best: "fold ?step ?es (NO_PEER_ID, 0) = (b, s)" by fastforce
  from fold_best [OF this] k have *: "2 ^ k \<le> s" "\<exists>e \<in> set ?es. ?P e \<and> b = fe_nodeId e \<and> s = fe_skipNormalized e"
    by (auto simp: finger_entry_def)
  have "d \<noteq> 0" using d ij by (simp add: ring_diff split: if_splits)
  moreover have "index_map ring (ring ! j) = Some j" using ready(2) ij by (simp add: index_map_iff)
  ultimately have "selectFinger (ring ! j) neighborSet p = b"
    using n best fields(4) [OF n] d by (simp add: selectFinger_def fields(1-3) ring_distance_def conj_assoc)
  with * show ?thesis by (auto simp: finger_entry_def)
qed


subsection \<open>Lookups arrive\<close>

definition chord_handle :: "chordPeer lookup_handler" where
  "chord_handle now nd m g = map_option (\<lambda>(p, out). (p, out, g))
     (lc_handleLookup (publicId nd) (if_neighbors (nd_iface nd)) now m (nd_state nd))"

definition chord_dist :: "chordPeer node list \<Rightarrow> interfaceId \<Rightarrow> interfaceId \<Rightarrow> nat" where
  "chord_dist ps u t = (let ring = sort (map publicId ps) in case (index_map ring u, index_map ring t) of
     (Some i, Some j) \<Rightarrow> (j + length ring - i) mod length ring | _ \<Rightarrow> 0)"

definition chord_counted :: "int \<Rightarrow> chordPeer \<Rightarrow> chordPeer \<Rightarrow> bool" where
  "chord_counted h p p' = (lc_requestsSatisfied p' = lc_requestsSatisfied p + 1 \<and> lc_totalHops p' = lc_totalHops p + h)"

lemma chord_arrive:
  assumes "chord_ready ps" "nd \<in> set ps" "is_lookup (publicId nd) h m"
  shows "\<exists>p g'. chord_handle now nd m g = Some (p, [], g') \<and> chord_counted h (nd_state nd) p"
proof -
  from assms(1,2) have "publicId nd \<noteq> NO_PEER_ID" by (force simp: chord_ready_def)
  moreover obtain s where "value_int m ''roundSubmitted'' (to_int32 now) = Some s" using assms(3) by (auto simp: is_lookup_def)
  ultimately show ?thesis using assms(3) by (simp add: chord_handle_def lc_handleLookup_def is_lookup_def chord_counted_def)
qed

lemma dispatch_forwards:
  assumes "is_lookup t h m" and "v \<noteq> NO_PEER_ID" "v \<noteq> me" "v \<in> set neighborSet"
  shows "\<exists>m'. dispatchLookup me m v neighborSet = Some [UnicastTo m' v] \<and> is_lookup t (h + 1) m'"
proof -
  from assms(1) obtain m1 where m1: "jset ''hops'' (JInt (h + 1)) m = Some m1" using jset_total [of m "''hops''" "JInt (h + 1)"] by (auto simp: is_lookup_def)
  from jset_total [OF jset_is_object [OF this]] obtain m2 where m2: "jset ''lastHop'' (JInt me) m1 = Some m2" by blast
  from is_lookup_forward [OF assms(1) m1 m2] assms m1 m2 show ?thesis by (simp add: dispatchLookup_def is_lookup_def)
qed

lemma chord_forward:
  assumes ready: "chord_ready ps" and nd: "nd \<in> set ps" and t: "t \<in> publicId ` set ps" "t \<noteq> publicId nd" and m: "is_lookup t h m"
    and k: "2 ^ k \<le> chord_dist ps (publicId nd) t"
    and finger: "\<And>i. i < length ps \<Longrightarrow> sort (map publicId ps) ! i = publicId nd \<Longrightarrow>
      sort (map publicId ps) ! ((i + 2 ^ k) mod length ps) \<in> nbrs nd"
  shows "\<exists>p m' v g'. chord_handle now nd m g = Some (p, [UnicastTo m' v], g') \<and> v \<in> publicId ` set ps \<and> is_lookup t (h + 1) m' \<and>
    chord_dist ps v t + 2 ^ k \<le> chord_dist ps (publicId nd) t"
proof -
  let ?ring = "sort (map publicId ps)"
  have ring: "distinct ?ring" "NO_PEER_ID \<notin> set ?ring" "set ?ring = publicId ` set ps" "length ?ring = length ps"
    using ready by (auto simp: chord_ready_def)
  from nd ring obtain i where i: "i < length ?ring" "?ring ! i = publicId nd" by (metis imageI in_set_conv_nth)
  from t ring obtain j where j: "j < length ?ring" "?ring ! j = t" by (metis in_set_conv_nth)
  have ij: "i \<noteq> j" using i j t by auto
  let ?d = "(j + length ?ring - i) mod length ?ring"
  have index: "index_map ?ring (?ring ! x) = Some x" if "x < length ?ring" for x using that ring(1) by (simp add: index_map_iff)
  have d: "chord_dist ps (publicId nd) t = ?d" using index [OF i(1)] index [OF j(1)] i j by (simp add: chord_dist_def)
  have small: "?d < length ?ring" using i by (intro mod_less_divisor) linarith
  have peer: "chord_peer_ready ?ring (?ring ! i) (nd_state nd)" using ready nd i by (auto simp: chord_ready_def)
  have "k < finger_bits (length ?ring - 1) 0"
  proof (rule ccontr)
    assume "\<not> k < finger_bits (length ?ring - 1) 0"
    then have "(2 :: nat) ^ finger_bits (length ?ring - 1) 0 \<le> 2 ^ k" by simp
    with finger_bits_spec [of "length ?ring - 1" 0] k d small show False by linarith
  qed
  from selectFinger_farthest [OF peer ring(1,2) i(1) j(1) ij refl this] finger [of i] k d i ring(4) obtain s where
    s: "selectFinger (?ring ! j) (if_neighbors (nd_iface nd)) (nd_state nd) = ?ring ! ((i + s) mod length ?ring)"
      "?ring ! ((i + s) mod length ?ring) \<in> nbrs nd" "2 ^ k \<le> s" "s \<le> ?d" by auto
  let ?v = "?ring ! ((i + s) mod length ?ring)"
  have pos: "(i + s) mod length ?ring < length ?ring" using i by (intro mod_less_divisor) linarith
  have v: "?v \<in> publicId ` set ps" "?v \<noteq> NO_PEER_ID" using nth_mem [OF pos] ring by auto
  have "0 < s" using s(3) by (meson less_le_trans pos2 zero_less_power)
  then have "(i + s) mod length ?ring \<noteq> i" by (intro ring_mod_other) (use s(4) small i in linarith)+
  then have me: "?v \<noteq> publicId nd" using ring(1) pos i by (metis nth_eq_iff_index_eq)
  have hop: "next_hop t (if_neighbors (nd_iface nd)) (nd_state nd) = ?v" using s(1) j v by (simp add: next_hop_def Let_def)
  from dispatch_forwards [OF m v(2) me s(2)] obtain m' where
    m': "dispatchLookup (publicId nd) m ?v (if_neighbors (nd_iface nd)) = Some [UnicastTo m' ?v]" "is_lookup t (h + 1) m'" by blast
  have "t \<noteq> NO_PEER_ID" using t(1) ring(2,3) by metis
  with m m' hop t(2) have "chord_handle now nd m g = Some (nd_state nd, [UnicastTo m' ?v], g)"
    by (simp add: chord_handle_def lc_handleLookup_def is_lookup_def)
  moreover have "chord_dist ps ?v t = ?d - s"
    using index [OF pos] index [OF j(1)] j ring_shift [OF i(1) j(1) refl s(4)] by (simp add: chord_dist_def)
  ultimately show ?thesis using v m' d s(3,4) by fastforce
qed

lemma chord_dist_pos:
  assumes "chord_ready ps" "u \<in> publicId ` set ps" "t \<in> publicId ` set ps" "t \<noteq> u"
  shows "0 < chord_dist ps u t \<and> chord_dist ps u t < length ps"
proof -
  let ?ring = "sort (map publicId ps)"
  have ring: "distinct ?ring" "set ?ring = publicId ` set ps" "length ?ring = length ps" using assms(1) by (auto simp: chord_ready_def)
  with assms obtain i j where "i < length ?ring" "?ring ! i = u" "j < length ?ring" "?ring ! j = t" "i \<noteq> j" by (metis in_set_conv_nth)
  moreover from this have "index_map ?ring u = Some i" "index_map ?ring t = Some j" using ring(1) by (auto simp: index_map_iff)
  ultimately show ?thesis by (auto simp: chord_dist_def ring_diff ring(3))
qed

lemma chord_successor_hop:
  assumes "chord_ready ps" "chord_successors ps" and nd: "nd \<in> set ps" "t \<in> publicId ` set ps" "t \<noteq> publicId nd" "is_lookup t h m"
  shows "\<exists>p m' v g'. chord_handle now nd m g = Some (p, [UnicastTo m' v], g') \<and> v \<in> publicId ` set ps \<and> is_lookup t (h + 1) m' \<and>
    chord_dist ps v t < chord_dist ps (publicId nd) t"
proof -
  have "2 ^ 0 \<le> chord_dist ps (publicId nd) t" using chord_dist_pos [of ps "publicId nd" t] assms by simp
  from chord_forward [of ps nd t h m 0 now g, OF assms(1) nd this] assms(2) nd(1) show ?thesis
    by (fastforce simp: chord_successors_def Let_def)
qed

text \<open>On a fully connected network a hop clears the highest bit of the distance.\<close>

lemma chord_full_hop:
  assumes "chord_ready ps" "fully_connected ps" and nd: "nd \<in> set ps" "t \<in> publicId ` set ps" "t \<noteq> publicId nd" "is_lookup t h m"
  shows "\<exists>p m' v g'. chord_handle now nd m g = Some (p, [UnicastTo m' v], g') \<and> v \<in> publicId ` set ps \<and> is_lookup t (h + 1) m' \<and>
    finger_bits (chord_dist ps v t) 0 < finger_bits (chord_dist ps (publicId nd) t) 0"
proof -
  let ?ring = "sort (map publicId ps)" and ?d = "chord_dist ps (publicId nd) t"
  let ?k = "finger_bits ?d 0 - 1"
  have d: "0 < ?d" "?d < length ps" using chord_dist_pos [of ps "publicId nd" t] assms by auto
  have bits: "?d < 2 ^ finger_bits ?d 0" "\<And>c. c < finger_bits ?d 0 \<Longrightarrow> 2 ^ c \<le> ?d" using finger_bits_spec [of ?d 0] by auto
  have pos: "0 < finger_bits ?d 0" using bits(1) d(1) by (cases "finger_bits ?d 0") auto
  have k: "2 ^ ?k \<le> ?d" using bits(2) pos by simp
  have "?ring ! ((i + 2 ^ ?k) mod length ps) \<in> nbrs nd" if i: "i < length ps" "?ring ! i = publicId nd" for i
  proof -
    have ring: "distinct ?ring" "set ?ring = publicId ` set ps" using assms(1) by (auto simp: chord_ready_def)
    have less: "(i + 2 ^ ?k) mod length ps < length ps" using i by (intro mod_less_divisor) linarith
    have "2 ^ ?k < length ps" using k d by linarith
    then have "(i + 2 ^ ?k) mod length ps \<noteq> i" by (rule ring_mod_other [OF i(1) zero_less_power [OF pos2]])
    then have "?ring ! ((i + 2 ^ ?k) mod length ps) \<noteq> ?ring ! i"
      using nth_eq_iff_index_eq [OF ring(1), of "(i + 2 ^ ?k) mod length ps" i] less i(1) by simp
    then have "?ring ! ((i + 2 ^ ?k) mod length ps) \<noteq> publicId nd" unfolding i(2) .
    moreover have "?ring ! ((i + 2 ^ ?k) mod length ps) \<in> set ?ring" by (rule nth_mem) (use less in simp)
    then have "?ring ! ((i + 2 ^ ?k) mod length ps) \<in> publicId ` set ps" unfolding ring(2) .
    ultimately show ?thesis using assms(2) nd(1) by (auto simp: fully_connected_def)
  qed
  from chord_forward [of ps nd t h m ?k now g, OF assms(1) nd k this] obtain p m' v g' where
    hop: "chord_handle now nd m g = Some (p, [UnicastTo m' v], g')" "v \<in> publicId ` set ps" "is_lookup t (h + 1) m'"
      "chord_dist ps v t + 2 ^ ?k \<le> ?d" by blast
  have "?d < 2 ^ ?k + 2 ^ ?k" using bits(1) pos by (metis mult_2 One_nat_def Suc_pred power_Suc)
  with hop(4) have "chord_dist ps v t < 2 ^ ?k" by linarith
  then have "finger_bits (chord_dist ps v t) 0 \<le> ?k" by (rule finger_bits_le)
  with pos hop show "\<exists>p m' v g'. chord_handle now nd m g = Some (p, [UnicastTo m' v], g') \<and> v \<in> publicId ` set ps \<and> is_lookup t (h + 1) m' \<and>
      finger_bits (chord_dist ps v t) 0 < finger_bits ?d 0"
    by (metis (no_types, lifting) One_nat_def Suc_pred le_imp_less_Suc)
qed

lemma chord_handle_cases:
  assumes "t \<noteq> publicId nd \<Longrightarrow> \<exists>p m' v g'. chord_handle now nd m g = Some (p, [UnicastTo m' v], g') \<and> Q p m' v g'"
    and "chord_ready ps" "nd \<in> set ps" "is_lookup t h m"
  shows "(\<exists>p g'. chord_handle now nd m g = Some (p, [], g')) \<or> (\<exists>p m' v g'. chord_handle now nd m g = Some (p, [UnicastTo m' v], g') \<and> Q p m' v g')"
  using assms chord_arrive [of ps nd h m now g] by (cases "t = publicId nd") blast+

interpretation chord: live_routing "\<lambda>ps. chord_ready ps \<and> chord_successors ps" chord_handle chord_dist "\<lambda>_. is_lookup" chord_counted
proof (unfold_locales, goal_cases)
  case 1
  then show ?case by (intro chord_handle_cases chord_successor_hop) blast+
next
  case (3 ps nd t h m now g p g')
  then show ?case using chord_successor_hop [of ps nd t h m now g] by force
qed (blast intro: chord_arrive)

interpretation chord_full: live_routing "\<lambda>ps. chord_ready ps \<and> fully_connected ps" chord_handle
  "\<lambda>ps u t. finger_bits (chord_dist ps u t) 0" "\<lambda>_. is_lookup" chord_counted
proof (unfold_locales, goal_cases)
  case 1
  then show ?case by (intro chord_handle_cases chord_full_hop) blast+
next
  case (3 ps nd t h m now g p g')
  then show ?case using chord_full_hop [of ps nd t h m now g] by force
qed (blast intro: chord_arrive)


text \<open>
  Claim C30. On a ring overlay a lookup for any peer arrives: if every peer has its successor among its
  neighbours it makes fewer hops than there are peers, and on a fully connected network at most as many
  as the number of peers less one has bits. The target counts the request and the hops.
\<close>

theorem chord_lookup_arrives:
  assumes "chord_ready ps" and "u \<in> publicId ` set ps" and "t \<in> publicId ` set ps" and "is_lookup t h m"
    and "chord_successors ps \<or> fully_connected ps"
  shows "\<exists>k nd p. k \<le> (if fully_connected ps then finger_bits (length ps - 1) 0 else length ps - 1) \<and>
    nd \<in> set ps \<and> publicId nd = t \<and> lookup_run chord_handle ps (length ps) r u m g = Some (t, p) \<and>
    lc_requestsSatisfied p = lc_requestsSatisfied (nd_state nd) + 1 \<and> lc_totalHops p = lc_totalHops (nd_state nd) + (h + int k)"
proof -
  have dist: "chord_dist ps u t \<le> length ps - 1"
    using chord_dist_pos [OF assms(1-3)] by (cases "t = u") (auto simp: chord_dist_def Let_def ring_diff split: option.splits)
  show ?thesis
  proof (cases "fully_connected ps")
    case True
    have "0 < length ps" using assms(2) by auto
    then have bits: "finger_bits (chord_dist ps u t) 0 \<le> finger_bits (length ps - 1) 0"
      using finger_bits_spec [of "length ps - 1" 0] dist by (intro finger_bits_le) linarith
    have "finger_bits (length ps - 1) 0 \<le> length ps - 1" by (rule finger_bits_le) (rule less_exp)
    with bits \<open>0 < length ps\<close> have "finger_bits (chord_dist ps u t) 0 < length ps" by linarith
    from chord_full.delivered [OF _ assms(2-4) this, of r g] assms(1) True obtain k nd p where
      "k \<le> finger_bits (chord_dist ps u t) 0" "nd \<in> set ps" "publicId nd = t" "chord_counted (h + int k) (nd_state nd) p"
      "lookup_run chord_handle ps (length ps) r u m g = Some (t, p)" by blast
    with True bits show ?thesis by (intro exI [of _ k] exI [of _ nd] exI [of _ p]) (simp add: chord_counted_def)
  next
    case False
    with assms(5) have "chord_successors ps" by simp
    have "chord_dist ps u t < length ps" using dist assms(2) by (cases ps) auto
    from chord.delivered [OF _ assms(2-4) this, of r g] assms(1) \<open>chord_successors ps\<close> obtain k nd p where
      "k \<le> chord_dist ps u t" "nd \<in> set ps" "publicId nd = t" "chord_counted (h + int k) (nd_state nd) p"
      "lookup_run chord_handle ps (length ps) r u m g = Some (t, p)" by blast
    with False dist show ?thesis by (intro exI [of _ k] exI [of _ nd] exI [of _ p]) (simp add: chord_counted_def)
  qed
qed


lemma makeLookupTemplate_lookup: "is_lookup t 0 (makeLookupTemplate me now t k)"
  by (simp add: is_lookup_def makeLookupTemplate_def)

definition example_ring :: "chordPeer node list" where
  "example_ring = lc_initParameters [overlay_node new_chordPeer 2 [0, 1], overlay_node new_chordPeer 0 [1, 2], overlay_node new_chordPeer 1 [0, 2]]"

theorem chord_lookup_arrives_witness:
  "\<exists>p. lookup_run chord_handle example_ring 3 (\<lambda>_. 5) 1 (makeLookupTemplate 1 4 0 7) (\<lambda>_. 0) = Some (0, p) \<and> lc_requestsSatisfied p = 1"
proof -
  have "chord_ready example_ring"
    unfolding example_ring_def by (rule lc_initParameters_ready) (simp_all add: NO_PEER_ID_def)
  moreover have "fully_connected example_ring" by (simp add: fully_connected_def example_ring_def lc_initParameters_def Let_def)
  moreover have ids: "publicId ` set example_ring = {0, 1, 2}" "length example_ring = 3"
    by (auto simp: example_ring_def lc_initParameters_def Let_def)
  moreover have "lc_requestsSatisfied (nd_state nd) = 0" if "nd \<in> set example_ring" for nd
    using that by (auto simp: example_ring_def lc_initParameters_def Let_def lc_configure_def buildFingerTable_def)
  ultimately show ?thesis
    using chord_lookup_arrives [of example_ring 1 0 0 "makeLookupTemplate 1 4 0 7" "\<lambda>_. 5" "\<lambda>_. 0"] makeLookupTemplate_lookup by auto
qed

subsection \<open>Without the successor a lookup may circle\<close>

text \<open>Four peers in a chain: the last one has no edge to the first.\<close>

definition example_chain :: "chordPeer node list" where
  "example_chain = lc_initParameters [overlay_node new_chordPeer 0 [1], overlay_node new_chordPeer 1 [0, 2],
     overlay_node new_chordPeer 2 [1, 3], overlay_node new_chordPeer 3 [2]]"

lemma example_chain_hops:
  "next_hop 1 [2] (lc_configure [0, 1, 2, 3] 3 new_chordPeer) = 2" "next_hop 1 [1, 3] (lc_configure [0, 1, 2, 3] 2 new_chordPeer) = 3"
  by code_simp+

lemma example_chain_nodes:
  "example_chain = [overlay_node (lc_configure [0, 1, 2, 3] 0 new_chordPeer) 0 [1], overlay_node (lc_configure [0, 1, 2, 3] 1 new_chordPeer) 1 [0, 2],
     overlay_node (lc_configure [0, 1, 2, 3] 2 new_chordPeer) 2 [1, 3], overlay_node (lc_configure [0, 1, 2, 3] 3 new_chordPeer) 3 [2]]"
  by (simp add: example_chain_def lc_initParameters_def overlay_node_def new_iface_def Let_def)

text \<open>The peers that hold a lookup in its first \<open>n\<close> hops; it ends early when a handler does not send it to one peer.\<close>

fun lookup_path :: "'p lookup_handler \<Rightarrow> 'p node list \<Rightarrow> nat \<Rightarrow> (nat \<Rightarrow> int) \<Rightarrow> interfaceId \<Rightarrow> json \<Rightarrow> rng \<Rightarrow> interfaceId list" where
  "lookup_path handle ps 0 r u m g = []"
| "lookup_path handle ps (Suc n) r u m g = u # (case find (\<lambda>nd. publicId nd = u) ps of
       Some nd \<Rightarrow> (case handle (r 0) nd m g of Some (_, [UnicastTo m' v], g) \<Rightarrow> lookup_path handle ps n (\<lambda>k. r (Suc k)) v m' g | _ \<Rightarrow> [])
     | None \<Rightarrow> [])"

lemma example_chain_circles:
  assumes "is_lookup 1 h m" and "u = 2 \<or> u = 3"
  shows "lookup_path chord_handle example_chain n r u m g = map (\<lambda>i. if even i then u else 5 - u) [0..<n] \<and>
    lookup_run chord_handle example_chain n r u m g = None"
  using assms
proof (induction n arbitrary: u h m r g)
  case (Suc n)
  have path: "map (\<lambda>i. if even i then u else 5 - u) [0..<Suc n] = u # map (\<lambda>i. if even i then 5 - u else 5 - (5 - u)) [0..<n]"
    by (simp del: upt_Suc add: upt_conv_Cons map_Suc_upt [symmetric] comp_def)
  from Suc.prems(2) show ?case
  proof
    assume u: "u = 2"
    from dispatch_forwards [OF Suc.prems(1), of 3 2 "[1, 3]"] obtain m' where
      "dispatchLookup 2 m 3 [1, 3] = Some [UnicastTo m' 3]" "is_lookup 1 (h + 1) m'" by (auto simp: NO_PEER_ID_def)
    with u Suc.prems(1) Suc.IH [of "h + 1" m' 3] show ?thesis unfolding path
      by (simp add: example_chain_nodes chord_handle_def lc_handleLookup_def is_lookup_def example_chain_hops NO_PEER_ID_def)
  next
    assume u: "u = 3"
    from dispatch_forwards [OF Suc.prems(1), of 2 3 "[2]"] obtain m' where
      "dispatchLookup 3 m 2 [2] = Some [UnicastTo m' 2]" "is_lookup 1 (h + 1) m'" by (auto simp: NO_PEER_ID_def)
    with u Suc.prems(1) Suc.IH [of "h + 1" m' 2] show ?thesis unfolding path
      by (simp add: example_chain_nodes chord_handle_def lc_handleLookup_def is_lookup_def example_chain_hops NO_PEER_ID_def)
  qed
qed simp

text \<open>
  Claim C32. On a chain of four peers a lookup of peer 3 for peer 1 circles for ever: whatever the rounds and the
  draws, at every hop the peer that holds it sends it to exactly one other, peers 3 and 2 in turn, so in no
  number of hops does it end. No neighbour of peer 3 lies between it and the target; the code then takes the
  nearest neighbour past the target, peer 2, and peer 2 sends the lookup on to its finger, peer 3.
\<close>

theorem chord_chain_livelock:
  "lookup_path chord_handle example_chain n r 3 (makeLookupTemplate 3 now 1 k) g = map (\<lambda>i. if even i then 3 else 2) [0..<n] \<and>
   lookup_run chord_handle example_chain n r 3 (makeLookupTemplate 3 now 1 k) g = None"
  using example_chain_circles [OF makeLookupTemplate_lookup, of 3] by simp

end
