(* ===== verification/Kademlia.thy ===== *)
theory Kademlia
  imports Routing "HOL-Library.Word" "HOL-Library.Log_Nat"
begin

unbundle bit_operations_syntax

text \<open>
  The XOR overlay: src/quantas/KademliaPeer/KademliaPeer.cpp. Identifiers become 64-bit words where the
  code casts them; the base-two logarithm of the number of peers is the library's \<open>ceillog2\<close>. The static
  members are the record \<open>kadGlobals\<close>; a handler maps the state of the peer to the new one and its sends.
\<close>

subsection \<open>State\<close>

record kadFinger =
  kf_Id :: interfaceId
  kf_binId :: string
  kf_group :: int

record kademliaPeer =
  kp_binaryIdSize :: int
  kp_binaryId :: string
  kp_allPeerIds :: "interfaceId list"
  kp_fingers :: "kadFinger list"
  kp_lastNeighborFingerprint :: "64 word"
  kp_requestsSatisfied :: int
  kp_totalHops :: int
  kp_latency :: int
  kp_alive :: bool
  kp_initialized :: bool

record kadGlobals =
  kg_currentTransactionId :: int
  kg_allPeerIds :: "interfaceId list"
  kg_binaryIdSize :: int

definition new_kademliaPeer :: kademliaPeer where
  "new_kademliaPeer = \<lparr>kp_binaryIdSize = 0, kp_binaryId = [], kp_allPeerIds = [], kp_fingers = [], kp_lastNeighborFingerprint = 0,
     kp_requestsSatisfied = 0, kp_totalHops = 0, kp_latency = 0, kp_alive = True, kp_initialized = False\<rparr>"

definition kad_globals_init :: kadGlobals where
  "kad_globals_init = \<lparr>kg_currentTransactionId = 1, kg_allPeerIds = [], kg_binaryIdSize = 1\<rparr>"

subsection \<open>Identifiers\<close>

definition xorDistance :: "interfaceId \<Rightarrow> interfaceId \<Rightarrow> 64 word" where
  "xorDistance lhs rhs = word_of_int lhs XOR word_of_int rhs"

definition getBinaryId :: "int \<Rightarrow> interfaceId \<Rightarrow> string" where
  "getBinaryId bits i =
     (if bits \<le> 0 then []
      else let value = word_of_int i :: 64 word in
        map (\<lambda>bit. if bit \<ge> 64 then CHR ''0'' else if value AND push_bit bit 1 \<noteq> 0 then CHR ''1'' else CHR ''0'') (rev [0..<nat bits]))"

fun firstDifferentBit_from :: "int \<Rightarrow> string \<Rightarrow> string \<Rightarrow> int" where
  "firstDifferentBit_from idx (a # as) (b # bs) = (if a \<noteq> b then idx else firstDifferentBit_from (idx + 1) as bs)"
| "firstDifferentBit_from idx _ _ = -1"

definition firstDifferentBit :: "string \<Rightarrow> string \<Rightarrow> int" where
  "firstDifferentBit lhs rhs = firstDifferentBit_from 0 lhs rhs"

definition neighborFingerprint :: "idset \<Rightarrow> 64 word" where
  "neighborFingerprint neighborSet =
     fold (\<lambda>i hash. hash XOR (word_of_int i + 0x9e3779b97f4a7c15 + push_bit 6 hash + drop_bit 2 hash)) neighborSet (word_of_nat (length neighborSet))"

subsection \<open>Configuration\<close>

definition applyGlobalParameters :: "kadGlobals \<Rightarrow> interfaceId \<Rightarrow> kademliaPeer \<Rightarrow> kademliaPeer" where
  "applyGlobalParameters gl me p =
     (if kg_binaryIdSize gl \<le> 0 \<or> kg_allPeerIds gl = [] then p
      else p\<lparr>kp_binaryIdSize := kg_binaryIdSize gl, kp_allPeerIds := kg_allPeerIds gl,
             kp_binaryId := getBinaryId (kg_binaryIdSize gl) me, kp_initialized := True\<rparr>)"

definition ensureInitialized :: "kadGlobals \<Rightarrow> interfaceId \<Rightarrow> kademliaPeer \<Rightarrow> kademliaPeer" where
  "ensureInitialized gl me p =
     (if \<not> kp_initialized p then applyGlobalParameters gl me p
      else let p = (if kg_binaryIdSize gl > 0 \<and> kp_binaryIdSize p \<noteq> kg_binaryIdSize gl
                    then p\<lparr>kp_binaryIdSize := kg_binaryIdSize gl, kp_binaryId := getBinaryId (kg_binaryIdSize gl) me\<rparr> else p)
           in if kg_allPeerIds gl \<noteq> [] then p\<lparr>kp_allPeerIds := kg_allPeerIds gl\<rparr> else p)"

definition kad_binaryIdSize :: "nat \<Rightarrow> int" where
  "kad_binaryIdSize peerCount = (let bits = int (ceillog2 (max 1 peerCount)); bits = (if bits \<le> 0 then 1 else bits) in if bits > 64 then 64 else bits)"

definition kp_initParameters :: "kademliaPeer node list \<Rightarrow> kadGlobals \<Rightarrow> kademliaPeer node list \<times> kadGlobals" where
  "kp_initParameters ps gl = (let gl = gl\<lparr>kg_allPeerIds := map publicId ps, kg_binaryIdSize := kad_binaryIdSize (length ps)\<rparr> in
     (map (\<lambda>n. n\<lparr>nd_state := (applyGlobalParameters gl (publicId n) (nd_state n))\<lparr>kp_requestsSatisfied := 0, kp_totalHops := 0, kp_latency := 0,
        kp_fingers := [], kp_lastNeighborFingerprint := 0\<rparr>\<rparr>) ps, gl))"

subsection \<open>The finger table\<close>

definition finger_of :: "interfaceId \<Rightarrow> kademliaPeer \<Rightarrow> kadFinger" where
  "finger_of neighbor p = (let b = getBinaryId (kp_binaryIdSize p) neighbor in
     \<lparr>kf_Id = neighbor, kf_binId = b, kf_group = firstDifferentBit b (kp_binaryId p)\<rparr>)"

definition finger_bucket :: "interfaceId \<Rightarrow> idset \<Rightarrow> kademliaPeer \<Rightarrow> nat \<Rightarrow> kadFinger list" where
  "finger_bucket me neighborSet p grp = filter (\<lambda>f. kf_group f = int grp) (map (\<lambda>n. finger_of n p) (filter (\<lambda>n. n \<noteq> me) neighborSet))"

definition choose_finger :: "interfaceId \<Rightarrow> idset \<Rightarrow> kademliaPeer \<Rightarrow> nat \<Rightarrow> kadFinger list \<times> rng \<Rightarrow> (kadFinger list \<times> rng) option" where
  "choose_finger me neighborSet p grp = (\<lambda>(fingers, g). let bucket = finger_bucket me neighborSet p grp in
     if bucket = [] then Some (fingers, g)
     else do {
       (chosen, g) \<leftarrow> (if length bucket > 1 then randMod (int (length bucket)) g else Some (0, g));
       Some (fingers @ [bucket ! nat chosen], g) })"

definition rebuildFingerTable :: "interfaceId \<Rightarrow> idset \<Rightarrow> kademliaPeer \<Rightarrow> rng \<Rightarrow> (kademliaPeer \<times> rng) option" where
  "rebuildFingerTable me neighborSet p g =
     (if kp_binaryIdSize p \<le> 0 then Some (p\<lparr>kp_fingers := [], kp_lastNeighborFingerprint := neighborFingerprint neighborSet\<rparr>, g)
      else do {
        (fingers, g) \<leftarrow> foldM (choose_finger me neighborSet p) [0..<nat (kp_binaryIdSize p)] ([], g);
        Some (p\<lparr>kp_fingers := fingers, kp_lastNeighborFingerprint := neighborFingerprint neighborSet\<rparr>, g) })"

subsection \<open>The next hop\<close>

definition selectFingerForGroup :: "int \<Rightarrow> idset \<Rightarrow> kademliaPeer \<Rightarrow> rng \<Rightarrow> (interfaceId \<times> rng) option" where
  "selectFingerForGroup grp neighborSet p g =
     (let candidates = map kf_Id (filter (\<lambda>f. kf_group f = grp \<and> kf_Id f \<in> set neighborSet) (kp_fingers p)) in
      case candidates of [] \<Rightarrow> Some (NO_PEER_ID, g) | [c] \<Rightarrow> Some (c, g)
      | _ \<Rightarrow> do { (index, g) \<leftarrow> randMod (int (length candidates)) g; Some (candidates ! nat index, g) })"

definition selectClosestByDistance :: "interfaceId \<Rightarrow> interfaceId \<Rightarrow> idset \<Rightarrow> interfaceId" where
  "selectClosestByDistance me targetId neighborSet =
     fst (fold (\<lambda>n (best, bestDistance). let d = xorDistance n targetId in
       if n \<noteq> me \<and> d < bestDistance then (n, d) else (best, bestDistance)) neighborSet (NO_PEER_ID, xorDistance me targetId))"

definition findRoute :: "interfaceId \<Rightarrow> string \<Rightarrow> interfaceId \<Rightarrow> idset \<Rightarrow> kademliaPeer \<Rightarrow> rng \<Rightarrow> (interfaceId \<times> rng) option" where
  "findRoute me targetBinaryId targetId neighborSet p g =
     (let closest = selectClosestByDistance me targetId neighborSet; grp = firstDifferentBit targetBinaryId (kp_binaryId p) in
      if targetBinaryId = [] \<or> kp_binaryId p = [] \<or> grp < 0 then Some (closest, g)
      else do {
        (finger, g) \<leftarrow> selectFingerForGroup grp neighborSet p g;
        Some (if finger \<noteq> NO_PEER_ID then finger else closest, g) })"

subsection \<open>Lookups\<close>

definition kad_forward :: "interfaceId \<Rightarrow> json \<Rightarrow> interfaceId \<Rightarrow> send list option" where
  "kad_forward me msg nextHop =
     (if nextHop = NO_PEER_ID \<or> nextHop = me then Some []
      else do {
        hops \<leftarrow> value_int msg ''hops'' 0;
        msg \<leftarrow> jset ''hops'' (JInt (hops + 1)) msg;
        msg \<leftarrow> jset ''lastHop'' (JInt me) msg;
        Some [UnicastTo msg nextHop] })"

definition kp_handleLookup :: "interfaceId \<Rightarrow> idset \<Rightarrow> int \<Rightarrow> json \<Rightarrow> kademliaPeer \<Rightarrow> rng \<Rightarrow> (kademliaPeer \<times> send list \<times> rng) option" where
  "kp_handleLookup me neighborSet now msg p g = do {
     targetId \<leftarrow> value_id msg ''targetId'' NO_PEER_ID;
     if targetId = NO_PEER_ID then Some (p, [], g)
     else if targetId = me then do {
       hops \<leftarrow> value_int msg ''hops'' 0;
       submitted \<leftarrow> value_int msg ''roundSubmitted'' (to_int32 now);
       Some (p\<lparr>kp_requestsSatisfied := kp_requestsSatisfied p + 1, kp_totalHops := kp_totalHops p + hops,
               kp_latency := kp_latency p + (to_int32 now - submitted)\<rparr>, [], g) }
     else if neighborSet = [] then Some (p, [], g)
     else do {
       targetBinary \<leftarrow> value_string msg ''targetBinaryId'' [];
       (targetBinary, msg) \<leftarrow> (if targetBinary \<noteq> [] then Some (targetBinary, msg)
         else (let b = getBinaryId (kp_binaryIdSize p) targetId in map_option (\<lambda>msg. (b, msg)) (jset ''targetBinaryId'' (JStr b) msg)));
       (nextHop, g) \<leftarrow> findRoute me targetBinary targetId neighborSet p g;
       out \<leftarrow> kad_forward me msg nextHop;
       Some (p, out, g) } }"

definition kp_receive :: "interfaceId \<Rightarrow> idset \<Rightarrow> int \<Rightarrow> json \<Rightarrow> kademliaPeer \<times> send list \<times> rng \<Rightarrow> (kademliaPeer \<times> send list \<times> rng) option" where
  "kp_receive me neighborSet now msg = (\<lambda>(p, out, g).
     if \<not> is_object msg then Some (p, out, g)
     else do {
       type \<leftarrow> value_string msg ''type'' [];
       if type \<noteq> ''Kademlia'' then Some (p, out, g)
       else do {
         messageType \<leftarrow> value_string msg ''messageType'' [];
         if messageType \<noteq> ''lookup'' then Some (p, out, g)
         else do { (p, sends, g) \<leftarrow> kp_handleLookup me neighborSet now msg p g; Some (p, out @ sends, g) } } })"

text \<open>\<open>performComputation\<close>: the finger table is rebuilt when it is empty or the neighbours have changed.\<close>

definition kad_prepare :: "kadGlobals \<Rightarrow> interfaceId \<Rightarrow> idset \<Rightarrow> kademliaPeer \<Rightarrow> rng \<Rightarrow> (kademliaPeer \<times> rng) option" where
  "kad_prepare gl me neighborSet p g = (let p = ensureInitialized gl me p in
     if kp_initialized p \<and> (kp_fingers p = [] \<or> neighborFingerprint neighborSet \<noteq> kp_lastNeighborFingerprint p)
     then rebuildFingerTable me neighborSet p g else Some (p, g))"

definition kad_perform :: "kadGlobals \<Rightarrow> kademliaPeer perform" where
  "kad_perform gl now n g =
     (if \<not> kp_alive (nd_state n) then Some (n, [], g)
      else do {
        let me = publicId n;
        let neighborSet = if_neighbors (nd_iface n);
        (p, g) \<leftarrow> kad_prepare gl me neighborSet (nd_state n) g;
        if \<not> kp_initialized p then Some (n\<lparr>nd_state := p\<rparr>, [], g)
        else do {
          (p, out, g) \<leftarrow> foldM (kp_receive me neighborSet now) (map pk_body (if_inStream (nd_iface n))) (p, [], g);
          Some (n\<lparr>nd_iface := (nd_iface n)\<lparr>if_inStream := []\<rparr>, nd_state := p\<rparr>, out, g) } })"

definition makeLookupMessage :: "interfaceId \<Rightarrow> int \<Rightarrow> interfaceId \<Rightarrow> string \<Rightarrow> int \<Rightarrow> json" where
  "makeLookupMessage me now targetId targetBinaryId transactionId = jobject
     [(''type'', JStr ''Kademlia''), (''messageType'', JStr ''lookup''), (''transactionId'', JInt transactionId), (''originId'', JInt me),
      (''targetId'', JInt targetId), (''targetBinaryId'', JStr targetBinaryId), (''roundSubmitted'', JInt (to_int32 now)), (''hops'', JInt 0)]"

definition kp_submitLookup :: "interfaceId \<Rightarrow> idset \<Rightarrow> int \<Rightarrow> int \<Rightarrow> kademliaPeer \<Rightarrow> rng \<Rightarrow> (kademliaPeer \<times> send list \<times> rng) option" where
  "kp_submitLookup me neighborSet now transactionId p g =
     (if \<not> kp_initialized p then Some (p, [], g)
      else do {
        (targetId, g) \<leftarrow> (if kp_allPeerIds p = [] then Some (me, g)
          else do { (index, g) \<leftarrow> randMod (int (length (kp_allPeerIds p))) g; Some (kp_allPeerIds p ! nat index, g) });
        let targetBinary = getBinaryId (kp_binaryIdSize p) targetId;
        let msg = makeLookupMessage me now targetId targetBinary transactionId;
        if targetId = me then Some (p\<lparr>kp_requestsSatisfied := kp_requestsSatisfied p + 1\<rparr>, [], g)
        else if neighborSet = [] then Some (p, [], g)
        else do {
          (nextHop, g) \<leftarrow> findRoute me targetBinary targetId neighborSet p g;
          out \<leftarrow> kad_forward me msg nextHop;
          Some (p, out, g) } })"

text \<open>\<open>endOfRound\<close>: as for the ring overlay.\<close>

definition kp_endOfRound :: "int \<Rightarrow> kademliaPeer node list \<Rightarrow> kadGlobals \<Rightarrow> rng \<Rightarrow>
    (kademliaPeer node list \<times> (nat \<times> send list) list \<times> kadGlobals \<times> rng \<times> ((real \<times> real) option \<times> real) option) option" where
  "kp_endOfRound now ps gl g =
     (if ps = [] then Some (ps, [], gl, g, None)
      else do {
        (idx, g) \<leftarrow> randMod (int (length ps)) g;
        let n = ps ! nat idx;
        (p, out, g) \<leftarrow> kp_submitLookup (publicId n) (if_neighbors (nd_iface n)) now (kg_currentTransactionId gl) (nd_state n) g;
        let ps = ps[nat idx := n\<lparr>nd_state := p\<rparr>];
        let satisfied = sum_list (map (\<lambda>n. kp_requestsSatisfied (nd_state n)) ps);
        let hops = sum_list (map (\<lambda>n. kp_totalHops (nd_state n)) ps);
        let latency = sum_list (map (\<lambda>n. kp_latency (nd_state n)) ps);
        Some (ps, [(nat idx, out)], gl\<lparr>kg_currentTransactionId := kg_currentTransactionId gl + 1\<rparr>, g,
          Some (if satisfied > 0 then Some (of_int hops / of_int satisfied, of_int latency / of_int satisfied) else None, of_int satisfied)) })"


subsection \<open>Binary identifiers and the XOR distance\<close>

lemma getBinaryId_bits:
  assumes "B \<le> 64"
  shows "getBinaryId (int B) i = map (\<lambda>n. if bit i n then CHR ''1'' else CHR ''0'') (rev [0..<B])"
proof -
  have "(word_of_int i AND push_bit n 1 \<noteq> (0 :: 64 word)) = bit i n" if "n < B" for n
    unfolding bit_iff_and_push_bit_not_eq_0 [symmetric] using that assms by (simp add: bit_word_of_int_iff)
  with assms show ?thesis by (auto simp: getBinaryId_def Let_def)
qed

lemma firstDifferentBit_from_spec:
  assumes "length as = length bs"
  shows "(as = bs \<and> firstDifferentBit_from idx as bs = -1) \<or>
    (\<exists>k < length as. firstDifferentBit_from idx as bs = idx + int k \<and> take k as = take k bs \<and> as ! k \<noteq> bs ! k)"
  using assms
proof (induction idx as bs rule: firstDifferentBit_from.induct)
  case (1 idx a as b bs)
  show ?case
  proof (cases "a = b")
    case True
    with 1 consider "as = bs" "firstDifferentBit_from (idx + 1) as bs = -1"
      | k where "k < length as" "firstDifferentBit_from (idx + 1) as bs = idx + 1 + int k" "take k as = take k bs" "as ! k \<noteq> bs ! k" by auto
    then show ?thesis
    proof cases
      case (2 k)
      with True show ?thesis by (intro disjI2 exI [of _ "Suc k"]) simp
    qed (use True in simp)
  qed (auto intro: exI [of _ 0])
qed auto

text \<open>Two identifiers of \<open>B\<close> bits: the first difference at \<open>k\<close> is the highest bit in which they differ.\<close>

lemma firstDifferentBit_bits:
  assumes "B \<le> 64" "0 \<le> a" "a < 2 ^ B" "0 \<le> b" "b < 2 ^ B"
  shows "(a = b \<and> firstDifferentBit (getBinaryId (int B) a) (getBinaryId (int B) b) = -1) \<or>
    (\<exists>p < B. firstDifferentBit (getBinaryId (int B) a) (getBinaryId (int B) b) = int (B - 1 - p) \<and>
      bit a p \<noteq> bit b p \<and> (\<forall>n > p. bit a n = bit b n))"
proof -
  let ?f = "\<lambda>i n. if bit i n then CHR ''1'' else CHR ''0''"
  have high: "\<not> bit a n" "\<not> bit b n" if "B \<le> n" for n
    using that assms(2-5) by (metis bit_take_bit_iff not_le take_bit_int_eq_self)+
  from firstDifferentBit_from_spec [of "getBinaryId (int B) a" "getBinaryId (int B) b" 0]
  consider "getBinaryId (int B) a = getBinaryId (int B) b" "firstDifferentBit (getBinaryId (int B) a) (getBinaryId (int B) b) = -1"
    | k where "k < B" "firstDifferentBit (getBinaryId (int B) a) (getBinaryId (int B) b) = int k"
      "take k (getBinaryId (int B) a) = take k (getBinaryId (int B) b)" "getBinaryId (int B) a ! k \<noteq> getBinaryId (int B) b ! k"
    by (auto simp: firstDifferentBit_def getBinaryId_bits [OF assms(1)])
  then show ?thesis
  proof cases
    case 1
    then have "\<forall>n < B. ?f a n = ?f b n" by (simp add: getBinaryId_bits [OF assms(1)] map_eq_conv)
    then have "bit a n = bit b n" for n using high [of n] by (cases "n < B") (auto split: if_splits)
    then have "a = b" by (simp add: bit_eq_iff)
    with 1 show ?thesis by simp
  next
    case (2 k)
    let ?p = "B - 1 - k"
    have at: "getBinaryId (int B) i ! j = ?f i (B - 1 - j)" if "j < B" for i j
      using that by (simp add: getBinaryId_bits [OF assms(1)] rev_nth)
    have differ: "bit a ?p \<noteq> bit b ?p" using 2(1,4) at by (auto split: if_splits)
    have same: "bit a n = bit b n" if "n > ?p" for n
    proof (cases "n < B")
      case True
      with that 2(1) have j: "B - 1 - n < k" "B - 1 - (B - 1 - n) = n" "B - 1 - n < B" by linarith+
      from 2(3) j(1) have "getBinaryId (int B) a ! (B - 1 - n) = getBinaryId (int B) b ! (B - 1 - n)" by (metis nth_take)
      with at [OF j(3), of a] at [OF j(3), of b] j(2) show ?thesis by (auto split: if_splits)
    qed (use high [of n] in simp)
    have "?p < B" "B - 1 - ?p = k" using 2(1) by linarith+
    with 2(2) differ same show ?thesis by (intro disjI2 exI [of _ ?p] conjI allI impI) metis+
  qed
qed

lemma xorDistance_uint:
  assumes "B \<le> 64" "0 \<le> a" "a < 2 ^ B" "0 \<le> b" "b < 2 ^ B"
  shows "uint (xorDistance a b) = a XOR b"
proof -
  have "(2 :: int) ^ B \<le> 2 ^ 64" by (rule power_increasing) (use assms(1) in simp_all)
  with assms have "take_bit 64 a = a" "take_bit 64 b = b" by (auto intro!: take_bit_int_eq_self)
  then show ?thesis by (simp add: xorDistance_def unsigned_xor_eq uint_word_of_int_eq)
qed

lemma xor_high_bit:
  assumes "0 \<le> a" "0 \<le> b" "bit a p \<noteq> bit b p"
  shows "2 ^ p \<le> a XOR (b :: int)"
proof -
  have "odd ((a XOR b) div 2 ^ p)" using assms(3) by (auto simp: bit_xor_iff simp flip: bit_iff_odd)
  then have "(a XOR b) div 2 ^ p \<noteq> 0" by auto
  moreover have "0 \<le> a XOR b" using assms by simp
  ultimately show ?thesis by (metis div_pos_pos_trivial not_le)
qed

lemma xor_low_bits:
  assumes "\<forall>n \<ge> p. bit a n = bit b n"
  shows "a XOR (b :: int) < 2 ^ p"
proof -
  have "take_bit p (a XOR b) = a XOR b"
  proof (rule bit_eqI)
    show "bit (take_bit p (a XOR b)) n = bit (a XOR b) n" for n
      using assms by (cases "n < p") (simp_all add: bit_take_bit_iff bit_xor_iff)
  qed
  then show ?thesis by (metis take_bit_int_less_exp)
qed

text \<open>A finger of the target's group agrees with the target one bit further.\<close>

lemma finger_closer:
  assumes "B \<le> 64" "0 \<le> u" "u < 2 ^ B" "0 \<le> v" "v < 2 ^ B" "0 \<le> t" "t < 2 ^ B"
    and "firstDifferentBit (getBinaryId (int B) t) (getBinaryId (int B) u) = grp" "0 \<le> grp"
    and "firstDifferentBit (getBinaryId (int B) v) (getBinaryId (int B) u) = grp"
  shows "\<exists>p. uint (xorDistance v t) < 2 ^ p \<and> 2 ^ p \<le> uint (xorDistance u t)"
proof -
  from firstDifferentBit_bits [OF assms(1,6,7,2,3)] assms(8,9) obtain p where
    p: "p < B" "grp = int (B - 1 - p)" "bit t p \<noteq> bit u p" "\<forall>n > p. bit t n = bit u n" by auto
  from firstDifferentBit_bits [OF assms(1,4,5,2,3)] assms(9,10) obtain q where
    q: "q < B" "grp = int (B - 1 - q)" "bit v q \<noteq> bit u q" "\<forall>n > q. bit v n = bit u n" by auto
  have "q = p" using p(1,2) q(1,2) by linarith
  with p q have "\<forall>n \<ge> p. bit v n = bit t n" by (metis le_eq_less_or_eq)
  moreover have "bit u p \<noteq> bit t p" using p(3) by simp
  ultimately show ?thesis using xor_low_bits [of p v t] xor_high_bit [of u t p] assms(1-7)
    by (auto simp: xorDistance_uint [of B])
qed


subsection \<open>The finger table covers every group\<close>

definition kad_fingers_ok :: "interfaceId \<Rightarrow> idset \<Rightarrow> kademliaPeer \<Rightarrow> bool" where
  "kad_fingers_ok me neighborSet p =
     ((\<forall>f \<in> set (kp_fingers p). f = finger_of (kf_Id f) p \<and> kf_Id f \<in> set neighborSet \<and> kf_Id f \<noteq> me) \<and>
      (\<forall>n \<in> set neighborSet. n \<noteq> me \<longrightarrow> 0 \<le> kf_group (finger_of n p) \<longrightarrow> (\<exists>f \<in> set (kp_fingers p). kf_group f = kf_group (finger_of n p))))"

definition kad_ids_ok :: "int \<Rightarrow> interfaceId set \<Rightarrow> bool" where
  "kad_ids_ok B ids = (0 < B \<and> B \<le> 64 \<and> (\<forall>i \<in> ids. 0 \<le> i \<and> i < 2 ^ nat B))"

lemma group_bound:
  assumes "kad_ids_ok B ids" "a \<in> ids" "b \<in> ids"
  shows "firstDifferentBit (getBinaryId B a) (getBinaryId B b) < B" "a \<noteq> b \<Longrightarrow> 0 \<le> firstDifferentBit (getBinaryId B a) (getBinaryId B b)"
proof -
  have B: "nat B \<le> 64" "int (nat B) = B" using assms(1) by (auto simp: kad_ids_ok_def)
  from firstDifferentBit_bits [OF B(1), of a b, unfolded B(2)] assms
  show "firstDifferentBit (getBinaryId B a) (getBinaryId B b) < B" "a \<noteq> b \<Longrightarrow> 0 \<le> firstDifferentBit (getBinaryId B a) (getBinaryId B b)"
    by (auto simp: kad_ids_ok_def)
qed

lemma bucket_member: "f \<in> set (finger_bucket me ns p k) \<Longrightarrow> f = finger_of (kf_Id f) p \<and> kf_Id f \<in> set ns \<and> kf_Id f \<noteq> me \<and> kf_group f = int k"
  by (auto simp: finger_bucket_def finger_of_def Let_def)

lemma pick_total:
  assumes "xs \<noteq> []"
  shows "\<exists>c g'. (if length xs > 1 then randMod (int (length xs)) g else Some (0, g)) = Some (c, g') \<and> xs ! nat c \<in> set xs"
proof (cases "length xs > 1")
  case True
  then obtain c g' where c: "randMod (int (length xs)) g = Some (c, g')" using randMod_total [of "int (length xs)" g] assms by auto
  with randMod_range [OF c] True show ?thesis by auto
qed (use assms in \<open>cases xs; auto\<close>)

lemma choose_finger_step:
  "choose_finger me ns p k (fs, g) = (if finger_bucket me ns p k = [] then Some (fs, g)
     else Option.bind (if length (finger_bucket me ns p k) > 1 then randMod (int (length (finger_bucket me ns p k))) g else Some (0, g))
       (\<lambda>(c, g). Some (fs @ [finger_bucket me ns p k ! nat c], g)))"
  by (simp add: choose_finger_def Let_def)

lemma rebuild_upto:
  "\<exists>fs g'. foldM (choose_finger me ns p) [0..<k] ([], g) = Some (fs, g') \<and>
     (\<forall>f \<in> set fs. f = finger_of (kf_Id f) p \<and> kf_Id f \<in> set ns \<and> kf_Id f \<noteq> me) \<and>
     (\<forall>i < k. finger_bucket me ns p i \<noteq> [] \<longrightarrow> (\<exists>f \<in> set fs. kf_group f = int i))"
proof (induction k)
  case (Suc k)
  then obtain fs g' where fs: "foldM (choose_finger me ns p) [0..<k] ([], g) = Some (fs, g')"
     "\<forall>f \<in> set fs. f = finger_of (kf_Id f) p \<and> kf_Id f \<in> set ns \<and> kf_Id f \<noteq> me"
     "\<forall>i < k. finger_bucket me ns p i \<noteq> [] \<longrightarrow> (\<exists>f \<in> set fs. kf_group f = int i)" by blast
  show ?case
  proof (cases "finger_bucket me ns p k = []")
    case True
    with fs show ?thesis by (simp add: foldM_append choose_finger_step less_Suc_eq)
  next
    case False
    from pick_total [OF this] obtain c g'' where
      c: "(if length (finger_bucket me ns p k) > 1 then randMod (int (length (finger_bucket me ns p k))) g' else Some (0, g')) = Some (c, g'')"
        "finger_bucket me ns p k ! nat c \<in> set (finger_bucket me ns p k)" by blast
    with fs(1) False bucket_member [OF c(2)] fs(2,3) show ?thesis
      by (intro exI [of _ "fs @ [finger_bucket me ns p k ! nat c]"] exI [of _ g'']) (simp add: foldM_append choose_finger_step less_Suc_eq)
  qed
qed simp

lemma rebuild_ok:
  assumes "kad_ids_ok (kp_binaryIdSize p) ids" "kp_binaryId p = getBinaryId (kp_binaryIdSize p) me" "me \<in> ids" "set ns \<subseteq> ids"
  shows "\<exists>fs fp g'. rebuildFingerTable me ns p g = Some (p\<lparr>kp_fingers := fs, kp_lastNeighborFingerprint := fp\<rparr>, g') \<and>
    kad_fingers_ok me ns (p\<lparr>kp_fingers := fs, kp_lastNeighborFingerprint := fp\<rparr>)"
proof -
  have pos: "\<not> kp_binaryIdSize p \<le> 0" using assms(1) by (simp add: kad_ids_ok_def)
  have same: "finger_of n (p\<lparr>kp_fingers := fs, kp_lastNeighborFingerprint := fp\<rparr>) = finger_of n p" for n fs fp
    by (simp add: finger_of_def)
  from rebuild_upto [of me ns p "nat (kp_binaryIdSize p)" g] obtain fs g' where
    run: "foldM (choose_finger me ns p) [0..<nat (kp_binaryIdSize p)] ([], g) = Some (fs, g')" and fs: "\<forall>f \<in> set fs. f = finger_of (kf_Id f) p \<and> kf_Id f \<in> set ns \<and> kf_Id f \<noteq> me"
      "\<forall>i < nat (kp_binaryIdSize p). finger_bucket me ns p i \<noteq> [] \<longrightarrow> (\<exists>f \<in> set fs. kf_group f = int i)" by blast
  from run pos have rebuild: "rebuildFingerTable me ns p g = Some (p\<lparr>kp_fingers := fs, kp_lastNeighborFingerprint := neighborFingerprint ns\<rparr>, g')"
    by (simp add: rebuildFingerTable_def)
  have cover: "\<exists>f \<in> set fs. kf_group f = kf_group (finger_of n p)" if n: "n \<in> set ns" "n \<noteq> me" "0 \<le> kf_group (finger_of n p)" for n
  proof -
    have "n \<in> ids" using assms(4) n(1) by blast
    from group_bound(1) [OF assms(1) this assms(3)] have "kf_group (finger_of n p) < kp_binaryIdSize p"
      by (simp add: finger_of_def Let_def assms(2))
    moreover have "finger_of n p \<in> set (finger_bucket me ns p (nat (kf_group (finger_of n p))))" using n by (auto simp: finger_bucket_def)
    then have "finger_bucket me ns p (nat (kf_group (finger_of n p))) \<noteq> []" by auto
    moreover have "nat (kf_group (finger_of n p)) < nat (kp_binaryIdSize p)" "int (nat (kf_group (finger_of n p))) = kf_group (finger_of n p)"
      using calculation(1) n(3) by linarith+
    ultimately show ?thesis using fs(2) by metis
  qed
  have fingers: "kp_fingers (p\<lparr>kp_fingers := fs, kp_lastNeighborFingerprint := fp\<rparr>) = fs" for fp by simp
  have "kad_fingers_ok me ns (p\<lparr>kp_fingers := fs, kp_lastNeighborFingerprint := neighborFingerprint ns\<rparr>)"
    unfolding kad_fingers_ok_def same fingers using fs(1) cover by blast
  with rebuild show ?thesis by blast
qed


subsection \<open>Lookups get closer\<close>

lemma select_finger_total:
  "\<exists>c g'. selectFingerForGroup grp ns p g = Some (c, g') \<and>
    (let cs = map kf_Id (filter (\<lambda>f. kf_group f = grp \<and> kf_Id f \<in> set ns) (kp_fingers p)) in if cs = [] then c = NO_PEER_ID else c \<in> set cs)"
proof -
  let ?cs = "map kf_Id (filter (\<lambda>f. kf_group f = grp \<and> kf_Id f \<in> set ns) (kp_fingers p))"
  consider "?cs = []" | c where "?cs = [c]" | a b cs where "?cs = a # b # cs" by (metis list.exhaust)
  then show ?thesis
  proof cases
    case (3 a b cs)
    then have "0 < int (length ?cs)" by simp
    then obtain i g' where i: "randMod (int (length ?cs)) g = Some (i, g')" using randMod_total by blast
    have "?cs ! nat i \<in> set ?cs" by (rule nth_mem) (use randMod_range [OF i] in linarith)
    with 3 i show ?thesis by (simp add: selectFingerForGroup_def del: set_map)
  qed (simp_all add: selectFingerForGroup_def)
qed

lemma closest_closer:
  assumes "selectClosestByDistance me t ns = v" "v \<noteq> NO_PEER_ID"
  shows "v \<in> set ns \<and> v \<noteq> me \<and> xorDistance v t < xorDistance me t"
proof -
  let ?I = "\<lambda>(b, d). (b = NO_PEER_ID \<or> b \<in> set ns \<and> b \<noteq> me \<and> xorDistance b t = d) \<and> (b = NO_PEER_ID \<or> d < xorDistance me t) \<and> d \<le> xorDistance me t"
  have "?I (fold (\<lambda>n (best, bestDistance). let d = xorDistance n t in
       if n \<noteq> me \<and> d < bestDistance then (n, d) else (best, bestDistance)) ns (NO_PEER_ID, xorDistance me t))"
    by (rule fold_invariant) (auto simp: Let_def split: if_splits)
  with assms show ?thesis by (auto simp: selectClosestByDistance_def split: prod.splits)
qed

text \<open>A configured peer: its identifier has as many bits as the identifiers need, its fingers are built.\<close>

definition kad_peer_ready :: "int \<Rightarrow> interfaceId set \<Rightarrow> kademliaPeer node \<Rightarrow> bool" where
  "kad_peer_ready B ids nd = (kp_binaryIdSize (nd_state nd) = B \<and> kp_binaryId (nd_state nd) = getBinaryId B (publicId nd) \<and>
     kad_fingers_ok (publicId nd) (if_neighbors (nd_iface nd)) (nd_state nd) \<and> nbrs nd \<subseteq> ids)"

definition kad_ready :: "kademliaPeer node list \<Rightarrow> bool" where
  "kad_ready ps = (kad_ids_ok (kad_binaryIdSize (length ps)) (publicId ` set ps) \<and>
     (\<forall>nd \<in> set ps. kad_peer_ready (kad_binaryIdSize (length ps)) (publicId ` set ps) nd))"

text \<open>Where \<open>findRoute\<close> leads: closer to the target, or nowhere; always by a finger when the target is a neighbour.\<close>

lemma findRoute_closer:
  assumes B: "kad_ids_ok B ids" and nd: "kad_peer_ready B ids nd" "publicId nd \<in> ids" and t: "t \<in> ids" "t \<noteq> publicId nd"
  shows "\<exists>v g'. findRoute (publicId nd) (getBinaryId B t) t (if_neighbors (nd_iface nd)) (nd_state nd) g = Some (v, g') \<and>
    (v = NO_PEER_ID \<or> v \<in> nbrs nd \<and> v \<noteq> publicId nd \<and> uint (xorDistance v t) < uint (xorDistance (publicId nd) t)) \<and>
    (t \<in> nbrs nd \<longrightarrow> v \<noteq> NO_PEER_ID \<and> (\<exists>p. uint (xorDistance v t) < 2 ^ p \<and> 2 ^ p \<le> uint (xorDistance (publicId nd) t)))"
proof -
  let ?me = "publicId nd" and ?ns = "if_neighbors (nd_iface nd)" and ?p = "nd_state nd"
  let ?grp = "firstDifferentBit (getBinaryId B t) (getBinaryId B ?me)"
  have grp: "0 \<le> ?grp" using group_bound(2) [OF B t(1) nd(2) t(2)] .
  have bits: "B \<le> 64" "B = int (nat B)" "getBinaryId B t \<noteq> []" using B by (auto simp: kad_ids_ok_def getBinaryId_def Let_def)
  have state: "kp_binaryIdSize ?p = B" "kp_binaryId ?p = getBinaryId B ?me" "kad_fingers_ok ?me ?ns ?p" "nbrs nd \<subseteq> ids"
    using nd(1) by (auto simp: kad_peer_ready_def)
  have range: "0 \<le> i \<and> i < 2 ^ nat B" if "i \<in> ids" for i using that B by (auto simp: kad_ids_ok_def)
  let ?cs = "map kf_Id (filter (\<lambda>f. kf_group f = ?grp \<and> kf_Id f \<in> set ?ns) (kp_fingers ?p))"
  have via: "c \<in> nbrs nd \<and> c \<noteq> ?me \<and> (\<exists>p. uint (xorDistance c t) < 2 ^ p \<and> 2 ^ p \<le> uint (xorDistance ?me t))" if c: "c \<in> set ?cs" for c
  proof -
    from c obtain f where f: "f \<in> set (kp_fingers ?p)" "kf_group f = ?grp" "kf_Id f = c" by auto
    with state(3) have ok: "f = finger_of c ?p" "c \<in> nbrs nd" "c \<noteq> ?me" by (auto simp: kad_fingers_ok_def)
    then have "firstDifferentBit (getBinaryId B c) (getBinaryId B ?me) = ?grp" using f(2) state(1,2) by (simp add: finger_of_def Let_def)
    moreover have "c \<in> ids" using ok(2) state(4) by blast
    ultimately show ?thesis using finger_closer [of "nat B" ?me c t ?grp] bits grp range nd(2) t(1) ok(2,3) by auto
  qed
  obtain c g' where c: "selectFingerForGroup ?grp ?ns ?p g = Some (c, g')" "if ?cs = [] then c = NO_PEER_ID else c \<in> set ?cs"
    using select_finger_total [of ?grp ?ns ?p g] by (auto simp: Let_def)
  have no: "NO_PEER_ID \<notin> ids" using range [of NO_PEER_ID] by (auto simp: NO_PEER_ID_def)
  let ?v = "if c \<noteq> NO_PEER_ID then c else selectClosestByDistance ?me t ?ns"
  have run: "findRoute ?me (getBinaryId B t) t ?ns ?p g = Some (?v, g')"
    using c(1) grp bits(3) state(2) by (simp add: findRoute_def Let_def) (auto simp: getBinaryId_def)
  have "?cs \<noteq> []" if "t \<in> nbrs nd"
  proof -
    have "kf_group (finger_of t ?p) = ?grp" using state(1,2) by (simp add: finger_of_def Let_def)
    with that t(2) grp state(3) obtain f where f: "f \<in> set (kp_fingers ?p)" "kf_group f = ?grp" by (auto simp: kad_fingers_ok_def)
    with state(3) have "kf_Id f \<in> set ?ns" by (auto simp: kad_fingers_ok_def)
    with f show ?thesis by (auto simp: filter_empty_conv)
  qed
  then have target: "c \<in> set ?cs" if "t \<in> nbrs nd" using that c(2) by (metis (lifting))
  have peer: "c \<noteq> NO_PEER_ID" if "c \<in> set ?cs" using via [OF that] state(4) no by blast
  have "?v = NO_PEER_ID \<or> ?v \<in> nbrs nd \<and> ?v \<noteq> ?me \<and> uint (xorDistance ?v t) < uint (xorDistance ?me t)"
  proof (cases "c \<in> set ?cs")
    case True
    with via [OF True] peer show ?thesis by fastforce
  next
    case False
    with c(2) have "c = NO_PEER_ID" by (metis (lifting))
    then show ?thesis using closest_closer [of ?me t ?ns, OF refl] by (auto simp: word_less_def)
  qed
  moreover have "?v \<noteq> NO_PEER_ID \<and> (\<exists>p. uint (xorDistance ?v t) < 2 ^ p \<and> 2 ^ p \<le> uint (xorDistance ?me t))" if "t \<in> nbrs nd"
    using via [OF target [OF that]] peer [OF target [OF that]] by simp
  ultimately show ?thesis using run by blast
qed


subsection \<open>Lookups end, and arrive\<close>

definition kad_handle :: "kademliaPeer lookup_handler" where
  "kad_handle now nd m g = kp_handleLookup (publicId nd) (if_neighbors (nd_iface nd)) now m (nd_state nd) g"

definition kad_dist :: "kademliaPeer node list \<Rightarrow> interfaceId \<Rightarrow> interfaceId \<Rightarrow> nat" where
  "kad_dist ps u t = unat (xorDistance u t)"

definition kad_counted :: "int \<Rightarrow> kademliaPeer \<Rightarrow> kademliaPeer \<Rightarrow> bool" where
  "kad_counted h p p' = (kp_requestsSatisfied p' = kp_requestsSatisfied p + 1 \<and> kp_totalHops p' = kp_totalHops p + h)"

text \<open>A lookup message carries the binary identifier of its target, or none yet.\<close>

definition kad_lookup :: "kademliaPeer node list \<Rightarrow> interfaceId \<Rightarrow> int \<Rightarrow> json \<Rightarrow> bool" where
  "kad_lookup ps t h m = (is_lookup t h m \<and>
     (\<exists>b. value_string m ''targetBinaryId'' [] = Some b \<and> (b = [] \<or> b = getBinaryId (kad_binaryIdSize (length ps)) t)))"

lemma kad_arrive:
  assumes "kad_ready ps" "nd \<in> set ps" "kad_lookup ps (publicId nd) h m"
  shows "\<exists>p g'. kad_handle now nd m g = Some (p, [], g') \<and> kad_counted h (nd_state nd) p"
proof -
  from assms(1,2) have "publicId nd \<noteq> NO_PEER_ID" by (force simp: kad_ready_def kad_ids_ok_def NO_PEER_ID_def)
  moreover obtain s where "value_int m ''roundSubmitted'' (to_int32 now) = Some s" using assms(3) by (auto simp: kad_lookup_def is_lookup_def)
  ultimately show ?thesis using assms(3) by (simp add: kad_handle_def kp_handleLookup_def kad_lookup_def is_lookup_def kad_counted_def)
qed

lemma kad_message_with_target:
  assumes "kad_lookup ps t h m" and b: "b = getBinaryId (kad_binaryIdSize (length ps)) t"
  shows "\<exists>tb m'. value_string m ''targetBinaryId'' [] = Some tb \<and>
    (if tb \<noteq> [] then Some (tb, m) else map_option (\<lambda>msg. (b, msg)) (jset ''targetBinaryId'' (JStr b) m)) = Some (b, m') \<and>
    kad_lookup ps t h m'"
proof -
  from assms obtain tb where tb: "value_string m ''targetBinaryId'' [] = Some tb" "tb = [] \<or> tb = b" and m: "is_lookup t h m"
    by (auto simp: kad_lookup_def)
  show ?thesis
  proof (cases "tb = []")
    case True
    from m have "is_object m" by (simp add: is_lookup_def)
    then obtain m' where m': "jset ''targetBinaryId'' (JStr b) m = Some m'" using jset_total by blast
    note same = value_with_jset [OF m' \<open>is_object m\<close>]
    from m have "kad_lookup ps t h m'" by (simp add: kad_lookup_def is_lookup_def same jset_is_object [OF m'] b)
    with True tb(1) m' show ?thesis by auto
  qed (use tb assms in auto)
qed

lemma kad_forward_message:
  assumes "kad_lookup ps t h m" and "v \<noteq> NO_PEER_ID" "v \<noteq> me"
  shows "\<exists>m'. kad_forward me m v = Some [UnicastTo m' v] \<and> kad_lookup ps t (h + 1) m'"
proof -
  have m: "is_lookup t h m" "is_object m" using assms(1) by (auto simp: kad_lookup_def is_lookup_def)
  from jset_total [OF m(2)] obtain m1 where m1: "jset ''hops'' (JInt (h + 1)) m = Some m1" by blast
  from jset_total [OF jset_is_object [OF m1]] obtain m2 where m2: "jset ''lastHop'' (JInt me) m1 = Some m2" by blast
  have "value_string m2 ''targetBinaryId'' [] = value_string m ''targetBinaryId'' []"
    by (simp add: value_with_jset [OF m2 jset_is_object [OF m1]] value_with_jset [OF m1 m(2)])
  with is_lookup_forward [OF m(1) m1 m2] assms m1 m2 m show ?thesis by (auto simp: kad_forward_def is_lookup_def kad_lookup_def)
qed

lemma kad_hop:
  assumes ready: "kad_ready ps" "nd \<in> set ps" and t: "t \<in> publicId ` set ps" "t \<noteq> publicId nd" and m: "kad_lookup ps t h m"
  shows "t \<notin> nbrs nd \<and> (\<exists>p g'. kad_handle now nd m g = Some (p, [], g')) \<or>
    (\<exists>p m' v g'. kad_handle now nd m g = Some (p, [UnicastTo m' v], g') \<and> v \<in> publicId ` set ps \<and> kad_lookup ps t (h + 1) m' \<and>
      kad_dist ps v t < kad_dist ps (publicId nd) t \<and>
      (t \<in> nbrs nd \<longrightarrow> (\<exists>k. kad_dist ps v t < 2 ^ k \<and> 2 ^ k \<le> kad_dist ps (publicId nd) t)))"
proof -
  let ?B = "kad_binaryIdSize (length ps)" and ?ids = "publicId ` set ps" and ?me = "publicId nd"
  have B: "kad_ids_ok ?B ?ids" and peer: "kad_peer_ready ?B ?ids nd" using ready by (auto simp: kad_ready_def)
  have dist: "int (kad_dist ps a t) = uint (xorDistance a t)" for a by (simp add: kad_dist_def)
  have power: "int (2 ^ k) = 2 ^ k" for k by simp
  have nats: "kad_dist ps a t < 2 ^ k \<longleftrightarrow> uint (xorDistance a t) < 2 ^ k" "2 ^ k \<le> kad_dist ps a t \<longleftrightarrow> 2 ^ k \<le> uint (xorDistance a t)" for a k
    by (simp_all only: dist [symmetric] power [symmetric] of_nat_less_iff of_nat_le_iff)
  show ?thesis
  proof (cases "if_neighbors (nd_iface nd) = []")
    case True
    with t m show ?thesis by (auto simp: kad_handle_def kp_handleLookup_def kad_lookup_def is_lookup_def)
  next
    case False
    from findRoute_closer [OF B peer _ t, of g] ready(2) obtain v g' where
      v: "findRoute ?me (getBinaryId ?B t) t (if_neighbors (nd_iface nd)) (nd_state nd) g = Some (v, g')"
        "v = NO_PEER_ID \<or> v \<in> nbrs nd \<and> v \<noteq> ?me \<and> uint (xorDistance v t) < uint (xorDistance ?me t)"
        "t \<in> nbrs nd \<longrightarrow> v \<noteq> NO_PEER_ID \<and> (\<exists>p. uint (xorDistance v t) < 2 ^ p \<and> 2 ^ p \<le> uint (xorDistance ?me t))" by blast
    from kad_message_with_target [OF m refl] obtain tb m' where
      m': "value_string m ''targetBinaryId'' [] = Some tb"
        "(if tb \<noteq> [] then Some (tb, m) else map_option (\<lambda>msg. (getBinaryId ?B t, msg)) (jset ''targetBinaryId'' (JStr (getBinaryId ?B t)) m))
          = Some (getBinaryId ?B t, m')" "kad_lookup ps t h m'" by blast
    have tid: "t \<noteq> NO_PEER_ID" using t(1) B by (force simp: kad_ids_ok_def NO_PEER_ID_def)
    have B': "kp_binaryIdSize (nd_state nd) = ?B" using peer by (simp add: kad_peer_ready_def)
    have handle: "kad_handle now nd m g = (case kad_forward ?me m' v of None \<Rightarrow> None | Some out \<Rightarrow> Some (nd_state nd, out, g'))"
    proof -
      have target: "value_id m ''targetId'' NO_PEER_ID = Some t" using m by (simp add: kad_lookup_def is_lookup_def)
      show ?thesis
      proof (cases "tb = []")
        case True
        with m'(2) have "jset ''targetBinaryId'' (JStr (getBinaryId ?B t)) m = Some m'" by simp
        with target m'(1) tid t(2) False v(1) True show ?thesis
          by (simp add: kad_handle_def kp_handleLookup_def B' split: option.split)
      next
        case set: False
        with m'(2) have "tb = getBinaryId ?B t" "m' = m" by simp_all
        with target m'(1) tid t(2) False v(1) set show ?thesis
          by (simp add: kad_handle_def kp_handleLookup_def B' split: option.split)
      qed
    qed
    show ?thesis
    proof (cases "v = NO_PEER_ID")
      case True
      with handle v(3) show ?thesis by (simp add: kad_forward_def)
    next
      case valid: False
      with v(2) have "v \<in> nbrs nd" "v \<noteq> ?me" by auto
      with kad_forward_message [OF m'(3) valid] handle obtain m2 where
        "kad_handle now nd m g = Some (nd_state nd, [UnicastTo m2 v], g')" "kad_lookup ps t (h + 1) m2" by force
      moreover have "v \<in> ?ids" using \<open>v \<in> nbrs nd\<close> peer by (auto simp: kad_peer_ready_def)
      moreover have "kad_dist ps v t < kad_dist ps ?me t" using valid v(2) dist [of v] dist [of ?me] by linarith
      ultimately show ?thesis using v(3) nats by blast
    qed
  qed
qed


lemma kad_step:
  assumes "kad_ready ps" "nd \<in> set ps" "t \<in> publicId ` set ps" "kad_lookup ps t h m"
  shows "(\<exists>p g'. kad_handle now nd m g = Some (p, [], g')) \<or>
    (\<exists>p m' v g'. kad_handle now nd m g = Some (p, [UnicastTo m' v], g') \<and> v \<in> publicId ` set ps \<and> kad_lookup ps t (h + 1) m' \<and>
      kad_dist ps v t < kad_dist ps (publicId nd) t)"
proof (cases "t = publicId nd")
  case True
  with assms kad_arrive [of ps nd h m now g] show ?thesis by fast
next
  case False
  from kad_hop [OF assms(1-3) False assms(4), of now g] show ?thesis by (elim disjE exE conjE) metis+
qed

interpretation kad: lookup_routing kad_ready kad_handle kad_dist kad_lookup
  by unfold_locales (rule kad_step)

lemma kad_full_hop:
  assumes "kad_ready ps" "fully_connected ps" and nd: "nd \<in> set ps" "t \<in> publicId ` set ps" "t \<noteq> publicId nd" "kad_lookup ps t h m"
  shows "\<exists>p m' v g'. kad_handle now nd m g = Some (p, [UnicastTo m' v], g') \<and> v \<in> publicId ` set ps \<and> kad_lookup ps t (h + 1) m' \<and>
    floorlog 2 (kad_dist ps v t) < floorlog 2 (kad_dist ps (publicId nd) t)"
proof -
  have "t \<in> nbrs nd" using assms by (auto simp: fully_connected_def)
  with kad_hop [OF assms(1) nd, of now g] obtain p m' v g' k where
    "kad_handle now nd m g = Some (p, [UnicastTo m' v], g')" "v \<in> publicId ` set ps" "kad_lookup ps t (h + 1) m'"
    and k: "kad_dist ps v t < 2 ^ k" "2 ^ k \<le> kad_dist ps (publicId nd) t" by blast
  moreover have "floorlog 2 (kad_dist ps v t) \<le> k" using k(1) by (intro floorlog_leI) simp_all
  moreover have "Suc k \<le> floorlog 2 (kad_dist ps (publicId nd) t)" using k(2) by (intro floorlog_ge_SucI) simp_all
  ultimately show ?thesis by (meson Suc_le_lessD le_less_trans)
qed

interpretation kad_full: live_routing "\<lambda>ps. kad_ready ps \<and> fully_connected ps" kad_handle "\<lambda>ps u t. floorlog 2 (kad_dist ps u t)" kad_lookup kad_counted
proof (unfold_locales, goal_cases)
  case (1 ps nd t h m now g)
  show ?case
  proof (cases "t = publicId nd")
    case True
    with 1 kad_arrive [of ps nd h m now g] show ?thesis by fast
  next
    case False
    from 1 have ok: "kad_ready ps" "fully_connected ps" by auto
    show ?thesis by (rule disjI2) (rule kad_full_hop [OF ok 1(2,3) False 1(4)])
  qed
next
  case (3 ps nd t h m now g p g')
  then show ?case using kad_full_hop [of ps nd t h m now g] by force
qed (blast intro: kad_arrive)

lemma kad_dist_bits:
  assumes "kad_ids_ok B ids" "u \<in> ids" "t \<in> ids"
  shows "floorlog 2 (kad_dist ps u t) \<le> nat B"
proof -
  have "\<not> bit i n" if "i \<in> ids" "nat B \<le> n" for i n
    using assms(1) that by (metis kad_ids_ok_def bit_take_bit_iff not_le take_bit_int_eq_self)
  then have "u XOR t < 2 ^ nat B" using assms(2,3) by (intro xor_low_bits) simp
  moreover have "uint (xorDistance u t) = u XOR t" by (rule xorDistance_uint [of "nat B"]) (use assms in \<open>auto simp: kad_ids_ok_def\<close>)
  ultimately have "int (kad_dist ps u t) < int (2 ^ nat B)" by (simp add: kad_dist_def)
  then show ?thesis unfolding of_nat_less_iff by (intro floorlog_leI) simp_all
qed

text \<open>
  Claim C31. On the XOR overlay every lookup ends, whatever the topology: each hop brings it closer to its
  target, so it never circles, and it arrives or is dropped where no neighbour is closer. On a fully
  connected network it arrives, after at most as many hops as an identifier has bits, whichever fingers
  the random choices have put into the tables.
\<close>

theorem kad_lookup_arrives:
  assumes "kad_ready ps" and "u \<in> publicId ` set ps" and "t \<in> publicId ` set ps" and "kad_lookup ps t h m"
  shows "(\<exists>v p. lookup_run kad_handle ps (Suc (kad_dist ps u t)) r u m g = Some (v, p)) \<and>
    (fully_connected ps \<longrightarrow> (\<exists>k nd p. k \<le> nat (kad_binaryIdSize (length ps)) \<and> nd \<in> set ps \<and> publicId nd = t \<and>
      lookup_run kad_handle ps (Suc (nat (kad_binaryIdSize (length ps)))) r u m g = Some (t, p) \<and>
      kp_requestsSatisfied p = kp_requestsSatisfied (nd_state nd) + 1 \<and> kp_totalHops p = kp_totalHops (nd_state nd) + (h + int k)))"
proof (intro conjI impI)
  show "\<exists>v p. lookup_run kad_handle ps (Suc (kad_dist ps u t)) r u m g = Some (v, p)"
    by (rule kad.ends [OF assms]) simp
  assume full: "fully_connected ps"
  have bits: "floorlog 2 (kad_dist ps u t) \<le> nat (kad_binaryIdSize (length ps))"
    by (rule kad_dist_bits [where ids = "publicId ` set ps"]) (use assms in \<open>auto simp: kad_ready_def\<close>)
  then have less: "floorlog 2 (kad_dist ps u t) < Suc (nat (kad_binaryIdSize (length ps)))" by simp
  from kad_full.delivered [OF _ assms(2-4) less, of r g] assms(1) full obtain k nd p where
    "k \<le> floorlog 2 (kad_dist ps u t)" "nd \<in> set ps" "publicId nd = t" "kad_counted (h + int k) (nd_state nd) p"
    "lookup_run kad_handle ps (Suc (nat (kad_binaryIdSize (length ps)))) r u m g = Some (t, p)" by blast
  with bits show "\<exists>k nd p. k \<le> nat (kad_binaryIdSize (length ps)) \<and> nd \<in> set ps \<and> publicId nd = t \<and>
      lookup_run kad_handle ps (Suc (nat (kad_binaryIdSize (length ps)))) r u m g = Some (t, p) \<and>
      kp_requestsSatisfied p = kp_requestsSatisfied (nd_state nd) + 1 \<and> kp_totalHops p = kp_totalHops (nd_state nd) + (h + int k)"
    by (intro exI [of _ k] exI [of _ nd] exI [of _ p]) (simp add: kad_counted_def)
qed

text \<open>A configuration and the first computation make a peer ready.\<close>

lemma kad_ids_small:
  assumes "0 < n" "n \<le> 2 ^ 64" and "\<And>i. i \<in> ids \<Longrightarrow> 0 \<le> i \<and> i < int n"
  shows "kad_ids_ok (kad_binaryIdSize n) ids"
proof -
  have log: "ceillog2 (max 1 n) \<le> 64" "n \<le> 2 ^ ceillog2 (max 1 n)"
    using assms(1,2) ceillog2_le_iff [of "max 1 n" 64] ceillog2_le_iff [of "max 1 n" "ceillog2 (max 1 n)"] by auto
  have "int n \<le> 2 ^ nat (kad_binaryIdSize n)"
  proof (cases "ceillog2 (max 1 n) = 0")
    case True
    with log(2) show ?thesis by (simp add: kad_binaryIdSize_def Let_def)
  next
    case False
    with log have "nat (kad_binaryIdSize n) = ceillog2 (max 1 n)" by (simp add: kad_binaryIdSize_def Let_def)
    with log(2) show ?thesis by (metis of_nat_le_iff of_nat_numeral of_nat_power)
  qed
  then have "0 \<le> i \<and> i < 2 ^ nat (kad_binaryIdSize n)" if "i \<in> ids" for i using assms(3) [OF that] by linarith
  moreover have "0 < kad_binaryIdSize n" "kad_binaryIdSize n \<le> 64" by (auto simp: kad_binaryIdSize_def Let_def)
  ultimately show ?thesis by (simp add: kad_ids_ok_def)
qed

lemma kad_prepare_ready:
  assumes "kp_initParameters qs gl = (ps, gl')" and "nd \<in> set ps" and "nbrs nd \<subseteq> publicId ` set ps"
    and ids: "kad_ids_ok (kad_binaryIdSize (length qs)) (publicId ` set ps)"
  shows "\<exists>p g'. kad_prepare gl' (publicId nd) (if_neighbors (nd_iface nd)) (nd_state nd) g = Some (p, g') \<and>
    kad_peer_ready (kad_binaryIdSize (length qs)) (publicId ` set ps) (nd\<lparr>nd_state := p\<rparr>)"
proof -
  let ?B = "kad_binaryIdSize (length qs)"
  have "0 < ?B" using ids by (simp add: kad_ids_ok_def)
  with assms(1,2) have nd: "kp_binaryIdSize (nd_state nd) = ?B" "kp_binaryId (nd_state nd) = getBinaryId ?B (publicId nd)"
    "kp_initialized (nd_state nd)" "kp_fingers (nd_state nd) = []" "kg_binaryIdSize gl' = ?B" "kg_allPeerIds gl' = map publicId qs"
    by (auto simp: kp_initParameters_def Let_def applyGlobalParameters_def)
  have me: "publicId nd \<in> publicId ` set ps" using assms(2) by simp
  let ?p = "ensureInitialized gl' (publicId nd) (nd_state nd)"
  have p: "kp_binaryIdSize ?p = ?B" "kp_binaryId ?p = getBinaryId ?B (publicId nd)" "kp_initialized ?p" "kp_fingers ?p = []"
    using nd by (auto simp: ensureInitialized_def Let_def)
  from rebuild_ok [of ?p "publicId ` set ps" "publicId nd" "if_neighbors (nd_iface nd)" g] p ids me assms(3) obtain fs fp g' where
    "rebuildFingerTable (publicId nd) (if_neighbors (nd_iface nd)) ?p g = Some (?p\<lparr>kp_fingers := fs, kp_lastNeighborFingerprint := fp\<rparr>, g')"
    "kad_fingers_ok (publicId nd) (if_neighbors (nd_iface nd)) (?p\<lparr>kp_fingers := fs, kp_lastNeighborFingerprint := fp\<rparr>)" by auto
  with p assms(3) show ?thesis by (simp add: kad_prepare_def kad_peer_ready_def)
qed


definition example_fingers :: "kadFinger list \<Rightarrow> interfaceId \<Rightarrow> idset \<Rightarrow> kademliaPeer node" where
  "example_fingers fs i ns = overlay_node (new_kademliaPeer\<lparr>kp_binaryIdSize := 2, kp_binaryId := getBinaryId 2 i, kp_fingers := fs\<rparr>) i ns"

definition example_kad :: "kademliaPeer node list" where
  "example_kad = [
     example_fingers [\<lparr>kf_Id = 2, kf_binId = ''10'', kf_group = 0\<rparr>, \<lparr>kf_Id = 1, kf_binId = ''01'', kf_group = 1\<rparr>] 0 [1, 2],
     example_fingers [\<lparr>kf_Id = 2, kf_binId = ''10'', kf_group = 0\<rparr>, \<lparr>kf_Id = 0, kf_binId = ''00'', kf_group = 1\<rparr>] 1 [0, 2],
     example_fingers [\<lparr>kf_Id = 1, kf_binId = ''01'', kf_group = 0\<rparr>] 2 [0, 1]]"

lemma example_bits: "getBinaryId 2 0 = ''00''" "getBinaryId 2 1 = ''01''" "getBinaryId 2 2 = ''10''"
  using getBinaryId_bits [of 2] by (simp_all add: upt_rec bit_iff_odd)

lemma example_kad_size: "kad_binaryIdSize (length example_kad) = 2"
proof -
  have "ceillog2 3 = 2" using ceillog2_le_iff [of 3 2] ceillog2_le_iff [of 3 1] by simp
  moreover have "length example_kad = 3" by (simp add: example_kad_def)
  ultimately show ?thesis by (simp add: kad_binaryIdSize_def max_def Let_def)
qed

lemma example_kad_ready: "kad_ready example_kad"
  unfolding kad_ready_def example_kad_size
  by (auto simp: example_kad_def example_fingers_def kad_ids_ok_def kad_peer_ready_def kad_fingers_ok_def finger_of_def
      example_bits new_kademliaPeer_def firstDifferentBit_def Let_def)

theorem kad_lookup_arrives_witness:
  "\<exists>nd p. nd \<in> set example_kad \<and> publicId nd = 0 \<and>
     lookup_run kad_handle example_kad 3 (\<lambda>_. 5) 2 (makeLookupMessage 2 4 0 [] 7) (\<lambda>_. 0) = Some (0, p) \<and>
     kp_requestsSatisfied p = kp_requestsSatisfied (nd_state nd) + 1"
proof -
  have "kad_lookup example_kad 0 0 (makeLookupMessage 2 4 0 [] 7)"
    by (simp add: kad_lookup_def is_lookup_def makeLookupMessage_def)
  moreover have "publicId ` set example_kad = {0, 1, 2}" by (simp add: example_kad_def example_fingers_def)
  moreover have "fully_connected example_kad" by (simp add: fully_connected_def example_kad_def example_fingers_def)
  ultimately show ?thesis
    using kad_lookup_arrives [OF example_kad_ready, of 2 0 0 "makeLookupMessage 2 4 0 [] 7" "\<lambda>_. 5" "\<lambda>_. 0"]
    by (auto simp: example_kad_size numeral_3_eq_3)
qed

end
