(* ===== verification/PowMetrics.thy ===== *)
theory PowMetrics
  imports PowPeers
begin

text \<open>
  What the mining peers log in the last round: \<open>endOfRound\<close> of BitcoinPeer/BitcoinPeer.cpp and
  EthereumPeer/EthereumPeer.cpp. The ledgers of the peers are joined into one graph of blocks; logged are
  its size, its longest chain, the highest block that all ledgers hold, and its forks. Each peer owns its
  ledger, so the test for distinct ledgers lets all pass. Loops that a cycle among the blocks would keep
  running are partial functions: \<open>None\<close> is not returning.
\<close>

subsection \<open>The joined graph\<close>

record blockAggregate =
  ba_hash :: string
  ba_parents :: "string list"
  ba_parasite :: bool
  ba_seen :: nat

record dag =
  dg_blocks :: "(string \<times> blockAggregate) list"
  dg_children :: "(string \<times> string list) list"

definition new_aggregate :: blockAggregate where
  "new_aggregate = \<lparr>ba_hash = [], ba_parents = [], ba_parasite = False, ba_seen = 0\<rparr>"

definition aggregate_block :: "blockRecord \<Rightarrow> blockAggregate \<Rightarrow> blockAggregate" where
  "aggregate_block r a =
     (let a = (if ba_seen a = 0 then a\<lparr>ba_hash := br_hash r, ba_parents := br_parents r\<rparr>
               else a\<lparr>ba_parents := fold (\<lambda>q ps. if q \<in> set ps then ps else ps @ [q]) (br_parents r) (ba_parents a)\<rparr>)
      in a\<lparr>ba_parasite := (ba_parasite a \<or> br_parasite r), ba_seen := ba_seen a + 1\<rparr>)"

definition ensure_key :: "string \<Rightarrow> (string \<times> string list) list \<Rightarrow> (string \<times> string list) list" where
  "ensure_key h ch = (case map_of ch h of None \<Rightarrow> AList.update h [] ch | Some _ \<Rightarrow> ch)"

definition add_record :: "blockRecord \<Rightarrow> dag \<Rightarrow> dag" where
  "add_record r dg =
     (let a = (case map_of (dg_blocks dg) (br_hash r) of None \<Rightarrow> new_aggregate | Some a \<Rightarrow> a)
      in \<lparr>dg_blocks = AList.update (br_hash r) (aggregate_block r a) (dg_blocks dg),
          dg_children = fold (add_child (br_hash r)) (br_parents r) (ensure_key (br_hash r) (dg_children dg))\<rparr>)"

definition aggregate_ledgers :: "pow list \<Rightarrow> dag" where
  "aggregate_ledgers ledgers =
     (let dg = fold (\<lambda>l. fold add_record (allBlocks l)) ledgers \<lparr>dg_blocks = [], dg_children = []\<rparr>;
          genesis = new_aggregate\<lparr>ba_hash := GENESIS, ba_seen := length ledgers\<rparr>
      in \<lparr>dg_blocks = (if map_of (dg_blocks dg) GENESIS = None then AList.update GENESIS genesis (dg_blocks dg) else dg_blocks dg),
          dg_children = ensure_key GENESIS (dg_children dg)\<rparr>)"

definition is_block :: "dag \<Rightarrow> string \<Rightarrow> bool" where
  "is_block dg h = (map_of (dg_blocks dg) h \<noteq> None)"

definition dag_children :: "dag \<Rightarrow> string \<Rightarrow> string list" where
  "dag_children dg h = (case map_of (dg_children dg) h of None \<Rightarrow> [] | Some cs \<Rightarrow> cs)"

subsection \<open>Heights\<close>

type_synonym heights = "(string \<times> int) list"

definition visit_child :: "dag \<Rightarrow> int \<Rightarrow> string \<Rightarrow> string list \<times> heights \<Rightarrow> string list \<times> heights" where
  "visit_child dg base child = (\<lambda>(queue, h).
     if \<not> is_block dg child then (queue, h)
     else case map_of h child of
         None \<Rightarrow> (queue @ [child], AList.update child (base + 1) h)
       | Some k \<Rightarrow> if base + 1 > k then (queue @ [child], AList.update child (base + 1) h) else (queue, h))"

definition height_in :: "heights \<Rightarrow> string \<Rightarrow> int" where
  "height_in h v = (case map_of h v of None \<Rightarrow> 0 | Some k \<Rightarrow> k)"

partial_function (option) height_loop :: "dag \<Rightarrow> string list \<Rightarrow> heights \<Rightarrow> heights option" where
  "height_loop dg queue h = (case queue of [] \<Rightarrow> Some h
     | current # queue \<Rightarrow> (let (queue, h) = fold (visit_child dg (height_in h current)) (dag_children dg current) (queue, h)
                         in height_loop dg queue h))"

definition computedHeight :: "dag \<Rightarrow> heights option" where
  "computedHeight dg = height_loop dg [GENESIS] [(GENESIS, 0)]"

text \<open>Bitcoin's longest chain, and the highest block that all ledgers hold, the least hash among equals.\<close>

definition longest_height :: "heights \<Rightarrow> int" where
  "longest_height h = fold (\<lambda>(_, k) m. max m k) h 0"

definition common_root :: "dag \<Rightarrow> nat \<Rightarrow> heights \<Rightarrow> string \<times> int" where
  "common_root dg ledgerCount h = fold (\<lambda>(v, a) (root, rootHeight).
     if ba_seen a \<noteq> ledgerCount then (root, rootHeight)
     else case map_of h v of None \<Rightarrow> (root, rootHeight)
       | Some k \<Rightarrow> if k > rootHeight \<or> k = rootHeight \<and> v < root then (v, k) else (root, rootHeight)) (dg_blocks dg) (GENESIS, 0)"

partial_function (option) parasite_loop :: "dag \<Rightarrow> heights \<Rightarrow> string \<Rightarrow> nat \<Rightarrow> nat option" where
  "parasite_loop dg h current n = (if current = GENESIS then Some n
     else case map_of (dg_blocks dg) current of None \<Rightarrow> Some n
       | Some a \<Rightarrow> (let n = (if ba_parasite a then n + 1 else n);
                        currentHeight = (case map_of h current of None \<Rightarrow> -1 | Some k \<Rightarrow> k)
           in case find (\<lambda>q. case map_of h q of None \<Rightarrow> False | Some k \<Rightarrow> currentHeight < 0 \<or> k = currentHeight - 1) (ba_parents a) of
                None \<Rightarrow> Some n
              | Some q \<Rightarrow> if q = [] then Some n else parasite_loop dg h q n))"

subsection \<open>Searches with a memo\<close>

text \<open>
  \<open>longestDepthFrom\<close> and \<open>subtreeWeight\<close> share their form: a node that is being searched counts nothing, a
  node with a memo its memo, any other node combines what its children give. The depth of the calls is at
  most the number of nodes, the fuel they get.
\<close>

type_synonym memo = "(string \<times> int) list"

primrec memo_search :: "nat \<Rightarrow> (int \<Rightarrow> int \<Rightarrow> int) \<Rightarrow> int \<Rightarrow> (string \<Rightarrow> bool) \<Rightarrow> dag \<Rightarrow> string set \<Rightarrow> string \<Rightarrow> memo \<Rightarrow> (int \<times> memo) option" where
  "memo_search 0 combine start keep dg active v memo = None"
| "memo_search (Suc k) combine start keep dg active v memo =
     (if v \<in> active then Some (0, memo)
      else case map_of memo v of Some d \<Rightarrow> Some (d, memo)
        | None \<Rightarrow> do {
            (d, memo) \<leftarrow> foldM (\<lambda>child (d, memo). if \<not> keep child then Some (d, memo)
                else do { (x, memo) \<leftarrow> memo_search k combine start keep dg (insert v active) child memo; Some (combine d x, memo) })
              (dag_children dg v) (start, memo);
            Some (d, AList.update v d memo) })"

definition search_fuel :: "dag \<Rightarrow> nat" where
  "search_fuel dg = length (dg_children dg) + 2"

definition longestDepthFrom :: "dag \<Rightarrow> heights \<Rightarrow> string \<Rightarrow> memo \<Rightarrow> (int \<times> memo) option" where
  "longestDepthFrom dg h = memo_search (search_fuel dg) (\<lambda>best d. max best (1 + d)) 0 (\<lambda>c. map_of h c \<noteq> None) dg {}"

definition subtreeWeight :: "dag \<Rightarrow> string \<Rightarrow> memo \<Rightarrow> (int \<times> memo) option" where
  "subtreeWeight dg = memo_search (search_fuel dg) (\<lambda>total d. total + d) 1 (is_block dg) dg {}"

subsection \<open>Forks\<close>

record forkStats =
  fs_points :: nat
  fs_lengths :: "(int \<times> nat) list"
  fs_locations :: "(int \<times> int) list"

definition no_forks :: forkStats where
  "no_forks = \<lparr>fs_points = 0, fs_lengths = [], fs_locations = []\<rparr>"

definition branch_lengths :: "dag \<Rightarrow> heights \<Rightarrow> string list \<Rightarrow> memo \<Rightarrow> ((string \<times> int) list \<times> memo) option" where
  "branch_lengths dg h children memo = foldM (\<lambda>child (branches, memo).
     if map_of h child = None then Some (branches, memo)
     else do { (d, memo) \<leftarrow> longestDepthFrom dg h child memo; Some (branches @ [(child, 1 + d)], memo) }) children ([], memo)"

definition count_branch :: "int \<Rightarrow> int \<Rightarrow> forkStats \<Rightarrow> forkStats" where
  "count_branch height len f = f\<lparr>fs_lengths := AList.update len ((case map_of (fs_lengths f) len of None \<Rightarrow> 0 | Some n \<Rightarrow> n) + 1) (fs_lengths f),
     fs_locations := fs_locations f @ [(height, len)]\<rparr>"

text \<open>Bitcoin counts the branches that are shorter than the longest one of their fork.\<close>

definition bitcoin_fork :: "dag \<Rightarrow> heights \<Rightarrow> string \<times> string list \<Rightarrow> forkStats \<times> memo \<Rightarrow> (forkStats \<times> memo) option" where
  "bitcoin_fork dg h = (\<lambda>(v, children) (f, memo).
     if length children \<le> 1 then Some (f, memo)
     else case map_of h v of None \<Rightarrow> Some (f, memo)
       | Some height \<Rightarrow> do {
           (branches, memo) \<leftarrow> branch_lengths dg h children memo;
           if length branches \<le> 1 then Some (f, memo)
           else let best = fold (\<lambda>(_, len) m. max m len) branches 0 in
             Some (fold (\<lambda>(_, len) f. if len \<ge> best then f else count_branch height len f) branches (f\<lparr>fs_points := fs_points f + 1\<rparr>), memo) })"

text \<open>Ethereum counts the branches that are lighter than the heaviest one.\<close>

definition ethereum_fork :: "dag \<Rightarrow> heights \<Rightarrow> string \<times> string list \<Rightarrow> forkStats \<times> memo \<times> memo \<Rightarrow> (forkStats \<times> memo \<times> memo) option" where
  "ethereum_fork dg h = (\<lambda>(v, children) (f, memo, weights).
     if length children \<le> 1 then Some (f, memo, weights)
     else case map_of h v of None \<Rightarrow> Some (f, memo, weights)
       | Some height \<Rightarrow> do {
           (branches, memo) \<leftarrow> branch_lengths dg h children memo;
           if length branches \<le> 1 then Some (f, memo, weights)
           else do {
             (best, weights) \<leftarrow> foldM (\<lambda>(child, _) (m, weights). do { (w, weights) \<leftarrow> subtreeWeight dg child weights; Some (max m w, weights) })
                branches (-1, weights);
             (f, weights) \<leftarrow> foldM (\<lambda>(child, len) (f, weights). do {
                 (w, weights) \<leftarrow> subtreeWeight dg child weights;
                 Some (if w \<ge> best then f else count_branch height len f, weights) }) branches (f\<lparr>fs_points := fs_points f + 1\<rparr>, weights);
             Some (f, memo, weights) } })"

subsection \<open>The heaviest path\<close>

definition better_child :: "dag \<Rightarrow> heights \<Rightarrow> string \<Rightarrow> (string \<times> int \<times> int) \<times> memo \<Rightarrow> ((string \<times> int \<times> int) \<times> memo) option" where
  "better_child dg h child = (\<lambda>((best, bestWeight, bestHeight), weights).
     if \<not> is_block dg child then Some ((best, bestWeight, bestHeight), weights)
     else do {
       (w, weights) \<leftarrow> subtreeWeight dg child weights;
       let k = height_in h child;
       Some (if w > bestWeight \<or> w = bestWeight \<and> k > bestHeight \<or> w = bestWeight \<and> k = bestHeight \<and> child < best
             then (child, w, k) else (best, bestWeight, bestHeight), weights) })"

partial_function (option) ghost_loop :: "dag \<Rightarrow> heights \<Rightarrow> string \<Rightarrow> string list \<Rightarrow> memo \<Rightarrow> (string list \<times> memo) option" where
  "ghost_loop dg h cursor path weights = (if dag_children dg cursor = [] then Some (path, weights)
     else do {
       ((best, _, _), weights) \<leftarrow> foldM (better_child dg h) (dag_children dg cursor) (([], -1, -1), weights);
       if best = [] then Some (path, weights) else ghost_loop dg h best (path @ [best]) weights })"

subsection \<open>What is logged\<close>

record powMetrics =
  pm_minedBlocks :: nat
  pm_longestChain :: int
  pm_commonRootHeight :: int
  pm_commonRootParasites :: nat
  pm_forks :: forkStats

text \<open>Nothing is logged before the last round \<open>final\<close>, without peers and without ledgers.\<close>

definition peer_ledgers :: "powPeer list \<Rightarrow> pow list" where
  "peer_ledgers ps = concat (map (\<lambda>p. case bp_pow p of None \<Rightarrow> [] | Some l \<Rightarrow> [l]) ps)"

definition bitcoin_metrics :: "pow list \<Rightarrow> powMetrics option" where
  "bitcoin_metrics ledgers = (let dg = aggregate_ledgers ledgers in do {
     h \<leftarrow> computedHeight dg;
     let (root, rootHeight) = common_root dg (length ledgers) h;
     parasites \<leftarrow> parasite_loop dg h root 0;
     (f, _) \<leftarrow> foldM (bitcoin_fork dg h) (dg_children dg) (no_forks, []);
     Some \<lparr>pm_minedBlocks = length (dg_blocks dg) - 1, pm_longestChain = longest_height h, pm_commonRootHeight = rootHeight,
           pm_commonRootParasites = parasites, pm_forks = f\<rparr> })"

definition ethereum_metrics :: "pow list \<Rightarrow> powMetrics option" where
  "ethereum_metrics ledgers = (let dg = aggregate_ledgers ledgers in do {
     h \<leftarrow> computedHeight dg;
     (path, weights) \<leftarrow> ghost_loop dg h GENESIS [GENESIS] [];
     let (root, rootHeight) = common_root dg (length ledgers) h;
     let parasites = length (filter (\<lambda>v. case map_of (dg_blocks dg) v of None \<Rightarrow> False | Some a \<Rightarrow> ba_parasite a) (tl path));
     (f, _) \<leftarrow> foldM (ethereum_fork dg h) (dg_children dg) (no_forks, [], weights);
     Some \<lparr>pm_minedBlocks = length (dg_blocks dg) - 1, pm_longestChain = int (length path) - 1, pm_commonRootHeight = rootHeight,
           pm_commonRootParasites = parasites, pm_forks = f\<rparr> })"

definition pow_endOfRound :: "(pow list \<Rightarrow> powMetrics option) \<Rightarrow> int \<Rightarrow> int \<Rightarrow> powPeer list \<Rightarrow> powMetrics option option" where
  "pow_endOfRound metrics final now ps =
     (if ps = [] \<or> final > now \<or> peer_ledgers ps = [] then Some None else map_option Some (metrics (peer_ledgers ps)))"

definition bitcoin_endOfRound :: "int \<Rightarrow> int \<Rightarrow> powPeer list \<Rightarrow> powMetrics option option" where
  "bitcoin_endOfRound = pow_endOfRound bitcoin_metrics"

definition ethereum_endOfRound :: "int \<Rightarrow> int \<Rightarrow> powPeer list \<Rightarrow> powMetrics option option" where
  "ethereum_endOfRound = pow_endOfRound ethereum_metrics"

subsection \<open>Edges, paths and the loop for the heights\<close>

definition dag_edge :: "dag \<Rightarrow> string \<Rightarrow> string \<Rightarrow> bool" where
  "dag_edge dg u v = (v \<in> set (dag_children dg u) \<and> is_block dg v)"

text \<open>\<open>dag_path dg n v\<close>: a path of \<open>n\<close> edges leads from GENESIS to \<open>v\<close>.\<close>

inductive dag_path :: "dag \<Rightarrow> nat \<Rightarrow> string \<Rightarrow> bool" for dg where
  start: "dag_path dg 0 GENESIS"
| step: "dag_path dg n u \<Longrightarrow> dag_edge dg u v \<Longrightarrow> dag_path dg (Suc n) v"

text \<open>A rank that grows along the edges shows that the blocks have no cycle.\<close>

definition ranked :: "(string \<Rightarrow> nat) \<Rightarrow> dag \<Rightarrow> bool" where
  "ranked rank dg = (\<forall>u v. dag_edge dg u v \<longrightarrow> rank u < rank v)"

lemma path_rank: "dag_path dg n v \<Longrightarrow> ranked rank dg \<Longrightarrow> n \<le> rank v"
  by (induction rule: dag_path.induct) (auto simp: ranked_def dest: spec order.strict_trans1 less_le_trans Suc_leI intro: Suc_leI le_less_trans)

text \<open>One visit of the children: exactly those below \<open>base + 1\<close> are raised and queued.\<close>

definition raised :: "dag \<Rightarrow> heights \<Rightarrow> int \<Rightarrow> string list \<Rightarrow> string set" where
  "raised dg h base cs = {v \<in> set cs. is_block dg v \<and> (case map_of h v of None \<Rightarrow> True | Some k \<Rightarrow> k < base + 1)}"

lemma finite_raised [simp]: "finite (raised dg h base cs)"
  by (rule finite_subset [of _ "set cs"]) (auto simp: raised_def)

lemma visit_children:
  assumes "fold (visit_child dg base) cs (q, h) = (q', h')"
  shows "map_of h' = (\<lambda>v. if v \<in> raised dg h base cs then Some (base + 1) else map_of h v)
    \<and> set q' = set q \<union> raised dg h base cs \<and> length q' = length q + card (raised dg h base cs)"
  using assms
proof (induction cs arbitrary: q h)
  case Nil
  then show ?case by (simp add: raised_def)
next
  case (Cons c cs)
  show ?case
  proof (cases "c \<in> raised dg h base [c]")
    case True
    let ?h = "AList.update c (base + 1) h"
    have v: "visit_child dg base c (q, h) = (q @ [c], ?h)"
      using True by (auto simp: raised_def visit_child_def split: option.splits)
    have r: "raised dg h base (c # cs) = insert c (raised dg ?h base cs)" and n: "c \<notin> raised dg ?h base cs"
      using True by (auto simp: raised_def update_conv' split: option.splits if_splits)
    show ?thesis
      using Cons.IH [of "q @ [c]" ?h] Cons.prems unfolding r by (auto simp: v n update_conv' fun_eq_iff)
  next
    case False
    have v: "visit_child dg base c (q, h) = (q, h)"
      using False by (auto simp: raised_def visit_child_def split: option.splits)
    have r: "raised dg h base (c # cs) = raised dg h base cs"
      using False by (auto simp: raised_def)
    show ?thesis using Cons.IH [of q h] Cons.prems by (simp add: v r)
  qed
qed

text \<open>Keys stay distinct: the association list is the map of the code.\<close>

lemma visit_distinct:
  "fold (visit_child dg base) cs (q, h) = (q', h') \<Longrightarrow> distinct (map fst h) \<Longrightarrow> distinct (map fst h')"
proof (induction cs arbitrary: q h)
  case (Cons c cs)
  obtain q1 h1 where v: "visit_child dg base c (q, h) = (q1, h1)" by fastforce
  have "distinct (map fst h1)"
    using v Cons.prems(2) by (auto simp: visit_child_def distinct_update split: if_splits option.splits)
  then show ?case using Cons.IH [of q1 h1] Cons.prems(1) by (simp add: v)
qed simp

definition height_inv :: "dag \<Rightarrow> string list \<Rightarrow> heights \<Rightarrow> bool" where
  "height_inv dg q h = ((\<forall>v k. map_of h v = Some k \<longrightarrow> (\<exists>n. k = int n \<and> dag_path dg n v))
     \<and> map_of h GENESIS \<noteq> None
     \<and> (\<forall>u k v. map_of h u = Some k \<longrightarrow> u \<notin> set q \<longrightarrow> dag_edge dg u v \<longrightarrow> (\<exists>k'. map_of h v = Some k' \<and> k + 1 \<le> k'))
     \<and> (\<forall>u\<in>set q. map_of h u \<noteq> None) \<and> distinct (map fst h))"

text \<open>What the heights may still grow by: the measure of the loop, with the length of the queue.\<close>

definition slack :: "(string \<Rightarrow> nat) \<Rightarrow> heights \<Rightarrow> string \<Rightarrow> nat" where
  "slack rank h v = (case map_of h v of None \<Rightarrow> rank v + 1 | Some k \<Rightarrow> rank v - nat k)"

definition total_slack :: "(string \<Rightarrow> nat) \<Rightarrow> dag \<Rightarrow> heights \<Rightarrow> nat" where
  "total_slack rank dg h = (\<Sum>v\<in>set (map fst (dg_blocks dg)). slack rank h v)"

lemma height_step:
  assumes inv: "height_inv dg (u # q) h" and fold: "fold (visit_child dg (height_in h u)) (dag_children dg u) (q, h) = (q', h')"
  shows "height_inv dg q' h'"
proof -
  obtain n where u: "map_of h u = Some (int n)" "dag_path dg n u"
    using inv unfolding height_inv_def by (metis list.set_intros(1) not_None_eq)
  have b: "height_in h u = int n" using u by (simp add: height_in_def)
  let ?R = "raised dg h (int n) (dag_children dg u)"
  have R: "map_of h' = (\<lambda>v. if v \<in> ?R then Some (int n + 1) else map_of h v)" "set q' = set q \<union> ?R"
    using visit_children [OF fold [unfolded b]] by auto
  have path: "dag_path dg (Suc n) v" if "v \<in> ?R" for v
    using that u(2) by (auto simp: raised_def dag_edge_def intro: dag_path.step)
  have 1: "\<exists>m. k = int m \<and> dag_path dg m v" if "map_of h' v = Some k" for v k
  proof (cases "v \<in> ?R")
    case True
    then show ?thesis using that path [OF True] R(1) by (intro exI [of _ "Suc n"]) auto
  next
    case False
    then show ?thesis using that inv R(1) by (simp add: height_inv_def)
  qed
  have 2: "\<exists>k'. map_of h' v = Some k' \<and> k + 1 \<le> k'" if w: "map_of h' w = Some k" "w \<notin> set q'" "dag_edge dg w v" for w k v
  proof -
    have wr: "w \<notin> ?R" "w \<notin> set q" "map_of h w = Some k" using w R by auto
    show ?thesis
    proof (cases "w = u")
      case True
      then have "k = int n" "v \<in> set (dag_children dg u)" "is_block dg v" using wr u w(3) by (auto simp: dag_edge_def)
      then show ?thesis using R(1) by (cases "v \<in> ?R") (auto simp: raised_def split: option.splits)
    next
      case False
      then obtain k' where "map_of h v = Some k'" "k + 1 \<le> k'"
        using inv wr w(3) unfolding height_inv_def by (metis set_ConsD)
      then show ?thesis using R(1) by (cases "v \<in> ?R") (auto simp: raised_def)
    qed
  qed
  show ?thesis
    unfolding height_inv_def using 1 2 inv R visit_distinct [OF fold] by (auto simp: height_inv_def)
qed

lemma slack_step:
  assumes inv: "height_inv dg (u # q) h" and rk: "ranked rank dg"
    and fold: "fold (visit_child dg (height_in h u)) (dag_children dg u) (q, h) = (q', h')"
  shows "total_slack rank dg h' + length q' < total_slack rank dg h + length (u # q)"
proof -
  obtain n where u: "map_of h u = Some (int n)" "dag_path dg n u"
    using inv unfolding height_inv_def by (metis list.set_intros(1) not_None_eq)
  have b: "height_in h u = int n" using u by (simp add: height_in_def)
  let ?R = "raised dg h (int n) (dag_children dg u)" and ?V = "set (map fst (dg_blocks dg))"
  have R: "map_of h' = (\<lambda>v. if v \<in> ?R then Some (int n + 1) else map_of h v)" "length q' = length q + card ?R"
    using visit_children [OF fold [unfolded b]] by auto
  have sub: "?R \<subseteq> ?V" by (auto simp: raised_def is_block_def dest: map_of_SomeD intro: rev_image_eqI)
  have le: "(if v \<in> ?R then 1 else 0) + slack rank h' v \<le> slack rank h v" for v
  proof (cases "v \<in> ?R")
    case True
    then have "dag_path dg (Suc n) v" using u(2) by (auto simp: raised_def dag_edge_def intro: dag_path.step)
    then have "Suc n \<le> rank v" using path_rank rk by blast
    then show ?thesis using True R(1) by (auto simp: slack_def raised_def nat_less_iff nat_add_distrib split: option.splits)
  next
    case False
    then show ?thesis using R(1) by (simp add: slack_def)
  qed
  have "(\<Sum>v\<in>?V. (if v \<in> ?R then 1 else 0) + slack rank h' v) \<le> total_slack rank dg h"
    unfolding total_slack_def by (rule sum_mono) (rule le)
  moreover have "(\<Sum>v\<in>?V. if v \<in> ?R then 1 else 0) = card ?R"
    using sub by (simp add: sum.If_cases Int_absorb1)
  ultimately have "card ?R + total_slack rank dg h' \<le> total_slack rank dg h"
    by (simp add: sum.distrib total_slack_def)
  then show ?thesis using R(2) by simp
qed

lemma height_loop_returns:
  assumes "height_inv dg q h" "ranked rank dg"
  shows "\<exists>h'. height_loop dg q h = Some h' \<and> height_inv dg [] h'"
  using assms
proof (induction "total_slack rank dg h + length q" arbitrary: q h rule: less_induct)
  case less
  show ?case
  proof (cases q)
    case Nil
    then show ?thesis using less.prems by (subst height_loop.simps) simp
  next
    case (Cons u r)
    obtain q' h' where f: "fold (visit_child dg (height_in h u)) (dag_children dg u) (r, h) = (q', h')" by fastforce
    have "\<exists>h''. height_loop dg q' h' = Some h'' \<and> height_inv dg [] h''"
      using less.hyps [of h' q'] slack_step [OF less.prems(1) [unfolded Cons] less.prems(2) f] height_step [OF less.prems(1) [unfolded Cons] f]
        less.prems(2) Cons by simp
    then show ?thesis by (subst height_loop.simps) (simp add: Cons f)
  qed
qed

text \<open>The heights are the lengths of the longest paths, defined for the blocks that GENESIS reaches.\<close>

definition longest_path :: "dag \<Rightarrow> string \<Rightarrow> int \<Rightarrow> bool" where
  "longest_path dg v k = (\<exists>n. k = int n \<and> dag_path dg n v \<and> (\<forall>m. dag_path dg m v \<longrightarrow> m \<le> n))"

lemma height_inv_above:
  assumes inv: "height_inv dg [] h" and "dag_path dg n v"
  shows "\<exists>k. map_of h v = Some k \<and> int n \<le> k"
  using assms(2)
proof (induction rule: dag_path.induct)
  case start
  then show ?case using inv unfolding height_inv_def by fastforce
next
  case (step n u v)
  then show ?case using inv unfolding height_inv_def by fastforce
qed

lemma height_inv_longest:
  assumes "height_inv dg [] h"
  shows "map_of h v = Some k \<longleftrightarrow> longest_path dg v k"
proof
  assume k: "map_of h v = Some k"
  then obtain n where "k = int n" "dag_path dg n v" using assms unfolding height_inv_def by blast
  then show "longest_path dg v k"
    using height_inv_above [OF assms] k unfolding longest_path_def by fastforce
next
  assume "longest_path dg v k"
  then obtain n where n: "k = int n" "dag_path dg n v" "\<forall>m. dag_path dg m v \<longrightarrow> m \<le> n"
    unfolding longest_path_def by blast
  obtain k' where k': "map_of h v = Some k'" "int n \<le> k'" using height_inv_above [OF assms n(2)] by blast
  then obtain m where "k' = int m" "dag_path dg m v" using assms unfolding height_inv_def by blast
  then show "map_of h v = Some k" using k' n by force
qed

lemma computedHeight_longest:
  assumes "ranked rank dg"
  shows "\<exists>h. computedHeight dg = Some h \<and> height_inv dg [] h \<and> (\<forall>v k. map_of h v = Some k \<longleftrightarrow> longest_path dg v k)"
proof -
  have "height_inv dg [GENESIS] [(GENESIS, 0)]"
    by (auto simp: height_inv_def intro: exI [of _ 0] dag_path.start)
  from height_loop_returns [OF this assms] show ?thesis
    unfolding computedHeight_def using height_inv_longest by blast
qed

lemma fold_max_ge:
  "(m :: int) \<le> fold (\<lambda>(_, k) m. max m k) h m \<and> (\<forall>p\<in>set h. snd p \<le> fold (\<lambda>(_, k) m. max m k) h m)
   \<and> (fold (\<lambda>(_, k) m. max m k) h m = m \<or> fold (\<lambda>(_, k) m. max m k) h m \<in> snd ` set h)"
proof (induction h arbitrary: m)
  case (Cons p h)
  obtain v k where p: "p = (v, k)" by fastforce
  show ?case using Cons.IH [of "max m k"] by (auto simp: p max_def split: if_splits)
qed simp

lemma longest_height_max:
  assumes rk: "ranked rank dg" and h: "computedHeight dg = Some h"
  shows "\<exists>n v. longest_height h = int n \<and> dag_path dg n v \<and> (\<forall>m w. dag_path dg m w \<longrightarrow> m \<le> n)"
proof -
  have inv: "height_inv dg [] h" using computedHeight_longest [OF rk] h by auto
  then have d: "distinct (map fst h)" by (simp add: height_inv_def)
  have le: "int m \<le> longest_height h" if "dag_path dg m w" for m w
    using height_inv_above [OF inv that] fold_max_ge [of 0 h] unfolding longest_height_def by (force dest: map_of_SomeD)
  have "longest_height h = 0 \<or> longest_height h \<in> snd ` set h"
    using fold_max_ge [of 0 h] unfolding longest_height_def by blast
  then obtain n v where "longest_height h = int n" "dag_path dg n v"
  proof
    assume "longest_height h = 0"
    then show thesis using that [of 0 GENESIS] dag_path.start by simp
  next
    assume "longest_height h \<in> snd ` set h"
    then obtain v where "map_of h v = Some (longest_height h)" using d by auto
    then show thesis using inv that unfolding height_inv_def by blast
  qed
  then show ?thesis using le by (metis of_nat_le_iff)
qed

subsection \<open>The graph of ledgers without a cycle\<close>

text \<open>The edges are the parents that the records name.\<close>

lemma dag_children_add:
  "v \<in> set (case map_of (fold (add_child c) ps ch) u of None \<Rightarrow> [] | Some cs \<Rightarrow> cs) \<Longrightarrow>
   v \<in> set (case map_of ch u of None \<Rightarrow> [] | Some cs \<Rightarrow> cs) \<or> (v = c \<and> u \<in> set ps)"
proof (induction ps arbitrary: ch)
  case (Cons p ps)
  from Cons.IH Cons.prems show ?case
    by (force simp: add_child_def Let_def update_conv' split: if_splits option.splits)
qed simp

lemma dag_children_ensure:
  "(case map_of (ensure_key k ch) u of None \<Rightarrow> [] | Some cs \<Rightarrow> cs) = (case map_of ch u of None \<Rightarrow> [] | Some cs \<Rightarrow> cs)"
  by (auto simp: ensure_key_def update_conv' split: option.splits)

definition edges_from :: "blockRecord set \<Rightarrow> dag \<Rightarrow> bool" where
  "edges_from rs dg = (\<forall>u v. v \<in> set (dag_children dg u) \<longrightarrow> (\<exists>r\<in>rs. br_hash r = v \<and> u \<in> set (br_parents r)))"

lemma edges_add_record:
  assumes "edges_from rs dg" "r \<in> rs"
  shows "edges_from rs (add_record r dg)"
  unfolding edges_from_def
proof (intro allI impI)
  fix u v
  assume "v \<in> set (dag_children (add_record r dg) u)"
  then have "v \<in> set (dag_children dg u) \<or> (v = br_hash r \<and> u \<in> set (br_parents r))"
    using dag_children_add [of v "br_hash r" "br_parents r" "ensure_key (br_hash r) (dg_children dg)" u]
    by (simp add: dag_children_def add_record_def dag_children_ensure)
  then show "\<exists>r\<in>rs. br_hash r = v \<and> u \<in> set (br_parents r)"
    using assms unfolding edges_from_def by blast
qed

lemma edges_add_records: "edges_from rs dg \<Longrightarrow> set xs \<subseteq> rs \<Longrightarrow> edges_from rs (fold add_record xs dg)"
  by (induction xs arbitrary: dg) (auto simp: edges_add_record)

lemma edges_add_ledgers:
  "edges_from rs dg \<Longrightarrow> (\<forall>l\<in>set ls. set (allBlocks l) \<subseteq> rs) \<Longrightarrow> edges_from rs (fold (\<lambda>l. fold add_record (allBlocks l)) ls dg)"
  by (induction ls arbitrary: dg) (auto simp: edges_add_records)

definition ledgers_ranked :: "(string \<Rightarrow> nat) \<Rightarrow> pow list \<Rightarrow> bool" where
  "ledgers_ranked rank ls = (\<forall>l\<in>set ls. \<forall>r\<in>set (allBlocks l). \<forall>q\<in>set (br_parents r). rank q < rank (br_hash r))"

lemma aggregate_ranked:
  assumes "ledgers_ranked rank ls"
  shows "ranked rank (aggregate_ledgers ls)"
proof -
  let ?rs = "\<Union>l\<in>set ls. set (allBlocks l)" and ?dg = "fold (\<lambda>l. fold add_record (allBlocks l)) ls \<lparr>dg_blocks = [], dg_children = []\<rparr>"
  have "edges_from ?rs ?dg"
    by (rule edges_add_ledgers) (auto simp: edges_from_def dag_children_def)
  then have "edges_from ?rs (aggregate_ledgers ls)"
    by (simp add: edges_from_def aggregate_ledgers_def Let_def dag_children_def dag_children_ensure)
  then show ?thesis
    using assms unfolding edges_from_def ranked_def dag_edge_def ledgers_ranked_def by fastforce
qed

subsection \<open>Every loop returns\<close>

lemma parasite_loop_returns:
  assumes "height_inv dg [] h" "map_of h v = Some (int k)"
  shows "\<exists>m. parasite_loop dg h v n = Some m"
  using assms(2)
proof (induction k arbitrary: v n rule: less_induct)
  case (less k)
  let ?f = "\<lambda>q. case map_of h q of None \<Rightarrow> False | Some j \<Rightarrow> int k < 0 \<or> j = int k - 1"
  show ?case
  proof (cases "v = GENESIS \<or> map_of (dg_blocks dg) v = None")
    case True
    then show ?thesis by (subst parasite_loop.simps) auto
  next
    case False
    then obtain a where a: "v \<noteq> GENESIS" "map_of (dg_blocks dg) v = Some a" by auto
    show ?thesis
    proof (cases "find ?f (ba_parents a)")
      case None
      then show ?thesis using a less.prems by (subst parasite_loop.simps) (simp add: Let_def)
    next
      case (Some q)
      then have q: "map_of h q = Some (int k - 1)" by (auto simp: find_Some_iff split: option.splits)
      then obtain j where j: "int k - 1 = int j" using assms(1) unfolding height_inv_def by blast
      then have "\<exists>m. parasite_loop dg h q i = Some m" for i using less.IH [of j q] q by simp
      then show ?thesis using a less.prems Some by (subst parasite_loop.simps) (simp add: Let_def)
    qed
  qed
qed

lemma memo_search_returns:
  assumes "card (set (map fst (dg_children dg)) - active) < k"
  shows "\<exists>r. memo_search k combine start keep dg active v memo = Some r"
  using assms
proof (induction k arbitrary: active v memo)
  case (Suc k)
  show ?case
  proof (cases "v \<in> active \<or> map_of memo v \<noteq> None \<or> dag_children dg v = []")
    case True
    then show ?thesis by (auto split: option.splits)
  next
    case False
    then have "v \<in> set (map fst (dg_children dg)) - active"
      by (auto simp: dag_children_def dest!: map_of_SomeD split: option.splits intro: rev_image_eqI)
    then have "card (set (map fst (dg_children dg)) - insert v active) < card (set (map fst (dg_children dg)) - active)"
      by (intro psubset_card_mono) auto
    then have IH: "\<exists>r. memo_search k combine start keep dg (insert v active) c m = Some r" for c m
      using Suc.IH [of "insert v active"] Suc.prems by simp
    have "\<exists>s'. foldM (\<lambda>child (d, memo). if \<not> keep child then Some (d, memo)
        else do { (x, memo) \<leftarrow> memo_search k combine start keep dg (insert v active) child memo; Some (combine d x, memo) })
        (dag_children dg v) (start, memo) = Some s' \<and> True"
    proof (rule foldM_total, goal_cases)
      case (2 c s)
      show ?case using IH [of c "snd s"] by (cases s) auto
    qed simp
    then show ?thesis using False by (auto split: option.splits)
  qed
qed simp

lemma search_returns:
  "\<exists>r. memo_search (search_fuel dg) combine start keep dg {} v memo = Some r"
proof (rule memo_search_returns)
  have "card (set (map fst (dg_children dg))) \<le> length (dg_children dg)"
    by (metis card_length length_map)
  then show "card (set (map fst (dg_children dg)) - {}) < search_fuel dg" by (simp add: search_fuel_def)
qed

lemma longestDepthFrom_returns: "\<exists>d memo'. longestDepthFrom dg h v memo = Some (d, memo')"
  unfolding longestDepthFrom_def using search_returns [of dg] by (metis surj_pair)

lemma subtreeWeight_returns: "\<exists>d memo'. subtreeWeight dg v memo = Some (d, memo')"
  unfolding subtreeWeight_def using search_returns [of dg] by (metis surj_pair)

lemma branch_lengths_returns: "\<exists>r. branch_lengths dg h children memo = Some r"
proof -
  have "\<exists>r. branch_lengths dg h children memo = Some r \<and> True" unfolding branch_lengths_def
  proof (rule foldM_total, goal_cases)
    case (2 c s)
    show ?case using longestDepthFrom_returns [of dg h c "snd s"] by (cases s) auto
  qed simp
  then show ?thesis by simp
qed

lemma bitcoin_forks_return: "\<exists>f memo'. foldM (bitcoin_fork dg h) chs s = Some (f, memo')"
proof -
  have "\<exists>s'. foldM (bitcoin_fork dg h) chs s = Some s' \<and> True"
  proof (rule foldM_total, goal_cases)
    case (2 c s)
    show ?case using branch_lengths_returns [of dg h "snd c" "snd s"]
      by (cases c; cases s) (auto simp: bitcoin_fork_def Let_def split: option.splits)
  qed simp
  then show ?thesis by (metis surj_pair)
qed

lemma weigh_returns:
  assumes "\<And>x w weights. \<exists>s. g x w weights = Some s"
  shows "\<exists>s'. foldM (\<lambda>(child, len) (m, weights). do { (w, weights) \<leftarrow> subtreeWeight dg child weights; g (child, len, m) w weights }) bs s = Some s'"
proof -
  have "\<exists>s'. foldM (\<lambda>(child, len) (m, weights). do { (w, weights) \<leftarrow> subtreeWeight dg child weights; g (child, len, m) w weights }) bs s = Some s' \<and> True"
  proof (rule foldM_total, goal_cases)
    case (2 c s)
    obtain child len m weights where cs: "c = (child, len)" "s = (m, weights)" by (metis surj_pair)
    obtain w weights' where "subtreeWeight dg child weights = Some (w, weights')" using subtreeWeight_returns by blast
    then show ?case using assms [of "(child, len, m)" w weights'] by (auto simp: cs)
  qed simp
  then show ?thesis by simp
qed

lemma ethereum_fork_returns: "\<exists>s'. ethereum_fork dg h c s = Some s'"
proof -
  obtain v children f memo weights where cs: "c = (v, children)" "s = (f, memo, weights)" by (metis surj_pair)
  obtain branches memo' where b: "branch_lengths dg h children memo = Some (branches, memo')"
    using branch_lengths_returns by (metis surj_pair)
  obtain best w where 1: "foldM (\<lambda>(child, _) (m, weights). do { (w, weights) \<leftarrow> subtreeWeight dg child weights; Some (max m w, weights) })
      branches (-1, weights) = Some (best, w)"
    using weigh_returns [of "\<lambda>(child, len, m) w weights. Some (max m w, weights)" dg branches "(-1, weights)"] by auto
  have 2: "\<exists>f' w'. foldM (\<lambda>(child, len) (f, weights). do {
      (w, weights) \<leftarrow> subtreeWeight dg child weights;
      Some (if w \<ge> best then f else count_branch height len f, weights) }) branches (f, w) = Some (f', w')" for height f
    using weigh_returns [of "\<lambda>(child, len, f) w weights. Some (if w \<ge> best then f else count_branch height len f, weights)" dg branches "(f, w)"]
    by (auto)
  show ?thesis
  proof (cases "map_of h v")
    case None
    then show ?thesis by (simp add: cs ethereum_fork_def)
  next
    case (Some k)
    obtain f' w' where "foldM (\<lambda>(child, len) (f, weights). do {
      (w, weights) \<leftarrow> subtreeWeight dg child weights;
      Some (if w \<ge> best then f else count_branch k len f, weights) }) branches (f\<lparr>fs_points := fs_points f + 1\<rparr>, w) = Some (f', w')"
      using 2 by blast
    then show ?thesis using Some b 1 by (simp add: cs ethereum_fork_def)
  qed
qed

lemma ethereum_forks_return: "\<exists>f r. foldM (ethereum_fork dg h) chs s = Some (f, r)"
proof -
  have "\<exists>s'. foldM (ethereum_fork dg h) chs s = Some s' \<and> True"
    by (rule foldM_total) (use ethereum_fork_returns in auto)
  then show ?thesis by (metis surj_pair)
qed

lemma better_child_step:
  assumes "c \<in> set (dag_children dg cursor)" "best = [] \<or> dag_edge dg cursor best"
  shows "\<exists>b w k weights'. better_child dg h c ((best, bw, bh), weights) = Some ((b, w, k), weights') \<and> (b = [] \<or> dag_edge dg cursor b)"
proof -
  obtain w weights' where "subtreeWeight dg c weights = Some (w, weights')" using subtreeWeight_returns by blast
  then show ?thesis using assms by (auto simp: better_child_def Let_def dag_edge_def)
qed

lemma better_child_edge:
  assumes "\<forall>c\<in>set cs. c \<in> set (dag_children dg cursor)" "best = [] \<or> dag_edge dg cursor best"
  shows "\<exists>b w k weights'. foldM (better_child dg h) cs ((best, bw, bh), weights) = Some ((b, w, k), weights') \<and> (b = [] \<or> dag_edge dg cursor b)"
  using assms
proof (induction cs arbitrary: best bw bh weights)
  case (Cons c cs)
  obtain b w k weights' where s: "better_child dg h c ((best, bw, bh), weights) = Some ((b, w, k), weights')" "b = [] \<or> dag_edge dg cursor b"
    using better_child_step [of c dg cursor best h bw bh weights] Cons.prems by (metis list.set_intros(1))
  show ?case using Cons.IH [OF _ s(2)] Cons.prems(1) s(1) by simp
qed auto

lemma ghost_loop_returns:
  assumes "ranked rank dg" "dag_path dg n cursor" "length path = Suc n"
  shows "\<exists>path' weights' n' v. ghost_loop dg h cursor path weights = Some (path', weights') \<and> length path' = Suc n' \<and> dag_path dg n' v"
  using assms(2,3)
proof (induction "card {v \<in> set (map fst (dg_blocks dg)). rank cursor < rank v}" arbitrary: n cursor path weights rule: less_induct)
  case less
  obtain b w k weights' where f: "foldM (better_child dg h) (dag_children dg cursor) (([], -1, -1), weights) = Some ((b, w, k), weights')"
    and b: "b = [] \<or> dag_edge dg cursor b"
    using better_child_edge [of "dag_children dg cursor" dg cursor "[]"] by blast
  show ?case
  proof (cases "dag_children dg cursor = [] \<or> b = []")
    case True
    then show ?thesis using f less.prems by (subst ghost_loop.simps) auto
  next
    case False
    then have e: "dag_edge dg cursor b" using b by blast
    then have "rank cursor < rank b" "b \<in> set (map fst (dg_blocks dg))"
      using assms(1) by (auto simp: ranked_def dag_edge_def is_block_def dest: map_of_SomeD intro: rev_image_eqI)
    then have "card {v \<in> set (map fst (dg_blocks dg)). rank b < rank v} < card {v \<in> set (map fst (dg_blocks dg)). rank cursor < rank v}"
      by (intro psubset_card_mono) auto
    from less.hyps [OF this dag_path.step [OF less.prems(1) e]] less.prems(2) show ?thesis
      using False f by (subst ghost_loop.simps) simp
  qed
qed

lemma common_root_height:
  assumes "\<forall>v k. map_of h v = Some k \<longrightarrow> 0 \<le> k"
    and "common_root dg m h = (v, k)"
  shows "0 \<le> k \<and> (v = GENESIS \<and> k = 0 \<or> map_of h v = Some k)"
proof -
  let ?P = "\<lambda>(v, k). 0 \<le> k \<and> (v = GENESIS \<and> k = 0 \<or> map_of h v = Some k)"
  have "?P (common_root dg m h)"
    unfolding common_root_def
  proof (rule fold_invariant [where I = ?P], goal_cases)
    case (2 x s)
    obtain u a v k where xs: "x = (u, a)" "s = (v, k)" by (metis surj_pair)
    show ?case using 2(2) assms(1) by (cases "map_of h u") (simp_all add: xs)
  qed auto
  then show ?thesis using assms(2) by simp
qed

subsection \<open>What the logged figures mean\<close>

lemma bitcoin_metrics_value:
  assumes rk: "ledgers_ranked rank ls"
  shows "\<exists>m h. bitcoin_metrics ls = Some m \<and> computedHeight (aggregate_ledgers ls) = Some h \<and> pm_longestChain m = longest_height h
    \<and> pm_minedBlocks m = length (dg_blocks (aggregate_ledgers ls)) - 1
    \<and> pm_commonRootHeight m = snd (common_root (aggregate_ledgers ls) (length ls) h)"
proof -
  let ?dg = "aggregate_ledgers ls"
  obtain h where h: "computedHeight ?dg = Some h" "height_inv ?dg [] h"
    using computedHeight_longest [OF aggregate_ranked [OF rk]] by blast
  obtain v k where r: "common_root ?dg (length ls) h = (v, k)" by fastforce
  have pos: "\<forall>v k. map_of h v = Some k \<longrightarrow> 0 \<le> k" using h(2) unfolding height_inv_def by fastforce
  have "\<exists>m. parasite_loop ?dg h v 0 = Some m"
  proof (cases "v = GENESIS")
    case True
    then show ?thesis by (subst parasite_loop.simps) simp
  next
    case False
    then have "map_of h v = Some (int (nat k))" using common_root_height [OF pos r] by auto
    then show ?thesis using parasite_loop_returns [OF h(2)] by blast
  qed
  then obtain i where i: "parasite_loop ?dg h v 0 = Some i" by blast
  obtain f memo where f: "foldM (bitcoin_fork ?dg h) (dg_children ?dg) (no_forks, []) = Some (f, memo)"
    using bitcoin_forks_return by blast
  show ?thesis by (simp add: bitcoin_metrics_def Let_def h r i f)
qed

lemma ethereum_metrics_value:
  assumes rk: "ledgers_ranked rank ls"
  shows "\<exists>m h n v. ethereum_metrics ls = Some m \<and> computedHeight (aggregate_ledgers ls) = Some h
    \<and> pm_longestChain m = int n \<and> dag_path (aggregate_ledgers ls) n v
    \<and> pm_minedBlocks m = length (dg_blocks (aggregate_ledgers ls)) - 1
    \<and> pm_commonRootHeight m = snd (common_root (aggregate_ledgers ls) (length ls) h)"
proof -
  let ?dg = "aggregate_ledgers ls"
  obtain h where h: "computedHeight ?dg = Some h" using computedHeight_longest [OF aggregate_ranked [OF rk]] by blast
  obtain v k where r: "common_root ?dg (length ls) h = (v, k)" by fastforce
  obtain path weights n u where g: "ghost_loop ?dg h GENESIS [GENESIS] [] = Some (path, weights)" "length path = Suc n" "dag_path ?dg n u"
    using ghost_loop_returns [OF aggregate_ranked [OF rk] dag_path.start, of "[GENESIS]" h "[]"] by auto
  obtain f rest where f: "foldM (ethereum_fork ?dg h) (dg_children ?dg) (no_forks, [], weights) = Some (f, rest)"
    using ethereum_forks_return by blast
  have "ethereum_metrics ls = Some \<lparr>pm_minedBlocks = length (dg_blocks ?dg) - 1, pm_longestChain = int n, pm_commonRootHeight = k,
    pm_commonRootParasites = length (filter (\<lambda>v. case map_of (dg_blocks ?dg) v of None \<Rightarrow> False | Some a \<Rightarrow> ba_parasite a) (tl path)),
    pm_forks = f\<rparr>"
    by (simp add: ethereum_metrics_def Let_def h r g(1,2) f)
  then show ?thesis using h r g(3) by auto
qed

text \<open>
  Claim C33. When the parents of every block come before it (no cycle among the blocks of all ledgers), the
  final \<open>endOfRound\<close> of Bitcoin and of Ethereum peers returns. The longest chain that Bitcoin logs is the
  length of the longest path from GENESIS, the heaviest chain that Ethereum logs is the length of a path, so
  no longer; both log the same number of blocks and the same height of the common root, which lies between 0
  and the longest chain.
\<close>

theorem metrics_longest_chain:
  assumes "ledgers_ranked rank ls"
  shows "\<exists>b e n v. bitcoin_metrics ls = Some b \<and> ethereum_metrics ls = Some e
    \<and> pm_longestChain b = int n \<and> dag_path (aggregate_ledgers ls) n v \<and> (\<forall>m w. dag_path (aggregate_ledgers ls) m w \<longrightarrow> m \<le> n)
    \<and> (\<exists>k u. pm_longestChain e = int k \<and> dag_path (aggregate_ledgers ls) k u \<and> k \<le> n)
    \<and> pm_minedBlocks e = pm_minedBlocks b \<and> pm_commonRootHeight e = pm_commonRootHeight b
    \<and> 0 \<le> pm_commonRootHeight b \<and> pm_commonRootHeight b \<le> pm_longestChain b"
proof -
  let ?dg = "aggregate_ledgers ls"
  obtain b h where b: "bitcoin_metrics ls = Some b" "computedHeight ?dg = Some h" "pm_longestChain b = longest_height h"
    "pm_minedBlocks b = length (dg_blocks ?dg) - 1" "pm_commonRootHeight b = snd (common_root ?dg (length ls) h)"
    using bitcoin_metrics_value [OF assms] by blast
  obtain e k u where e: "ethereum_metrics ls = Some e" "pm_longestChain e = int k" "dag_path ?dg k u"
    "pm_minedBlocks e = length (dg_blocks ?dg) - 1" "pm_commonRootHeight e = snd (common_root ?dg (length ls) h)"
    using ethereum_metrics_value [OF assms] b(2) by auto
  obtain n v where n: "longest_height h = int n" "dag_path ?dg n v" "\<forall>m w. dag_path ?dg m w \<longrightarrow> m \<le> n"
    using longest_height_max [OF aggregate_ranked [OF assms] b(2)] by blast
  have inv: "height_inv ?dg [] h" using computedHeight_longest [OF aggregate_ranked [OF assms]] b(2) by auto
  obtain v' c where r: "common_root ?dg (length ls) h = (v', c)" by fastforce
  have "0 \<le> c \<and> (v' = GENESIS \<and> c = 0 \<or> map_of h v' = Some c)"
    by (rule common_root_height [OF _ r]) (use inv in \<open>fastforce simp: height_inv_def\<close>)
  then have "0 \<le> c" "c \<le> int n" using inv n(3) unfolding height_inv_def by force+
  then show ?thesis using b e n r by auto
qed

text \<open>Two ledgers: both hold a first block, one has a block on top of it, the other a fork.\<close>

definition sample_block :: "string \<Rightarrow> string list \<Rightarrow> string \<times> blockRecord" where
  "sample_block h parents = (h, \<lparr>br_hash = h, br_parents = parents, br_miner = 0, br_height = 0, br_parasite = False\<rparr>)"

definition sample_ledgers :: "pow list" where
  "sample_ledgers =
     [\<lparr>pw_committee = new_committee 0, pw_blocks = [(GENESIS, genesis_block), sample_block ''GENESIS1'' [GENESIS], sample_block ''GENESIS12'' [''GENESIS1'']],
       pw_bestHash = GENESIS, pw_children = []\<rparr>,
      \<lparr>pw_committee = new_committee 0, pw_blocks = [(GENESIS, genesis_block), sample_block ''GENESIS1'' [GENESIS], sample_block ''GENESIS2'' [GENESIS]],
       pw_bestHash = GENESIS, pw_children = []\<rparr>]"

lemma metrics_longest_chain_witness:
  "\<exists>b e. bitcoin_metrics sample_ledgers = Some b \<and> ethereum_metrics sample_ledgers = Some e
    \<and> pm_minedBlocks e = pm_minedBlocks b \<and> pm_commonRootHeight b \<le> pm_longestChain b \<and> pm_longestChain e \<le> pm_longestChain b"
proof -
  have "ledgers_ranked size sample_ledgers"
    by (simp add: ledgers_ranked_def sample_ledgers_def sample_block_def allBlocks_def genesis_block_def GENESIS_def)
  from metrics_longest_chain [OF this] show ?thesis by fastforce
qed

end
