(* ===== verification/MqService.thy ===== *)
theory MqService
  imports RuntimeConfig
begin

text \<open>
  Programs over the message queues of the Boost back end. The queues (\<open>boost::interprocess::message_queue\<close>)
  and the clock belong to the operating system: a program is a function of the answers it has been given,
  which yields the calls it makes. With too few answers it is \<open>Blocked\<close> at its next call, so every prefix of
  a run is a run. What a property relies on is stated about the calls and answers of all processes.

  Exceptions are values; \<open>Undefined_behaviour\<close> is what no handler catches. An answer of the wrong kind is
  read as a failure.
\<close>

subsection \<open>Messages, calls and answers\<close>

text \<open>
  A message is a value of one of the types that are sent, or the bytes of an archive. Its size is
  \<open>sizeof\<close> of its type on the supported platform (64-bit Linux).
\<close>

datatype mq_message =
    Id_message interfaceId
  | Trigger_message nat
  | Completion_message interfaceId bool
  | Archive_message "nat list"

fun message_size :: "mq_message \<Rightarrow> nat" where
  "message_size (Id_message _) = 8"
| "message_size (Trigger_message _) = 4"
| "message_size (Completion_message _ _) = 16"
| "message_size (Archive_message bytes) = length bytes"

text \<open>Bytes read into a variable of another type, least significant byte first.\<close>

definition bytes_value :: "nat list \<Rightarrow> int" where
  "bytes_value bs = foldr (\<lambda>b v. int b + 256 * v) bs 0"

definition signed_64 :: "int \<Rightarrow> int" where
  "signed_64 v = (v + 2 ^ 63) mod 2 ^ 64 - 2 ^ 63"

fun read_id :: "mq_message \<Rightarrow> interfaceId" where
  "read_id (Id_message i) = i"
| "read_id (Archive_message bs) = signed_64 (bytes_value (take 8 bs))"
| "read_id (Completion_message i _) = i"
| "read_id (Trigger_message n) = int n"

fun read_trigger :: "mq_message \<Rightarrow> nat" where
  "read_trigger (Trigger_message n) = n"
| "read_trigger (Archive_message bs) = nat (bytes_value (take 4 bs))"
| "read_trigger (Id_message i) = nat (i mod 2 ^ 32)"
| "read_trigger (Completion_message i _) = nat (i mod 2 ^ 32)"

fun read_completion :: "mq_message \<Rightarrow> interfaceId \<times> bool" where
  "read_completion (Completion_message i b) = (i, b)"
| "read_completion m = (read_id m, case m of Archive_message bs \<Rightarrow> 8 < length bs \<and> bs ! 8 \<noteq> 0 | _ \<Rightarrow> False)"

text \<open>
  The calls. A deadline is the time in milliseconds from the start of the wait it belongs to.
\<close>

datatype mq_call =
    Remove_queue string
  | Create_queue string nat nat
  | Open_queue string
  | Max_msg_size string
  | Num_msg string
  | Timed_send string mq_message nat
  | Timed_receive string nat
  | Receive string
  | Try_receive string
  | Sleep nat
  | Clock

datatype mq_answer =
    Done
  | Failed string
  | Accepted
  | Expired
  | Got mq_message
  | Size nat

type_synonym mq_event = "mq_call \<times> mq_answer"

datatype mq_exception =
    Interprocess_exception string
  | Runtime_exception string
  | Other_exception
  | Undefined_behaviour

datatype 'a outcome = Blocked mq_call | Raised mq_exception | Value 'a

subsection \<open>Programs\<close>

type_synonym ('s, 'a) io = "'s \<Rightarrow> mq_answer list \<Rightarrow> 'a outcome \<times> 's \<times> mq_answer list \<times> mq_event list"

definition io_return :: "'a \<Rightarrow> ('s, 'a) io" where
  "io_return x s as = (Value x, s, as, [])"

definition io_raise :: "mq_exception \<Rightarrow> ('s, 'a) io" where
  "io_raise e s as = (Raised e, s, as, [])"

definition io_bind :: "('s, 'a) io \<Rightarrow> ('a \<Rightarrow> ('s, 'b) io) \<Rightarrow> ('s, 'b) io" where
  "io_bind p f s as = (case p s as of
       (Value x, s, as, es) \<Rightarrow> (case f x s as of (r, s, as, fs) \<Rightarrow> (r, s, as, es @ fs))
     | (Raised e, s, as, es) \<Rightarrow> (Raised e, s, as, es)
     | (Blocked c, s, as, es) \<Rightarrow> (Blocked c, s, as, es))"

definition io_seq :: "('s, unit) io \<Rightarrow> ('s, 'b) io \<Rightarrow> ('s, 'b) io" where
  "io_seq p q = io_bind p (\<lambda>_. q)"

text \<open>\<open>try p catch handler\<close>; a handler re-raises what it does not catch.\<close>

definition io_catch :: "('s, 'a) io \<Rightarrow> (mq_exception \<Rightarrow> ('s, 'a) io) \<Rightarrow> ('s, 'a) io" where
  "io_catch p handler s as = (case p s as of
       (Value x, s, as, es) \<Rightarrow> (Value x, s, as, es)
     | (Raised e, s, as, es) \<Rightarrow> (case handler e s as of (r, s, as, fs) \<Rightarrow> (r, s, as, es @ fs))
     | (Blocked c, s, as, es) \<Rightarrow> (Blocked c, s, as, es))"

definition io_get :: "('s, 's) io" where
  "io_get s as = (Value s, s, as, [])"

definition io_update :: "('s \<Rightarrow> 's) \<Rightarrow> ('s, unit) io" where
  "io_update f s as = (Value (), f s, as, [])"

definition io_call :: "mq_call \<Rightarrow> ('s, mq_answer) io" where
  "io_call c s as = (case as of [] \<Rightarrow> (Blocked c, s, [], []) | a # as \<Rightarrow> (Value a, s, as, [(c, a)]))"

primrec io_for :: "('x \<Rightarrow> ('s, unit) io) \<Rightarrow> 'x list \<Rightarrow> ('s, unit) io" where
  "io_for f [] = io_return ()"
| "io_for f (x # xs) = io_seq (f x) (io_for f xs)"

text \<open>
  A loop whose body goes on with \<open>Inl\<close> and leaves with \<open>Inr\<close>. Each turn makes a call, so the number of
  answers bounds the turns: the turn after the last answer is blocked (\<open>io_loop_unfold\<close>).
\<close>

primrec io_iterate :: "nat \<Rightarrow> ('x \<Rightarrow> ('s, 'x + 'a) io) \<Rightarrow> 'x \<Rightarrow> ('s, 'a) io" where
  "io_iterate 0 body x = (\<lambda>s as. (Blocked Clock, s, as, []))"
| "io_iterate (Suc k) body x = io_bind (body x) (\<lambda>r. case r of Inl x \<Rightarrow> io_iterate k body x | Inr y \<Rightarrow> io_return y)"

definition io_loop :: "('x \<Rightarrow> ('s, 'x + 'a) io) \<Rightarrow> 'x \<Rightarrow> ('s, 'a) io" where
  "io_loop body x s as = io_iterate (Suc (length as)) body x s as"

subsection \<open>Calls with their results\<close>

definition io_fail :: "mq_answer \<Rightarrow> ('s, 'a) io" where
  "io_fail a = io_raise (Interprocess_exception (case a of Failed msg \<Rightarrow> msg | _ \<Rightarrow> []))"

definition mq_remove :: "string \<Rightarrow> ('s, unit) io" where
  "mq_remove q = io_bind (io_call (Remove_queue q)) (\<lambda>_. io_return ())"

definition mq_create :: "string \<Rightarrow> nat \<Rightarrow> nat \<Rightarrow> ('s, unit) io" where
  "mq_create q capacity msgSize = io_bind (io_call (Create_queue q capacity msgSize))
     (\<lambda>a. if a = Done then io_return () else io_fail a)"

definition mq_open :: "string \<Rightarrow> ('s, unit) io" where
  "mq_open q = io_bind (io_call (Open_queue q)) (\<lambda>a. if a = Done then io_return () else io_fail a)"

definition mq_max_msg_size :: "string \<Rightarrow> ('s, nat) io" where
  "mq_max_msg_size q = io_bind (io_call (Max_msg_size q)) (\<lambda>a. case a of Size n \<Rightarrow> io_return n | _ \<Rightarrow> io_fail a)"

definition mq_num_msg :: "string \<Rightarrow> ('s, nat) io" where
  "mq_num_msg q = io_bind (io_call (Num_msg q)) (\<lambda>a. case a of Size n \<Rightarrow> io_return n | _ \<Rightarrow> io_fail a)"

definition mq_timed_send :: "string \<Rightarrow> mq_message \<Rightarrow> nat \<Rightarrow> ('s, bool) io" where
  "mq_timed_send q m ms = io_bind (io_call (Timed_send q m ms))
     (\<lambda>a. if a = Accepted then io_return True else if a = Expired then io_return False else io_fail a)"

definition mq_timed_receive :: "string \<Rightarrow> nat \<Rightarrow> ('s, mq_message option) io" where
  "mq_timed_receive q ms = io_bind (io_call (Timed_receive q ms))
     (\<lambda>a. case a of Got m \<Rightarrow> io_return (Some m) | Expired \<Rightarrow> io_return None | _ \<Rightarrow> io_fail a)"

definition mq_receive :: "string \<Rightarrow> ('s, mq_message) io" where
  "mq_receive q = io_bind (io_call (Receive q)) (\<lambda>a. case a of Got m \<Rightarrow> io_return m | _ \<Rightarrow> io_fail a)"

definition mq_try_receive :: "string \<Rightarrow> ('s, mq_message option) io" where
  "mq_try_receive q = io_bind (io_call (Try_receive q))
     (\<lambda>a. case a of Got m \<Rightarrow> io_return (Some m) | Expired \<Rightarrow> io_return None | _ \<Rightarrow> io_fail a)"

definition mq_sleep :: "nat \<Rightarrow> ('s, unit) io" where
  "mq_sleep ms = io_bind (io_call (Sleep ms)) (\<lambda>_. io_return ())"

definition mq_clock :: "('s, int) io" where
  "mq_clock = io_bind (io_call Clock) (\<lambda>a. case a of Size n \<Rightarrow> io_return (int n) | _ \<Rightarrow> io_return 0)"

text \<open>\<open>catch (const interprocess_exception& ex)\<close> and \<open>catch (const std::exception& ex)\<close>.\<close>

definition catch_interprocess :: "('s, 'a) io \<Rightarrow> (string \<Rightarrow> ('s, 'a) io) \<Rightarrow> ('s, 'a) io" where
  "catch_interprocess p handler = io_catch p (\<lambda>e. case e of Interprocess_exception msg \<Rightarrow> handler msg | _ \<Rightarrow> io_raise e)"

definition catch_exception :: "('s, 'a) io \<Rightarrow> ('s, 'a) io \<Rightarrow> ('s, 'a) io" where
  "catch_exception p handler = io_catch p (\<lambda>e. if e = Undefined_behaviour then io_raise e else handler)"

subsection \<open>The program logic\<close>

text \<open>
  \<open>io_ok I P p Q E\<close>: started in a state and after a history that satisfy \<open>P\<close>, the program keeps \<open>I\<close> after
  every event; it ends with \<open>Q\<close>, or with an exception and \<open>E\<close>.
\<close>

type_synonym history = "mq_event list"

definition io_ok :: "(history \<Rightarrow> bool) \<Rightarrow> ('s \<Rightarrow> history \<Rightarrow> bool) \<Rightarrow> ('s, 'a) io
    \<Rightarrow> ('a \<Rightarrow> 's \<Rightarrow> history \<Rightarrow> bool) \<Rightarrow> ('s \<Rightarrow> history \<Rightarrow> bool) \<Rightarrow> bool" where
  "io_ok I P p Q E = (\<forall>s h as r s' as' es. I h \<longrightarrow> P s h \<longrightarrow> p s as = (r, s', as', es) \<longrightarrow>
     (\<forall>k \<le> length es. I (h @ take k es)) \<and>
     (\<forall>x. r = Value x \<longrightarrow> Q x s' (h @ es)) \<and> (\<forall>e. r = Raised e \<longrightarrow> E s' (h @ es)))"

lemma io_okI:
  assumes "\<And>s h as r s' as' es. I h \<Longrightarrow> P s h \<Longrightarrow> p s as = (r, s', as', es) \<Longrightarrow> (\<forall>k \<le> length es. I (h @ take k es)) \<and>
     (\<forall>x. r = Value x \<longrightarrow> Q x s' (h @ es)) \<and> (\<forall>e. r = Raised e \<longrightarrow> E s' (h @ es))"
  shows "io_ok I P p Q E"
  using assms unfolding io_ok_def by blast

lemma io_okD:
  assumes "io_ok I P p Q E" "I h" "P s h" "p s as = (r, s', as', es)"
  shows "k \<le> length es \<Longrightarrow> I (h @ take k es)" "I (h @ es)"
    "r = Value x \<Longrightarrow> Q x s' (h @ es)" "r = Raised e \<Longrightarrow> E s' (h @ es)"
proof -
  have *: "\<forall>k \<le> length es. I (h @ take k es)" "r = Value x \<Longrightarrow> Q x s' (h @ es)" "r = Raised e \<Longrightarrow> E s' (h @ es)"
    using assms unfolding io_ok_def by blast+
  then show "k \<le> length es \<Longrightarrow> I (h @ take k es)" "r = Value x \<Longrightarrow> Q x s' (h @ es)" "r = Raised e \<Longrightarrow> E s' (h @ es)"
    by blast+
  show "I (h @ es)" using *(1) [rule_format, of "length es"] by simp
qed

lemma ok_weaken:
  assumes "io_ok I P' p Q' E'" "\<And>s h. I h \<Longrightarrow> P s h \<Longrightarrow> P' s h"
    "\<And>x s h. I h \<Longrightarrow> Q' x s h \<Longrightarrow> Q x s h" "\<And>s h. I h \<Longrightarrow> E' s h \<Longrightarrow> E s h"
  shows "io_ok I P p Q E"
proof (rule io_okI)
  fix s h as r s' as' es
  assume *: "I h" "P s h" "p s as = (r, s', as', es)"
  show "(\<forall>k \<le> length es. I (h @ take k es)) \<and> (\<forall>x. r = Value x \<longrightarrow> Q x s' (h @ es)) \<and> (\<forall>e. r = Raised e \<longrightarrow> E s' (h @ es))"
    using io_okD [OF assms(1) *(1) assms(2) [OF *(1,2)] *(3)] assms(3,4) by blast
qed

lemma ok_return: "(\<And>s h. I h \<Longrightarrow> P s h \<Longrightarrow> Q x s h) \<Longrightarrow> io_ok I P (io_return x) Q E"
  by (rule io_okI) (auto simp: io_return_def)

lemma ok_raise: "(\<And>s h. I h \<Longrightarrow> P s h \<Longrightarrow> E s h) \<Longrightarrow> io_ok I P (io_raise e) Q E"
  by (rule io_okI) (auto simp: io_raise_def)

lemma ok_get: "io_ok I P io_get (\<lambda>x s h. x = s \<and> P s h) E"
  by (rule io_okI) (auto simp: io_get_def)

lemma ok_update: "(\<And>s h. I h \<Longrightarrow> P s h \<Longrightarrow> Q () (f s) h) \<Longrightarrow> io_ok I P (io_update f) Q E"
  by (rule io_okI) (auto simp: io_update_def)

lemma ok_call:
  assumes "\<And>s h a. I h \<Longrightarrow> P s h \<Longrightarrow> I (h @ [(c, a)]) \<and> Q a s (h @ [(c, a)])"
  shows "io_ok I P (io_call c) Q E"
  by (rule io_okI) (auto simp: io_call_def assms le_Suc_eq split: list.splits)

text \<open>Two runs one after the other.\<close>

lemma prefixes_append:
  assumes "\<forall>k \<le> length es. I (h @ take k es)" "\<forall>k \<le> length fs. I ((h @ es) @ take k fs)"
  shows "\<forall>k \<le> length (es @ fs). I (h @ take k (es @ fs))"
proof (intro allI impI)
  fix k
  assume "k \<le> length (es @ fs)"
  then show "I (h @ take k (es @ fs))"
    using assms(1) [rule_format, of k] assms(2) [rule_format, of "k - length es"] by (cases "k \<le> length es") auto
qed

lemma ok_bind:
  assumes p: "io_ok I P p R E" and f: "\<And>x. io_ok I (R x) (f x) Q E"
  shows "io_ok I P (io_bind p f) Q E"
proof (rule io_okI)
  fix s h as r s' as' es
  assume *: "I h" "P s h" "io_bind p f s as = (r, s', as', es)"
  obtain r1 s1 as1 es1 where 1: "p s as = (r1, s1, as1, es1)" by (metis surj_pair)
  note A = io_okD [OF p *(1,2) 1]
  show "(\<forall>k \<le> length es. I (h @ take k es)) \<and> (\<forall>x. r = Value x \<longrightarrow> Q x s' (h @ es)) \<and> (\<forall>e. r = Raised e \<longrightarrow> E s' (h @ es))"
  proof (cases r1)
    case (Value x)
    obtain r2 s2 as2 es2 where 2: "f x s1 as1 = (r2, s2, as2, es2)" by (metis surj_pair)
    note B = io_okD [OF f [of x] A(2) A(3) [OF Value] 2]
    have "es = es1 @ es2" "r = r2" "s' = s2" using *(3) 1 2 Value by (auto simp: io_bind_def)
    then show ?thesis using prefixes_append [of es1 I h es2] A(1) B by auto
  qed (use *(3) 1 A in \<open>auto simp: io_bind_def\<close>)
qed

lemma ok_seq: "io_ok I P p (\<lambda>_. R) E \<Longrightarrow> io_ok I R q Q E \<Longrightarrow> io_ok I P (io_seq p q) Q E"
  unfolding io_seq_def by (rule ok_bind)

lemma ok_catch:
  assumes p: "io_ok I P p Q E'" and f: "\<And>e. io_ok I E' (f e) Q E"
  shows "io_ok I P (io_catch p f) Q E"
proof (rule io_okI)
  fix s h as r s' as' es
  assume *: "I h" "P s h" "io_catch p f s as = (r, s', as', es)"
  obtain r1 s1 as1 es1 where 1: "p s as = (r1, s1, as1, es1)" by (metis surj_pair)
  note A = io_okD [OF p *(1,2) 1]
  show "(\<forall>k \<le> length es. I (h @ take k es)) \<and> (\<forall>x. r = Value x \<longrightarrow> Q x s' (h @ es)) \<and> (\<forall>e. r = Raised e \<longrightarrow> E s' (h @ es))"
  proof (cases r1)
    case (Raised e)
    obtain r2 s2 as2 es2 where 2: "f e s1 as1 = (r2, s2, as2, es2)" by (metis surj_pair)
    note B = io_okD [OF f [of e] A(2) A(4) [OF Raised] 2]
    have "es = es1 @ es2" "r = r2" "s' = s2" using *(3) 1 2 Raised by (auto simp: io_catch_def)
    then show ?thesis using prefixes_append [of es1 I h es2] A(1) B by auto
  qed (use *(3) 1 A in \<open>auto simp: io_catch_def\<close>)
qed

lemma ok_for:
  assumes "\<And>i. i < length xs \<Longrightarrow> io_ok I (J i) (f (xs ! i)) (\<lambda>_. J (Suc i)) E"
  shows "io_ok I (J 0) (io_for f xs) (\<lambda>_. J (length xs)) E"
  using assms
proof (induction xs arbitrary: J)
  case Nil
  then show ?case by (auto intro: ok_return)
next
  case (Cons x xs)
  have "io_ok I (J (Suc 0)) (io_for f xs) (\<lambda>_. J (Suc (length xs))) E"
    using Cons.IH [of "\<lambda>i. J (Suc i)"] Cons.prems [of "Suc _"] by auto
  then show ?case using Cons.prems [of 0] by (auto intro: ok_seq)
qed

lemma ok_loop:
  assumes body: "\<And>x. io_ok I (J x) (body x) (\<lambda>r s h. case r of Inl x' \<Rightarrow> J x' s h | Inr y \<Rightarrow> Q y s h) E"
  shows "io_ok I (J x) (io_loop body x) Q E"
proof -
  have it: "io_ok I (J x) (io_iterate k body x) Q E" for k x
  proof (induction k arbitrary: x)
    case 0
    then show ?case by (auto simp: io_ok_def)
  next
    case (Suc k)
    have "io_ok I (\<lambda>s h. case r of Inl x' \<Rightarrow> J x' s h | Inr y \<Rightarrow> Q y s h) (case r of Inl x \<Rightarrow> io_iterate k body x | Inr y \<Rightarrow> io_return y) Q E" for r
      by (cases r) (auto intro: Suc ok_return)
    then show ?case by (auto intro: ok_bind [OF body])
  qed
  show ?thesis
    by (rule io_okI) (use it in \<open>unfold io_ok_def io_loop_def, blast\<close>)
qed

text \<open>
  \<open>io_frame A S p\<close>: from a state in \<open>S\<close> every event of \<open>p\<close> is in \<open>A\<close>, and \<open>S\<close> is kept.
\<close>

definition io_frame :: "(mq_event \<Rightarrow> bool) \<Rightarrow> ('s \<Rightarrow> bool) \<Rightarrow> ('s, 'a) io \<Rightarrow> bool" where
  "io_frame A S p = (\<forall>s as r s' as' es. p s as = (r, s', as', es) \<longrightarrow> S s \<longrightarrow> S s' \<and> (\<forall>e\<in>set es. A e))"

named_theorems io_frames \<open>programs whose events and states stay within a frame\<close>

lemma frame_return [io_frames]: "io_frame A S (io_return x)"
  by (auto simp: io_frame_def io_return_def)

lemma frame_raise [io_frames]: "io_frame A S (io_raise e)"
  by (auto simp: io_frame_def io_raise_def)

lemma frame_fail [io_frames]: "io_frame A S (io_fail a)"
  by (simp add: io_fail_def frame_raise)

lemma frame_update: "(\<And>s. S s \<Longrightarrow> S (f s)) \<Longrightarrow> io_frame A S (io_update f)"
  by (auto simp: io_frame_def io_update_def)

lemma frame_call: "(\<And>a. A (c, a)) \<Longrightarrow> io_frame A S (io_call c)"
  by (auto simp: io_frame_def io_call_def split: list.splits)

lemma io_frameI:
  "(\<And>s as r s' as' es. p s as = (r, s', as', es) \<Longrightarrow> S s \<Longrightarrow> S s' \<and> (\<forall>e\<in>set es. A e)) \<Longrightarrow> io_frame A S p"
  unfolding io_frame_def by blast

lemma frame_bind:
  assumes p: "io_frame A S p" and f: "\<And>x. io_frame A S (f x)"
  shows "io_frame A S (io_bind p f)"
proof (rule io_frameI)
  fix s as r s' as' es
  assume *: "io_bind p f s as = (r, s', as', es)" "S s"
  obtain r1 s1 as1 es1 where 1: "p s as = (r1, s1, as1, es1)" by (metis surj_pair)
  have A: "S s1" "\<forall>e\<in>set es1. A e" using p 1 *(2) unfolding io_frame_def by blast+
  show "S s' \<and> (\<forall>e\<in>set es. A e)"
  proof (cases r1)
    case (Value x)
    obtain r2 s2 as2 es2 where 2: "f x s1 as1 = (r2, s2, as2, es2)" by (metis surj_pair)
    have "S s2" "\<forall>e\<in>set es2. A e" using f [of x] 2 A(1) unfolding io_frame_def by blast+
    then show ?thesis using * 1 2 Value A by (auto simp: io_bind_def)
  qed (use * 1 A in \<open>auto simp: io_bind_def\<close>)
qed

lemma frame_get: "(\<And>x. S x \<Longrightarrow> io_frame A S (f x)) \<Longrightarrow> io_frame A S (io_bind io_get f)"
  by (rule io_frameI) (auto simp: io_bind_def io_get_def io_frame_def split: prod.splits)

lemma frame_seq: "io_frame A S p \<Longrightarrow> io_frame A S q \<Longrightarrow> io_frame A S (io_seq p q)"
  unfolding io_seq_def by (rule frame_bind)

lemma frame_catch:
  assumes p: "io_frame A S p" and f: "\<And>x. io_frame A S (f x)"
  shows "io_frame A S (io_catch p f)"
proof (rule io_frameI)
  fix s as r s' as' es
  assume *: "io_catch p f s as = (r, s', as', es)" "S s"
  obtain r1 s1 as1 es1 where 1: "p s as = (r1, s1, as1, es1)" by (metis surj_pair)
  have A: "S s1" "\<forall>e\<in>set es1. A e" using p 1 *(2) unfolding io_frame_def by blast+
  show "S s' \<and> (\<forall>e\<in>set es. A e)"
  proof (cases r1)
    case (Raised x)
    obtain r2 s2 as2 es2 where 2: "f x s1 as1 = (r2, s2, as2, es2)" by (metis surj_pair)
    have "S s2" "\<forall>e\<in>set es2. A e" using f [of x] 2 A(1) unfolding io_frame_def by blast+
    then show ?thesis using * 1 2 Raised A by (auto simp: io_catch_def)
  qed (use * 1 A in \<open>auto simp: io_catch_def\<close>)
qed

lemma frame_for: "(\<And>x. x \<in> set xs \<Longrightarrow> io_frame A S (f x)) \<Longrightarrow> io_frame A S (io_for f xs)"
  by (induction xs) (auto intro: frame_return frame_seq)

lemma frame_iterate: "(\<And>x. io_frame A S (body x)) \<Longrightarrow> io_frame A S (io_iterate k body x)"
proof (induction k arbitrary: x)
  case 0
  then show ?case by (auto simp: io_frame_def)
next
  case (Suc k)
  have "io_frame A S (case r of Inl x \<Rightarrow> io_iterate k body x | Inr y \<Rightarrow> io_return y)" for r
    using Suc by (cases r) (auto intro: frame_return)
  then show ?case using Suc.prems by (auto intro: frame_bind)
qed

lemma frame_loop:
  assumes "\<And>x. io_frame A S (body x)"
  shows "io_frame A S (io_loop body x)"
proof (rule io_frameI)
  have it: "io_frame A S (io_iterate k body x)" for k by (rule frame_iterate) (rule assms)
  fix s as r s' as' es
  assume "io_loop body x s as = (r, s', as', es)" "S s"
  then show "S s' \<and> (\<forall>e\<in>set es. A e)"
    using it unfolding io_frame_def io_loop_def by blast
qed

lemma frame_if: "(b \<Longrightarrow> io_frame A S p) \<Longrightarrow> (\<not> b \<Longrightarrow> io_frame A S q) \<Longrightarrow> io_frame A S (if b then p else q)"
  by simp

lemma frame_option: "(\<And>x. m = Some x \<Longrightarrow> io_frame A S (f x)) \<Longrightarrow> (m = None \<Longrightarrow> io_frame A S p) \<Longrightarrow> io_frame A S (case m of None \<Rightarrow> p | Some x \<Rightarrow> f x)"
  by (cases m) auto

lemma frame_prod: "(\<And>x y. m = (x, y) \<Longrightarrow> io_frame A S (f x y)) \<Longrightarrow> io_frame A S (case m of (x, y) \<Rightarrow> f x y)"
  by (cases m) auto

lemma frame_answer:
  "io_frame A S (case a of Got m \<Rightarrow> io_return (Some m) | Expired \<Rightarrow> io_return None | _ \<Rightarrow> io_fail a)"
  "io_frame A S (case a of Got m \<Rightarrow> io_return m | _ \<Rightarrow> io_fail a)"
  "io_frame A S (case a of Size n \<Rightarrow> io_return n | _ \<Rightarrow> io_fail a)"
  "io_frame A S (case a of Size n \<Rightarrow> io_return (int n) | _ \<Rightarrow> io_return 0)"
  by (cases a; simp add: io_frames)+

lemma frame_mq:
  "(\<And>a. A (Remove_queue q, a)) \<Longrightarrow> io_frame A S (mq_remove q)"
  "(\<And>a. A (Create_queue q c k, a)) \<Longrightarrow> io_frame A S (mq_create q c k)"
  "(\<And>a. A (Open_queue q, a)) \<Longrightarrow> io_frame A S (mq_open q)"
  "(\<And>a. A (Max_msg_size q, a)) \<Longrightarrow> io_frame A S (mq_max_msg_size q)"
  "(\<And>a. A (Num_msg q, a)) \<Longrightarrow> io_frame A S (mq_num_msg q)"
  "(\<And>a. A (Timed_send q m ms, a)) \<Longrightarrow> io_frame A S (mq_timed_send q m ms)"
  "(\<And>a. A (Timed_receive q ms, a)) \<Longrightarrow> io_frame A S (mq_timed_receive q ms)"
  "(\<And>a. A (Receive q, a)) \<Longrightarrow> io_frame A S (mq_receive q)"
  "(\<And>a. A (Try_receive q, a)) \<Longrightarrow> io_frame A S (mq_try_receive q)"
  "(\<And>a. A (Sleep ms, a)) \<Longrightarrow> io_frame A S (mq_sleep ms)"
  "(\<And>a. A (Clock, a)) \<Longrightarrow> io_frame A S mq_clock"
  unfolding mq_remove_def mq_create_def mq_open_def mq_max_msg_size_def mq_num_msg_def mq_timed_send_def
    mq_timed_receive_def mq_receive_def mq_try_receive_def mq_sleep_def mq_clock_def
  by (intro frame_bind frame_call frame_if frame_answer frame_return frame_fail; assumption)+

lemma frame_catch_interprocess:
  "io_frame A S p \<Longrightarrow> (\<And>msg. io_frame A S (f msg)) \<Longrightarrow> io_frame A S (catch_interprocess p f)"
  unfolding catch_interprocess_def by (rule frame_catch) (auto split: mq_exception.splits intro: io_frames)

lemma frame_catch_exception:
  "io_frame A S p \<Longrightarrow> io_frame A S q \<Longrightarrow> io_frame A S (catch_exception p q)"
  unfolding catch_exception_def by (rule frame_catch) (auto intro: io_frames)

lemmas frame_rules = frame_return frame_raise frame_fail frame_get frame_update frame_seq frame_bind frame_for frame_loop frame_if
  frame_option frame_prod frame_mq frame_catch_interprocess frame_catch_exception

text \<open>What every event of a frame keeps, the program keeps.\<close>

lemma frame_ok:
  assumes fr: "io_frame A S p" and step: "\<And>h e. A e \<Longrightarrow> I h \<Longrightarrow> R h \<Longrightarrow> I (h @ [e]) \<and> R (h @ [e])"
  shows "io_ok I (\<lambda>s h. S s \<and> R h) p (\<lambda>_ s h. S s \<and> R h) (\<lambda>s h. S s \<and> R h)"
proof (rule io_okI)
  fix s h as r s' as' es
  assume *: "I h" "S s \<and> R h" "p s as = (r, s', as', es)"
  have A: "S s'" "\<forall>e\<in>set es. A e" using fr * unfolding io_frame_def by blast+
  have "I (h @ fs) \<and> R (h @ fs)" if "\<forall>e\<in>set fs. A e" for fs
    using that
  proof (induction fs rule: rev_induct)
    case (snoc e fs)
    then show ?case using step [of e "h @ fs"] by simp
  qed (use * in simp)
  moreover have "\<forall>e\<in>set (take k es). A e" for k using A(2) by (meson in_set_takeD)
  ultimately show "(\<forall>k \<le> length es. I (h @ take k es)) \<and> (\<forall>x. r = Value x \<longrightarrow> S s' \<and> R (h @ es)) \<and> (\<forall>e. r = Raised e \<longrightarrow> S s' \<and> R (h @ es))"
    using A by blast
qed

subsection \<open>A loop that makes calls is a loop\<close>

definition consumes :: "('x \<Rightarrow> ('s, 'x + 'a) io) \<Rightarrow> bool" where
  "consumes body = (\<forall>x s as y s' as' es. body x s as = (Value (Inl y), s', as', es) \<longrightarrow> length as' < length as)"

lemma iterate_enough:
  assumes "consumes body" "length as < k" "length as < k'"
  shows "io_iterate k body x s as = io_iterate k' body x s as"
  using assms(2,3)
proof (induction k arbitrary: k' x s as)
  case (Suc k)
  then obtain j where k': "k' = Suc j" by (cases k') auto
  obtain r s1 as1 es where b: "body x s as = (r, s1, as1, es)" by (metis surj_pair)
  show ?case
  proof (cases "\<exists>y. r = Value (Inl y)")
    case True
    then obtain y where y: "r = Value (Inl y)" by blast
    have "length as1 < length as" using assms(1) b y unfolding consumes_def by blast
    then have "length as1 < k" "length as1 < j" using Suc.prems k' by simp_all
    then have "io_iterate k body y s1 as1 = io_iterate j body y s1 as1" by (rule Suc.IH)
    then show ?thesis by (simp add: k' io_bind_def b y)
  next
    case False
    then show ?thesis by (cases r) (auto simp: k' io_bind_def b split: sum.splits)
  qed
qed simp

lemma io_loop_unfold:
  assumes "consumes body"
  shows "io_loop body x s as = io_bind (body x) (\<lambda>r. case r of Inl y \<Rightarrow> io_loop body y | Inr z \<Rightarrow> io_return z) s as"
proof -
  obtain r s1 as1 es where b: "body x s as = (r, s1, as1, es)" by (metis surj_pair)
  show ?thesis
  proof (cases "\<exists>y. r = Value (Inl y)")
    case True
    then obtain y where y: "r = Value (Inl y)" by blast
    have "length as1 < length as" using assms b y unfolding consumes_def by blast
    then have "io_iterate (length as) body y s1 as1 = io_iterate (Suc (length as1)) body y s1 as1"
      by (intro iterate_enough [OF assms]) auto
    then show ?thesis by (simp add: io_loop_def io_bind_def b y)
  next
    case False
    then show ?thesis by (cases r) (auto simp: io_loop_def io_bind_def b split: sum.splits)
  qed
qed

subsection \<open>Runs of several processes\<close>

datatype process_id = Leader | Peer nat

type_synonym system_history = "(process_id \<times> mq_event) list"

definition process_events :: "process_id \<Rightarrow> system_history \<Rightarrow> mq_event list" where
  "process_events p H = map snd (filter (\<lambda>e. fst e = p) H)"

text \<open>\<open>runs p s es\<close>: some answers let the program make the calls \<open>es\<close>, and get the answers in them.\<close>

definition runs :: "('s, 'a) io \<Rightarrow> 's \<Rightarrow> mq_event list \<Rightarrow> bool" where
  "runs p s es = (\<exists>as r s' as' fs k. p s as = (r, s', as', fs) \<and> es = take k fs)"

lemma ok_runs:
  assumes "io_ok I P p Q E" "I []" "P s []" "runs p s es"
  shows "I es"
proof -
  obtain as r s' as' fs k where r: "p s as = (r, s', as', fs)" "es = take k fs" using assms(4) unfolding runs_def by blast
  note D = io_okD [OF assms(1-3) r(1)]
  show ?thesis using D(1) [of k] D(2) r(2) by (cases "k \<le> length fs") auto
qed

lemma frame_runs:
  assumes "io_frame A S p" "S s" "runs p s es"
  shows "\<forall>e\<in>set es. A e"
  using assms unfolding runs_def io_frame_def by (metis in_set_takeD)

text \<open>
  The messages accepted by a queue and those taken from it. A queue does not invent messages: up to any
  moment, those taken from a name were sent to it before, each as often.
\<close>

definition sent_in :: "mq_event list \<Rightarrow> string \<Rightarrow> mq_message list" where
  "sent_in es q = concat (map (\<lambda>e. case e of (Timed_send q' m _, Accepted) \<Rightarrow> if q' = q then [m] else [] | _ \<Rightarrow> []) es)"

definition taken_in :: "mq_event list \<Rightarrow> string \<Rightarrow> mq_message list" where
  "taken_in es q = concat (map (\<lambda>e. case e of (Timed_receive q' _, Got m) \<Rightarrow> if q' = q then [m] else []
     | (Receive q', Got m) \<Rightarrow> if q' = q then [m] else [] | (Try_receive q', Got m) \<Rightarrow> if q' = q then [m] else [] | _ \<Rightarrow> []) es)"

definition queue_delivery :: "system_history \<Rightarrow> bool" where
  "queue_delivery H = (\<forall>k q. mset (taken_in (map snd (take k H)) q) \<subseteq># mset (sent_in (map snd (take k H)) q))"

subsection \<open>Executing programs\<close>

text \<open>
  Equations that run a program on given answers, outermost step first: the congruence rules keep the
  simplifier out of what has not been reached.
\<close>

definition io_prefix :: "mq_event list \<Rightarrow> 'a outcome \<times> 's \<times> mq_answer list \<times> mq_event list \<Rightarrow> 'a outcome \<times> 's \<times> mq_answer list \<times> mq_event list" where
  "io_prefix es r = (case r of (r, s, as, fs) \<Rightarrow> (r, s, as, es @ fs))"

definition io_then :: "('a \<Rightarrow> ('s, 'b) io) \<Rightarrow> 'a outcome \<times> 's \<times> mq_answer list \<times> mq_event list \<Rightarrow> 'b outcome \<times> 's \<times> mq_answer list \<times> mq_event list" where
  "io_then f r = (case r of (Value x, s, as, es) \<Rightarrow> io_prefix es (f x s as) | (Raised e, s, as, es) \<Rightarrow> (Raised e, s, as, es)
     | (Blocked c, s, as, es) \<Rightarrow> (Blocked c, s, as, es))"

definition io_else :: "(mq_exception \<Rightarrow> ('s, 'a) io) \<Rightarrow> 'a outcome \<times> 's \<times> mq_answer list \<times> mq_event list \<Rightarrow> 'a outcome \<times> 's \<times> mq_answer list \<times> mq_event list" where
  "io_else f r = (case r of (Value x, s, as, es) \<Rightarrow> (Value x, s, as, es) | (Raised e, s, as, es) \<Rightarrow> io_prefix es (f e s as)
     | (Blocked c, s, as, es) \<Rightarrow> (Blocked c, s, as, es))"

lemma exec_bind: "io_bind p f s as = io_then f (p s as)"
  by (auto simp: io_bind_def io_then_def io_prefix_def split: prod.splits outcome.splits)

lemma exec_seq: "io_seq p q s as = io_then (\<lambda>_. q) (p s as)"
  by (simp add: io_seq_def exec_bind)

lemma exec_catch: "io_catch p h s as = io_else h (p s as)"
  by (auto simp: io_catch_def io_else_def io_prefix_def split: prod.splits outcome.splits)

lemma exec_then:
  "io_then f (Value x, s, as, es) = io_prefix es (f x s as)" "io_then f (Raised e, s, as, es) = (Raised e, s, as, es)"
  "io_then f (Blocked c, s, as, es) = (Blocked c, s, as, es)"
  by (simp_all add: io_then_def)

lemma exec_else:
  "io_else h (Value x, s, as, es) = (Value x, s, as, es)" "io_else h (Raised e, s, as, es) = io_prefix es (h e s as)"
  "io_else h (Blocked c, s, as, es) = (Blocked c, s, as, es)" "io_prefix es (r, s, as, fs) = (r, s, as, es @ fs)"
  by (simp_all add: io_else_def io_prefix_def)

lemma exec_basic:
  "io_return x s as = (Value x, s, as, [])" "io_raise e s as = (Raised e, s, as, [])"
  by (simp_all add: io_return_def io_raise_def)

lemma exec_state: "io_get s as = (Value s, s, as, [])" "io_update g s as = (Value (), g s, as, [])"
  by (simp_all add: io_get_def io_update_def)

lemma exec_call: "io_call c s [] = (Blocked c, s, [], [])" "io_call c s (a # as) = (Value a, s, as, [(c, a)])"
  by (simp_all add: io_call_def)

lemma exec_for: "io_for f [] s as = io_return () s as" "io_for f (x # xs) s as = io_seq (f x) (io_for f xs) s as"
  by simp_all

lemma exec_loop: "io_loop body x s as = io_iterate (Suc (length as)) body x s as"
  by (simp add: io_loop_def)

lemma exec_iterate: "io_iterate (Suc k) body x s as = io_bind (body x) (\<lambda>r. case r of Inl x \<Rightarrow> io_iterate k body x | Inr y \<Rightarrow> io_return y) s as"
  by simp

lemma exec_if: "(if b then p else q) s as = (if b then p s as else q s as)"
  by simp

lemmas io_exec = exec_bind exec_seq exec_catch exec_then exec_else exec_basic exec_state exec_call exec_for exec_loop exec_iterate exec_if

lemmas io_exec_calls = mq_remove_def [THEN fun_cong, THEN fun_cong]
  mq_create_def [THEN fun_cong, THEN fun_cong]
  mq_open_def [THEN fun_cong, THEN fun_cong]
  mq_max_msg_size_def [THEN fun_cong, THEN fun_cong]
  mq_num_msg_def [THEN fun_cong, THEN fun_cong]
  mq_timed_send_def [THEN fun_cong, THEN fun_cong]
  mq_timed_receive_def [THEN fun_cong, THEN fun_cong]
  mq_receive_def [THEN fun_cong, THEN fun_cong]
  mq_try_receive_def [THEN fun_cong, THEN fun_cong]
  mq_sleep_def [THEN fun_cong, THEN fun_cong]
  mq_clock_def [THEN fun_cong, THEN fun_cong]
  catch_interprocess_def [THEN fun_cong, THEN fun_cong]
  catch_exception_def [THEN fun_cong, THEN fun_cong]
  io_fail_def [THEN fun_cong, THEN fun_cong]

lemma bind_cong: "s = s' \<Longrightarrow> as = as' \<Longrightarrow> io_bind p f s as = io_bind p f s' as'"
  by simp

lemma seq_cong: "s = s' \<Longrightarrow> as = as' \<Longrightarrow> io_seq p q s as = io_seq p q s' as'"
  by simp

lemma catch_cong: "s = s' \<Longrightarrow> as = as' \<Longrightarrow> io_catch p f s as = io_catch p f s' as'"
  by simp

lemma then_cong: "r = r' \<Longrightarrow> io_then f r = io_then f r'"
  by simp

lemma else_cong: "r = r' \<Longrightarrow> io_else f r = io_else f r'"
  by simp

lemmas io_exec_cong = bind_cong seq_cong catch_cong then_cong else_cong

end
