(* ===== verification/MqCoordinator.thy ===== *)
theory MqCoordinator
  imports MqService TopologyPlanner
begin

text \<open>
  The control protocol of the Boost back end:
  src/quantas/Common/Concrete/Backends/BoostMq/Control/ProcessCoordinatorMQ.cpp. The leader and the peers
  hold a coordinator each; the leader collects who is ready, sends assignments and the start signal,
  collects who is done and sends the stop signal. Logging is left out. Archives are written and read by
  the Boost library: \<open>ser\<close> and \<open>deser\<close> are parameters, \<open>None\<close> an exception of the library.
\<close>

datatype stopMode = FixedRounds | DoneSignals

record coordinator =
  pc_isLeader :: bool
  pc_totalPeers :: nat
  pc_myId :: interfaceId
  pc_experimentIndex :: nat
  pc_peerType :: string
  pc_configured :: bool
  pc_stopSignal :: bool
  pc_logFileBase :: string
  pc_stopMode :: stopMode
  pc_queueConfig :: boostMqQueueConfig
  pc_myBarrier :: bool
  pc_myControlInbox :: bool
  pc_completedPeers :: idset

text \<open>The queue names and the constants of the file.\<close>

definition kStartTrigger :: nat where "kStartTrigger = 2"
definition kStopTrigger :: nat where "kStopTrigger = 3"
definition kControlSendAttempts :: nat where "kControlSendAttempts = 200"
definition kControlSendWaitMs :: nat where "kControlSendWaitMs = 10"

definition mq_barrier :: string where "mq_barrier = ''mq_barrier''"
definition mq_done :: string where "mq_done = ''mq_done''"

definition peerControlQueueName :: "interfaceId \<Rightarrow> string" where
  "peerControlQueueName i = ''peer_'' @ int_to_string i @ ''_control''"

definition peerDataQueueName :: "interfaceId \<Rightarrow> string" where
  "peerDataQueueName i = ''peer_'' @ int_to_string i @ ''_data''"

definition runtime_error :: "string \<Rightarrow> ('s, 'a) io" where
  "runtime_error msg = io_raise (Runtime_exception msg)"

text \<open>A failure of the readers of the configuration is raised as the exception it is in the code.\<close>

definition io_result :: "'a result \<Rightarrow> ('s, 'a) io" where
  "io_result r = (case r of Inr x \<Rightarrow> io_return x | Inl (Runtime_error msg) \<Rightarrow> io_raise (Runtime_exception msg)
     | Inl Json_error \<Rightarrow> io_raise Other_exception)"

definition timedSendControlMessage :: "string \<Rightarrow> mq_message \<Rightarrow> nat \<Rightarrow> ('s, bool) io" where
  "timedSendControlMessage q m ms = mq_timed_send q m ms"

definition queueExists :: "string \<Rightarrow> ('s, bool) io" where
  "queueExists q = catch_interprocess (io_seq (mq_open q) (io_return True)) (\<lambda>_. io_return False)"

primrec waitForQueueRemoval_loop :: "nat \<Rightarrow> string \<Rightarrow> ('s, unit) io" where
  "waitForQueueRemoval_loop 0 q = runtime_error (''Timed out waiting for queue removal: '' @ q)"
| "waitForQueueRemoval_loop (Suc k) q = io_bind (queueExists q) (\<lambda>present. if \<not> present then io_return ()
     else io_seq (mq_sleep kControlSendWaitMs) (waitForQueueRemoval_loop k q))"

definition waitForQueueRemoval :: "string \<Rightarrow> ('s, unit) io" where
  "waitForQueueRemoval = waitForQueueRemoval_loop kControlSendAttempts"

subsection \<open>Configuration\<close>

definition new_coordinator :: "stopMode \<Rightarrow> coordinator" where
  "new_coordinator mode = \<lparr>pc_isLeader = False, pc_totalPeers = 0, pc_myId = NO_PEER_ID, pc_experimentIndex = 0, pc_peerType = [],
     pc_configured = False, pc_stopSignal = False, pc_logFileBase = [], pc_stopMode = mode,
     pc_queueConfig = (default_queueConfig 0)\<lparr>qc_controlQueueCapacity := 0\<rparr>, pc_myBarrier = False, pc_myControlInbox = False,
     pc_completedPeers = []\<rparr>"

definition configureExperiment :: "nat \<Rightarrow> string \<Rightarrow> bool \<Rightarrow> nat \<Rightarrow> interfaceId \<Rightarrow> string \<Rightarrow> stopMode \<Rightarrow> boostMqQueueConfig
    \<Rightarrow> 'z coordinator_scheme \<Rightarrow> 'z coordinator_scheme" where
  "configureExperiment experimentIndex peerType isLeader totalPeers myId logFileBase mode queueConfig c =
     c\<lparr>pc_queueConfig := queueConfig, pc_experimentIndex := experimentIndex, pc_peerType := peerType, pc_isLeader := isLeader,
       pc_totalPeers := totalPeers, pc_myId := myId, pc_configured := True, pc_logFileBase := logFileBase, pc_stopMode := mode,
       pc_stopSignal := False, pc_completedPeers := [], pc_myBarrier := False, pc_myControlInbox := False\<rparr>"

definition configureProcess :: "bool \<Rightarrow> nat \<Rightarrow> interfaceId \<Rightarrow> 'z coordinator_scheme \<Rightarrow> 'z coordinator_scheme" where
  "configureProcess isLeader totalPeers myId =
     configureExperiment 0 [] isLeader totalPeers myId [] FixedRounds ((default_queueConfig 0)\<lparr>qc_controlQueueCapacity := totalPeers\<rparr>)"

subsection \<open>Ready\<close>

definition createBarrier :: "('z coordinator_scheme, unit) io" where
  "createBarrier = io_bind io_get (\<lambda>c. if \<not> pc_isLeader c then io_return ()
     else io_seq (mq_remove mq_barrier) (io_seq (mq_remove mq_done)
       (catch_interprocess
         (io_seq (mq_create mq_barrier (qc_controlQueueCapacity (pc_queueConfig c)) 8)
         (io_seq (io_update (\<lambda>c. c\<lparr>pc_myBarrier := True\<rparr>))
           (mq_create mq_done (qc_controlQueueCapacity (pc_queueConfig c)) 16)))
         (\<lambda>what. runtime_error (''Failed to ::createBarrier queue: '' @ what)))))"

definition createInbox :: "('z coordinator_scheme, unit) io" where
  "createInbox = io_bind io_get (\<lambda>c. if pc_isLeader c then io_return ()
     else let control = peerControlQueueName (pc_myId c); data = peerDataQueueName (pc_myId c) in
       io_seq (mq_remove control) (io_seq (mq_remove data)
       (catch_interprocess
         (io_seq (mq_create control (qc_controlQueueCapacity (pc_queueConfig c)) (qc_maxMessageSizeBytes (pc_queueConfig c)))
         (io_seq (io_update (\<lambda>c. c\<lparr>pc_myControlInbox := True\<rparr>))
           (mq_create data (qc_dataQueueCapacity (pc_queueConfig c)) (qc_maxMessageSizeBytes (pc_queueConfig c)))))
         (\<lambda>what. runtime_error (''Failed to ::createInbox queues for peer '' @ int_to_string (pc_myId c) @ '': '' @ what)))))"

text \<open>
  The loop that \<open>sendReady\<close> and \<open>notifyPeerFinished\<close> share: one attempt opens the leader's queue and tries a
  short send; an exception counts as a failed attempt, the last one's is final. \<open>Suc k\<close> attempts are left.
\<close>

primrec control_attempts :: "nat \<Rightarrow> string \<Rightarrow> mq_message \<Rightarrow> (string \<Rightarrow> string) \<Rightarrow> string \<Rightarrow> ('s, unit) io" where
  "control_attempts 0 q m failed expired = runtime_error expired"
| "control_attempts (Suc k) q m failed expired = io_bind
     (catch_interprocess (io_seq (mq_open q) (timedSendControlMessage q m kControlSendWaitMs))
        (\<lambda>what. if k = 0 then runtime_error (failed what) else io_return False))
     (\<lambda>sent. if sent then io_return () else io_seq (mq_sleep kControlSendWaitMs) (control_attempts k q m failed expired))"

definition sendReady :: "('z coordinator_scheme, unit) io" where
  "sendReady = io_bind io_get (\<lambda>c. if pc_isLeader c then io_return ()
     else control_attempts kControlSendAttempts mq_barrier (Id_message (pc_myId c))
       (\<lambda>what. ''Failed to ::sendReady queue for peer '' @ int_to_string (pc_myId c) @ '': '' @ what)
       (''Timed out sending ready for peer '' @ int_to_string (pc_myId c) @ '' to mq_barrier''))"

definition ready_body :: "nat \<Rightarrow> nat \<Rightarrow> idset \<Rightarrow> ('s, idset + idset \<times> bool) io" where
  "ready_body totalPeers timeoutMs unique =
     (if \<not> length unique < totalPeers then io_return (Inr (unique, False))
      else io_bind (mq_timed_receive mq_barrier timeoutMs) (\<lambda>m. case m of
          None \<Rightarrow> io_return (Inr (unique, True))
        | Some m \<Rightarrow>
            (if message_size m \<noteq> 8 then runtime_error (''Invalid ready message size: expected 8 bytes, received '' @ to_string (message_size m))
             else let readyPeerId = read_id m in
               if readyPeerId < 0 \<or> nat readyPeerId \<ge> totalPeers
               then runtime_error (''Invalid ready peer ID '' @ int_to_string readyPeerId @ ''; expected 0 to '' @ int_to_string (int totalPeers - 1))
               else io_return (Inl (idset_insert readyPeerId unique)))))"

text \<open>The result is \<open>readyPeerIds\<close>, sorted, and \<open>readyTimedOut\<close>; a process that is no leader changes neither.\<close>

definition waitForAllReady :: "('z coordinator_scheme, (idset \<times> bool) option) io" where
  "waitForAllReady = io_bind io_get (\<lambda>c. if \<not> pc_isLeader c then io_return None
     else if pc_totalPeers c > 0 \<and> \<not> pc_myBarrier c then io_raise Undefined_behaviour
     else catch_interprocess
       (io_bind (io_loop (ready_body (pc_totalPeers c) (qc_readyTimeoutMs (pc_queueConfig c))) []) (\<lambda>r. io_return (Some r)))
       (\<lambda>what. runtime_error (''Failed to ::waitForAllReady for peer '' @ int_to_string (pc_myId c) @ '': '' @ what)))"

subsection \<open>Signals to the peers\<close>

text \<open>\<open>broadcastStart\<close> and \<open>broadcastStop\<close> differ in the trigger and the word of their messages.\<close>

definition send_trigger :: "nat \<Rightarrow> string \<Rightarrow> nat \<Rightarrow> nat \<Rightarrow> ('s, unit) io" where
  "send_trigger trigger word timeoutMs i = (let q = peerControlQueueName (int i) in
     catch_interprocess
       (io_seq (mq_open q) (io_bind (mq_timed_send q (Trigger_message trigger) timeoutMs) (\<lambda>sent. if sent then io_return ()
          else runtime_error (''Timed out sending '' @ word @ '' to peer '' @ to_string i @ '' after '' @ to_string timeoutMs @ '' ms''))))
       (\<lambda>what. runtime_error (''Failed sending '' @ word @ '' to peer '' @ to_string i @ '' within '' @ to_string timeoutMs @ '' ms: '' @ what)))"

definition broadcastStart :: "('z coordinator_scheme, unit) io" where
  "broadcastStart = io_bind io_get (\<lambda>c. if \<not> pc_isLeader c then io_return ()
     else io_for (send_trigger kStartTrigger ''start'' (qc_controlSendTimeoutMs (pc_queueConfig c))) [0..<pc_totalPeers c])"

definition broadcastStop :: "('z coordinator_scheme, unit) io" where
  "broadcastStop = io_bind io_get (\<lambda>c. if \<not> pc_isLeader c then io_return ()
     else io_for (send_trigger kStopTrigger ''stop'' (qc_controlSendTimeoutMs (pc_queueConfig c))) [0..<pc_totalPeers c])"

definition broadcastStopBestEffort :: "('z coordinator_scheme, unit) io" where
  "broadcastStopBestEffort = io_bind io_get (\<lambda>c. if \<not> pc_isLeader c then io_return ()
     else io_for (\<lambda>i. let q = peerControlQueueName (int i) in
            catch_interprocess (io_seq (mq_open q) (io_bind (mq_timed_send q (Trigger_message kStopTrigger) 100) (\<lambda>_. io_return ())))
              (\<lambda>_. io_return ())) [0..<pc_totalPeers c])"

definition waitForStart :: "('z coordinator_scheme, unit) io" where
  "waitForStart = io_bind io_get (\<lambda>c. if pc_isLeader c then io_return ()
     else if \<not> pc_myControlInbox c then io_raise Undefined_behaviour
     else let unexpected = ''Unexpected start message at ::waitForStart for peer '' @ int_to_string (pc_myId c) in
       catch_interprocess (io_bind (mq_receive (peerControlQueueName (pc_myId c))) (\<lambda>m.
           if message_size m \<noteq> 4 then runtime_error unexpected
           else if read_trigger m \<noteq> kStartTrigger then runtime_error unexpected else io_return ()))
         (\<lambda>what. runtime_error (''Failed to ::waitForStart for peer '' @ int_to_string (pc_myId c) @ '': '' @ what)))"

subsection \<open>Assignments\<close>

definition send_assignment :: "(peerAssignment \<Rightarrow> nat list) \<Rightarrow> nat \<Rightarrow> peerAssignment \<Rightarrow> ('s, unit) io" where
  "send_assignment ser timeoutMs a = (let bytes = ser a; q = peerControlQueueName (pa_id a) in
     catch_interprocess
       (io_seq (mq_open q) (io_bind (mq_max_msg_size q) (\<lambda>maxSize.
          if length bytes > maxSize then runtime_error (''Assignment for peer '' @ int_to_string (pa_id a) @ '' exceeds queue max message size'')
          else io_bind (mq_timed_send q (Archive_message bytes) timeoutMs) (\<lambda>sent. if sent then io_return ()
            else runtime_error (''Timed out sending assignment to peer '' @ int_to_string (pa_id a) @ '' after '' @ to_string timeoutMs @ '' ms'')))))
       (\<lambda>what. runtime_error (''Failed sending assignment to peer '' @ int_to_string (pa_id a) @ '' within '' @ to_string timeoutMs @ '' ms: '' @ what)))"

definition sendAssignments :: "(peerAssignment \<Rightarrow> nat list) \<Rightarrow> peerAssignment list \<Rightarrow> ('z coordinator_scheme, unit) io" where
  "sendAssignments ser assignments = io_bind io_get (\<lambda>c. if \<not> pc_isLeader c then io_return ()
     else io_for (send_assignment ser (qc_controlSendTimeoutMs (pc_queueConfig c))) assignments)"

definition waitForAssignments :: "(mq_message \<Rightarrow> peerAssignment option) \<Rightarrow> ('z coordinator_scheme, peerAssignment list) io" where
  "waitForAssignments deser = io_bind io_get (\<lambda>c. if pc_isLeader c then io_return []
     else if \<not> pc_myControlInbox c then io_raise Undefined_behaviour
     else catch_interprocess (io_bind (mq_receive (peerControlQueueName (pc_myId c))) (\<lambda>m.
            case deser m of None \<Rightarrow> io_raise Other_exception | Some a \<Rightarrow> io_return [a]))
         (\<lambda>what. runtime_error (''Failed to ::waitForAssignments for peer '' @ int_to_string (pc_myId c) @ '': '' @ what)))"

subsection \<open>Stop and clean up\<close>

definition shouldStop :: "'z coordinator_scheme \<Rightarrow> bool" where
  "shouldStop c = pc_stopSignal c"

definition requestStop :: "('z coordinator_scheme, unit) io" where
  "requestStop = io_update (\<lambda>c. c\<lparr>pc_stopSignal := True\<rparr>)"

definition stop_body :: "string \<Rightarrow> unit \<Rightarrow> ('z coordinator_scheme, unit + unit) io" where
  "stop_body q = (\<lambda>_. io_bind (mq_receive q) (\<lambda>m.
     if message_size m \<noteq> 4 then io_return (Inl ())
     else if read_trigger m \<noteq> kStopTrigger then io_return (Inl ())
     else io_seq (io_update (\<lambda>c. c\<lparr>pc_stopSignal := True\<rparr>)) (io_seq (waitForQueueRemoval q)
       (io_seq (io_update (\<lambda>c. c\<lparr>pc_myControlInbox := False\<rparr>)) (io_return (Inr ()))))))"

definition waitForStop :: "('z coordinator_scheme, unit) io" where
  "waitForStop = io_bind io_get (\<lambda>c. if pc_isLeader c then io_return ()
     else if \<not> pc_myControlInbox c then io_raise Undefined_behaviour
     else catch_interprocess (io_loop (stop_body (peerControlQueueName (pc_myId c))) ())
         (\<lambda>what. runtime_error (''Failed to ::waitForStop for peer '' @ int_to_string (pc_myId c) @ '': '' @ what)))"

definition cleanUp :: "('z coordinator_scheme, unit) io" where
  "cleanUp = io_bind io_get (\<lambda>c. io_seq
     (if pc_isLeader c then io_seq (mq_remove mq_barrier) (io_seq (mq_remove mq_done)
        (io_for (\<lambda>i. io_seq (mq_remove (peerControlQueueName (int i))) (mq_remove (peerDataQueueName (int i)))) [0..<pc_totalPeers c]))
      else io_seq (mq_remove (peerControlQueueName (pc_myId c))) (mq_remove (peerDataQueueName (pc_myId c))))
     (io_update (\<lambda>c. c\<lparr>pc_completedPeers := []\<rparr>)))"

subsection \<open>Completion\<close>

definition notifyPeerFinished :: "interfaceId \<Rightarrow> bool \<Rightarrow> ('z coordinator_scheme, unit) io" where
  "notifyPeerFinished pid succeeded = (if pid = NO_PEER_ID then io_return ()
     else io_bind io_get (\<lambda>c. if \<not> pc_isLeader c
       then control_attempts kControlSendAttempts mq_done (Completion_message pid succeeded)
         (\<lambda>what. ''Failed to ::notifyPeerStopped for peer '' @ int_to_string (pc_myId c) @ '': '' @ what)
         (''Timed out sending completion status for peer '' @ int_to_string (pc_myId c) @ '' to mq_done'')
       else let completed = idset_insert pid (pc_completedPeers c) in
         io_seq (io_update (\<lambda>c. c\<lparr>pc_completedPeers := completed\<rparr>))
           (if length completed \<ge> pc_totalPeers c then broadcastStop else io_return ())))"

definition notifyPeerStopped :: "interfaceId \<Rightarrow> ('z coordinator_scheme, unit) io" where
  "notifyPeerStopped pid = notifyPeerFinished pid True"

definition notifyPeerFailed :: "interfaceId \<Rightarrow> ('z coordinator_scheme, unit) io" where
  "notifyPeerFailed pid = notifyPeerFinished pid False"

record peerCompletionResult =
  cr_completedPeers :: "interfaceId list"
  cr_failedPeers :: "interfaceId list"
  cr_timedOut :: bool

definition no_completions :: peerCompletionResult where
  "no_completions = \<lparr>cr_completedPeers = [], cr_failedPeers = [], cr_timedOut = False\<rparr>"

definition done_body :: "nat \<Rightarrow> nat \<Rightarrow> interfaceId \<Rightarrow> idset \<times> peerCompletionResult
    \<Rightarrow> ('z coordinator_scheme, (idset \<times> peerCompletionResult) + peerCompletionResult) io" where
  "done_body totalPeers timeoutMs myId = (\<lambda>(seen, r).
     if \<not> length (cr_completedPeers r) + length (cr_failedPeers r) < totalPeers then io_return (Inr r)
     else io_bind (mq_timed_receive mq_done timeoutMs) (\<lambda>m. case m of
         None \<Rightarrow> io_return (Inr (r\<lparr>cr_timedOut := True\<rparr>))
       | Some m \<Rightarrow>
           if message_size m \<noteq> 16 then runtime_error (''Unexpected done message size at ::waitForAllDone for leader '' @ int_to_string myId)
           else let (peerId, succeeded) = read_completion m in
             if peerId < 0 \<or> nat peerId \<ge> totalPeers then io_return (Inl (seen, r))
             else if peerId \<in> set seen then io_return (Inl (seen, r))
             else let seen = idset_insert peerId seen in
               if succeeded then let r = r\<lparr>cr_completedPeers := cr_completedPeers r @ [peerId]\<rparr> in
                 io_seq (notifyPeerStopped peerId) (io_return (Inl (seen, r)))
               else io_return (Inr (r\<lparr>cr_failedPeers := cr_failedPeers r @ [peerId]\<rparr>))))"

definition waitForAllDone :: "nat \<Rightarrow> ('z coordinator_scheme, peerCompletionResult) io" where
  "waitForAllDone timeoutMs = io_bind io_get (\<lambda>c. if \<not> pc_isLeader c then io_return no_completions
     else catch_interprocess (io_seq (mq_open mq_done) (io_loop (done_body (pc_totalPeers c) timeoutMs (pc_myId c)) ([], no_completions)))
       (\<lambda>what. runtime_error (''Failed to ::waitForAllDone for leader '' @ int_to_string (pc_myId c) @ '': '' @ what)))"

end
