(* ===== verification/Logging.thy ===== *)
theory Logging
  imports TopologyPlanner "HOL-Library.AList"
begin

text \<open>
  Logging: src/quantas/Common/Logger.cpp (levels per category, destination) and
  src/quantas/Common/LoggingSupport.cpp (names of output files, settings of an experiment). The environment
  variables and the question whether a file can be opened are parameters; the text of a record and its
  time stamp are left out. Paths are strings in the format of the supported platform.
\<close>

subsection \<open>Levels\<close>

datatype logLevel = LL_Off | LL_Error | LL_Warn | LL_Info | LL_Debug | LL_Trace

fun level_int :: "logLevel \<Rightarrow> int" where
  "level_int LL_Off = -1"
| "level_int LL_Error = 0"
| "level_int LL_Warn = 1"
| "level_int LL_Info = 2"
| "level_int LL_Debug = 3"
| "level_int LL_Trace = 4"

fun levelName :: "logLevel \<Rightarrow> string" where
  "levelName LL_Error = ''ERROR''"
| "levelName LL_Warn = ''WARN''"
| "levelName LL_Info = ''INFO''"
| "levelName LL_Debug = ''DEBUG''"
| "levelName LL_Trace = ''TRACE''"
| "levelName LL_Off = ''OFF''"

definition lower :: "char \<Rightarrow> char" where
  "lower c = (if 65 \<le> (of_char c :: nat) \<and> (of_char c :: nat) \<le> 90 then char_of ((of_char c :: nat) + 32) else c)"

definition levelFromString :: "string \<Rightarrow> logLevel option" where
  "levelFromString name = (if name = [] then None
     else let n = map lower name in
       if n = ''error'' \<or> n = ''err'' \<or> n = ''e'' then Some LL_Error
       else if n = ''warn'' \<or> n = ''warning'' \<or> n = ''w'' then Some LL_Warn
       else if n = ''info'' \<or> n = ''information'' \<or> n = ''i'' then Some LL_Info
       else if n = ''debug'' \<or> n = ''d'' then Some LL_Debug
       else if n = ''trace'' \<or> n = ''t'' then Some LL_Trace
       else if n = ''off'' \<or> n = ''none'' then Some LL_Off
       else None)"

subsection \<open>The logger\<close>

datatype sink = Sink_cout | Sink_cerr | Sink_file string bool

record logger =
  lg_categoryLevels :: "(string \<times> logLevel) list"
  lg_globalLevel :: logLevel
  lg_stream :: "sink option"
  lg_written :: "(sink \<times> string \<times> logLevel \<times> string) list"

definition new_logger :: logger where
  "new_logger = \<lparr>lg_categoryLevels = [], lg_globalLevel = LL_Info, lg_stream = Some Sink_cout, lg_written = []\<rparr>"

definition setDestination :: "(string \<Rightarrow> bool) \<Rightarrow> string \<Rightarrow> bool \<Rightarrow> logger \<Rightarrow> logger" where
  "setDestination opens path app lg = lg\<lparr>lg_stream :=
     (if path = [] then None else if path = ''cout'' then Some Sink_cout else if path = ''cerr'' then Some Sink_cerr
      else if opens path then Some (Sink_file path app) else Some Sink_cout)\<rparr>"

definition setGlobalLevel :: "logLevel \<Rightarrow> logger \<Rightarrow> logger" where
  "setGlobalLevel l lg = lg\<lparr>lg_globalLevel := l\<rparr>"

definition setCategoryLevel :: "string \<Rightarrow> logLevel \<Rightarrow> logger \<Rightarrow> logger" where
  "setCategoryLevel c l lg = lg\<lparr>lg_categoryLevels := AList.update c l (lg_categoryLevels lg)\<rparr>"

definition clearCategoryLevel :: "string \<Rightarrow> logger \<Rightarrow> logger" where
  "clearCategoryLevel c lg = lg\<lparr>lg_categoryLevels := AList.delete c (lg_categoryLevels lg)\<rparr>"

definition clearAllCategoryLevels :: "logger \<Rightarrow> logger" where
  "clearAllCategoryLevels lg = lg\<lparr>lg_categoryLevels := []\<rparr>"

definition disable_logger :: "logger \<Rightarrow> logger" where
  "disable_logger lg = lg\<lparr>lg_categoryLevels := [], lg_globalLevel := LL_Off, lg_stream := None\<rparr>"

definition shouldLog :: "string \<Rightarrow> logLevel \<Rightarrow> logger \<Rightarrow> bool" where
  "shouldLog category level lg = (if level = LL_Off then False
     else let threshold = (case map_of (lg_categoryLevels lg) category of Some l \<Rightarrow> l | None \<Rightarrow> lg_globalLevel lg)
       in if threshold = LL_Off then False else level_int level \<le> level_int threshold)"

definition write_record :: "logLevel \<Rightarrow> string \<Rightarrow> string \<Rightarrow> logger \<Rightarrow> logger" where
  "write_record level category message lg = (case lg_stream lg of None \<Rightarrow> lg
     | Some sink \<Rightarrow> lg\<lparr>lg_written := lg_written lg @ [(sink, category, level, message)]\<rparr>)"

definition log_message :: "logLevel \<Rightarrow> string \<Rightarrow> string \<Rightarrow> logger \<Rightarrow> logger" where
  "log_message level category message lg = (if \<not> shouldLog category level lg then lg else write_record level category message lg)"

text \<open>A line of the logging macros: made active by the level, written when it is destroyed.\<close>

record logLine =
  ll_category :: string
  ll_level :: logLevel
  ll_active :: bool
  ll_buffer :: string

definition new_line :: "logLevel \<Rightarrow> string \<Rightarrow> logger \<Rightarrow> logLine" where
  "new_line level category lg = (if \<not> shouldLog category level lg
     then \<lparr>ll_category = [], ll_level = level, ll_active = False, ll_buffer = []\<rparr>
     else \<lparr>ll_category = category, ll_level = level, ll_active = True, ll_buffer = []\<rparr>)"

definition stream_text :: "string \<Rightarrow> logLine \<Rightarrow> logLine" where
  "stream_text s l = (if \<not> ll_active l then l else l\<lparr>ll_buffer := ll_buffer l @ s\<rparr>)"

definition end_line :: "logLine \<Rightarrow> logger \<Rightarrow> logger" where
  "end_line l lg = (if ll_active l then write_record (ll_level l) (ll_category l) (ll_buffer l) lg else lg)"

subsection \<open>Paths\<close>

definition dir_part :: "string \<Rightarrow> string" where
  "dir_part p = rev (dropWhile (\<lambda>c. c \<noteq> CHR ''/'') (rev p))"

definition filename :: "string \<Rightarrow> string" where
  "filename p = rev (takeWhile (\<lambda>c. c \<noteq> CHR ''/'') (rev p))"

definition path_append :: "string \<Rightarrow> string \<Rightarrow> string" where
  "path_append a b = (if b \<noteq> [] \<and> hd b = CHR ''/'' then b
     else if a \<noteq> [] \<and> last a \<noteq> CHR ''/'' then a @ ''/'' @ b else a @ b)"

definition replace_filename :: "string \<Rightarrow> string \<Rightarrow> string" where
  "replace_filename p n = path_append (dir_part p) n"

text \<open>The stem ends before the last dot, unless that is the first character; ''..'' has no extension.\<close>

definition split_extension :: "string \<Rightarrow> string \<times> string" where
  "split_extension f = (let e = takeWhile (\<lambda>c. c \<noteq> CHR ''.'') (rev f) in
     if f = ''..'' \<or> length f \<le> length e + 1 then (f, []) else (take (length f - length e - 1) f, CHR ''.'' # rev e))"

definition path_stem :: "string \<Rightarrow> string" where
  "path_stem p = fst (split_extension (filename p))"

definition path_extension :: "string \<Rightarrow> string" where
  "path_extension p = snd (split_extension (filename p))"

subsection \<open>Names of output files\<close>

definition getenvOrEmpty :: "(string \<Rightarrow> string option) \<Rightarrow> string \<Rightarrow> string" where
  "getenvOrEmpty env name = (case env name of None \<Rightarrow> [] | Some v \<Rightarrow> v)"

definition valid_char :: "char \<Rightarrow> bool" where
  "valid_char c = (let n = (of_char c :: nat) in 97 \<le> n \<and> n \<le> 122 \<or> 65 \<le> n \<and> n \<le> 90 \<or> 48 \<le> n \<and> n \<le> 57
     \<or> c = CHR ''.'' \<or> c = CHR ''-'' \<or> c = CHR ''_'')"

definition sanitizePathComponent :: "string \<Rightarrow> string" where
  "sanitizePathComponent v = (let v = map (\<lambda>c. if valid_char c then c else CHR ''_'') v in if v = [] then ''unknown'' else v)"

definition experimentOutputDirectory :: "(string \<Rightarrow> string option) \<Rightarrow> string" where
  "experimentOutputDirectory env = (let runDir = getenvOrEmpty env ''QUANTAS_RUN_DIR'' in
     if runDir = [] then []
     else let host = sanitizePathComponent (getenvOrEmpty env ''QUANTAS_HOSTNAME'');
              ip = sanitizePathComponent (getenvOrEmpty env ''QUANTAS_MACHINE_IP'');
              role = sanitizePathComponent (getenvOrEmpty env ''QUANTAS_PROCESS_ROLE'')
          in path_append (path_append runDir ''quantas'') (role @ ''__'' @ host @ ''__'' @ ip))"

definition buildRunAwareStem :: "(string \<Rightarrow> string option) \<Rightarrow> string \<Rightarrow> nat \<Rightarrow> int option \<Rightarrow> string" where
  "buildRunAwareStem env inputPath experimentIndex port =
     sanitizePathComponent (path_stem inputPath) @ ''_EXP'' @ to_string (experimentIndex + 1)
     @ ''__'' @ sanitizePathComponent (getenvOrEmpty env ''QUANTAS_PROCESS_ROLE'')
     @ ''__'' @ sanitizePathComponent (getenvOrEmpty env ''QUANTAS_HOSTNAME'')
     @ ''__'' @ sanitizePathComponent (getenvOrEmpty env ''QUANTAS_MACHINE_IP'')
     @ (case port of None \<Rightarrow> [] | Some p \<Rightarrow> ''__p'' @ int_to_string p)"

definition chooseLogFileBase :: "json \<Rightarrow> json \<Rightarrow> string" where
  "chooseLogFileBase rootConfig experimentConfig = (case jfind ''logFile'' experimentConfig of Some (JStr s) \<Rightarrow> s
     | _ \<Rightarrow> case jfind ''logFile'' rootConfig of Some (JStr s) \<Rightarrow> s
     | _ \<Rightarrow> case jfind ''id'' experimentConfig of Some (JStr s) \<Rightarrow> s
     | _ \<Rightarrow> case jfind ''id'' rootConfig of Some (JStr s) \<Rightarrow> s
     | _ \<Rightarrow> ''cout'')"

definition makeExperimentFileName :: "(string \<Rightarrow> string option) \<Rightarrow> string \<Rightarrow> nat \<Rightarrow> int option \<Rightarrow> string \<Rightarrow> string" where
  "makeExperimentFileName env base experimentIndex port defaultExtension =
     (if base = ''cout'' \<or> base = ''cerr'' then base else if base = [] then []
      else let stem = (if path_stem base = [] then ''experiment'' else path_stem base);
               extension = (if path_extension base \<noteq> [] then path_extension base else defaultExtension);
               extension = (if extension \<noteq> [] \<and> hd extension \<noteq> CHR ''.'' then CHR ''.'' # extension else extension);
               runDir = experimentOutputDirectory env
           in if runDir \<noteq> [] then
                (let basePath = (if filename base = [] then stem @ extension else filename base)
                 in replace_filename (path_append runDir basePath) (buildRunAwareStem env base experimentIndex port @ extension))
              else replace_filename base (stem @ ''_EXP'' @ to_string (experimentIndex + 1)
                @ (case port of None \<Rightarrow> [] | Some p \<Rightarrow> ''_p'' @ int_to_string p) @ extension))"

definition addFileNameSuffix :: "string \<Rightarrow> string \<Rightarrow> string" where
  "addFileNameSuffix path suffix = (if path = ''cout'' \<or> path = ''cerr'' \<or> path = [] then path
     else replace_filename path (path_stem path @ suffix @ path_extension path))"

subsection \<open>The settings of an experiment\<close>

record loggingOverrides =
  lo_level :: "string option"
  lo_append :: "bool option"
  lo_destination :: "string option"
  lo_categories :: "(string \<times> json) list"
  lo_specified :: bool

definition no_overrides :: loggingOverrides where
  "no_overrides = \<lparr>lo_level = None, lo_append = None, lo_destination = None, lo_categories = [], lo_specified = False\<rparr>"

definition merge_item :: "string \<times> json \<Rightarrow> loggingOverrides \<Rightarrow> loggingOverrides" where
  "merge_item = (\<lambda>(key, value) ov.
     if key = ''level'' \<and> is_string value then ov\<lparr>lo_level := get_string value, lo_specified := True\<rparr>
     else if key = ''append'' \<and> get_bool value \<noteq> None then ov\<lparr>lo_append := get_bool value, lo_specified := True\<rparr>
     else if key = ''destination'' \<and> is_string value then ov\<lparr>lo_destination := get_string value, lo_specified := True\<rparr>
     else if key = ''categories'' then (case value of
         JObj kvs \<Rightarrow> ov\<lparr>lo_specified := True, lo_categories := fold (\<lambda>(c, l) m. obj_put c l m) kvs (lo_categories ov)\<rparr>
       | _ \<Rightarrow> ov)
     else ov)"

definition mergeLoggingOverrides :: "json \<Rightarrow> loggingOverrides \<Rightarrow> loggingOverrides" where
  "mergeLoggingOverrides node ov = (case node of JObj kvs \<Rightarrow> fold merge_item kvs ov | _ \<Rightarrow> ov)"

definition merge_config :: "json \<Rightarrow> loggingOverrides \<Rightarrow> loggingOverrides" where
  "merge_config config ov =
     (let ov = (case jfind ''logging'' config of Some node \<Rightarrow> mergeLoggingOverrides node ov | None \<Rightarrow> ov)
      in case jfind ''logging_level'' config of Some (JStr l) \<Rightarrow> ov\<lparr>lo_level := Some l, lo_specified := True\<rparr> | _ \<Rightarrow> ov)"

definition set_category :: "string \<times> json \<Rightarrow> bool \<times> logger \<Rightarrow> bool \<times> logger" where
  "set_category = (\<lambda>(categoryName, levelNode) (enabled, lg). case levelNode of
       JStr l \<Rightarrow> (case levelFromString l of
           Some parsed \<Rightarrow> (enabled \<or> parsed \<noteq> LL_Off, setCategoryLevel categoryName parsed lg)
         | None \<Rightarrow> (enabled, lg))
     | _ \<Rightarrow> (enabled, lg))"

record loggerActivation =
  la_enabled :: bool
  la_append :: bool
  la_destination :: string

definition no_activation :: loggerActivation where
  "no_activation = \<lparr>la_enabled = False, la_append = False, la_destination = []\<rparr>"

definition effective_level :: "loggingOverrides \<Rightarrow> logLevel" where
  "effective_level ov = (case lo_level ov of None \<Rightarrow> LL_Info
     | Some l \<Rightarrow> (case levelFromString l of Some parsed \<Rightarrow> parsed | None \<Rightarrow> LL_Info))"

definition log_destination :: "(string \<Rightarrow> string option) \<Rightarrow> loggingOverrides \<Rightarrow> nat \<Rightarrow> string \<Rightarrow> int option \<Rightarrow> string option" where
  "log_destination env ov experimentIndex logFileBase port = (case lo_destination ov of
       Some base \<Rightarrow> (if base = [] then None else if base = ''cout'' \<or> base = ''cerr'' then Some base
         else Some (makeExperimentFileName env base experimentIndex port ''.log''))
     | None \<Rightarrow> if logFileBase = ''cout'' \<or> logFileBase = ''cerr'' then Some logFileBase
         else Some (makeExperimentFileName env logFileBase experimentIndex port ''.log''))"

definition configureLoggerForExperiment :: "(string \<Rightarrow> string option) \<Rightarrow> (string \<Rightarrow> bool) \<Rightarrow> json \<Rightarrow> json \<Rightarrow> nat \<Rightarrow> string
    \<Rightarrow> int option \<Rightarrow> bool \<Rightarrow> logger \<Rightarrow> loggerActivation \<times> logger" where
  "configureLoggerForExperiment env opens rootConfig experimentConfig experimentIndex logFileBase port defaultAppend lg =
     (let lg = disable_logger lg;
          ov = merge_config experimentConfig (merge_config rootConfig no_overrides)
      in if \<not> lo_specified ov then (no_activation, lg)
      else let level = effective_level ov;
               lg = setGlobalLevel level (clearAllCategoryLevels lg);
               (enabled, lg) = fold set_category (lo_categories ov) (level \<noteq> LL_Off, lg)
           in if \<not> enabled then (no_activation, lg)
           else let app = (case lo_append ov of Some b \<Rightarrow> b | None \<Rightarrow> defaultAppend)
                in case log_destination env ov experimentIndex logFileBase port of
                     None \<Rightarrow> (no_activation, lg)
                   | Some destination \<Rightarrow> (\<lparr>la_enabled = True, la_append = app, la_destination = destination\<rparr>,
                                          setDestination opens destination app lg))"

subsection \<open>The thresholds that hold\<close>

definition category_threshold :: "loggingOverrides \<Rightarrow> string \<Rightarrow> logLevel" where
  "category_threshold ov c = (case map_of (lo_categories ov) c of
       Some (JStr s) \<Rightarrow> (case levelFromString s of Some l \<Rightarrow> l | None \<Rightarrow> effective_level ov)
     | _ \<Rightarrow> effective_level ov)"

lemma level_int_Off: "level_int l \<le> level_int LL_Off \<longleftrightarrow> l = LL_Off"
  by (cases l) simp_all

lemma shouldLog_threshold:
  "shouldLog c l lg \<longleftrightarrow> l \<noteq> LL_Off \<and> level_int l \<le> level_int (case map_of (lg_categoryLevels lg) c of Some t \<Rightarrow> t | None \<Rightarrow> lg_globalLevel lg)"
  using level_int_Off [of l] by (auto simp: shouldLog_def Let_def split: option.splits)

lemma keys_put: "set (map fst (obj_put k v kvs)) = insert k (set (map fst kvs))"
  by (induction k v kvs rule: obj_put.induct) auto

lemma sorted_put:
  assumes "sorted_wrt (<) (map fst kvs)"
  shows "sorted_wrt (<) (map fst (obj_put k v kvs))"
  using assms by (induction k v kvs rule: obj_put.induct) (auto simp: keys_put simp del: set_map)

lemma set_categories:
  assumes "fold set_category kvs (b, lg) = (b', lg')" "distinct (map fst kvs)"
  shows "lg_globalLevel lg' = lg_globalLevel lg \<and> lg_stream lg' = lg_stream lg \<and>
    map_of (lg_categoryLevels lg') c = (case map_of kvs c of
        Some (JStr s) \<Rightarrow> (case levelFromString s of Some l \<Rightarrow> Some l | None \<Rightarrow> map_of (lg_categoryLevels lg) c)
      | _ \<Rightarrow> map_of (lg_categoryLevels lg) c)"
  using assms
proof (induction kvs arbitrary: b lg)
  case (Cons p kvs)
  obtain k v where p: "p = (k, v)" by fastforce
  obtain b1 lg1 where s: "set_category p (b, lg) = (b1, lg1)" by fastforce
  have 1: "lg_globalLevel lg1 = lg_globalLevel lg \<and> lg_stream lg1 = lg_stream lg \<and>
     map_of (lg_categoryLevels lg1) = (case v of JStr s \<Rightarrow> (case levelFromString s of Some l \<Rightarrow> (map_of (lg_categoryLevels lg))(k \<mapsto> l)
        | None \<Rightarrow> map_of (lg_categoryLevels lg)) | _ \<Rightarrow> map_of (lg_categoryLevels lg))"
    using s by (auto simp: p set_category_def setCategoryLevel_def update_conv' split: json.splits option.splits)
  have n: "map_of kvs k = None" using Cons.prems(2) by (simp add: p map_of_eq_None_iff)
  have 2: "lg_globalLevel lg' = lg_globalLevel lg1 \<and> lg_stream lg' = lg_stream lg1 \<and>
    map_of (lg_categoryLevels lg') c = (case map_of kvs c of
        Some (JStr s) \<Rightarrow> (case levelFromString s of Some l \<Rightarrow> Some l | None \<Rightarrow> map_of (lg_categoryLevels lg1) c)
      | _ \<Rightarrow> map_of (lg_categoryLevels lg1) c)"
    using Cons.IH [of b1 lg1] Cons.prems by (simp add: s)
  show ?case
  proof (cases "c = k")
    case True
    then show ?thesis using 1 2 n by (auto simp: p split: json.splits option.splits)
  next
    case False
    then have "map_of (lg_categoryLevels lg1) c = map_of (lg_categoryLevels lg) c"
      using 1 by (auto split: json.splits option.splits)
    from 2 [unfolded this] show ?thesis using 1 False by (simp add: p)
  qed
qed simp

lemma sorted_puts: "sorted_wrt (<) (map fst m) \<Longrightarrow> sorted_wrt (<) (map fst (fold (\<lambda>(c, l) m. obj_put c l m) kvs m))"
  by (induction kvs arbitrary: m) (auto simp: sorted_put)

lemma sorted_merge:
  assumes "sorted_wrt (<) (map fst (lo_categories ov))"
  shows "sorted_wrt (<) (map fst (lo_categories (merge_config config ov)))"
proof -
  have item: "sorted_wrt (<) (map fst (lo_categories (merge_item p ov)))" if "sorted_wrt (<) (map fst (lo_categories ov))" for p ov
    using that by (auto simp: merge_item_def sorted_puts split: prod.splits json.splits)
  have "sorted_wrt (<) (map fst (lo_categories (fold merge_item kvs ov)))" for kvs
    by (rule fold_invariant) (use assms item in auto)
  then show ?thesis
    using assms by (auto simp: merge_config_def mergeLoggingOverrides_def Let_def split: option.splits json.splits)
qed

definition experiment_overrides :: "json \<Rightarrow> json \<Rightarrow> loggingOverrides" where
  "experiment_overrides rootConfig experimentConfig = merge_config experimentConfig (merge_config rootConfig no_overrides)"

lemma configured_thresholds:
  assumes "configureLoggerForExperiment env opens rootConfig experimentConfig k base port dflt lg = (act, lg')" "la_enabled act"
  shows "(case map_of (lg_categoryLevels lg') c of Some t \<Rightarrow> t | None \<Rightarrow> lg_globalLevel lg')
    = category_threshold (experiment_overrides rootConfig experimentConfig) c"
proof -
  let ?ov = "experiment_overrides rootConfig experimentConfig"
  let ?lg = "setGlobalLevel (effective_level ?ov) (clearAllCategoryLevels (disable_logger lg))"
  have d: "distinct (map fst (lo_categories ?ov))"
    unfolding experiment_overrides_def
    using sorted_merge [OF sorted_merge [of no_overrides rootConfig], of experimentConfig] by (simp add: no_overrides_def strict_sorted_iff)
  obtain b lg1 where f: "fold set_category (lo_categories ?ov) (effective_level ?ov \<noteq> LL_Off, ?lg) = (b, lg1)" by fastforce
  have lg': "lg_categoryLevels lg' = lg_categoryLevels lg1 \<and> lg_globalLevel lg' = lg_globalLevel lg1"
    using assms f unfolding configureLoggerForExperiment_def experiment_overrides_def
    by (auto simp: Let_def setDestination_def no_activation_def split: if_splits option.splits)
  show ?thesis
    using set_categories [OF f d, of c] lg'
    by (auto simp: category_threshold_def setGlobalLevel_def clearAllCategoryLevels_def disable_logger_def split: option.splits json.splits)
qed

text \<open>Where the records of a destination go; the empty destination drops them.\<close>

definition sink_of :: "(string \<Rightarrow> bool) \<Rightarrow> loggerActivation \<Rightarrow> sink option" where
  "sink_of opens act = (let d = la_destination act in
     if \<not> la_enabled act \<or> d = [] then None else if d = ''cout'' then Some Sink_cout else if d = ''cerr'' then Some Sink_cerr
     else if opens d then Some (Sink_file d (la_append act)) else Some Sink_cout)"

text \<open>What a call of the logger writes when the threshold of its category is \<open>t\<close>.\<close>

definition record_written :: "sink option \<Rightarrow> logLevel \<Rightarrow> logLevel \<Rightarrow> string \<Rightarrow> string \<Rightarrow> (sink \<times> string \<times> logLevel \<times> string) list" where
  "record_written dest t l c msg = (case dest of None \<Rightarrow> []
     | Some s \<Rightarrow> if l \<noteq> LL_Off \<and> level_int l \<le> level_int t then [(s, c, l, msg)] else [])"

lemma configured_stream:
  assumes "configureLoggerForExperiment env opens rootConfig experimentConfig k base port dflt lg = (act, lg')"
  shows "lg_stream lg' = sink_of opens act \<and> lg_written lg' = lg_written lg"
proof -
  have st: "lg_stream lg2 = lg_stream lg1 \<and> lg_written lg2 = lg_written lg1" if "fold set_category kvs (b, lg1) = (b2, lg2)" for kvs b lg1 b2 lg2
    using that by (induction kvs arbitrary: b lg1) (auto simp: set_category_def setCategoryLevel_def split: prod.splits json.splits option.splits)
  show ?thesis
    using assms unfolding configureLoggerForExperiment_def
    by (auto simp: Let_def setGlobalLevel_def clearAllCategoryLevels_def disable_logger_def no_activation_def sink_of_def setDestination_def
        dest!: st split: if_splits option.splits prod.splits)
qed

lemma record_effect:
  "log_message l c msg lg = lg\<lparr>lg_written := lg_written lg @ (case lg_stream lg of None \<Rightarrow> [] | Some s \<Rightarrow> if shouldLog c l lg then [(s, c, l, msg)] else [])\<rparr>"
  "end_line (stream_text msg (new_line l c lg)) lg = log_message l c msg lg"
  by (auto simp: log_message_def write_record_def end_line_def stream_text_def new_line_def split: option.splits)

text \<open>
  Claim C34. After \<open>configureLoggerForExperiment\<close> a call of the logger, direct or by a log line, appends exactly one
  record to the configured destination when its level is at most the level configured for its category, or the
  global level when the category has none that parses, and otherwise nothing; the experiment's \<open>logging_level\<close>
  decides the global level. The destination is the one that the activation reports, \<open>cout\<close> when that file cannot
  be opened; there is none, and nothing is ever written, when logging is not enabled or the reported destination
  is empty. The configuration itself writes nothing.
\<close>

theorem logging_as_configured:
  assumes "configureLoggerForExperiment env opens rootConfig experimentConfig k base port dflt lg = (act, lg')"
  shows "log_message l c msg lg' = lg'\<lparr>lg_written := lg_written lg @ record_written (sink_of opens act) (category_threshold (experiment_overrides rootConfig experimentConfig) c) l c msg\<rparr>
    \<and> end_line (stream_text msg (new_line l c lg')) lg' = log_message l c msg lg'
    \<and> (jfind ''logging_level'' experimentConfig = Some (JStr s) \<longrightarrow> effective_level (experiment_overrides rootConfig experimentConfig)
        = (case levelFromString s of Some t \<Rightarrow> t | None \<Rightarrow> LL_Info))"
proof -
  note st = configured_stream [OF assms]
  have "log_message l c msg lg' = lg'\<lparr>lg_written := lg_written lg @ record_written (sink_of opens act) (category_threshold (experiment_overrides rootConfig experimentConfig) c) l c msg\<rparr>"
  proof (cases "la_enabled act")
    case True
    have "shouldLog c l lg' \<longleftrightarrow> l \<noteq> LL_Off \<and> level_int l \<le> level_int (category_threshold (experiment_overrides rootConfig experimentConfig) c)"
      using configured_thresholds [OF assms True, of c] by (simp add: shouldLog_threshold )
    then show ?thesis using st by (auto simp: record_effect(1) record_written_def split: option.splits)
  next
    case False
    then show ?thesis using st by (simp add: record_effect(1) record_written_def sink_of_def)
  qed
  moreover have "effective_level (experiment_overrides rootConfig experimentConfig) = (case levelFromString s of Some t \<Rightarrow> t | None \<Rightarrow> LL_Info)"
    if "jfind ''logging_level'' experimentConfig = Some (JStr s)"
    using that by (simp add:  experiment_overrides_def merge_config_def [of experimentConfig] effective_level_def Let_def)
  ultimately show ?thesis by (simp add: record_effect(2))
qed

definition quiet_network :: json where
  "quiet_network = JObj [(''logging'', JObj [(''categories'', JObj [(''coord'', JStr ''OFF'')])]), (''logging_level'', JStr ''debug'')]"

definition quiet_logger :: logger where
  "quiet_logger = snd (configureLoggerForExperiment (\<lambda>_. None) (\<lambda>_. True) JNull quiet_network 0 ''cout'' None True new_logger)"

lemma logging_as_configured_witness:
  "lg_written (log_message LL_Error ''coord'' ''x'' quiet_logger) = []
   \<and> lg_written (log_message LL_Debug ''runner'' ''y'' quiet_logger) = [(Sink_cout, ''runner'', LL_Debug, ''y'')]"
proof -
  let ?r = "configureLoggerForExperiment (\<lambda>_. None) (\<lambda>_. True) JNull quiet_network 0 ''cout'' None True new_logger"
  have r: "?r = (fst ?r, quiet_logger)" by (simp add: quiet_logger_def)
  have e: "sink_of (\<lambda>_. True) (fst ?r) = Some Sink_cout" by code_simp
  have t: "category_threshold (experiment_overrides JNull quiet_network) ''coord'' = LL_Off"
    "category_threshold (experiment_overrides JNull quiet_network) ''runner'' = LL_Debug" by code_simp+
  show ?thesis
    using logging_as_configured [OF r, of LL_Error "''coord''" "''x''"] logging_as_configured [OF r, of LL_Debug "''runner''" "''y''"] e t
    by (simp add: record_written_def new_logger_def)
qed

end
