(* ===== verification/MqReport.thy ===== *)
theory MqReport
  imports RuntimeConfig Logging
begin

text \<open>
  The leader's report and the files of a run with the Boost back end
  (src/quantas/Common/Concrete/Backends/BoostMq/Logging/BoostMqReportWriter.cpp and BoostMqOutputPaths.hpp).
  What a file contains once it is read as JSON, and whether a directory can be created, are parameters.
\<close>

subsection \<open>Output paths\<close>

definition makeBoostMqExperimentDirectory :: "(string \<Rightarrow> bool) \<Rightarrow> string \<Rightarrow> nat \<Rightarrow> string result" where
  "makeBoostMqExperimentDirectory creates logFileBase experimentIndex =
     (let experimentName = (if path_stem logFileBase = [] then ''experiment'' else path_stem logFileBase);
          directory = path_append ''results'' (experimentName @ ''_EXP'' @ to_string (experimentIndex + 1))
      in if creates directory then Inr directory
         else Inl (Runtime_error (''cannot create BoostMQ results directory '' @ directory)))"

definition makeBoostMqLeaderReportPath :: "(string \<Rightarrow> bool) \<Rightarrow> string \<Rightarrow> nat \<Rightarrow> string result" where
  "makeBoostMqLeaderReportPath creates logFileBase experimentIndex =
     (if logFileBase = ''cout'' \<or> logFileBase = ''cerr'' then Inr logFileBase
      else bindR (makeBoostMqExperimentDirectory creates logFileBase experimentIndex) (\<lambda>d. Inr (path_append d ''leader_report.json'')))"

definition peer_file :: "string \<Rightarrow> int \<Rightarrow> nat \<Rightarrow> string" where
  "peer_file logFileBase peerId testNumber = ''peer_'' @ int_to_string peerId @ ''_TEST'' @ to_string testNumber
     @ (if path_extension logFileBase = [] then ''.json'' else path_extension logFileBase)"

definition makeBoostMqPeerOutputPath :: "(string \<Rightarrow> bool) \<Rightarrow> string \<Rightarrow> nat \<Rightarrow> int \<Rightarrow> nat \<Rightarrow> string result" where
  "makeBoostMqPeerOutputPath creates logFileBase experimentIndex peerId testNumber =
     (if logFileBase = ''cout'' \<or> logFileBase = ''cerr'' then Inr logFileBase
      else bindR (makeBoostMqExperimentDirectory creates logFileBase experimentIndex)
        (\<lambda>d. Inr (path_append d (peer_file logFileBase peerId testNumber))))"

subsection \<open>Facts of a test\<close>

record testReportInfo =
  ti_testIndex :: nat
  ti_duration :: real
  ti_completedPeers :: "interfaceId list"
  ti_missingPeers :: "interfaceId list"
  ti_readyPeers :: "interfaceId list"
  ti_peerOutputFiles :: json
  ti_peerMetrics :: json
  ti_transportReliability :: json
  ti_completionTimedOut :: bool
  ti_readyTimedOut :: bool
  ti_success :: bool

definition new_testReportInfo :: "nat \<Rightarrow> testReportInfo" where
  "new_testReportInfo testIndex = \<lparr>ti_testIndex = testIndex, ti_duration = 0, ti_completedPeers = [], ti_missingPeers = [],
     ti_readyPeers = [], ti_peerOutputFiles = JObj [], ti_peerMetrics = JObj [], ti_transportReliability = JObj [],
     ti_completionTimedOut = False, ti_readyTimedOut = False, ti_success = False\<rparr>"

definition ids_json :: "interfaceId list \<Rightarrow> json" where
  "ids_json ids = JArr (map JInt ids)"

definition makeBaseExperimentReport :: "nat \<Rightarrow> runtimeExperimentConfig \<Rightarrow> boostMqQueueConfig \<Rightarrow> json result" where
  "makeBaseExperimentReport expIndex ex q = bindR (of_json (value_string (rc_topology ex) ''type'' ''unknown'')) (\<lambda>topologyType.
     Inr (jobject [(''backend'', JStr ''mq''), (''experimentIndex'', JInt (int expIndex)), (''peerType'', JStr (rc_initialPeerType ex)),
       (''peerCount'', JInt (rc_initialPeers ex)), (''topologyType'', JStr topologyType), (''rounds'', JInt (rc_rounds ex)),
       (''testCount'', JInt (rc_tests ex)), (''doneTimeoutMs'', JInt (rc_doneTimeoutMs ex)),
       (''boostMq'', jobject [(''controlQueueCapacity'', JInt (int (qc_controlQueueCapacity q))),
          (''dataQueueCapacity'', JInt (int (qc_dataQueueCapacity q))), (''maxMessageSizeBytes'', JInt (int (qc_maxMessageSizeBytes q))),
          (''readyTimeoutMs'', JInt (int (qc_readyTimeoutMs q))), (''dataSendTimeoutMs'', JInt (int (qc_dataSendTimeoutMs q)))]),
       (''tests'', JArr [])]))"

definition makeTestReport :: "testReportInfo \<Rightarrow> json" where
  "makeTestReport info = jobject [(''testIndex'', JInt (int (ti_testIndex info))), (''success'', JBool (ti_success info)),
     (''timedOut'', JBool (ti_readyTimedOut info \<or> ti_completionTimedOut info)), (''durationSeconds'', JFloat (ti_duration info)),
     (''readyPeers'', ids_json (ti_readyPeers info)), (''completedPeers'', ids_json (ti_completedPeers info)),
     (''missingPeers'', ids_json (ti_missingPeers info)), (''peerOutputFiles'', ti_peerOutputFiles info),
     (''transportReliability'', ti_transportReliability info), (''completedPeerCount'', JInt (int (length (ti_completedPeers info)))),
     (''peerMetrics'', ti_peerMetrics info)]"

definition expectedPeers :: "int \<Rightarrow> interfaceId list" where
  "expectedPeers totalPeers = [0..totalPeers - 1]"

definition findMissingPeers :: "int \<Rightarrow> interfaceId list \<Rightarrow> interfaceId list" where
  "findMissingPeers totalPeers completedPeers =
     (let seen = fold (\<lambda>i seen. if 0 \<le> i \<and> i < totalPeers then seen[nat i := True] else seen) completedPeers (replicate (nat totalPeers) False)
      in filter (\<lambda>i. \<not> seen ! nat i) [0..totalPeers - 1])"

definition makePeerOutputFiles :: "(string \<Rightarrow> bool) \<Rightarrow> string \<Rightarrow> nat \<Rightarrow> nat \<Rightarrow> int \<Rightarrow> json result" where
  "makePeerOutputFiles creates logFileBase expIndex testNumber totalPeers =
     bindR (foldR (\<lambda>peerId files. bindR (makeBoostMqPeerOutputPath creates logFileBase expIndex peerId testNumber)
         (\<lambda>path. Inr (obj_put (int_to_string peerId) (JStr path) files))) [0..totalPeers - 1] [])
       (\<lambda>files. Inr (JObj files))"

subsection \<open>Peer metrics\<close>

text \<open>\<open>file path\<close> is the JSON in a file, \<open>None\<close> when it cannot be opened, read or parsed.\<close>

definition readPeerMetricFile :: "(string \<Rightarrow> json option) \<Rightarrow> string \<Rightarrow> json option" where
  "readPeerMetricFile file path = (if path = [] then None
     else case file path of None \<Rightarrow> None | Some j \<Rightarrow> if is_object j then Some j else None)"

definition read_peer :: "(string \<Rightarrow> json option) \<Rightarrow> json \<Rightarrow> interfaceId \<Rightarrow> bool \<times> (string \<times> json) list \<Rightarrow> bool \<times> (string \<times> json) list" where
  "read_peer file peerOutputFiles peerId = (\<lambda>(valid, metrics). let key = int_to_string peerId in
     case jfind key peerOutputFiles of
       Some (JStr path) \<Rightarrow> (if path = ''cout'' \<or> path = ''cerr'' then (valid, metrics)
         else case readPeerMetricFile file path of None \<Rightarrow> (False, metrics) | Some j \<Rightarrow> (valid, obj_put key j metrics))
     | _ \<Rightarrow> (False, metrics))"

definition readPeerMetrics :: "(string \<Rightarrow> json option) \<Rightarrow> json \<Rightarrow> interfaceId list \<Rightarrow> bool \<times> json" where
  "readPeerMetrics file peerOutputFiles peerIds =
     (let (valid, metrics) = fold (read_peer file peerOutputFiles) peerIds (True, []) in (valid, JObj metrics))"

text \<open>
  \<open>value(key, 0)\<close> reads an \<open>int\<close>, whose sign is extended when it is added to the \<open>uint64_t\<close> total; a member of
  the wrong type throws.
\<close>

record transportTotals =
  tt_sent :: nat
  tt_receivedRaw :: nat
  tt_delivered :: nat
  tt_dropped :: nat

definition add_counter :: "json \<Rightarrow> string \<Rightarrow> nat \<Rightarrow> nat option" where
  "add_counter metrics key acc = do { v \<leftarrow> value_int metrics key 0; Some (nat ((int acc + to_size_t (to_int32 v)) mod 2 ^ 64)) }"

definition add_peer_totals :: "string \<times> json \<Rightarrow> transportTotals \<Rightarrow> transportTotals option" where
  "add_peer_totals = (\<lambda>(_, metrics) t. case jfind ''transportMetrics'' metrics of None \<Rightarrow> Some t
     | Some tm \<Rightarrow> do {
         sent \<leftarrow> add_counter tm ''sent'' (tt_sent t);
         raw \<leftarrow> add_counter tm ''received_raw'' (tt_receivedRaw t);
         delivered \<leftarrow> add_counter tm ''delivered_to_instream'' (tt_delivered t);
         dropped \<leftarrow> add_counter tm ''dropped_backpressure'' (tt_dropped t);
         Some \<lparr>tt_sent = sent, tt_receivedRaw = raw, tt_delivered = delivered, tt_dropped = dropped\<rparr> })"

fun transport_totals :: "json \<Rightarrow> transportTotals option" where
  "transport_totals (JObj kvs) = foldM add_peer_totals kvs \<lparr>tt_sent = 0, tt_receivedRaw = 0, tt_delivered = 0, tt_dropped = 0\<rparr>"
| "transport_totals _ = Some \<lparr>tt_sent = 0, tt_receivedRaw = 0, tt_delivered = 0, tt_dropped = 0\<rparr>"

definition is_reliable :: "transportTotals \<Rightarrow> bool" where
  "is_reliable t = (tt_dropped t = 0 \<and> tt_receivedRaw t = tt_delivered t)"

definition summarizeTransportReliability :: "json \<Rightarrow> json option" where
  "summarizeTransportReliability peerMetrics = do {
     t \<leftarrow> transport_totals peerMetrics;
     Some (jobject [(''sent_total'', JInt (int (tt_sent t))), (''received_raw_total'', JInt (int (tt_receivedRaw t))),
       (''delivered_to_instream_total'', JInt (int (tt_delivered t))), (''dropped_backpressure_total'', JInt (int (tt_dropped t))),
       (''pending_at_shutdown_total'', JInt (if tt_sent t > tt_receivedRaw t then int (tt_sent t) - int (tt_receivedRaw t) else 0)),
       (''reliable'', JBool (is_reliable t))]) }"

subsection \<open>Missing peers and totals\<close>

lemma findMissingPeers_set: "set (findMissingPeers n ds) = {0..<n} - set ds"
proof -
  have inv: "length seen' = nat n \<and> (\<forall>k < nat n. seen' ! k \<longleftrightarrow> seen ! k \<or> int k \<in> set xs)"
    if "seen' = fold (\<lambda>i seen. if 0 \<le> i \<and> i < n then seen[nat i := True] else seen) xs seen" "length seen = nat n" for xs seen seen'
    using that by (induction xs arbitrary: seen) (auto simp: nth_list_update)
  let ?seen = "fold (\<lambda>i seen. if 0 \<le> i \<and> i < n then seen[nat i := True] else seen) ds (replicate (nat n) False)"
  have "?seen ! nat i \<longleftrightarrow> i \<in> set ds" if "0 \<le> i" "i < n" for i
    using inv [of ?seen ds "replicate (nat n) False"] that by simp
  then show ?thesis by (auto simp: findMissingPeers_def Let_def)
qed

lemma findMissingPeers_Nil: "findMissingPeers n xs = [] \<longleftrightarrow> {0..<n} \<subseteq> set xs"
  using findMissingPeers_set [of n xs] by (metis Diff_eq_empty_iff set_empty)

text \<open>The counters of a peer's file, as the peer writes them.\<close>

definition metrics_file :: "transportMetrics \<Rightarrow> nat \<Rightarrow> json" where
  "metrics_file m capacity = JObj [(''transportMetrics'', makeTransportMetricsJson m capacity)]"

definition small_counters :: "transportMetrics \<Rightarrow> bool" where
  "small_counters m = (tm_sent m < 2 ^ 31 \<and> tm_receivedRaw m < 2 ^ 31 \<and> tm_deliveredToInstream m < 2 ^ 31 \<and> tm_droppedBackpressure m < 2 ^ 31)"

lemma add_counter_exact:
  assumes "value_int j key 0 = Some (int v)" "v < 2 ^ 31" "acc + v < 2 ^ 64"
  shows "add_counter j key acc = Some (acc + v)"
  using assms by (simp add: add_counter_def to_int32_id to_size_t_id nat_add_distrib)

lemma metrics_values:
  "value_int (makeTransportMetricsJson m c) ''sent'' 0 = Some (int (tm_sent m))"
  "value_int (makeTransportMetricsJson m c) ''received_raw'' 0 = Some (int (tm_receivedRaw m))"
  "value_int (makeTransportMetricsJson m c) ''delivered_to_instream'' 0 = Some (int (tm_deliveredToInstream m))"
  "value_int (makeTransportMetricsJson m c) ''dropped_backpressure'' 0 = Some (int (tm_droppedBackpressure m))"
  by (simp_all add: value_with_def makeTransportMetricsJson_def jobject_def)

lemma totals_exact:
  assumes "\<forall>(k, m) \<in> set ms. small_counters m"
    and "tt_sent t + (\<Sum>(k, m)\<leftarrow>ms. tm_sent m) < 2 ^ 64" "tt_receivedRaw t + (\<Sum>(k, m)\<leftarrow>ms. tm_receivedRaw m) < 2 ^ 64"
    and "tt_delivered t + (\<Sum>(k, m)\<leftarrow>ms. tm_deliveredToInstream m) < 2 ^ 64" "tt_dropped t + (\<Sum>(k, m)\<leftarrow>ms. tm_droppedBackpressure m) < 2 ^ 64"
  shows "foldM add_peer_totals (map (\<lambda>(k, m). (k, metrics_file m c)) ms) t = Some
    \<lparr>tt_sent = tt_sent t + (\<Sum>(k, m)\<leftarrow>ms. tm_sent m), tt_receivedRaw = tt_receivedRaw t + (\<Sum>(k, m)\<leftarrow>ms. tm_receivedRaw m),
     tt_delivered = tt_delivered t + (\<Sum>(k, m)\<leftarrow>ms. tm_deliveredToInstream m), tt_dropped = tt_dropped t + (\<Sum>(k, m)\<leftarrow>ms. tm_droppedBackpressure m)\<rparr>"
  using assms
proof (induction ms arbitrary: t)
  case (Cons p ms)
  obtain k m where p: "p = (k, m)" by fastforce
  let ?t = "\<lparr>tt_sent = tt_sent t + tm_sent m, tt_receivedRaw = tt_receivedRaw t + tm_receivedRaw m,
     tt_delivered = tt_delivered t + tm_deliveredToInstream m, tt_dropped = tt_dropped t + tm_droppedBackpressure m\<rparr>"
  have s: "small_counters m" using Cons.prems(1) by (simp add: p)
  have "add_peer_totals (k, metrics_file m c) t = Some ?t"
    using s Cons.prems(2-5)
    by (simp add: p add_peer_totals_def metrics_file_def small_counters_def add_counter_exact [OF metrics_values(1)]
        add_counter_exact [OF metrics_values(2)] add_counter_exact [OF metrics_values(3)] add_counter_exact [OF metrics_values(4)])
  then show ?case using Cons.IH [of ?t] Cons.prems by (simp add: p add.assoc)
qed simp

text \<open>
  Claim C35. The leader's transport summary is exact as long as every counter of every peer is below
  \<open>2 ^ 31\<close> and the totals fit: the four totals are the sums, the pending messages are those sent and not
  received, and the run is reliable when nothing was dropped and all that was received was delivered. A counter of \<open>2 ^ 31\<close> is read as a negative \<open>int\<close>: the totals of
  messages sent and pending are then \<open>2 ^ 64 - 2 ^ 31\<close>.
\<close>

theorem transport_summary_exact:
  assumes "\<forall>(k, m) \<in> set ms. small_counters m"
    and "(\<Sum>(k, m)\<leftarrow>ms. tm_sent m) < 2 ^ 64" "(\<Sum>(k, m)\<leftarrow>ms. tm_receivedRaw m) < 2 ^ 64"
    and "(\<Sum>(k, m)\<leftarrow>ms. tm_deliveredToInstream m) < 2 ^ 64" "(\<Sum>(k, m)\<leftarrow>ms. tm_droppedBackpressure m) < 2 ^ 64"
  shows "\<exists>j. summarizeTransportReliability (JObj (map (\<lambda>(k, m). (k, metrics_file m c)) ms)) = Some j
    \<and> jfind ''sent_total'' j = Some (JInt (int (\<Sum>(k, m)\<leftarrow>ms. tm_sent m)))
    \<and> jfind ''received_raw_total'' j = Some (JInt (int (\<Sum>(k, m)\<leftarrow>ms. tm_receivedRaw m)))
    \<and> jfind ''delivered_to_instream_total'' j = Some (JInt (int (\<Sum>(k, m)\<leftarrow>ms. tm_deliveredToInstream m)))
    \<and> jfind ''dropped_backpressure_total'' j = Some (JInt (int (\<Sum>(k, m)\<leftarrow>ms. tm_droppedBackpressure m)))
    \<and> jfind ''reliable'' j = Some (JBool ((\<Sum>(k, m)\<leftarrow>ms. tm_droppedBackpressure m) = 0
        \<and> (\<Sum>(k, m)\<leftarrow>ms. tm_receivedRaw m) = (\<Sum>(k, m)\<leftarrow>ms. tm_deliveredToInstream m)))
    \<and> jfind ''pending_at_shutdown_total'' j = Some (JInt (int ((\<Sum>(k, m)\<leftarrow>ms. tm_sent m) - (\<Sum>(k, m)\<leftarrow>ms. tm_receivedRaw m))))
    \<and> (\<exists>j. summarizeTransportReliability (JObj [(''0'', metrics_file \<lparr>tm_sent = 2 ^ 31, tm_receivedRaw = 0,
            tm_deliveredToInstream = 0, tm_droppedBackpressure = 0, tm_peakQueueUsage = 0\<rparr> c)]) = Some j
        \<and> jfind ''sent_total'' j = Some (JInt (2 ^ 64 - 2 ^ 31)) \<and> jfind ''pending_at_shutdown_total'' j = Some (JInt (2 ^ 64 - 2 ^ 31)))"
proof -
  have 1: "add_counter (makeTransportMetricsJson \<lparr>tm_sent = 2 ^ 31, tm_receivedRaw = 0, tm_deliveredToInstream = 0,
      tm_droppedBackpressure = 0, tm_peakQueueUsage = 0\<rparr> c) ''sent'' 0 = Some (2 ^ 64 - 2 ^ 31)"
    by (simp add: add_counter_def metrics_values to_int32_def to_size_t_def)
  have 0: "add_counter (makeTransportMetricsJson \<lparr>tm_sent = 2 ^ 31, tm_receivedRaw = 0, tm_deliveredToInstream = 0,
      tm_droppedBackpressure = 0, tm_peakQueueUsage = 0\<rparr> c) key 0 = Some 0"
    if "key \<in> {''received_raw'', ''delivered_to_instream'', ''dropped_backpressure''}" for key
    using that by (auto simp: add_counter_def metrics_values to_int32_def to_size_t_def)
  show ?thesis
    using totals_exact [OF assms(1), of "\<lparr>tt_sent = 0, tt_receivedRaw = 0, tt_delivered = 0, tt_dropped = 0\<rparr>" c] assms(2-5) 0 1
    by (simp add: summarizeTransportReliability_def is_reliable_def add_peer_totals_def metrics_file_def of_nat_diff split del: if_split) simp
qed

lemma transport_summary_exact_witness:
  "\<exists>j. summarizeTransportReliability (JObj [(''0'', metrics_file \<lparr>tm_sent = 7, tm_receivedRaw = 5, tm_deliveredToInstream = 5,
      tm_droppedBackpressure = 0, tm_peakQueueUsage = 2\<rparr> 1000)]) = Some j
    \<and> jfind ''reliable'' j = Some (JBool True) \<and> jfind ''pending_at_shutdown_total'' j = Some (JInt 2)
    \<and> jfind ''received_raw_total'' j = Some (JInt 5)"
  using transport_summary_exact [of "[(''0'', \<lparr>tm_sent = 7, tm_receivedRaw = 5, tm_deliveredToInstream = 5,
      tm_droppedBackpressure = 0, tm_peakQueueUsage = 2\<rparr>)]" 1000]
  by (auto simp: small_counters_def)

end
