(* ===== verification/MqLeader.thy ===== *)
theory MqLeader
  imports MqCoordinator MqReport
begin

text \<open>
  The leader process: src/quantas/Common/Concrete/Backends/BoostMq/Entrypoints/ConcreteMqLeader.cpp. What
  the process gets from outside is the record \<open>leaderEnv\<close>; the report files it writes are part of its
  result. The topology of a test is planned with the generator's next draws.
\<close>

record leaderEnv =
  le_ser :: "peerAssignment \<Rightarrow> nat list"
  le_queuesCreated :: "nat \<Rightarrow> bool"
  le_creates :: "string \<Rightarrow> bool"
  le_opens :: "string \<Rightarrow> bool"
  le_file :: "nat \<Rightarrow> string \<Rightarrow> json option"
  le_duration :: "nat \<Rightarrow> real"

subsection \<open>The command line\<close>

record leaderCliArgs =
  lc_inputPath :: string
  lc_experimentIndex :: "nat option"
  lc_preflightOnly :: bool

definition parseLeaderArgs :: "string list \<Rightarrow> leaderCliArgs option" where
  "parseLeaderArgs argv = (case argv of
       [_, a, path] \<Rightarrow> (if a = ''--preflight'' then Some \<lparr>lc_inputPath = path, lc_experimentIndex = None, lc_preflightOnly = True\<rparr> else None)
     | [_, a, index, path] \<Rightarrow> (if a \<noteq> ''--experiment'' then None else case stoll index of
           None \<Rightarrow> None
         | Some (v, parsedCharacters) \<Rightarrow> (if parsedCharacters \<noteq> length index \<or> v < 0 then None
             else Some \<lparr>lc_inputPath = path, lc_experimentIndex = Some (nat v), lc_preflightOnly = False\<rparr>))
     | _ \<Rightarrow> None)"

definition selectExperimentIndexes :: "leaderCliArgs \<Rightarrow> nat \<Rightarrow> nat list option" where
  "selectExperimentIndexes cli experimentCount = (if lc_preflightOnly cli then Some [0..<experimentCount]
     else case lc_experimentIndex cli of None \<Rightarrow> None | Some k \<Rightarrow> if k \<ge> experimentCount then None else Some [k])"

subsection \<open>One test\<close>

definition stop_and_clean :: "(coordinator, unit) io" where
  "stop_and_clean = io_seq broadcastStopBestEffort cleanUp"

definition handleReadinessTimeout :: "real \<Rightarrow> int \<Rightarrow> testReportInfo \<Rightarrow> (coordinator, testReportInfo) io" where
  "handleReadinessTimeout duration totalPeers info = io_seq stop_and_clean
     (io_return (info\<lparr>ti_duration := duration, ti_missingPeers := findMissingPeers totalPeers (ti_readyPeers info), ti_success := False\<rparr>))"

definition handleControlSendFailure :: "real \<Rightarrow> testReportInfo \<Rightarrow> (coordinator, testReportInfo) io" where
  "handleControlSendFailure duration info = io_seq stop_and_clean (io_return (info\<lparr>ti_duration := duration, ti_success := False\<rparr>))"

text \<open>What follows when all peers that will report have reported; \<open>True\<close> ends the experiment.\<close>

definition finish_test :: "leaderEnv \<Rightarrow> runtimeExperimentConfig \<Rightarrow> nat \<Rightarrow> string \<Rightarrow> nat \<Rightarrow> peerCompletionResult \<Rightarrow> testReportInfo
    \<Rightarrow> (coordinator, testReportInfo \<times> bool) io" where
  "finish_test env ex expIndex logFileBase testIndex r info = io_bind
     (io_result (makePeerOutputFiles (le_creates env) logFileBase expIndex (testIndex + 1) (rc_initialPeers ex))) (\<lambda>files.
     let missing = findMissingPeers (rc_initialPeers ex) (cr_completedPeers r);
         (allOutputsValid, metrics) = readPeerMetrics (le_file env testIndex) files (cr_completedPeers r @ cr_failedPeers r);
         success = (\<not> cr_timedOut r \<and> cr_failedPeers r = [] \<and> missing = [] \<and> allOutputsValid)
     in io_bind (io_result (of_json (summarizeTransportReliability metrics))) (\<lambda>reliability.
        let info = info\<lparr>ti_completedPeers := cr_completedPeers r, ti_completionTimedOut := cr_timedOut r, ti_duration := le_duration env testIndex,
              ti_missingPeers := missing, ti_peerOutputFiles := files, ti_peerMetrics := metrics, ti_success := success,
              ti_transportReliability := reliability\<rparr>;
            failed = (cr_timedOut r \<or> cr_failedPeers r \<noteq> [] \<or> \<not> allOutputsValid)
        in io_seq (if failed then broadcastStopBestEffort else io_return ()) (io_seq cleanUp (io_return (info, failed)))))"

definition leader_test :: "leaderEnv \<Rightarrow> runtimeExperimentConfig \<Rightarrow> nat \<Rightarrow> string \<Rightarrow> nat \<Rightarrow> rng \<Rightarrow> (coordinator, testReportInfo \<times> bool \<times> rng) io" where
  "leader_test env ex expIndex logFileBase testIndex g =
     io_seq createBarrier (io_bind waitForAllReady (\<lambda>ready.
       let info = (case ready of None \<Rightarrow> new_testReportInfo testIndex
             | Some (ids, timedOut) \<Rightarrow> (new_testReportInfo testIndex)\<lparr>ti_readyPeers := ids, ti_readyTimedOut := timedOut\<rparr>)
       in if ti_readyTimedOut info
          then io_bind (handleReadinessTimeout (le_duration env testIndex) (rc_initialPeers ex) info) (\<lambda>info. io_return (info, True, g))
          else io_bind (io_result (buildTopology (rc_topology ex) g)) (\<lambda>(assignments, g).
            io_bind (catch_exception (io_seq (sendAssignments (le_ser env) assignments) (io_seq broadcastStart (io_return True))) (io_return False)) (\<lambda>started.
            if \<not> started then io_bind (handleControlSendFailure (le_duration env testIndex) info) (\<lambda>info. io_return (info, True, g))
            else io_bind (catch_exception (io_bind (waitForAllDone (nat (rc_doneTimeoutMs ex))) (\<lambda>r. io_return (Some r))) (io_return None)) (\<lambda>completion.
              case completion of
                None \<Rightarrow> io_bind (handleControlSendFailure (le_duration env testIndex) info) (\<lambda>info. io_return (info, True, g))
              | Some r \<Rightarrow> io_bind (finish_test env ex expIndex logFileBase testIndex r info) (\<lambda>(info, failed). io_return (info, failed, g)))))))"

text \<open>
  The tests of an experiment: \<open>allTestsSucceeded\<close>, \<open>experimentTimedOut\<close> and the reports so far. \<open>k\<close> tests
  are left.
\<close>

record testsDone =
  td_allTestsSucceeded :: bool
  td_experimentTimedOut :: bool
  td_reports :: "testReportInfo list"

definition no_tests_done :: testsDone where
  "no_tests_done = \<lparr>td_allTestsSucceeded = True, td_experimentTimedOut = False, td_reports = []\<rparr>"

definition add_test :: "testReportInfo \<Rightarrow> bool \<Rightarrow> testsDone \<Rightarrow> testsDone" where
  "add_test info ends d = \<lparr>td_allTestsSucceeded = (td_allTestsSucceeded d \<and> ti_success info),
     td_experimentTimedOut = (td_experimentTimedOut d \<or> ends), td_reports = td_reports d @ [info]\<rparr>"

primrec leader_tests :: "leaderEnv \<Rightarrow> runtimeExperimentConfig \<Rightarrow> nat \<Rightarrow> string \<Rightarrow> nat \<Rightarrow> nat \<Rightarrow> testsDone \<Rightarrow> rng
    \<Rightarrow> (coordinator, testsDone \<times> rng) io" where
  "leader_tests env ex expIndex logFileBase 0 testIndex d g = io_return (d, g)"
| "leader_tests env ex expIndex logFileBase (Suc k) testIndex d g =
     io_bind (leader_test env ex expIndex logFileBase testIndex g) (\<lambda>(info, ends, g).
       let d = add_test info ends d in
       if ends then io_return (d, g) else leader_tests env ex expIndex logFileBase k (testIndex + 1) d g)"

subsection \<open>One experiment\<close>

definition put_member :: "string \<Rightarrow> json \<Rightarrow> json \<Rightarrow> json" where
  "put_member k v j = (case jset k v j of Some j \<Rightarrow> j | None \<Rightarrow> j)"

definition experiment_report :: "string \<Rightarrow> runtimeExperimentConfig \<Rightarrow> real \<Rightarrow> testsDone \<Rightarrow> json \<Rightarrow> json" where
  "experiment_report inputPath ex duration d report =
     put_member ''success'' (JBool (td_allTestsSucceeded d))
       (put_member ''durationSeconds'' (JFloat duration)
       (put_member ''tests'' (JArr (map makeTestReport (td_reports d)))
       (put_member ''expectedPeers'' (ids_json (expectedPeers (rc_initialPeers ex)))
       (put_member ''inputFile'' (JStr inputPath) report))))"

text \<open>A report written: where, and what.\<close>

type_synonym report_file = "string \<times> json"

definition writeLeaderReport :: "(string \<Rightarrow> bool) \<Rightarrow> string \<Rightarrow> json \<Rightarrow> ('s, report_file) io" where
  "writeLeaderReport opens path report = (if path = ''cout'' \<or> path = ''cerr'' \<or> opens path then io_return (path, report)
     else runtime_error (''error: cannot open leader report file: '' @ path))"

definition check_experiment :: "leaderEnv \<Rightarrow> json \<Rightarrow> nat \<Rightarrow> rng \<Rightarrow> (runtimeExperimentConfig \<times> boostMqQueueConfig \<times> rng) result" where
  "check_experiment env config expIndex g = (case jfind ''experiments'' config of
       Some (JArr xs) \<Rightarrow> (if expIndex \<ge> length xs then Inl Json_error
         else bindR (parseRuntimeExperiment config expIndex) (\<lambda>ex.
              bindR (buildTopology (rc_topology ex) g) (\<lambda>(assignments, g).
              bindR (parseBoostMqConfig (xs ! expIndex) (rc_initialPeers ex)) (\<lambda>q.
              bindR (preflightBoostMqQueues q expIndex (le_queuesCreated env expIndex)) (\<lambda>_.
              bindR (validateBoostMqAssignmentPayloads (map (\<lambda>a. length (le_ser env a)) assignments) q expIndex) (\<lambda>_.
              Inr (ex, q, g)))))))
     | _ \<Rightarrow> Inl Json_error)"

definition experiment_json :: "json \<Rightarrow> nat \<Rightarrow> json" where
  "experiment_json config expIndex = (case jfind ''experiments'' config of Some (JArr xs) \<Rightarrow> xs ! expIndex | _ \<Rightarrow> JNull)"

definition run_experiment :: "leaderEnv \<Rightarrow> json \<Rightarrow> string \<Rightarrow> nat \<Rightarrow> runtimeExperimentConfig \<Rightarrow> boostMqQueueConfig \<Rightarrow> rng
    \<Rightarrow> (coordinator, report_file \<times> bool \<times> rng) io" where
  "run_experiment env config inputPath expIndex ex q g =
     (let logFileBase = chooseLogFileBase config (experiment_json config expIndex) in
      io_bind (io_result (makeBoostMqLeaderReportPath (le_creates env) logFileBase expIndex)) (\<lambda>reportPath.
      io_seq (io_update (configureExperiment expIndex (rc_initialPeerType ex) True (nat (rc_initialPeers ex)) NO_PEER_ID logFileBase FixedRounds q))
      (io_bind (io_result (makeBaseExperimentReport expIndex ex q)) (\<lambda>report.
      io_bind (leader_tests env ex expIndex logFileBase (nat (rc_tests ex)) 0 no_tests_done g) (\<lambda>(d, g).
      io_bind (writeLeaderReport (le_opens env) reportPath (experiment_report inputPath ex (le_duration env (nat (rc_tests ex))) d report)) (\<lambda>file.
      io_return (file, td_experimentTimedOut d, g)))))))"

text \<open>
  An experiment: the reports written so far, and whether the process exits with 1. An exception ends in
  \<open>cleanUp\<close>, without a report.
\<close>

definition leader_experiment :: "leaderEnv \<Rightarrow> json \<Rightarrow> leaderCliArgs \<Rightarrow> nat \<Rightarrow> report_file list \<Rightarrow> rng
    \<Rightarrow> (coordinator, report_file list \<times> bool \<times> rng) io" where
  "leader_experiment env config cli expIndex reports g = catch_exception
     (io_bind (io_result (check_experiment env config expIndex g)) (\<lambda>(ex, q, g).
        if lc_preflightOnly cli then io_return (reports, False, g)
        else io_bind (run_experiment env config (lc_inputPath cli) expIndex ex q g) (\<lambda>(file, failed, g). io_return (reports @ [file], failed, g))))
     (io_seq cleanUp (io_return (reports, True, g)))"

primrec leader_experiments :: "leaderEnv \<Rightarrow> json \<Rightarrow> leaderCliArgs \<Rightarrow> nat list \<Rightarrow> report_file list \<Rightarrow> rng
    \<Rightarrow> (coordinator, int \<times> report_file list) io" where
  "leader_experiments env config cli [] reports g = io_return (0, reports)"
| "leader_experiments env config cli (k # ks) reports g = io_bind (leader_experiment env config cli k reports g) (\<lambda>(reports, failed, g).
     if failed then io_return (1, reports) else leader_experiments env config cli ks reports g)"

text \<open>\<open>main\<close>: \<open>input path\<close> is the JSON of the input file. The result is the exit code and the reports written.\<close>

definition leader_main :: "leaderEnv \<Rightarrow> (string \<Rightarrow> json option) \<Rightarrow> string list \<Rightarrow> rng \<Rightarrow> (coordinator, int \<times> report_file list) io" where
  "leader_main env input argv g = (case parseLeaderArgs argv of None \<Rightarrow> io_return (1, [])
     | Some cli \<Rightarrow> (case loadRuntimeConfig (input (lc_inputPath cli)) of None \<Rightarrow> io_return (1, [])
       | Some config \<Rightarrow> (case selectExperimentIndexes cli (case jfind ''experiments'' config of Some (JArr xs) \<Rightarrow> length xs | _ \<Rightarrow> 0) of
           None \<Rightarrow> io_return (1, [])
         | Some indexes \<Rightarrow> leader_experiments env config cli indexes [] g)))"

end
