(* ===== verification/MqTransport.thy ===== *)
theory MqTransport
  imports MqCoordinator
begin

text \<open>
  The network interface over message queues:
  src/quantas/Common/Concrete/Backends/BoostMq/Transport/NetworkInterfaceConcreteMQ.cpp. A packet travels
  as an archive: \<open>save\<close> and \<open>load\<close> are the Boost library's, \<open>None\<close> is an exception of it. The sends that the
  base class builds on \<open>unicastTo\<close> are run once with a \<open>unicastTo\<close> that records its calls, which are then
  made in that order.
\<close>

record 'p mqNode =
  mn_node :: "'p node"
  mn_metrics :: transportMetrics
  mn_dataSendTimeoutMs :: nat
  mn_inbox :: "string option"

definition no_metrics :: transportMetrics where
  "no_metrics = \<lparr>tm_sent = 0, tm_receivedRaw = 0, tm_deliveredToInstream = 0, tm_droppedBackpressure = 0, tm_peakQueueUsage = 0\<rparr>"

definition new_mqNode :: "'p node \<Rightarrow> 'p mqNode" where
  "new_mqNode p = \<lparr>mn_node = p, mn_metrics = no_metrics, mn_dataSendTimeoutMs = 5, mn_inbox = None\<rparr>"

definition mq_configure :: "interfaceId \<Rightarrow> idset \<Rightarrow> nat \<Rightarrow> ('p mqNode, unit) io" where
  "mq_configure pid neighbors timeoutMs = io_seq
     (io_update (\<lambda>n. n\<lparr>mn_node := (mn_node n)\<lparr>nd_iface := (nd_iface (mn_node n))\<lparr>if_publicId := pid, if_internalId := pid,
         if_neighbors := neighbors\<rparr>\<rparr>, mn_dataSendTimeoutMs := timeoutMs\<rparr>))
     (io_seq (mq_open (peerDataQueueName pid)) (io_update (\<lambda>n. n\<lparr>mn_inbox := Some (peerDataQueueName pid)\<rparr>)))"

definition count_sent :: "'p mqNode \<Rightarrow> 'p mqNode" where
  "count_sent n = n\<lparr>mn_metrics := (mn_metrics n)\<lparr>tm_sent := tm_sent (mn_metrics n) + 1\<rparr>\<rparr>"

definition count_dropped :: "'p mqNode \<Rightarrow> 'p mqNode" where
  "count_dropped n = n\<lparr>mn_metrics := (mn_metrics n)\<lparr>tm_droppedBackpressure := tm_droppedBackpressure (mn_metrics n) + 1\<rparr>\<rparr>"

definition mq_unicastTo :: "(packet \<Rightarrow> nat list) \<Rightarrow> int \<Rightarrow> json \<Rightarrow> interfaceId \<Rightarrow> ('p mqNode, unit) io" where
  "mq_unicastTo save now msg dest = io_bind io_get (\<lambda>n. if dest \<notin> nbrs (mn_node n) then io_return ()
     else io_bind mq_clock (\<lambda>t.
       let p = (new_packet now)\<lparr>pk_sourceId := publicId (mn_node n), pk_targetId := dest, pk_body := msg, pk_sendTimestamp := t\<rparr>;
           bytes = save p; q = peerDataQueueName dest
       in catch_interprocess
         (io_seq (mq_open q) (io_bind (mq_max_msg_size q) (\<lambda>maxSize.
            if length bytes > maxSize then runtime_error (''unicastTo: packet to peer_'' @ int_to_string dest @ '' is '' @ to_string (length bytes)
                @ '' bytes, exceeds queue limit of '' @ to_string maxSize)
            else io_bind (mq_timed_send q (Archive_message bytes) (mn_dataSendTimeoutMs n)) (\<lambda>sent.
              if \<not> sent then io_seq (io_update count_dropped)
                (runtime_error (''peer '' @ int_to_string (publicId (mn_node n)) @ '' timed out sending data to peer '' @ int_to_string dest
                  @ '' after '' @ to_string (mn_dataSendTimeoutMs n) @ '' ms''))
              else io_update count_sent))))
         (\<lambda>what. runtime_error (''unicastTo: failed to open peer_'' @ int_to_string dest @ '' queue: '' @ what))))"

definition deliver_packet :: "packet \<Rightarrow> 'p mqNode \<Rightarrow> 'p mqNode" where
  "deliver_packet p n = n\<lparr>mn_node := (mn_node n)\<lparr>nd_iface := (nd_iface (mn_node n))\<lparr>if_inStream := if_inStream (nd_iface (mn_node n)) @ [p]\<rparr>\<rparr>,
     mn_metrics := (mn_metrics n)\<lparr>tm_deliveredToInstream := tm_deliveredToInstream (mn_metrics n) + 1\<rparr>\<rparr>"

definition count_received :: "'p mqNode \<Rightarrow> 'p mqNode" where
  "count_received n = n\<lparr>mn_metrics := (mn_metrics n)\<lparr>tm_receivedRaw := tm_receivedRaw (mn_metrics n) + 1\<rparr>\<rparr>"

definition receive_body :: "(mq_message \<Rightarrow> packet option) \<Rightarrow> string \<Rightarrow> unit \<Rightarrow> ('p mqNode, unit + unit) io" where
  "receive_body load q = (\<lambda>_. io_bind (mq_try_receive q) (\<lambda>m. case m of
       None \<Rightarrow> io_return (Inr ())
     | Some m \<Rightarrow> io_seq (io_update count_received) (case load m of
           None \<Rightarrow> io_raise Other_exception
         | Some p \<Rightarrow> io_bind mq_clock (\<lambda>_. io_seq (io_update (deliver_packet p)) (io_return (Inl ()))))))"

definition mq_receive_packets :: "(mq_message \<Rightarrow> packet option) \<Rightarrow> ('p mqNode, unit) io" where
  "mq_receive_packets load = io_bind io_get (\<lambda>n. case mn_inbox n of
       None \<Rightarrow> io_raise Undefined_behaviour
     | Some q \<Rightarrow> catch_interprocess
         (io_bind (mq_num_msg q) (\<lambda>currentUsage. io_seq
           (io_update (\<lambda>n. n\<lparr>mn_metrics := (mn_metrics n)\<lparr>tm_peakQueueUsage := max (tm_peakQueueUsage (mn_metrics n)) currentUsage\<rparr>\<rparr>))
           (io_loop (receive_body load q) ())))
         (\<lambda>what. runtime_error (''receive: '' @ what)))"

definition mq_resetTransportMetrics :: "'p mqNode \<Rightarrow> 'p mqNode" where
  "mq_resetTransportMetrics n = n\<lparr>mn_metrics := no_metrics\<rparr>"

text \<open>The calls of \<open>unicastTo\<close> that one send makes, in order, appended to those before.\<close>

definition record_call :: "(rng \<times> (json \<times> interfaceId) list) uni" where
  "record_call msg dest = (\<lambda>(g, calls). Some (g, calls @ [(msg, dest)]))"

fun send_calls :: "iface \<Rightarrow> send \<Rightarrow> rng \<times> (json \<times> interfaceId) list \<Rightarrow> (rng \<times> (json \<times> interfaceId) list) option" where
  "send_calls i (UnicastTo msg dest) s = record_call msg dest s"
| "send_calls i (Unicast msg) s = unicast record_call (if_neighbors i) msg s"
| "send_calls i (Multicast msg targets) s = multicast record_call msg targets s"
| "send_calls i (Broadcast msg) s = broadcast record_call (if_neighbors i) msg s"
| "send_calls i (BroadcastBut msg d) s = broadcastBut record_call (if_neighbors i) msg d s"
| "send_calls i (RandomMulticast msg) s = randomMulticast record_call (if_neighbors i) msg s"

definition mq_send_all :: "(packet \<Rightarrow> nat list) \<Rightarrow> int \<Rightarrow> (json \<times> interfaceId) list \<Rightarrow> ('p mqNode, unit) io" where
  "mq_send_all save now calls = io_for (\<lambda>(msg, dest). mq_unicastTo save now msg dest) calls"

subsection \<open>The loop ends with the queue\<close>

lemma receive_body_consumes: "consumes (receive_body load q)"
  unfolding consumes_def receive_body_def mq_try_receive_def mq_clock_def io_bind_def io_seq_def io_call_def io_update_def io_return_def
    io_raise_def io_fail_def
  by (auto split: list.splits mq_answer.splits option.splits)

end
