(* ===== verification/MqPeer.thy ===== *)
theory MqPeer
  imports MqTransport MqReport
begin

text \<open>
  The peer process: src/quantas/Common/Concrete/Backends/BoostMq/Entrypoints/ConcreteMqPeer.cpp. The
  algorithm's hooks, the archives and the outside of the process are the record \<open>'p peerEnv\<close>; the metrics
  files it writes are kept in its state. A process holds the peers of its assignments, which
  \<open>waitForAssignments\<close> makes a list of one.
\<close>

record 'p peerEnv =
  pe_registry :: "'p registry"
  pe_perform :: "'p perform"
  pe_initParameters :: "json \<Rightarrow> 'p node list \<Rightarrow> rng \<Rightarrow> ('p node list \<times> rng) option"
  pe_endOfRound :: "int \<Rightarrow> 'p node list \<Rightarrow> 'p node list option"
  pe_endOfExperiment :: "'p node list \<Rightarrow> 'p node list option"
  pe_deser :: "mq_message \<Rightarrow> peerAssignment option"
  pe_save :: "packet \<Rightarrow> nat list"
  pe_load :: "mq_message \<Rightarrow> packet option"
  pe_creates :: "string \<Rightarrow> bool"

record 'p peerProcess = coordinator +
  pp_localPeers :: "'p mqNode list"
  pp_rounds :: roundManager
  pp_rng :: rng
  pp_activeTestNumber :: nat
  pp_metricsFile :: string
  pp_written :: "(string \<times> json) list"

text \<open>An operation of one local peer's interface.\<close>

definition at_local :: "nat \<Rightarrow> ('p mqNode, 'a) io \<Rightarrow> ('p peerProcess, 'a) io" where
  "at_local k p s as = (if k < length (pp_localPeers s)
     then case p (pp_localPeers s ! k) as of (r, n, as, es) \<Rightarrow> (r, s\<lparr>pp_localPeers := (pp_localPeers s)[k := n]\<rparr>, as, es)
     else (Raised Undefined_behaviour, s, as, []))"

definition io_option :: "'a option \<Rightarrow> ('s, 'a) io" where
  "io_option r = (case r of None \<Rightarrow> io_raise Other_exception | Some x \<Rightarrow> io_return x)"

subsection \<open>Command line and assignment\<close>

record peerCliArgs =
  ca_jsonPath :: string
  ca_experimentIndex :: nat
  ca_peerId :: int

text \<open>Both numbers are read as \<open>long long\<close>; the identifier is then stored in an \<open>int\<close>.\<close>

definition parse_index :: "string \<Rightarrow> int option" where
  "parse_index s = (case stoll s of None \<Rightarrow> None
     | Some (v, parsedCharacters) \<Rightarrow> if parsedCharacters \<noteq> length s \<or> v < 0 then None else Some v)"

definition parseArgs :: "string list \<Rightarrow> peerCliArgs option" where
  "parseArgs argv = (case argv of
       [_, a, index, path, peer] \<Rightarrow> (if a \<noteq> ''--experiment'' then None
         else case parse_index index of None \<Rightarrow> None | Some k \<Rightarrow>
              case parse_index peer of None \<Rightarrow> None | Some p \<Rightarrow>
              Some \<lparr>ca_jsonPath = path, ca_experimentIndex = nat k, ca_peerId = to_int32 p\<rparr>)
     | _ \<Rightarrow> None)"

definition validateAssignment :: "peerAssignment \<Rightarrow> int \<Rightarrow> unit result" where
  "validateAssignment a totalPeers =
     (if totalPeers \<le> 0 then Inl (Runtime_error ''error: totalPeers must be > 0'')
      else if pa_id a < 0 \<or> pa_id a \<ge> totalPeers then Inl (Runtime_error (''error: assigned peer id '' @ int_to_string (pa_id a)
        @ '' is outside [0, '' @ int_to_string (totalPeers - 1) @ '']''))
      else if pa_id a \<in> set (pa_neighbors a) then Inl (Runtime_error ''error: assignment neighbors include self'')
      else foldR (\<lambda>neighbor _. if neighbor < 0 \<or> neighbor \<ge> totalPeers then Inl (Runtime_error (''error: neighbor id ''
        @ int_to_string neighbor @ '' is outside [0, '' @ int_to_string (totalPeers - 1) @ '']'')) else Inr ()) (pa_neighbors a) ())"

subsection \<open>Local peers\<close>

definition initRendezvous :: "('p peerProcess, unit) io" where
  "initRendezvous = io_seq createInbox sendReady"

definition add_local :: "'p mqNode \<Rightarrow> 'p peerProcess \<Rightarrow> 'p peerProcess" where
  "add_local n s = s\<lparr>pp_localPeers := pp_localPeers s @ [n]\<rparr>"

text \<open>
  \<open>buildLocalPeers\<close> fills a local vector, assigned to the caller's at its end: an exception leaves the
  caller's as it was.
\<close>

definition build_peer :: "'p peerEnv \<Rightarrow> string \<Rightarrow> nat \<Rightarrow> peerAssignment \<Rightarrow> ('p peerProcess, unit) io" where
  "build_peer env peerType dataSendTimeoutMs a = (case makePeer (pe_registry env) peerType (pa_id a) NO_PEER_ID of
       None \<Rightarrow> runtime_error (''Unknown peer type: '' @ peerType)
     | Some (p, _) \<Rightarrow> io_seq (io_update (add_local (new_mqNode p))) (io_bind io_get (\<lambda>s.
         at_local (length (pp_localPeers s) - 1) (mq_configure (pa_id a) (pa_neighbors a) dataSendTimeoutMs))))"

definition buildLocalPeers :: "'p peerEnv \<Rightarrow> string \<Rightarrow> peerAssignment list \<Rightarrow> nat \<Rightarrow> ('p peerProcess, unit) io" where
  "buildLocalPeers env peerType assignments dataSendTimeoutMs = io_bind io_get (\<lambda>s. io_catch
     (io_seq (io_update (\<lambda>s. s\<lparr>pp_localPeers := []\<rparr>)) (io_for (build_peer env peerType dataSendTimeoutMs) assignments))
     (\<lambda>e. io_seq (io_update (\<lambda>s'. s'\<lparr>pp_localPeers := pp_localPeers s\<rparr>)) (io_raise e)))"

definition clean_local :: "'p peerProcess \<Rightarrow> 'p peerProcess" where
  "clean_local s = s\<lparr>pp_localPeers := []\<rparr>"

definition prepareLocalPeers :: "'p peerEnv \<Rightarrow> runtimeExperimentConfig \<Rightarrow> peerAssignment list \<Rightarrow> nat \<Rightarrow> ('p peerProcess, bool) io" where
  "prepareLocalPeers env ex assignments dataSendTimeoutMs = (if assignments = [] then io_return False
     else io_seq (io_for (\<lambda>a. io_result (validateAssignment a (rc_initialPeers ex))) assignments)
       (io_seq (buildLocalPeers env (rc_initialPeerType ex) assignments dataSendTimeoutMs)
       (io_bind io_get (\<lambda>s. io_return (pp_localPeers s \<noteq> [])))))"

text \<open>A hook that the first peer runs over all local peers.\<close>

definition set_nodes :: "'p node list \<Rightarrow> 'p peerProcess \<Rightarrow> 'p peerProcess" where
  "set_nodes ps s = s\<lparr>pp_localPeers := map2 (\<lambda>n p. n\<lparr>mn_node := p\<rparr>) (pp_localPeers s) ps\<rparr>"

definition run_hook :: "('p node list \<Rightarrow> 'p node list option) \<Rightarrow> ('p peerProcess, unit) io" where
  "run_hook hook = io_bind io_get (\<lambda>s. if pp_localPeers s = [] then io_raise Undefined_behaviour
     else io_bind (io_option (hook (map mn_node (pp_localPeers s)))) (\<lambda>ps. io_update (set_nodes ps)))"

definition initializeHooks :: "'p peerEnv \<Rightarrow> json \<Rightarrow> ('p peerProcess, unit) io" where
  "initializeHooks env experiment = io_bind (io_option (value_json experiment ''parameters'' (JObj []))) (\<lambda>parameters.
     io_bind io_get (\<lambda>s. if pp_localPeers s = [] then io_raise Undefined_behaviour
       else io_bind (io_option (pe_initParameters env parameters (map mn_node (pp_localPeers s)) (pp_rng s))) (\<lambda>(ps, g).
         io_update (\<lambda>s. (set_nodes ps s)\<lparr>pp_rng := g\<rparr>))))"

subsection \<open>Rounds\<close>

definition mq_now :: "'p peerProcess \<Rightarrow> int" where
  "mq_now s = int (currentRound 0 (pp_rounds s))"

definition compute_peer :: "'p peerEnv \<Rightarrow> nat \<Rightarrow> ('p peerProcess, unit) io" where
  "compute_peer env k = io_bind io_get (\<lambda>s. let n = mn_node (pp_localPeers s ! k); now = mq_now s in
     if isCrashed now n then io_return ()
     else io_bind (io_option (do { (p', sends, g) \<leftarrow> pe_perform env now n (pp_rng s);
              (g, calls) \<leftarrow> foldM (send_calls (nd_iface n)) sends (g, []);
              Some (p', calls, g) })) (\<lambda>(p', calls, g).
        io_seq (io_update (\<lambda>s. s\<lparr>pp_localPeers := (pp_localPeers s)[k := (pp_localPeers s ! k)\<lparr>mn_node := p'\<rparr>], pp_rng := g\<rparr>))
          (at_local k (mq_send_all (pe_save env) now calls))))"

definition round_of_peer :: "'p peerEnv \<Rightarrow> nat \<Rightarrow> ('p peerProcess, unit) io" where
  "round_of_peer env k = io_seq (at_local k (mq_receive_packets (pe_load env))) (compute_peer env k)"

definition round_body :: "'p peerEnv \<Rightarrow> int \<Rightarrow> stopMode \<Rightarrow> nat \<Rightarrow> ('p peerProcess, nat + nat) io" where
  "round_body env rounds mode loopCount = io_bind io_get (\<lambda>s.
     if shouldStop s then io_return (Inr loopCount)
     else if mode = FixedRounds \<and> loopCount \<ge> nat (to_size_t rounds) then io_return (Inr loopCount)
     else io_seq (io_update (\<lambda>s. s\<lparr>pp_rounds := incrementRound (pp_rounds s)\<rparr>))
       (io_seq (io_for (round_of_peer env) [0..<length (pp_localPeers s)])
       (io_bind io_get (\<lambda>s. io_seq (run_hook (pe_endOfRound env (mq_now s)))
       (io_seq (if mode = DoneSignals \<and> loopCount + 1 \<ge> nat (to_size_t rounds) then requestStop else io_return ())
         (io_return (Inl (loopCount + 1))))))))"

definition runRounds :: "'p peerEnv \<Rightarrow> int \<Rightarrow> ('p peerProcess, unit) io" where
  "runRounds env rounds = io_bind io_get (\<lambda>s. let mode = pc_stopMode s in io_seq
     (io_update (\<lambda>s. s\<lparr>pp_rounds := setLastRound (nat (to_size_t rounds)) (setCurrentRound 0
         ((if mode = FixedRounds then synchronous else asynchronous) (pp_rounds s)))\<rparr>))
     (io_bind (io_loop (round_body env rounds mode) 0) (\<lambda>_. run_hook (pe_endOfExperiment env))))"

subsection \<open>Metrics\<close>

definition collectTransportMetrics :: "'p mqNode list \<Rightarrow> transportMetrics" where
  "collectTransportMetrics ns = fold (\<lambda>n t. let m = mn_metrics n in
     \<lparr>tm_sent = tm_sent t + tm_sent m, tm_receivedRaw = tm_receivedRaw t + tm_receivedRaw m,
      tm_deliveredToInstream = tm_deliveredToInstream t + tm_deliveredToInstream m,
      tm_droppedBackpressure = tm_droppedBackpressure t + tm_droppedBackpressure m,
      tm_peakQueueUsage = max (tm_peakQueueUsage t) (tm_peakQueueUsage m)\<rparr>) ns no_metrics"

definition reset_metrics :: "'p peerProcess \<Rightarrow> 'p peerProcess" where
  "reset_metrics s = s\<lparr>pp_localPeers := map mq_resetTransportMetrics (pp_localPeers s)\<rparr>"

text \<open>Of what is written the transport metrics; run time and memory depend on the machine.\<close>

definition emitFinalExperimentMetrics :: "nat \<Rightarrow> 'p peerProcess \<Rightarrow> 'p peerProcess" where
  "emitFinalExperimentMetrics dataQueueCapacity s = s\<lparr>pp_written := pp_written s @
     [(pp_metricsFile s, metrics_file (collectTransportMetrics (pp_localPeers s)) dataQueueCapacity)]\<rparr>"

subsection \<open>The process\<close>

definition peer_execute :: "'p peerEnv \<Rightarrow> json \<Rightarrow> runtimeExperimentConfig \<Rightarrow> boostMqQueueConfig \<Rightarrow> ('p peerProcess, unit) io" where
  "peer_execute env experiment ex q = io_seq (initializeHooks env experiment)
     (io_seq (io_catch (runRounds env (rc_rounds ex))
        (\<lambda>e. if e = Undefined_behaviour then io_raise e
          else io_seq (io_update (emitFinalExperimentMetrics (qc_dataQueueCapacity q))) (io_raise e)))
     (io_seq (io_update (emitFinalExperimentMetrics (qc_dataQueueCapacity q)))
     (io_bind io_get (\<lambda>s. case pp_localPeers s of [] \<Rightarrow> io_raise Undefined_behaviour
        | n # _ \<Rightarrow> io_seq (notifyPeerStopped (publicId (mn_node n))) (io_seq waitForStop (io_update clean_local))))))"

definition peer_test :: "'p peerEnv \<Rightarrow> json \<Rightarrow> json \<Rightarrow> nat \<Rightarrow> int \<Rightarrow> runtimeExperimentConfig \<Rightarrow> boostMqQueueConfig \<Rightarrow> nat
    \<Rightarrow> ('p peerProcess, unit) io" where
  "peer_test env config experiment expIndex peerId ex q testIndex =
     (let logFileBase = chooseLogFileBase config experiment in
      io_seq (io_update (\<lambda>s. s\<lparr>pp_activeTestNumber := testIndex + 1\<rparr>))
      (io_bind (io_result (makeBoostMqPeerOutputPath (pe_creates env) logFileBase expIndex peerId (testIndex + 1))) (\<lambda>metricsFile.
      io_seq (io_update (\<lambda>s. (configureExperiment expIndex (rc_initialPeerType ex) False (nat (rc_initialPeers ex)) peerId logFileBase FixedRounds q s)
          \<lparr>pp_metricsFile := metricsFile\<rparr>))
      (io_seq initRendezvous
      (io_bind (waitForAssignments (pe_deser env)) (\<lambda>assignments.
      io_bind (prepareLocalPeers env ex assignments (qc_dataSendTimeoutMs q)) (\<lambda>ready.
      if \<not> ready then io_seq (io_update clean_local) cleanUp
      else io_seq (io_update reset_metrics) (io_seq waitForStart (peer_execute env experiment ex q)))))))))"

definition peer_setup :: "json \<Rightarrow> nat \<Rightarrow> (json \<times> runtimeExperimentConfig \<times> boostMqQueueConfig) result" where
  "peer_setup config expIndex = (case jfind ''experiments'' config of
       Some (JArr xs) \<Rightarrow> (if expIndex \<ge> length xs then Inl Json_error
         else bindR (parseRuntimeExperiment config expIndex) (\<lambda>ex.
              bindR (parseBoostMqConfig (xs ! expIndex) (rc_initialPeers ex)) (\<lambda>q. Inr (xs ! expIndex, ex, q))))
     | _ \<Rightarrow> Inl Json_error)"

definition peer_experiment :: "'p peerEnv \<Rightarrow> json \<Rightarrow> nat \<Rightarrow> int \<Rightarrow> ('p peerProcess, int) io" where
  "peer_experiment env config expIndex peerId = catch_exception
     (io_bind (io_result (peer_setup config expIndex)) (\<lambda>(experiment, ex, q).
        io_seq (io_for (peer_test env config experiment expIndex peerId ex q) [0..<nat (rc_tests ex)])
          (io_seq cleanUp (io_return 0))))
     (io_bind io_get (\<lambda>s. io_seq (if pp_activeTestNumber s > 0 then catch_exception (notifyPeerFailed peerId) (io_return ()) else io_return ())
        (io_seq (io_update clean_local) (io_seq cleanUp (io_return 1)))))"

definition peer_main :: "'p peerEnv \<Rightarrow> (string \<Rightarrow> json option) \<Rightarrow> string list \<Rightarrow> ('p peerProcess, int) io" where
  "peer_main env input argv = (case parseArgs argv of None \<Rightarrow> io_return 1
     | Some cli \<Rightarrow> (case loadRuntimeConfig (input (ca_jsonPath cli)) of None \<Rightarrow> io_return 1
       | Some config \<Rightarrow> (if ca_experimentIndex cli \<ge> (case jfind ''experiments'' config of Some (JArr xs) \<Rightarrow> length xs | _ \<Rightarrow> 0)
           then io_return 1 else peer_experiment env config (ca_experimentIndex cli) (ca_peerId cli))))"

end
