(* ===== verification/MqProtocol.thy ===== *)
theory MqProtocol
  imports MqLeader MqPeer
begin

text \<open>
  The leader and the peers together. The processes are the programs of \<open>MqLeader\<close> and \<open>MqPeer\<close>, the queues
  whatever delivers no message twice and none that was not sent: every schedule of the processes and
  every loss, delay and failure of the calls is covered.
\<close>

subsection \<open>Counting events\<close>

abbreviation number :: "(mq_event \<Rightarrow> bool) \<Rightarrow> mq_event list \<Rightarrow> nat" where
  "number P es \<equiv> length (filter P es)"

definition accepted :: "string \<Rightarrow> (mq_message \<Rightarrow> bool) \<Rightarrow> mq_event \<Rightarrow> bool" where
  "accepted q P e = (case e of (Timed_send q' m _, Accepted) \<Rightarrow> q' = q \<and> P m | _ \<Rightarrow> False)"

definition taken :: "string \<Rightarrow> (mq_message \<Rightarrow> bool) \<Rightarrow> mq_event \<Rightarrow> bool" where
  "taken q P e = (case e of (Timed_receive q' _, Got m) \<Rightarrow> q' = q \<and> P m | (Receive q', Got m) \<Rightarrow> q' = q \<and> P m
     | (Try_receive q', Got m) \<Rightarrow> q' = q \<and> P m | _ \<Rightarrow> False)"

definition created :: "string \<Rightarrow> mq_event \<Rightarrow> bool" where
  "created q e = (case e of (Create_queue q' _ _, Done) \<Rightarrow> q' = q | _ \<Rightarrow> False)"

text \<open>A message that \<open>waitForStart\<close> reads as the start, and one that \<open>waitForAllReady\<close> reads as peer \<open>i\<close>.\<close>

definition start_message :: "mq_message \<Rightarrow> bool" where
  "start_message m = (message_size m = 4 \<and> read_trigger m = kStartTrigger)"

definition ready_message :: "nat \<Rightarrow> mq_message \<Rightarrow> bool" where
  "ready_message i m = (message_size m = 8 \<and> read_id m = int i)"

definition starts_sent :: "mq_event list \<Rightarrow> nat \<Rightarrow> nat" where
  "starts_sent h p = number (accepted (peerControlQueueName (int p)) start_message) h"

definition readies_taken :: "mq_event list \<Rightarrow> nat \<Rightarrow> nat" where
  "readies_taken h q = number (taken mq_barrier (ready_message q)) h"

lemma accepted_simps:
  "accepted q P (Timed_send q' m ms, a) \<longleftrightarrow> a = Accepted \<and> q' = q \<and> P m"
  "\<not> accepted q P (Remove_queue q', a)" "\<not> accepted q P (Create_queue q' c k, a)" "\<not> accepted q P (Open_queue q', a)"
  "\<not> accepted q P (Max_msg_size q', a)" "\<not> accepted q P (Num_msg q', a)" "\<not> accepted q P (Timed_receive q' ms, a)"
  "\<not> accepted q P (Receive q', a)" "\<not> accepted q P (Try_receive q', a)" "\<not> accepted q P (Sleep ms, a)" "\<not> accepted q P (Clock, a)"
  by (auto simp: accepted_def split: mq_answer.splits)

lemma taken_simps:
  "taken q P (Timed_receive q' ms, a) \<longleftrightarrow> (\<exists>m. a = Got m \<and> q' = q \<and> P m)"
  "taken q P (Receive q', a) \<longleftrightarrow> (\<exists>m. a = Got m \<and> q' = q \<and> P m)"
  "taken q P (Try_receive q', a) \<longleftrightarrow> (\<exists>m. a = Got m \<and> q' = q \<and> P m)"
  "\<not> taken q P (Timed_send q' m ms, a)"
  by (auto simp: taken_def split: mq_answer.splits)

lemma number_snoc: "number P (h @ [e]) = number P h + (if P e then 1 else 0)"
  by simp

text \<open>The names are distinct.\<close>

lemma int_to_string_inj: "0 \<le> i \<Longrightarrow> 0 \<le> j \<Longrightarrow> int_to_string i = int_to_string j \<longleftrightarrow> i = j"
  by (auto simp: int_to_string_def) (metis digits_value_to_string int_nat_eq)

lemma control_name_inj: "peerControlQueueName (int p) = peerControlQueueName (int q) \<longleftrightarrow> p = q"
  by (simp add: peerControlQueueName_def int_to_string_inj)

lemma queue_names [simp]:
  "peerControlQueueName i \<noteq> mq_barrier" "peerDataQueueName i \<noteq> mq_barrier" "mq_barrier \<noteq> peerControlQueueName i"
  "mq_done \<noteq> mq_barrier" "mq_barrier \<noteq> mq_done" "peerControlQueueName i \<noteq> mq_done" "mq_done \<noteq> peerControlQueueName i"
  by (auto simp: peerControlQueueName_def peerDataQueueName_def mq_barrier_def mq_done_def)

lemma data_not_control [simp]: "peerDataQueueName i \<noteq> peerControlQueueName j"
proof
  assume "peerDataQueueName i = peerControlQueueName j"
  then have "last (peerDataQueueName i) = last (peerControlQueueName j)" by simp
  then show False by (simp add: peerDataQueueName_def peerControlQueueName_def)
qed

subsection \<open>The leader's side of the start\<close>

text \<open>What no step but \<open>broadcastStart\<close> does: send a start, or send to the barrier.\<close>

definition no_start :: "mq_event \<Rightarrow> bool" where
  "no_start e = (case e of (Timed_send q m ms, _) \<Rightarrow> q \<noteq> mq_barrier \<and> \<not> start_message m | _ \<Rightarrow> True)"

lemma no_start_simps [simp]:
  "no_start (Timed_send q m ms, a) \<longleftrightarrow> q \<noteq> mq_barrier \<and> \<not> start_message m"
  "no_start (Remove_queue q', a)" "no_start (Create_queue q' c k, a)" "no_start (Open_queue q', a)"
  "no_start (Max_msg_size q', a)" "no_start (Num_msg q', a)" "no_start (Timed_receive q' ms, a)"
  "no_start (Receive q', a)" "no_start (Try_receive q', a)" "no_start (Sleep ms', a)" "no_start (Clock, a)"
  by (auto simp: no_start_def)

lemma stop_no_start [simp]: "\<not> start_message (Trigger_message kStopTrigger)" "\<not> start_message (Completion_message i b)" "\<not> start_message (Id_message i)"
  by (auto simp: start_message_def kStartTrigger_def kStopTrigger_def)

definition start_after_ready :: "nat \<Rightarrow> history \<Rightarrow> bool" where
  "start_after_ready n h = ((\<forall>e\<in>set h. \<not> accepted mq_barrier (\<lambda>_. True) e) \<and> (\<forall>p<n. \<forall>q<n. starts_sent h p \<le> readies_taken h q))"

text \<open>One more ready message has been taken from the peers of \<open>U\<close> than starts were sent.\<close>

definition ready_ahead :: "nat \<Rightarrow> nat set \<Rightarrow> nat set \<Rightarrow> history \<Rightarrow> bool" where
  "ready_ahead n P U h = (\<forall>p<n. \<forall>q<n. starts_sent h p + (if p \<in> P \<and> q \<in> U then 1 else 0) \<le> readies_taken h q)"

definition leads :: "nat \<Rightarrow> coordinator \<Rightarrow> bool" where
  "leads n c = (pc_isLeader c \<and> pc_totalPeers c = n)"

lemma no_start_keeps:
  assumes "no_start e"
  shows "start_after_ready n h \<Longrightarrow> start_after_ready n (h @ [e])" "ready_ahead n P U h \<Longrightarrow> ready_ahead n P U (h @ [e])"
proof -
  have a: "\<not> accepted (peerControlQueueName (int p)) start_message e" "\<not> accepted mq_barrier (\<lambda>_. True) e" for p
    using assms by (auto simp: accepted_def no_start_def split: prod.splits mq_call.splits mq_answer.splits)
  have s: "starts_sent (h @ [e]) p = starts_sent h p" for p by (simp add: starts_sent_def a)
  have r: "readies_taken h q \<le> readies_taken (h @ [e]) q" for q by (simp add: readies_taken_def)
  show "start_after_ready n h \<Longrightarrow> start_after_ready n (h @ [e])"
    by (auto simp: start_after_ready_def s a(2)) (meson r le_trans)
  show "ready_ahead n P U h \<Longrightarrow> ready_ahead n P U (h @ [e])"
    unfolding ready_ahead_def s by (meson r le_trans)
qed

lemma no_start_ok:
  assumes "io_frame no_start (leads n) p"
  shows "io_ok (start_after_ready n) (\<lambda>s h. leads n s \<and> ready_ahead n P U h) p
    (\<lambda>_ s h. leads n s \<and> ready_ahead n P U h) (\<lambda>s h. leads n s \<and> ready_ahead n P U h)"
  by (rule frame_ok [OF assms]) (blast intro: no_start_keeps)

lemma frame_io_result [io_frames]: "io_frame A S (io_result r)"
  by (auto simp: io_result_def runtime_error_def split: sum.splits config_error.splits intro: io_frames)

text \<open>The leader's other operations.\<close>

lemma frame_send_trigger:
  assumes "\<And>a. A (Open_queue (peerControlQueueName (int i)), a)"
    "\<And>a. A (Timed_send (peerControlQueueName (int i)) (Trigger_message t) ms, a)"
  shows "io_frame A S (send_trigger t word ms i)"
  unfolding send_trigger_def Let_def runtime_error_def by (intro frame_rules assms)

lemma frame_broadcastStop: "io_frame no_start S broadcastStop"
  unfolding broadcastStop_def by (intro frame_rules frame_send_trigger) auto

lemma frame_broadcastStopBestEffort: "io_frame no_start S broadcastStopBestEffort"
  unfolding broadcastStopBestEffort_def Let_def by (intro frame_rules) auto

lemma frame_createBarrier: "io_frame no_start (leads n) createBarrier"
  unfolding createBarrier_def runtime_error_def by (intro frame_rules) (auto simp: leads_def)

lemma frame_cleanUp: "io_frame no_start (leads n) cleanUp"
  unfolding cleanUp_def by (intro frame_rules) (auto simp: leads_def)

lemma frame_cleanUp': "io_frame no_start (\<lambda>_. True) cleanUp"
  unfolding cleanUp_def by (intro frame_rules) auto

lemma frame_sendAssignments:
  assumes "\<And>a. length (ser a) \<noteq> 4"
  shows "io_frame no_start (leads n) (sendAssignments ser as)"
proof -
  have "\<not> start_message (Archive_message (ser a))" for a using assms by (simp add: start_message_def)
  then show ?thesis
    unfolding sendAssignments_def send_assignment_def Let_def runtime_error_def by (intro frame_rules) auto
qed

lemma frame_notify: "io_frame no_start (leads n) (notifyPeerStopped pid)"
proof -
  have u: "io_frame no_start (leads n) (io_update (\<lambda>c. c\<lparr>pc_completedPeers := D\<rparr>))" for D
    by (intro frame_rules) (auto simp: leads_def)
  have a: "io_frame no_start (leads n) (control_attempts j mq_done m f e)" if "\<not> start_message m" for j m f e
    using that by (induction j) (auto simp: runtime_error_def timedSendControlMessage_def intro!: frame_rules)
  show ?thesis
    unfolding notifyPeerStopped_def notifyPeerFinished_def Let_def
    by (intro frame_rules frame_broadcastStop u a) auto
qed

lemma frame_done_body: "io_frame no_start (leads n) (done_body k t i x)"
  unfolding done_body_def Let_def runtime_error_def by (intro frame_rules frame_notify) auto

lemma frame_waitForAllDone: "io_frame no_start (leads n) (waitForAllDone t)"
  unfolding waitForAllDone_def runtime_error_def by (intro frame_rules frame_done_body) auto

lemma frame_finish_test: "io_frame no_start (leads n) (finish_test env ex k base t r info)"
  unfolding finish_test_def Let_def
  by (intro frame_rules frame_io_result frame_broadcastStopBestEffort frame_cleanUp)

lemma frame_stop_and_clean: "io_frame no_start (leads n) stop_and_clean"
  unfolding stop_and_clean_def by (intro frame_rules frame_broadcastStopBestEffort frame_cleanUp)

lemma frame_handlers:
  "io_frame no_start (leads n) (handleReadinessTimeout d k info)" "io_frame no_start (leads n) (handleControlSendFailure d info)"
  unfolding handleReadinessTimeout_def handleControlSendFailure_def by (intro frame_rules frame_stop_and_clean)+

lemmas leader_frames = frame_createBarrier frame_cleanUp frame_sendAssignments frame_waitForAllDone frame_finish_test frame_handlers frame_io_result

text \<open>Rules for the calls that matter, and for reading the state.\<close>

lemma ok_get_bind:
  assumes "\<And>x. io_ok I (\<lambda>s h. s = x \<and> P s h) (f x) Q E"
  shows "io_ok I P (io_bind io_get f) Q E"
  by (rule ok_bind [OF ok_get]) (rule ok_weaken [OF assms], auto)

lemma ok_conj: "(\<And>s h. P s h \<Longrightarrow> b) \<Longrightarrow> (b \<Longrightarrow> io_ok I P p Q E) \<Longrightarrow> io_ok I P p Q E"
  unfolding io_ok_def by blast

lemma ok_timed_receive:
  assumes "\<And>s h a. I h \<Longrightarrow> P s h \<Longrightarrow> I (h @ [(Timed_receive q ms, a)])"
    "\<And>s h m. I h \<Longrightarrow> P s h \<Longrightarrow> Q (Some m) s (h @ [(Timed_receive q ms, Got m)])"
    "\<And>s h a. I h \<Longrightarrow> P s h \<Longrightarrow> Q None s (h @ [(Timed_receive q ms, Expired)])"
    "\<And>s h a. I h \<Longrightarrow> P s h \<Longrightarrow> E s (h @ [(Timed_receive q ms, a)])"
  shows "io_ok I P (mq_timed_receive q ms) Q E"
  unfolding mq_timed_receive_def
proof (rule ok_bind)
  show "io_ok I P (io_call (Timed_receive q ms)) (\<lambda>a s h. \<exists>g. h = g @ [(Timed_receive q ms, a)] \<and> I g \<and> P s g) E"
    by (rule ok_call) (use assms(1) in blast)
  show "io_ok I (\<lambda>s h. \<exists>g. h = g @ [(Timed_receive q ms, a)] \<and> I g \<and> P s g)
    (case a of Got m \<Rightarrow> io_return (Some m) | Expired \<Rightarrow> io_return None | _ \<Rightarrow> io_fail a) Q E" for a
    by (cases a) (auto simp: io_fail_def intro!: ok_return ok_raise assms)
qed

lemma ok_timed_send:
  assumes "\<And>s h a. I h \<Longrightarrow> P s h \<Longrightarrow> I (h @ [(Timed_send q m ms, a)])"
    "\<And>s h. I h \<Longrightarrow> P s h \<Longrightarrow> Q True s (h @ [(Timed_send q m ms, Accepted)])"
    "\<And>s h. I h \<Longrightarrow> P s h \<Longrightarrow> Q False s (h @ [(Timed_send q m ms, Expired)])"
    "\<And>s h a. I h \<Longrightarrow> P s h \<Longrightarrow> a \<noteq> Accepted \<Longrightarrow> E s (h @ [(Timed_send q m ms, a)])"
  shows "io_ok I P (mq_timed_send q m ms) Q E"
  unfolding mq_timed_send_def
proof (rule ok_bind)
  show "io_ok I P (io_call (Timed_send q m ms)) (\<lambda>a s h. \<exists>g. h = g @ [(Timed_send q m ms, a)] \<and> I g \<and> P s g) E"
    by (rule ok_call) (use assms(1) in blast)
  show "io_ok I (\<lambda>s h. \<exists>g. h = g @ [(Timed_send q m ms, a)] \<and> I g \<and> P s g)
    (if a = Accepted then io_return True else if a = Expired then io_return False else io_fail a) Q E" for a
    by (auto simp: io_fail_def intro!: ok_return ok_raise assms)
qed

lemma ok_if: "(b \<Longrightarrow> io_ok I P p Q E) \<Longrightarrow> (\<not> b \<Longrightarrow> io_ok I P q Q E) \<Longrightarrow> io_ok I P (if b then p else q) Q E"
  by simp

lemma ok_catch_interprocess:
  assumes "io_ok I P p Q E" "\<And>msg. io_ok I E (f msg) Q E"
  shows "io_ok I P (catch_interprocess p f) Q E"
  unfolding catch_interprocess_def
  by (rule ok_catch [OF assms(1)]) (auto split: mq_exception.splits intro: assms(2) ok_raise)

lemma ok_catch_exception:
  assumes "io_ok I P p Q E'" "io_ok I E' q Q E" "\<And>s h. I h \<Longrightarrow> E' s h \<Longrightarrow> E s h"
  shows "io_ok I P (catch_exception p q) Q E"
  unfolding catch_exception_def
  by (rule ok_catch [OF assms(1)]) (auto intro: assms(2,3) ok_raise)

text \<open>Waiting for the ready messages: whoever is in the set was heard since the wait began.\<close>

definition heard :: "nat \<Rightarrow> idset \<Rightarrow> coordinator \<Rightarrow> history \<Rightarrow> bool" where
  "heard n U s h = (leads n s \<and> distinct U \<and> set U \<subseteq> {0..<int n} \<and> ready_ahead n UNIV {q. int q \<in> set U} h)"

lemma all_heard:
  assumes "heard n U s h" "\<not> length U < n"
  shows "ready_ahead n UNIV UNIV h"
proof -
  have "card (set U) = card {0..<int n}"
    using assms card_mono [of "{0..<int n}" "set U"] by (auto simp: heard_def distinct_card)
  then have "set U = {0..<int n}" using assms card_subset_eq [of "{0..<int n}" "set U"] by (auto simp: heard_def)
  then show ?thesis using assms(1) by (auto simp: heard_def ready_ahead_def)
qed

lemma heard_snoc:
  assumes "heard n U s h" "message_size m = 8" "\<not> (read_id m < 0 \<or> nat (read_id m) \<ge> n)"
  shows "heard n (idset_insert (read_id m) U) s (h @ [(Timed_receive mq_barrier ms, Got m)])"
proof -
  let ?e = "(Timed_receive mq_barrier ms, Got m)"
  have s: "starts_sent (h @ [?e]) p = starts_sent h p" for p by (simp add: starts_sent_def accepted_simps)
  have r: "readies_taken (h @ [?e]) q = readies_taken h q + (if int q = read_id m then 1 else 0)" for q
    using assms(2) by (auto simp: readies_taken_def taken_simps ready_message_def)
  show ?thesis
    using assms(1,3) unfolding heard_def ready_ahead_def s r by (fastforce simp: set_insort_insert distinct_insort_insert)
qed

lemma ready_body_ok:
  "io_ok (start_after_ready n) (heard n U) (ready_body n t U)
     (\<lambda>r s h. case r of Inl U' \<Rightarrow> heard n U' s h | Inr (ids, late) \<Rightarrow> leads n s \<and> (\<not> late \<longrightarrow> ready_ahead n UNIV UNIV h)) (\<lambda>s h. leads n s)"
  unfolding ready_body_def
proof (rule ok_if)
  show "io_ok (start_after_ready n) (heard n U) (io_return (Inr (U, False)))
     (\<lambda>r s h. case r of Inl U' \<Rightarrow> heard n U' s h | Inr (ids, late) \<Rightarrow> leads n s \<and> (\<not> late \<longrightarrow> ready_ahead n UNIV UNIV h)) (\<lambda>s h. leads n s)"
    if "\<not> length U < n"
    by (rule ok_return) (use that all_heard in \<open>auto simp: heard_def\<close>)
  show "io_ok (start_after_ready n) (heard n U) (io_bind (mq_timed_receive mq_barrier t) (\<lambda>m. case m of
          None \<Rightarrow> io_return (Inr (U, True))
        | Some m \<Rightarrow>
            (if message_size m \<noteq> 8 then runtime_error (''Invalid ready message size: expected 8 bytes, received '' @ to_string (message_size m))
             else let readyPeerId = read_id m in
               if readyPeerId < 0 \<or> nat readyPeerId \<ge> n
               then runtime_error (''Invalid ready peer ID '' @ int_to_string readyPeerId @ ''; expected 0 to '' @ int_to_string (int n - 1))
               else io_return (Inl (idset_insert readyPeerId U)))))
     (\<lambda>r s h. case r of Inl U' \<Rightarrow> heard n U' s h | Inr (ids, late) \<Rightarrow> leads n s \<and> (\<not> late \<longrightarrow> ready_ahead n UNIV UNIV h)) (\<lambda>s h. leads n s)"
  proof (rule ok_bind)
    show "io_ok (start_after_ready n) (heard n U) (mq_timed_receive mq_barrier t) (\<lambda>r s h. leads n s \<and>
        (\<forall>m. r = Some m \<longrightarrow> message_size m = 8 \<longrightarrow> \<not> (read_id m < 0 \<or> nat (read_id m) \<ge> n) \<longrightarrow> heard n (idset_insert (read_id m) U) s h)) (\<lambda>s h. leads n s)"
      by (rule ok_timed_receive) (auto simp: no_start_keeps heard_snoc, auto simp: heard_def)
  qed (auto simp: Let_def runtime_error_def split: option.splits intro!: ok_return ok_raise)
qed

lemma waitForAllReady_ok:
  "io_ok (start_after_ready n) (\<lambda>s h. leads n s) waitForAllReady
     (\<lambda>r s h. leads n s \<and> (\<exists>ids late. r = Some (ids, late) \<and> (\<not> late \<longrightarrow> ready_ahead n UNIV UNIV h))) (\<lambda>s h. leads n s)"
  unfolding waitForAllReady_def
proof (rule ok_get_bind)
  fix c :: coordinator
  let ?ready = "io_loop (ready_body (pc_totalPeers c) (qc_readyTimeoutMs (pc_queueConfig c))) []"
  let ?Q = "\<lambda>r s h. leads n s \<and> (\<exists>ids late. r = Some (ids, late) \<and> (\<not> late \<longrightarrow> ready_ahead n UNIV UNIV h))"
  show "io_ok (start_after_ready n) (\<lambda>s h. s = c \<and> leads n s) (if \<not> pc_isLeader c then io_return None
     else if pc_totalPeers c > 0 \<and> \<not> pc_myBarrier c then io_raise Undefined_behaviour
     else catch_interprocess (io_bind ?ready (\<lambda>r. io_return (Some r)))
       (\<lambda>what. runtime_error (''Failed to ::waitForAllReady for peer '' @ int_to_string (pc_myId c) @ '': '' @ what))) ?Q (\<lambda>s h. leads n s)"
  proof (rule ok_conj [where b = "leads n c"])
    assume l: "leads n c"
    then have n: "pc_totalPeers c = n" "pc_isLeader c" by (simp_all add: leads_def)
    have "io_ok (start_after_ready n) (\<lambda>s h. leads n s) ?ready
        (\<lambda>r s h. leads n s \<and> (case r of (ids, late) \<Rightarrow> \<not> late \<longrightarrow> ready_ahead n UNIV UNIV h)) (\<lambda>s h. leads n s)"
      unfolding n by (rule ok_weaken [OF ok_loop [OF ready_body_ok]])
        (auto simp: heard_def ready_ahead_def start_after_ready_def)
    then have loop: "io_ok (start_after_ready n) (\<lambda>s h. leads n s) (io_bind ?ready (\<lambda>r. io_return (Some r))) ?Q (\<lambda>s h. leads n s)"
      by (rule ok_bind) (auto intro!: ok_return)
    show ?thesis
      by (intro ok_if ok_raise ok_weaken [OF ok_catch_interprocess [OF loop]]) (auto simp: n runtime_error_def intro!: ok_raise)
  qed blast
qed

lemma ready_ahead_all: "start_after_ready n h \<Longrightarrow> P = {} \<or> U = {} \<Longrightarrow> ready_ahead n P U h"
  by (auto simp: start_after_ready_def ready_ahead_def)

lemma start_sent:
  defines "e \<equiv> \<lambda>i ms a. (Timed_send (peerControlQueueName (int i)) (Trigger_message kStartTrigger) ms, a)"
  assumes "start_after_ready n h" "ready_ahead n {i..} UNIV h" "i < n"
  shows "start_after_ready n (h @ [e i ms a])" "ready_ahead n {Suc i..} UNIV (h @ [e i ms a])"
proof -
  have s: "starts_sent (h @ [e i ms a]) p = starts_sent h p + (if p = i \<and> a = Accepted then 1 else 0)" for p
    by (auto simp: starts_sent_def e_def accepted_simps control_name_inj start_message_def)
  have r: "readies_taken (h @ [e i ms a]) q = readies_taken h q" for q by (simp add: readies_taken_def e_def taken_simps)
  have le: "starts_sent (h @ [e i ms a]) p + (if Suc i \<le> p then 1 else 0) \<le> readies_taken h q" if "p < n" "q < n" for p q
    using assms(2-4) that by (fastforce simp: s ready_ahead_def start_after_ready_def)
  show "ready_ahead n {Suc i..} UNIV (h @ [e i ms a])" using le by (simp add: ready_ahead_def r)
  show "start_after_ready n (h @ [e i ms a])"
    unfolding start_after_ready_def r
  proof (intro conjI allI impI)
    show "\<forall>x\<in>set (h @ [e i ms a]). \<not> accepted mq_barrier (\<lambda>_. True) x"
      using assms(2) by (auto simp: start_after_ready_def e_def accepted_simps)
    show "starts_sent (h @ [e i ms a]) p \<le> readies_taken h q" if "p < n" "q < n" for p q
      using le [OF that] by linarith
  qed
qed

lemma send_start_ok:
  assumes "i < n"
  shows "io_ok (start_after_ready n) (\<lambda>s h. leads n s \<and> ready_ahead n {i..} UNIV h) (send_trigger kStartTrigger word ms i)
     (\<lambda>_ s h. leads n s \<and> ready_ahead n {Suc i..} UNIV h) (\<lambda>s h. leads n s)"
  unfolding send_trigger_def Let_def
proof (rule ok_catch_interprocess [OF ok_seq [OF _ ok_bind]])
  let ?q = "peerControlQueueName (int i)"
  show "io_ok (start_after_ready n) (\<lambda>s h. leads n s \<and> ready_ahead n {i..} UNIV h) (mq_open ?q)
      (\<lambda>_ s h. leads n s \<and> ready_ahead n {i..} UNIV h) (\<lambda>s h. leads n s)"
    by (rule ok_weaken [OF no_start_ok]) (auto intro!: frame_rules)
  show "io_ok (start_after_ready n) (\<lambda>s h. leads n s \<and> ready_ahead n {i..} UNIV h) (mq_timed_send ?q (Trigger_message kStartTrigger) ms)
      (\<lambda>_ s h. leads n s \<and> ready_ahead n {Suc i..} UNIV h) (\<lambda>s h. leads n s)"
    by (rule ok_timed_send) (use start_sent assms in blast)+
qed (auto simp: runtime_error_def intro!: ok_return ok_raise)

lemma broadcastStart_ok:
  "io_ok (start_after_ready n) (\<lambda>s h. leads n s \<and> ready_ahead n UNIV UNIV h) broadcastStart (\<lambda>_ s h. leads n s) (\<lambda>s h. leads n s)"
  unfolding broadcastStart_def
proof (rule ok_get_bind)
  fix c :: coordinator
  show "io_ok (start_after_ready n) (\<lambda>s h. s = c \<and> leads n s \<and> ready_ahead n UNIV UNIV h) (if \<not> pc_isLeader c then io_return ()
     else io_for (send_trigger kStartTrigger ''start'' (qc_controlSendTimeoutMs (pc_queueConfig c))) [0..<pc_totalPeers c])
     (\<lambda>_ s h. leads n s) (\<lambda>s h. leads n s)"
  proof (rule ok_conj [where b = "leads n c"])
    assume l: "leads n c"
    then have n: "pc_isLeader c" "pc_totalPeers c = n" by (simp_all add: leads_def)
    have *: "io_ok (start_after_ready n) (\<lambda>s h. leads n s \<and> ready_ahead n {0..} UNIV h)
        (io_for (send_trigger kStartTrigger ''start'' (qc_controlSendTimeoutMs (pc_queueConfig c))) [0..<n])
        (\<lambda>_ s h. leads n s \<and> ready_ahead n {length [0..<n]..} UNIV h) (\<lambda>s h. leads n s)"
      by (rule ok_for) (simp add: send_start_ok)
    show ?thesis unfolding n(2) by (rule ok_if) (use n(1) in simp, rule ok_weaken [OF *], simp_all add: atLeast_0)
  qed blast
qed

text \<open>A test, the tests of an experiment and the process.\<close>

lemma leads_ok:
  assumes "io_frame no_start (leads n) p"
  shows "io_ok (start_after_ready n) (\<lambda>s h. leads n s) p (\<lambda>_ s h. leads n s) (\<lambda>s h. leads n s)"
  by (rule ok_weaken [OF no_start_ok [OF assms, of "{}" "{}"]]) (auto intro: ready_ahead_all)

lemma start_ok:
  assumes "\<And>a. length (ser a) \<noteq> 4"
  shows "io_ok (start_after_ready n) (\<lambda>s h. leads n s \<and> ready_ahead n UNIV UNIV h)
     (catch_exception (io_seq (sendAssignments ser as) (io_seq broadcastStart (io_return True))) (io_return False))
     (\<lambda>_ s h. leads n s) (\<lambda>s h. leads n s)"
proof (rule ok_catch_exception [OF ok_seq [OF _ ok_seq [OF broadcastStart_ok]]])
  show "io_ok (start_after_ready n) (\<lambda>s h. leads n s \<and> ready_ahead n UNIV UNIV h) (sendAssignments ser as)
      (\<lambda>_ s h. leads n s \<and> ready_ahead n UNIV UNIV h) (\<lambda>s h. leads n s)"
    by (rule ok_weaken [OF no_start_ok [OF frame_sendAssignments [OF assms]]]) auto
qed (auto intro!: ok_return)

lemma leader_test_ok:
  assumes "\<And>a. length (le_ser env a) \<noteq> 4"
  shows "io_ok (start_after_ready n) (\<lambda>s h. leads n s) (leader_test env ex k base t g) (\<lambda>_ s h. leads n s) (\<lambda>s h. leads n s)"
  unfolding leader_test_def
proof (rule ok_seq [OF leads_ok [OF frame_createBarrier] ok_bind [OF waitForAllReady_ok]], unfold Let_def)
  fix ready
  let ?info = "case ready of None \<Rightarrow> new_testReportInfo t
    | Some (ids, timedOut) \<Rightarrow> (new_testReportInfo t)\<lparr>ti_readyPeers := ids, ti_readyTimedOut := timedOut\<rparr>"
  let ?P = "\<lambda>s h. leads n s \<and> (\<exists>ids late. ready = Some (ids, late) \<and> (\<not> late \<longrightarrow> ready_ahead n UNIV UNIV h))"
  let ?E = "\<lambda>s h. leads n s"
  let ?started = "\<lambda>as. catch_exception (io_seq (sendAssignments (le_ser env) as) (io_seq broadcastStart (io_return True))) (io_return False)"
  let ?rest = "\<lambda>g started. if \<not> started then io_bind (handleControlSendFailure (le_duration env t) ?info) (\<lambda>info. io_return (info, True, g))
            else io_bind (catch_exception (io_bind (waitForAllDone (nat (rc_doneTimeoutMs ex))) (\<lambda>r. io_return (Some r))) (io_return None)) (\<lambda>completion.
              case completion of
                None \<Rightarrow> io_bind (handleControlSendFailure (le_duration env t) ?info) (\<lambda>info. io_return (info, True, g))
              | Some r \<Rightarrow> io_bind (finish_test env ex k base t r ?info) (\<lambda>(info, failed). io_return (info, failed, g)))"
  have rest: "io_ok (start_after_ready n) ?E (?rest g b) (\<lambda>_. ?E) ?E" for g b
    by (intro leads_ok frame_rules leader_frames)
  have on: "io_ok (start_after_ready n) (\<lambda>s h. leads n s \<and> ready_ahead n UNIV UNIV h)
      (io_bind (io_result (buildTopology (rc_topology ex) g)) (\<lambda>(as, g). io_bind (?started as) (?rest g))) (\<lambda>_. ?E) ?E"
  proof (rule ok_bind)
    show "io_ok (start_after_ready n) (\<lambda>s h. leads n s \<and> ready_ahead n UNIV UNIV h) (io_result (buildTopology (rc_topology ex) g))
        (\<lambda>_ s h. leads n s \<and> ready_ahead n UNIV UNIV h) ?E"
      by (rule ok_weaken [OF no_start_ok [OF frame_io_result]]) auto
    show "io_ok (start_after_ready n) (\<lambda>s h. leads n s \<and> ready_ahead n UNIV UNIV h)
        (case x of (as, g) \<Rightarrow> io_bind (?started as) (?rest g)) (\<lambda>_. ?E) ?E" for x
      by (cases x) (simp only: prod.case, rule ok_bind [OF start_ok [OF assms] rest])
  qed
  have late: "io_ok (start_after_ready n) ?E (io_bind (handleReadinessTimeout (le_duration env t) (rc_initialPeers ex) ?info)
      (\<lambda>info. io_return (info, True, g))) (\<lambda>_. ?E) ?E"
    by (intro leads_ok frame_rules leader_frames)
  show "io_ok (start_after_ready n) ?P (if ti_readyTimedOut ?info
          then io_bind (handleReadinessTimeout (le_duration env t) (rc_initialPeers ex) ?info) (\<lambda>info. io_return (info, True, g))
          else io_bind (io_result (buildTopology (rc_topology ex) g)) (\<lambda>(as, g). io_bind (?started as) (?rest g))) (\<lambda>_. ?E) ?E"
  proof (rule ok_if)
    show "io_ok (start_after_ready n) ?P (io_bind (handleReadinessTimeout (le_duration env t) (rc_initialPeers ex) ?info)
        (\<lambda>info. io_return (info, True, g))) (\<lambda>_. ?E) ?E"
      by (rule ok_weaken [OF late]) auto
    show "io_ok (start_after_ready n) ?P (io_bind (io_result (buildTopology (rc_topology ex) g)) (\<lambda>(as, g). io_bind (?started as) (?rest g))) (\<lambda>_. ?E) ?E"
      if "\<not> ti_readyTimedOut ?info"
      by (rule ok_weaken [OF on]) (use that in auto)
  qed
qed

lemma leader_tests_ok:
  assumes "\<And>a. length (le_ser env a) \<noteq> 4"
  shows "io_ok (start_after_ready n) (\<lambda>s h. leads n s) (leader_tests env ex k base j t d g) (\<lambda>_ s h. leads n s) (\<lambda>s h. leads n s)"
proof (induction j arbitrary: t d g)
  case (Suc j)
  show ?case
    unfolding leader_tests.simps
  proof (rule ok_bind [OF leader_test_ok [OF assms]])
    show "io_ok (start_after_ready n) (\<lambda>s h. leads n s) (case x of (info, ends, g) \<Rightarrow> let d = add_test info ends d in
        if ends then io_return (d, g) else leader_tests env ex k base j (t + 1) d g) (\<lambda>_ s h. leads n s) (\<lambda>s h. leads n s)" for x
      using Suc by (cases x) (auto simp: Let_def intro: ok_return)
  qed
qed (auto intro: ok_return)

lemma any_ok:
  assumes "io_frame no_start (\<lambda>_. True) p"
  shows "io_ok (start_after_ready n) (\<lambda>_ _. True) p (\<lambda>_ _ _. True) (\<lambda>_ _. True)"
  by (rule ok_weaken [OF frame_ok [OF assms, of "start_after_ready n" "\<lambda>_. True"]]) (auto simp: no_start_keeps)

lemma run_experiment_ok:
  assumes "\<And>a. length (le_ser env a) \<noteq> 4"
  shows "io_ok (start_after_ready (nat (rc_initialPeers ex))) (\<lambda>_ _. True) (run_experiment env config path k ex q g) (\<lambda>_ _ _. True) (\<lambda>_ _. True)"
  unfolding run_experiment_def Let_def
proof (rule ok_bind [OF any_ok [OF frame_io_result] ok_seq [OF ok_update]])
  let ?n = "nat (rc_initialPeers ex)"
  fix reportPath :: string
  let ?base = "chooseLogFileBase config (experiment_json config k)"
  show "leads ?n (configureExperiment k (rc_initialPeerType ex) True ?n NO_PEER_ID ?base FixedRounds q s)" for s
    by (simp add: leads_def configureExperiment_def)
  have tests: "io_ok (start_after_ready ?n) (\<lambda>s h. leads ?n s) (io_bind (leader_tests env ex k ?base (nat (rc_tests ex)) 0 no_tests_done g) (\<lambda>(d, g).
      io_bind (writeLeaderReport (le_opens env) reportPath (experiment_report path ex (le_duration env (nat (rc_tests ex))) d report)) (\<lambda>file.
      io_return (file, td_experimentTimedOut d, g)))) (\<lambda>_ s h. leads ?n s) (\<lambda>s h. leads ?n s)" for report
    by (rule ok_bind [OF leader_tests_ok [OF assms]])
      (auto simp: writeLeaderReport_def runtime_error_def intro!: leads_ok frame_rules)
  show "io_ok (start_after_ready ?n) (\<lambda>s h. leads ?n s) (io_bind (io_result (makeBaseExperimentReport k ex q)) (\<lambda>report.
      io_bind (leader_tests env ex k ?base (nat (rc_tests ex)) 0 no_tests_done g) (\<lambda>(d, g).
      io_bind (writeLeaderReport (le_opens env) reportPath (experiment_report path ex (le_duration env (nat (rc_tests ex))) d report)) (\<lambda>file.
      io_return (file, td_experimentTimedOut d, g))))) (\<lambda>_ _ _. True) (\<lambda>_ _. True)"
    by (rule ok_weaken [OF ok_bind [OF leads_ok [OF frame_io_result] tests]]) auto
qed

lemma io_bind_return: "io_bind (io_return x) f = f x"
  by (intro ext) (auto simp: io_bind_def io_return_def split: prod.splits)

lemma check_experiment_parses:
  "check_experiment env config k g = Inr (ex, q, g') \<Longrightarrow> parseRuntimeExperiment config k = Inr ex"
  by (auto simp: check_experiment_def bindR_def split: option.splits json.splits if_splits sum.splits)

lemma leader_experiment_ok:
  assumes "\<And>a. length (le_ser env a) \<noteq> 4" "parseRuntimeExperiment config k = Inr ex"
  shows "io_ok (start_after_ready (nat (rc_initialPeers ex))) (\<lambda>_ _. True) (leader_experiment env config cli k reports g) (\<lambda>_ _ _. True) (\<lambda>_ _. True)"
  unfolding leader_experiment_def
proof (rule ok_catch_exception [OF _ any_ok])
  let ?n = "nat (rc_initialPeers ex)"
  let ?go = "\<lambda>(ex, q, g). if lc_preflightOnly cli then io_return (reports, False, g)
        else io_bind (run_experiment env config (lc_inputPath cli) k ex q g) (\<lambda>(file, failed, g). io_return (reports @ [file], failed, g))"
  have go: "io_ok (start_after_ready ?n) (\<lambda>_ _. True) (?go (ex, q, g)) (\<lambda>_ _ _. True) (\<lambda>_ _. True)" for q g
    unfolding prod.case
    by (intro ok_if ok_return ok_bind [OF run_experiment_ok [OF assms(1)]] any_ok frame_rules) simp
  show "io_ok (start_after_ready ?n) (\<lambda>_ _. True) (io_bind (io_result (check_experiment env config k g)) ?go) (\<lambda>_ _ _. True) (\<lambda>_ _. True)"
  proof (cases "check_experiment env config k g")
    case (Inl e)
    then show ?thesis
      by (cases e) (auto simp: io_result_def io_bind_def io_raise_def io_ok_def)
  next
    case (Inr x)
    then obtain q' g' where x: "x = (ex, q', g')" using assms(2) check_experiment_parses by (cases x) fastforce
    show ?thesis using go [of q' g'] unfolding Inr x io_result_def sum.case io_bind_return .
  qed
qed (auto intro!: frame_rules frame_cleanUp')

lemma leader_main_ok:
  assumes "\<And>a. length (le_ser env a) \<noteq> 4" "parseLeaderArgs argv = Some cli" "lc_experimentIndex cli = Some k"
    "loadRuntimeConfig (input (lc_inputPath cli)) = Some config" "parseRuntimeExperiment config k = Inr ex"
  shows "io_ok (start_after_ready (nat (rc_initialPeers ex))) (\<lambda>_ _. True) (leader_main env input argv g) (\<lambda>_ _ _. True) (\<lambda>_ _. True)"
proof -
  have p: "\<not> lc_preflightOnly cli" using assms(2,3) by (auto simp: parseLeaderArgs_def split: list.splits if_splits option.splits prod.splits)
  have one: "io_ok (start_after_ready (nat (rc_initialPeers ex))) (\<lambda>_ _. True) (leader_experiments env config cli [k] [] g) (\<lambda>_ _ _. True) (\<lambda>_ _. True)"
    unfolding leader_experiments.simps
    by (rule ok_bind [OF leader_experiment_ok [OF assms(1,5)]]) (auto intro!: any_ok frame_rules)
  show ?thesis
    by (cases "k < (case jfind ''experiments'' config of Some (JArr xs) \<Rightarrow> length xs | _ \<Rightarrow> 0)")
      (use one in \<open>simp_all add: leader_main_def assms(2-4) p selectExperimentIndexes_def ok_return\<close>)
qed

subsection \<open>The peers' side of the start\<close>

text \<open>What no step but \<open>sendReady\<close> does: send to the barrier, or a start to a peer.\<close>

definition quiet :: "mq_event \<Rightarrow> bool" where
  "quiet e = (case e of (Timed_send q m ms, _) \<Rightarrow> q \<noteq> mq_barrier \<and> (\<forall>i. q = peerControlQueueName i \<longrightarrow> \<not> start_message m) | _ \<Rightarrow> True)"

lemma quiet_simps [simp]:
  "quiet (Timed_send q m ms, a) \<longleftrightarrow> q \<noteq> mq_barrier \<and> (\<forall>i. q = peerControlQueueName i \<longrightarrow> \<not> start_message m)"
  "quiet (Remove_queue q', a)" "quiet (Create_queue q' c k, a)" "quiet (Open_queue q', a)"
  "quiet (Max_msg_size q', a)" "quiet (Num_msg q', a)" "quiet (Timed_receive q' ms, a)"
  "quiet (Receive q', a)" "quiet (Try_receive q', a)" "quiet (Sleep ms', a)" "quiet (Clock, a)"
  by (auto simp: quiet_def)

definition readies_sent :: "mq_event list \<Rightarrow> nat" where
  "readies_sent h = number (accepted mq_barrier (\<lambda>_. True)) h"

definition inboxes :: "int \<Rightarrow> mq_event list \<Rightarrow> nat" where
  "inboxes i h = number (created (peerDataQueueName i)) h"

definition ready_after_inbox :: "int \<Rightarrow> history \<Rightarrow> bool" where
  "ready_after_inbox i h = ((\<forall>e\<in>set h. quiet e \<or> (\<exists>ms a. e = (Timed_send mq_barrier (Id_message i) ms, a))) \<and> readies_sent h \<le> inboxes i h)"

definition inbox_ahead :: "int \<Rightarrow> history \<Rightarrow> bool" where
  "inbox_ahead i h = (readies_sent h < inboxes i h)"

definition follows :: "int \<Rightarrow> 'z coordinator_scheme \<Rightarrow> bool" where
  "follows i s = (\<not> pc_isLeader s \<and> pc_myId s = i)"

text \<open>The steps between two configurations change neither the role nor the identifier.\<close>

definition stable :: "('z coordinator_scheme \<Rightarrow> bool) \<Rightarrow> bool" where
  "stable S = (\<forall>s s'. pc_isLeader s' = pc_isLeader s \<longrightarrow> pc_myId s' = pc_myId s \<longrightarrow> S s \<longrightarrow> S s')"

lemma stable_follows: "stable (follows i)" "stable (\<lambda>_. True)"
  by (simp_all add: stable_def follows_def)

lemma frame_stable:
  assumes "stable S" "\<And>s. pc_isLeader (f s) = pc_isLeader s \<and> pc_myId (f s) = pc_myId s"
  shows "io_frame A S (io_update f)"
  by (rule frame_update) (use assms in \<open>unfold stable_def, blast\<close>)

lemma quiet_keeps_ready:
  assumes "quiet e"
  shows "ready_after_inbox i h \<Longrightarrow> ready_after_inbox i (h @ [e])" "inbox_ahead i h \<Longrightarrow> inbox_ahead i (h @ [e])"
proof -
  have "\<not> accepted mq_barrier (\<lambda>_. True) e"
    using assms by (auto simp: accepted_def quiet_def split: prod.splits mq_call.splits mq_answer.splits)
  then have s: "readies_sent (h @ [e]) = readies_sent h" by (simp add: readies_sent_def)
  have c: "inboxes i h \<le> inboxes i (h @ [e])" by (simp add: inboxes_def)
  show "ready_after_inbox i h \<Longrightarrow> ready_after_inbox i (h @ [e])" using assms c by (auto simp: ready_after_inbox_def s)
  show "inbox_ahead i h \<Longrightarrow> inbox_ahead i (h @ [e])" using c by (simp add: inbox_ahead_def s)
qed

lemma quiet_ok:
  assumes "io_frame quiet S p"
  shows "io_ok (ready_after_inbox i) (\<lambda>s h. S s) p (\<lambda>_ s h. S s) (\<lambda>s h. S s)"
  by (rule ok_weaken [OF frame_ok [OF assms, of "ready_after_inbox i" "\<lambda>_. True"]]) (auto simp: quiet_keeps_ready)

lemma quiet_ahead_ok:
  assumes "io_frame quiet S p"
  shows "io_ok (ready_after_inbox i) (\<lambda>s h. S s \<and> inbox_ahead i h) p (\<lambda>_ s h. S s \<and> inbox_ahead i h) (\<lambda>s h. S s \<and> inbox_ahead i h)"
  by (rule frame_ok [OF assms]) (simp add: quiet_keeps_ready)

text \<open>The steps.\<close>

lemma frame_control_attempts:
  assumes "q \<noteq> mq_barrier" "\<not> start_message m"
  shows "io_frame quiet S (control_attempts k q m f e)"
  using assms by (induction k) (auto simp: runtime_error_def timedSendControlMessage_def intro!: frame_rules)

lemma frame_waitForQueueRemoval: "io_frame quiet S (waitForQueueRemoval q)"
proof -
  have "io_frame quiet S (waitForQueueRemoval_loop k q)" for k
    by (induction k) (auto simp: runtime_error_def queueExists_def intro!: frame_rules)
  then show ?thesis by (simp add: waitForQueueRemoval_def)
qed

lemma frame_notifyPeerFinished:
  assumes "stable S"
  shows "io_frame quiet S (notifyPeerFinished i b)"
  unfolding notifyPeerFinished_def Let_def broadcastStop_def
  by (intro frame_rules frame_send_trigger frame_control_attempts frame_stable [OF assms]) auto

lemma frame_waitForStop:
  assumes "stable S"
  shows "io_frame quiet S waitForStop"
  unfolding waitForStop_def stop_body_def runtime_error_def
  by (intro frame_rules frame_waitForQueueRemoval frame_stable [OF assms]) auto

lemma frame_peer_cleanUp:
  assumes "stable S"
  shows "io_frame quiet S cleanUp"
  unfolding cleanUp_def by (intro frame_rules frame_stable [OF assms]) auto

lemma frame_waitForAssignments: "io_frame quiet S (waitForAssignments deser)"
  unfolding waitForAssignments_def runtime_error_def by (intro frame_rules) auto

lemma frame_waitForStart: "io_frame quiet S waitForStart"
  unfolding waitForStart_def runtime_error_def Let_def by (intro frame_rules) auto

text \<open>The steps of the local peers and the rounds.\<close>

lemma frame_any_update: "io_frame A (\<lambda>_. True) (io_update f)"
  by (rule frame_update) simp

lemma frame_mq_node:
  "io_frame quiet (\<lambda>_. True) (mq_configure pid ns t)" "io_frame quiet (\<lambda>_. True) (mq_unicastTo save now msg dest)"
  "io_frame quiet (\<lambda>_. True) (mq_receive_packets load)"
  unfolding mq_configure_def mq_unicastTo_def mq_receive_packets_def receive_body_def runtime_error_def Let_def
  by (intro frame_rules frame_any_update; simp)+

lemma frame_mq_send_all: "io_frame quiet (\<lambda>_. True) (mq_send_all save now calls)"
  unfolding mq_send_all_def by (intro frame_rules frame_mq_node)

lemma frame_at_local:
  assumes "stable S" "io_frame A (\<lambda>_. True) p"
  shows "io_frame A S (at_local k p)"
proof (rule io_frameI)
  fix s as r s' as' es
  assume *: "at_local k p s as = (r, s', as', es)" "S s"
  obtain r1 n1 as1 es1 where 1: "p (pp_localPeers s ! k) as = (r1, n1, as1, es1)" by (metis surj_pair)
  have A: "\<forall>e\<in>set es1. A e" using assms(2) 1 unfolding io_frame_def by blast
  have "S (s\<lparr>pp_localPeers := L\<rparr>)" for L
    using assms(1) [unfolded stable_def, rule_format, of "s\<lparr>pp_localPeers := L\<rparr>" s] *(2) by simp
  then show "S s' \<and> (\<forall>e\<in>set es. A e)" using * 1 A by (auto simp: at_local_def split: if_splits)
qed

lemma frame_io_option: "io_frame A S (io_option r)"
  by (auto simp: io_option_def split: option.splits intro: io_frames)

lemma frame_prepareLocalPeers:
  assumes "stable S"
  shows "io_frame quiet S (prepareLocalPeers env ex as t)"
proof -
  have build: "io_frame quiet S (build_peer env peerType t a)" for peerType a
    unfolding build_peer_def runtime_error_def
    by (intro frame_rules frame_at_local [OF assms] frame_mq_node frame_stable [OF assms]) (simp add: add_local_def)
  have catch: "io_frame quiet S (io_catch p (\<lambda>e. io_seq (io_update (\<lambda>s'. s'\<lparr>pp_localPeers := L\<rparr>)) (io_raise e)))"
    if "io_frame quiet S p" for p :: "('a peerProcess, unit) io" and L
    by (intro frame_catch that frame_rules frame_stable [OF assms]) simp
  show ?thesis
    unfolding prepareLocalPeers_def buildLocalPeers_def
    by (intro frame_rules frame_io_result frame_stable [OF assms] catch build) simp_all
qed

lemma frame_run_hook:
  assumes "stable S"
  shows "io_frame quiet S (run_hook hook)"
  unfolding run_hook_def by (intro frame_rules frame_io_option frame_stable [OF assms]) (simp add: set_nodes_def)

lemma frame_initializeHooks:
  assumes "stable S"
  shows "io_frame quiet S (initializeHooks env experiment)"
  unfolding initializeHooks_def by (intro frame_rules frame_io_option frame_stable [OF assms]) (simp add: set_nodes_def)

lemma frame_runRounds:
  assumes "stable S"
  shows "io_frame quiet S (runRounds env rounds)"
proof -
  have "io_frame quiet S (compute_peer env k)" for k
    unfolding compute_peer_def Let_def
    by (intro frame_rules frame_io_option frame_at_local [OF assms] frame_mq_send_all frame_stable [OF assms]) simp
  then have "io_frame quiet S (round_of_peer env k)" for k
    unfolding round_of_peer_def by (intro frame_rules frame_at_local [OF assms] frame_mq_node)
  then have "io_frame quiet S (round_body env rounds mode k)" for mode k
    unfolding round_body_def requestStop_def by (intro frame_rules frame_run_hook [OF assms] frame_stable [OF assms]) simp_all
  then show ?thesis
    unfolding runRounds_def Let_def by (intro frame_rules frame_run_hook [OF assms] frame_stable [OF assms]) simp
qed

lemma frame_peer_execute:
  assumes "stable S"
  shows "io_frame quiet S (peer_execute env experiment ex q)"
proof -
  have u: "io_frame quiet S (io_update (emitFinalExperimentMetrics c))" "io_frame quiet S (io_update clean_local)" for c
    by (intro frame_stable [OF assms], simp add: emitFinalExperimentMetrics_def clean_local_def)+
  have "io_frame quiet S (io_catch (runRounds env (rc_rounds ex)) (\<lambda>e. if e = Undefined_behaviour then io_raise e
      else io_seq (io_update (emitFinalExperimentMetrics (qc_dataQueueCapacity q))) (io_raise e)))"
    by (intro frame_catch frame_runRounds [OF assms] frame_rules u)
  then show ?thesis
    unfolding peer_execute_def notifyPeerStopped_def
    by (intro frame_rules frame_initializeHooks [OF assms] frame_waitForStop [OF assms] u)
      (auto split: list.splits intro!: frame_rules frame_waitForStop [OF assms] frame_notifyPeerFinished [OF assms] u)
qed

text \<open>The rendezvous: an inbox, then one ready message.\<close>

lemma inbox_created:
  assumes "ready_after_inbox i h"
  shows "ready_after_inbox i (h @ [(Create_queue (peerDataQueueName i) c k, a)])"
    "inbox_ahead i (h @ [(Create_queue (peerDataQueueName i) c k, Done)])"
  using assms
  by (auto simp: ready_after_inbox_def inbox_ahead_def readies_sent_def inboxes_def accepted_simps created_def)

lemma createInbox_ok:
  "io_ok (ready_after_inbox i) (\<lambda>s h. follows i s) createInbox (\<lambda>_ s h. follows i s \<and> inbox_ahead i h) (\<lambda>s h. follows i s)"
  unfolding createInbox_def
proof (rule ok_get_bind)
  fix c :: "'z coordinator_scheme"
  let ?E = "\<lambda>(s :: 'z coordinator_scheme) (h :: history). follows i s"
  let ?mk = "mq_create (peerDataQueueName i) (qc_dataQueueCapacity (pc_queueConfig c)) (qc_maxMessageSizeBytes (pc_queueConfig c))"
  have mk: "io_ok (ready_after_inbox i) ?E ?mk (\<lambda>_ s h. follows i s \<and> inbox_ahead i h) ?E"
    unfolding mq_create_def
  proof (rule ok_bind)
    let ?c = "Create_queue (peerDataQueueName i) (qc_dataQueueCapacity (pc_queueConfig c)) (qc_maxMessageSizeBytes (pc_queueConfig c))"
    show "io_ok (ready_after_inbox i) ?E (io_call ?c) (\<lambda>a s h. follows i s \<and> (a = Done \<longrightarrow> inbox_ahead i h)) ?E"
      by (rule ok_call) (auto simp: inbox_created)
  qed (auto simp: io_fail_def intro!: ok_return ok_raise)
  have pre: "io_ok (ready_after_inbox i) ?E p (\<lambda>_. ?E) ?E" if "io_frame quiet (follows i) p" for p :: "('z coordinator_scheme, unit) io"
    using that by (rule quiet_ok)
  show "io_ok (ready_after_inbox i) (\<lambda>s h. s = c \<and> follows i s) (if pc_isLeader c then io_return ()
     else let control = peerControlQueueName (pc_myId c); data = peerDataQueueName (pc_myId c) in
       io_seq (mq_remove control) (io_seq (mq_remove data)
       (catch_interprocess
         (io_seq (mq_create control (qc_controlQueueCapacity (pc_queueConfig c)) (qc_maxMessageSizeBytes (pc_queueConfig c)))
         (io_seq (io_update (\<lambda>c. c\<lparr>pc_myControlInbox := True\<rparr>))
           (mq_create data (qc_dataQueueCapacity (pc_queueConfig c)) (qc_maxMessageSizeBytes (pc_queueConfig c)))))
         (\<lambda>what. runtime_error (''Failed to ::createInbox queues for peer '' @ int_to_string (pc_myId c) @ '': '' @ what)))))
     (\<lambda>_ s h. follows i s \<and> inbox_ahead i h) ?E"
  proof (rule ok_conj [where b = "follows i c"])
    assume f: "follows i c"
    then have c: "\<not> pc_isLeader c" "pc_myId c = i" by (simp_all add: follows_def)
    have main: "io_ok (ready_after_inbox i) ?E (io_seq (mq_remove (peerControlQueueName i)) (io_seq (mq_remove (peerDataQueueName i))
       (catch_interprocess
         (io_seq (mq_create (peerControlQueueName i) (qc_controlQueueCapacity (pc_queueConfig c)) (qc_maxMessageSizeBytes (pc_queueConfig c)))
         (io_seq (io_update (\<lambda>c. c\<lparr>pc_myControlInbox := True\<rparr>)) ?mk))
         (\<lambda>what. runtime_error (''Failed to ::createInbox queues for peer '' @ int_to_string i @ '': '' @ what)))))
       (\<lambda>_ s h. follows i s \<and> inbox_ahead i h) ?E"
      by (intro ok_seq [OF pre] ok_catch_interprocess mk frame_rules) (auto simp: follows_def runtime_error_def intro!: ok_raise)
    show ?thesis
      unfolding Let_def c(2) by (rule ok_if [OF _ ok_weaken [OF main]]) (use c in auto)
  qed blast
qed

lemma ready_sent:
  assumes "ready_after_inbox i h" "inbox_ahead i h"
  shows "ready_after_inbox i (h @ [(Timed_send mq_barrier (Id_message i) ms, a)])"
    "a \<noteq> Accepted \<Longrightarrow> inbox_ahead i (h @ [(Timed_send mq_barrier (Id_message i) ms, a)])"
  using assms
  by (auto simp: ready_after_inbox_def inbox_ahead_def readies_sent_def inboxes_def accepted_simps created_def)

lemma ready_attempts_ok:
  "io_ok (ready_after_inbox i) (\<lambda>s h. S s \<and> inbox_ahead i h) (control_attempts k mq_barrier (Id_message i) f e) (\<lambda>_ s h. S s) (\<lambda>s h. S s \<and> inbox_ahead i h)"
proof (induction k)
  case (Suc k)
  let ?P = "\<lambda>s h. S s \<and> inbox_ahead i h"
  have send: "io_ok (ready_after_inbox i) ?P (timedSendControlMessage mq_barrier (Id_message i) kControlSendWaitMs)
      (\<lambda>b s h. S s \<and> (\<not> b \<longrightarrow> inbox_ahead i h)) ?P"
    unfolding timedSendControlMessage_def by (rule ok_timed_send) (auto simp: ready_sent)
  have quiet: "io_ok (ready_after_inbox i) ?P p (\<lambda>_. ?P) ?P" if "io_frame quiet S p" for p :: "('a, unit) io"
    using that by (rule quiet_ahead_ok)
  have attempt: "io_ok (ready_after_inbox i) ?P (catch_interprocess (io_seq (mq_open mq_barrier) (timedSendControlMessage mq_barrier (Id_message i) kControlSendWaitMs))
        (\<lambda>what. if k = 0 then runtime_error (f what) else io_return False)) (\<lambda>b s h. S s \<and> (\<not> b \<longrightarrow> inbox_ahead i h)) ?P"
    by (intro ok_catch_interprocess ok_seq [OF quiet send] frame_rules) (auto simp: runtime_error_def intro!: ok_raise ok_return)
  show ?case
    unfolding control_attempts.simps
  proof (rule ok_bind [OF attempt ok_if])
    show "io_ok (ready_after_inbox i) (\<lambda>s h. S s \<and> (\<not> b \<longrightarrow> inbox_ahead i h)) (io_return ()) (\<lambda>_ s h. S s) ?P" for b
      by (rule ok_return) simp
    show "io_ok (ready_after_inbox i) (\<lambda>s h. S s \<and> (\<not> b \<longrightarrow> inbox_ahead i h))
        (io_seq (mq_sleep kControlSendWaitMs) (control_attempts k mq_barrier (Id_message i) f e)) (\<lambda>_ s h. S s) ?P" if "\<not> b" for b
      by (rule ok_weaken [OF ok_seq [OF quiet Suc]]) (use that in \<open>auto intro!: frame_rules\<close>)
  qed
qed (auto simp: runtime_error_def intro!: ok_raise)

lemma sendReady_ok:
  "io_ok (ready_after_inbox i) (\<lambda>s h. follows i s \<and> inbox_ahead i h) sendReady (\<lambda>_ s h. follows i s) (\<lambda>s h. follows i s)"
  unfolding sendReady_def
proof (rule ok_get_bind)
  fix c :: "'z coordinator_scheme"
  show "io_ok (ready_after_inbox i) (\<lambda>s h. s = c \<and> follows i s \<and> inbox_ahead i h) (if pc_isLeader c then io_return ()
     else control_attempts kControlSendAttempts mq_barrier (Id_message (pc_myId c))
       (\<lambda>what. ''Failed to ::sendReady queue for peer '' @ int_to_string (pc_myId c) @ '': '' @ what)
       (''Timed out sending ready for peer '' @ int_to_string (pc_myId c) @ '' to mq_barrier'')) (\<lambda>_ s h. follows i s) (\<lambda>s h. follows i s)"
  proof (rule ok_conj [where b = "follows i c"])
    assume "follows i c"
    then have c: "\<not> pc_isLeader c" "pc_myId c = i" by (simp_all add: follows_def)
    show ?thesis unfolding c(2) by (rule ok_if [OF _ ok_weaken [OF ready_attempts_ok [where S = "follows i"]]]) (use c in auto)
  qed blast
qed

lemmas quiet_any_ok = quiet_ok [where S = "\<lambda>_. True"]

lemma peer_test_ok:
  "io_ok (ready_after_inbox i) (\<lambda>_ _. True) (peer_test env config experiment k i ex q t) (\<lambda>_ _ _. True) (\<lambda>_ _. True)"
proof -
  note fol = stable_follows(1) [of i]
  let ?E = "\<lambda>s (h :: history). follows i s"
  have rest: "io_ok (ready_after_inbox i) ?E (io_bind (waitForAssignments (pe_deser env)) (\<lambda>assignments.
      io_bind (prepareLocalPeers env ex assignments (qc_dataSendTimeoutMs q)) (\<lambda>ready.
      if \<not> ready then io_seq (io_update clean_local) cleanUp
      else io_seq (io_update reset_metrics) (io_seq waitForStart (peer_execute env experiment ex q))))) (\<lambda>_. ?E) ?E"
    by (intro quiet_ok frame_rules frame_waitForAssignments frame_prepareLocalPeers [OF fol] frame_stable [OF fol]
      frame_peer_cleanUp [OF fol] frame_waitForStart frame_peer_execute [OF fol]) (simp_all add: clean_local_def reset_metrics_def)
  have rendezvous: "io_ok (ready_after_inbox i) ?E initRendezvous (\<lambda>_. ?E) ?E"
    unfolding initRendezvous_def by (rule ok_seq [OF createInbox_ok sendReady_ok])
  have conf: "follows i ((configureExperiment k' ty False n i base mode q s)\<lparr>pp_metricsFile := out\<rparr>)" for k' ty n base mode s out
    by (simp add: follows_def configureExperiment_def)
  show ?thesis
    unfolding peer_test_def Let_def
  proof (rule ok_seq [OF quiet_any_ok ok_bind [OF quiet_any_ok [OF frame_io_result] ok_seq [where R = ?E, OF ok_update]]])
    show "io_frame quiet (\<lambda>_. True) (io_update (\<lambda>s :: 'a peerProcess. s\<lparr>pp_activeTestNumber := t + 1\<rparr>))" by (rule frame_any_update)
    show "io_ok (ready_after_inbox i) ?E (io_seq initRendezvous (io_bind (waitForAssignments (pe_deser env)) (\<lambda>assignments.
      io_bind (prepareLocalPeers env ex assignments (qc_dataSendTimeoutMs q)) (\<lambda>ready.
      if \<not> ready then io_seq (io_update clean_local) cleanUp
      else io_seq (io_update reset_metrics) (io_seq waitForStart (peer_execute env experiment ex q)))))) (\<lambda>_ _ _. True) (\<lambda>_ _. True)"
      by (rule ok_weaken [OF ok_seq [OF rendezvous rest]]) auto
  qed (rule conf)
qed

lemma peer_main_ok:
  assumes "parseArgs argv = Some cli"
  shows "io_ok (ready_after_inbox (ca_peerId cli)) (\<lambda>_ _. True) (peer_main env input argv) (\<lambda>_ _ _. True) (\<lambda>_ _. True)"
proof -
  let ?i = "ca_peerId cli"
  note any = stable_follows(2)
  have tests: "io_ok (ready_after_inbox ?i) (\<lambda>_ _. True) (io_for (peer_test env config expt k ?i ex q) ts) (\<lambda>_ _ _. True) (\<lambda>_ _. True)"
    for config expt k ex q ts
    using ok_for [where J = "\<lambda>_ _ _. True" and xs = ts, OF peer_test_ok] .
  have run: "io_ok (ready_after_inbox ?i) (\<lambda>_ _. True) (peer_experiment env config k ?i) (\<lambda>_ _ _. True) (\<lambda>_ _. True)" for config k
    unfolding peer_experiment_def
  proof (rule ok_catch_exception [OF ok_bind [OF quiet_any_ok [OF frame_io_result]]])
    show "io_ok (ready_after_inbox ?i) (\<lambda>_ _. True) (case x of (experiment, ex, q) \<Rightarrow>
        io_seq (io_for (peer_test env config experiment k ?i ex q) [0..<nat (rc_tests ex)]) (io_seq cleanUp (io_return 0)))
      (\<lambda>_ _ _. True) (\<lambda>_ _. True)" for x
      by (cases x) (simp, rule ok_seq [OF tests quiet_any_ok], intro frame_rules frame_peer_cleanUp [OF any])
    show "io_ok (ready_after_inbox ?i) (\<lambda>_ _. True) (io_bind io_get (\<lambda>s. io_seq
        (if pp_activeTestNumber s > 0 then catch_exception (notifyPeerFailed ?i) (io_return ()) else io_return ())
        (io_seq (io_update clean_local) (io_seq cleanUp (io_return 1))))) (\<lambda>_ _ _. True) (\<lambda>_ _. True)"
      unfolding notifyPeerFailed_def
      by (intro quiet_any_ok frame_rules frame_notifyPeerFinished [OF any] frame_peer_cleanUp [OF any]) simp
  qed simp
  show ?thesis
    unfolding peer_main_def assms option.case
    by (auto split: option.splits intro!: run quiet_any_ok frame_rules)
qed

subsection \<open>The system\<close>

text \<open>
  The processes of one experiment: the leader and a process for each of its \<open>n\<close> peers, each running from
  some state with its arguments, every call answered, and queues that deliver what was sent.
\<close>

definition experiment_system :: "leaderEnv \<Rightarrow> (nat \<Rightarrow> 'p peerEnv) \<Rightarrow> (string \<Rightarrow> json option) \<Rightarrow> (process_id \<Rightarrow> string list) \<Rightarrow> rng
    \<Rightarrow> coordinator \<Rightarrow> (nat \<Rightarrow> 'p peerProcess) \<Rightarrow> nat \<Rightarrow> system_history \<Rightarrow> bool" where
  "experiment_system lenv penv input argv g c s n H =
     (runs (leader_main lenv input (argv Leader) g) c (process_events Leader H)
      \<and> (\<forall>i<n. runs (peer_main (penv i) input (argv (Peer i))) (s i) (process_events (Peer i) H))
      \<and> (\<forall>e\<in>set H. fst e = Leader \<or> (\<exists>i<n. fst e = Peer i)) \<and> queue_delivery H)"

text \<open>The leader's arguments select the experiment \<open>ex\<close>, and those of \<open>Peer i\<close> name peer \<open>i\<close>.\<close>

definition experiment_arguments :: "(string \<Rightarrow> json option) \<Rightarrow> (process_id \<Rightarrow> string list) \<Rightarrow> runtimeExperimentConfig \<Rightarrow> bool" where
  "experiment_arguments input argv ex =
     ((case parseLeaderArgs (argv Leader) of None \<Rightarrow> False
       | Some cli \<Rightarrow> (case loadRuntimeConfig (input (lc_inputPath cli)) of None \<Rightarrow> False
         | Some config \<Rightarrow> (case lc_experimentIndex cli of None \<Rightarrow> False
           | Some k \<Rightarrow> (case parseRuntimeExperiment config k of Inl _ \<Rightarrow> False | Inr ex' \<Rightarrow> ex' = ex))))
      \<and> (\<forall>i<nat (rc_initialPeers ex). case parseArgs (argv (Peer i)) of None \<Rightarrow> False | Some cli \<Rightarrow> ca_peerId cli = int i))"

lemma number_process:
  assumes "\<forall>e\<in>set H. P (snd e) \<longrightarrow> fst e = x"
  shows "number P (map snd H) = number P (process_events x H)"
  using assms by (induction H) (auto simp: process_events_def)

lemma number_mono: "(\<And>e. P e \<Longrightarrow> Q e) \<Longrightarrow> number P es \<le> number Q es"
  by (induction es) auto

lemma accepted_any: "accepted q P e \<Longrightarrow> accepted q (\<lambda>_. True) e"
  by (auto simp: accepted_def split: prod.splits mq_call.splits mq_answer.splits)

lemma number_process_le: "number P (process_events x H) \<le> number P (map snd H)"
  by (induction H) (auto simp: process_events_def)

lemma number_taken: "length (filter P (taken_in es q)) = number (taken q P) es"
proof (induction es)
  case (Cons e es)
  obtain c a where "e = (c, a)" by fastforce
  with Cons show ?case by (cases c; simp add: taken_in_def taken_def; cases a; simp)
qed (simp add: taken_in_def)

lemma number_accepted: "length (filter P (sent_in es q)) = number (accepted q P) es"
proof (induction es)
  case (Cons e es)
  obtain c a where "e = (c, a)" by fastforce
  with Cons show ?case by (cases c; simp add: sent_in_def accepted_def; cases a; simp)
qed (simp add: sent_in_def)

lemma queue_delivers:
  assumes "queue_delivery H"
  shows "number (taken q P) (map snd (take j H)) \<le> number (accepted q P) (map snd (take j H))"
proof -
  have "mset (filter P (taken_in (map snd (take j H)) q)) \<subseteq># mset (filter P (sent_in (map snd (take j H)) q))"
    using assms by (simp add: queue_delivery_def multiset_filter_mono)
  then show ?thesis by (metis number_taken number_accepted size_mset size_mset_mono)
qed

lemma runs_prefix:
  assumes "runs p s (process_events x H)"
  shows "runs p s (process_events x (take j H))"
proof -
  have "process_events x H = process_events x (take j H) @ process_events x (drop j H)"
    by (simp add: process_events_def flip: map_append filter_append)
  then have "process_events x (take j H) = take (length (process_events x (take j H))) (process_events x H)" by simp
  then show ?thesis using assms unfolding runs_def by (metis take_take)
qed

lemma process_event_in: "(x, e) \<in> set (take j H) \<Longrightarrow> e \<in> set (process_events x (take j H))"
  by (force simp: process_events_def)

text \<open>The histories of the leader and of each peer, and who sends what.\<close>

lemma leader_history:
  assumes run: "experiment_system lenv penv input argv g c s (nat (rc_initialPeers ex)) H"
    and args: "experiment_arguments input argv ex" and archives: "\<And>a. length (le_ser lenv a) \<noteq> 4"
  shows "start_after_ready (nat (rc_initialPeers ex)) (process_events Leader (take j H))"
proof -
  obtain cli config k where a: "parseLeaderArgs (argv Leader) = Some cli" "loadRuntimeConfig (input (lc_inputPath cli)) = Some config"
    "lc_experimentIndex cli = Some k" "parseRuntimeExperiment config k = Inr ex"
    using args unfolding experiment_arguments_def by (auto split: option.splits sum.splits)
  show ?thesis
  proof (rule ok_runs [OF leader_main_ok [where input = input and argv = "argv Leader", OF archives a(1,3,2,4)] _ TrueI])
    show "runs (leader_main lenv input (argv Leader) g) c (process_events Leader (take j H))"
      using run unfolding experiment_system_def by (blast intro: runs_prefix)
  qed (simp add: start_after_ready_def starts_sent_def)
qed

lemma peer_history:
  assumes run: "experiment_system lenv penv input argv g c s (nat (rc_initialPeers ex)) H"
    and args: "experiment_arguments input argv ex" and i: "i < nat (rc_initialPeers ex)"
  shows "ready_after_inbox (int i) (process_events (Peer i) (take j H))"
proof -
  have "case parseArgs (argv (Peer i)) of None \<Rightarrow> False | Some cli \<Rightarrow> ca_peerId cli = int i"
    using args i unfolding experiment_arguments_def by blast
  then obtain cli where cli: "parseArgs (argv (Peer i)) = Some cli" "ca_peerId cli = int i"
    by (auto split: option.splits)
  have "ready_after_inbox (ca_peerId cli) (process_events (Peer i) (take j H))"
  proof (rule ok_runs [OF peer_main_ok [OF cli(1)] _ TrueI])
    show "runs (peer_main (penv i) input (argv (Peer i))) (s i) (process_events (Peer i) (take j H))"
      using run i unfolding experiment_system_def by (blast intro: runs_prefix)
  qed (simp add: ready_after_inbox_def readies_sent_def)
  then show ?thesis by (simp add: cli(2))
qed

lemma event_owner:
  assumes "experiment_system lenv penv input argv g c s n H" "(x, e) \<in> set (take j H)"
  shows "x = Leader \<or> (\<exists>i<n. x = Peer i)"
  using assms(1) in_set_takeD [OF assms(2)] unfolding experiment_system_def by force

lemma start_sender:
  assumes sys: "experiment_system lenv penv input argv g c s (nat (rc_initialPeers ex)) H" "experiment_arguments input argv ex"
    and mem: "(x, e) \<in> set (take j H)" and start: "accepted (peerControlQueueName p) start_message e"
  shows "x = Leader"
proof -
  have "\<not> quiet e \<and> (\<nexists>i ms a. e = (Timed_send mq_barrier (Id_message i) ms, a))"
    using start by (auto simp: accepted_def quiet_def split: prod.splits mq_call.splits mq_answer.splits)
  then show ?thesis
    using event_owner [OF sys(1) mem] peer_history [OF sys] process_event_in [OF mem] unfolding ready_after_inbox_def by blast
qed

lemma ready_sender:
  assumes sys: "experiment_system lenv penv input argv g c s (nat (rc_initialPeers ex)) H" "experiment_arguments input argv ex"
    and archives: "\<And>a. length (le_ser lenv a) \<noteq> 4"
    and mem: "(x, e) \<in> set (take j H)" and ready: "accepted mq_barrier (ready_message q) e"
  shows "x = Peer q"
proof -
  have acc: "accepted mq_barrier (\<lambda>_. True) e" "\<not> quiet e"
    using accepted_any [OF ready] ready by (auto simp: accepted_def quiet_def split: prod.splits mq_call.splits mq_answer.splits)
  then obtain i where i: "i < nat (rc_initialPeers ex)" "x = Peer i"
    using event_owner [OF sys(1) mem] leader_history [OF sys archives] process_event_in [OF mem] unfolding start_after_ready_def by blast
  then obtain ms a where "e = (Timed_send mq_barrier (Id_message (int i)) ms, a)"
    using peer_history [OF sys i(1)] process_event_in [OF mem] acc unfolding ready_after_inbox_def by blast
  then show ?thesis using ready i by (simp add: accepted_simps ready_message_def)
qed

text \<open>Claim C36. Start barrier. In every run of an experiment's leader and peers, whatever the schedule and
  the failures of the calls, up to any moment a peer has taken a start signal from its control queue at most
  as often as any other peer has created its data inbox: no peer begins a test before all inboxes of the
  test exist.\<close>

theorem start_after_inboxes:
  assumes run: "experiment_system lenv penv input argv g c s (nat (rc_initialPeers ex)) H"
    and args: "experiment_arguments input argv ex" and archives: "\<And>a. length (le_ser lenv a) \<noteq> 4"
    and p: "p < nat (rc_initialPeers ex)" and q: "q < nat (rc_initialPeers ex)"
  shows "number (taken (peerControlQueueName (int p)) start_message) (process_events (Peer p) (take j H))
    \<le> number (created (peerDataQueueName (int q))) (process_events (Peer q) (take j H))"
proof -
  let ?ev = "\<lambda>x. process_events x (take j H)" and ?all = "map snd (take j H)"
  have D: "number (taken r M) ?all \<le> number (accepted r M) ?all" for r M
    using run queue_delivers unfolding experiment_system_def by blast
  have "number (taken (peerControlQueueName (int p)) start_message) (?ev (Peer p)) \<le> number (accepted (peerControlQueueName (int p)) start_message) ?all"
    using number_process_le D le_trans by blast
  also have "\<dots> = starts_sent (?ev Leader) p"
    unfolding starts_sent_def by (rule number_process) (use start_sender [OF run args] in force)
  also have "\<dots> \<le> readies_taken (?ev Leader) q"
    using leader_history [OF run args archives] p q unfolding start_after_ready_def by blast
  also have "\<dots> \<le> number (accepted mq_barrier (ready_message q)) ?all"
    unfolding readies_taken_def using number_process_le D le_trans by blast
  also have "\<dots> = number (accepted mq_barrier (ready_message q)) (?ev (Peer q))"
    by (rule number_process) (use ready_sender [OF run args archives] in force)
  also have "\<dots> \<le> readies_sent (?ev (Peer q))"
    unfolding readies_sent_def by (rule number_mono) (simp add: accepted_any)
  also have "\<dots> \<le> number (created (peerDataQueueName (int q))) (?ev (Peer q))"
    using peer_history [OF run args q] unfolding ready_after_inbox_def inboxes_def by blast
  finally show ?thesis .
qed

end
