(* ===== verification/MqSuccess.thy ===== *)
theory MqSuccess
  imports MqProtocol
begin

text \<open>
  What the exit code of the leader says: 0 is an experiment whose report says success, and each of its peers
  has reported the completion of every test.
\<close>

definition done_message :: "nat \<Rightarrow> mq_message \<Rightarrow> bool" where
  "done_message q m = (message_size m = 16 \<and> read_completion m = (int q, True))"

definition dones_taken :: "mq_event list \<Rightarrow> nat \<Rightarrow> nat" where
  "dones_taken h q = number (taken mq_done (done_message q)) h"

definition all_done :: "nat \<Rightarrow> nat \<Rightarrow> history \<Rightarrow> bool" where
  "all_done n t h = (\<forall>q<n. t \<le> dones_taken h q)"

text \<open>While the leader waits: the completed peers, each heard once more than the \<open>t\<close> tests before.\<close>

definition reported :: "nat \<Rightarrow> nat \<Rightarrow> idset \<times> peerCompletionResult \<Rightarrow> coordinator \<Rightarrow> history \<Rightarrow> bool" where
  "reported n t x s h = (case x of (seen, r) \<Rightarrow> leads n s \<and> cr_failedPeers r = [] \<and> \<not> cr_timedOut r
     \<and> set seen = set (cr_completedPeers r) \<and> distinct (cr_completedPeers r) \<and> set (cr_completedPeers r) \<subseteq> {0..<int n}
     \<and> (\<forall>q<n. t + (if int q \<in> set (cr_completedPeers r) then 1 else 0) \<le> dones_taken h q))"

definition finished :: "nat \<Rightarrow> nat \<Rightarrow> peerCompletionResult \<Rightarrow> history \<Rightarrow> bool" where
  "finished n t r h = (\<not> cr_timedOut r \<and> cr_failedPeers r = [] \<longrightarrow> {0..<int n} \<subseteq> set (cr_completedPeers r) \<and> all_done n (Suc t) h)"

lemma dones_mono: "dones_taken h q \<le> dones_taken (h @ es) q"
  by (simp add: dones_taken_def)

lemma frame_any: "io_frame A S p \<Longrightarrow> io_frame (\<lambda>_. True) S p"
  by (auto simp: io_frame_def)

lemma done_ok:
  assumes "io_frame A (leads n) p"
  shows "io_ok (\<lambda>_. True) (\<lambda>s h. leads n s \<and> all_done n t h) p (\<lambda>_ s h. leads n s \<and> all_done n t h) (\<lambda>s h. leads n s)"
  by (rule ok_weaken [OF frame_ok [OF frame_any [OF assms], of "\<lambda>_. True" "all_done n t"]])
    (auto simp: all_done_def intro: le_trans [OF _ dones_mono])

lemma reported_ok:
  assumes "io_frame A (leads n) p"
  shows "io_ok (\<lambda>_. True) (reported n t x) p (\<lambda>_. reported n t x) (\<lambda>s h. leads n s)"
proof (cases x)
  case (Pair seen r)
  let ?R = "\<lambda>h. cr_failedPeers r = [] \<and> \<not> cr_timedOut r
     \<and> set seen = set (cr_completedPeers r) \<and> distinct (cr_completedPeers r) \<and> set (cr_completedPeers r) \<subseteq> {0..<int n}
     \<and> (\<forall>q<n. t + (if int q \<in> set (cr_completedPeers r) then 1 else 0) \<le> dones_taken h q)"
  have "io_ok (\<lambda>_. True) (\<lambda>s h. leads n s \<and> ?R h) p (\<lambda>_ s h. leads n s \<and> ?R h) (\<lambda>s h. leads n s \<and> ?R h)"
    by (rule frame_ok [OF frame_any [OF assms]]) (meson dones_mono le_trans)
  then show ?thesis unfolding Pair by (rule ok_weaken) (simp_all add: reported_def)
qed

lemma reported_leads: "reported n t x s h \<Longrightarrow> leads n s"
  by (simp add: reported_def split: prod.splits)

lemma all_completed:
  assumes "reported n t (seen, r) s h" "\<not> length (cr_completedPeers r) + length (cr_failedPeers r) < n"
  shows "finished n t r h"
proof -
  have "card (set (cr_completedPeers r)) = card {0..<int n}"
    using assms card_mono [of "{0..<int n}" "set (cr_completedPeers r)"] by (auto simp: reported_def distinct_card)
  then have "set (cr_completedPeers r) = {0..<int n}"
    using assms card_subset_eq [of "{0..<int n}" "set (cr_completedPeers r)"] by (auto simp: reported_def)
  then show ?thesis using assms(1) by (auto simp: reported_def finished_def all_done_def)
qed

lemma reported_snoc:
  assumes "reported n t (seen, r) s h" "message_size m = 16" "read_completion m = (p, True)" "\<not> (p < 0 \<or> nat p \<ge> n)" "p \<notin> set seen"
  shows "reported n t (idset_insert p seen, r\<lparr>cr_completedPeers := cr_completedPeers r @ [p]\<rparr>) s (h @ [(Timed_receive mq_done ms, Got m)])"
proof -
  have d: "dones_taken (h @ [(Timed_receive mq_done ms, Got m)]) q = dones_taken h q + (if int q = p then 1 else 0)" for q
    using assms(2,3) by (auto simp: dones_taken_def taken_simps done_message_def)
  show ?thesis using assms unfolding reported_def prod.case d by (fastforce simp: set_insort_insert)
qed

lemma reported_other: "reported n t x s h \<Longrightarrow> reported n t x s (h @ [e])"
  unfolding reported_def using dones_mono [of h _ "[e]"] by (fastforce split: prod.splits intro: le_trans)

lemma done_body_ok:
  "io_ok (\<lambda>_. True) (reported n t x) (done_body n ms i x)
     (\<lambda>y s h. case y of Inl x' \<Rightarrow> reported n t x' s h | Inr r \<Rightarrow> leads n s \<and> finished n t r h) (\<lambda>s h. leads n s)"
proof (cases x)
  case (Pair seen r)
  let ?Q = "\<lambda>y s h. case y of Inl x' \<Rightarrow> reported n t x' s h | Inr r \<Rightarrow> leads n s \<and> finished n t r h"
  let ?R = "\<lambda>m s h. case m of None \<Rightarrow> leads n s | Some m \<Rightarrow> reported n t (seen, r) s h
     \<and> (\<forall>p. message_size m = 16 \<longrightarrow> read_completion m = (p, True) \<longrightarrow> \<not> (p < 0 \<or> nat p \<ge> n) \<longrightarrow> p \<notin> set seen \<longrightarrow>
       reported n t (idset_insert p seen, r\<lparr>cr_completedPeers := cr_completedPeers r @ [p]\<rparr>) s h)"
  have receive: "io_ok (\<lambda>_. True) (reported n t (seen, r)) (mq_timed_receive mq_done ms) ?R (\<lambda>s h. leads n s)"
    by (rule ok_timed_receive) (auto intro: reported_snoc reported_other, auto simp: reported_def)
  have notify: "io_ok (\<lambda>_. True) (reported n t y) (io_seq (notifyPeerStopped p) (io_return (Inl y))) ?Q (\<lambda>s h. leads n s)" for y p
    by (rule ok_seq [OF reported_ok [OF frame_notify]]) (auto intro: ok_return)
  show ?thesis
    unfolding done_body_def Pair prod.case
  proof (rule ok_if)
    show "io_ok (\<lambda>_. True) (reported n t (seen, r)) (io_return (Inr r)) ?Q (\<lambda>s h. leads n s)"
      if "\<not> length (cr_completedPeers r) + length (cr_failedPeers r) < n"
      by (rule ok_return) (use all_completed that in \<open>auto simp: reported_def\<close>)
  qed (rule ok_bind [OF receive], auto simp: Let_def runtime_error_def finished_def split: option.splits prod.splits
      intro!: ok_return ok_raise ok_weaken [OF notify] dest: reported_leads)
qed

lemma waitForAllDone_ok:
  "io_ok (\<lambda>_. True) (\<lambda>s h. leads n s \<and> all_done n t h) (waitForAllDone ms) (\<lambda>r s h. leads n s \<and> finished n t r h) (\<lambda>s h. leads n s)"
  unfolding waitForAllDone_def
proof (rule ok_get_bind)
  fix c :: coordinator
  let ?Q = "\<lambda>r s h. leads n s \<and> finished n t r h"
  show "io_ok (\<lambda>_. True) (\<lambda>s h. s = c \<and> leads n s \<and> all_done n t h) (if \<not> pc_isLeader c then io_return no_completions
     else catch_interprocess (io_seq (mq_open mq_done) (io_loop (done_body (pc_totalPeers c) ms (pc_myId c)) ([], no_completions)))
       (\<lambda>what. runtime_error (''Failed to ::waitForAllDone for leader '' @ int_to_string (pc_myId c) @ '': '' @ what))) ?Q (\<lambda>s h. leads n s)"
  proof (rule ok_conj [where b = "leads n c"])
    assume l: "leads n c"
    then have c: "pc_isLeader c" "pc_totalPeers c = n" by (simp_all add: leads_def)
    have loop: "io_ok (\<lambda>_. True) (\<lambda>s h. leads n s \<and> all_done n t h) (io_loop (done_body n ms (pc_myId c)) ([], no_completions)) ?Q (\<lambda>s h. leads n s)"
      by (rule ok_weaken [OF ok_loop [OF done_body_ok]]) (auto simp: reported_def no_completions_def all_done_def)
    have "io_frame no_start (leads n) (mq_open mq_done)" by (intro frame_rules) simp
    from ok_seq [OF done_ok [OF this] loop]
    have whole: "io_ok (\<lambda>_. True) (\<lambda>s h. leads n s \<and> all_done n t h) (catch_interprocess (io_seq (mq_open mq_done)
        (io_loop (done_body n ms (pc_myId c)) ([], no_completions)))
       (\<lambda>what. runtime_error (''Failed to ::waitForAllDone for leader '' @ int_to_string (pc_myId c) @ '': '' @ what))) ?Q (\<lambda>s h. leads n s)"
      by (rule ok_catch_interprocess) (auto simp: runtime_error_def intro: ok_raise)
    show ?thesis unfolding c(2) by (rule ok_if) (use c in simp, rule ok_weaken [OF whole], simp_all)
  qed blast
qed

lemma finished_ok:
  assumes "io_frame A (leads n) p"
  shows "io_ok (\<lambda>_. True) (\<lambda>s h. leads n s \<and> finished n t r h) p (\<lambda>_ s h. leads n s \<and> finished n t r h) (\<lambda>s h. leads n s)"
  by (rule ok_weaken [OF frame_ok [OF frame_any [OF assms], of "\<lambda>_. True" "finished n t r"]])
    (auto simp: finished_def all_done_def intro: le_trans [OF _ dones_mono])

text \<open>The outcome of a test: unless it ends the experiment, it succeeded and every peer was heard.\<close>

definition succeeded :: "nat \<Rightarrow> nat \<Rightarrow> testReportInfo \<Rightarrow> bool \<Rightarrow> coordinator \<Rightarrow> history \<Rightarrow> bool" where
  "succeeded n t info ends s h = (leads n s \<and> (\<not> ends \<longrightarrow> ti_success info \<and> all_done n t h))"

lemma finish_test_ok:
  assumes n: "n = nat (rc_initialPeers ex)"
  shows "io_ok (\<lambda>_. True) (\<lambda>s h. leads n s \<and> finished n t r h) (finish_test env ex k base j r info)
     (\<lambda>(info, ends) s h. succeeded n (Suc t) info ends s h) (\<lambda>s h. leads n s)"
  unfolding finish_test_def Let_def
proof (rule ok_bind [OF finished_ok [OF frame_io_result]], split prod.split, intro allI impI,
    rule ok_bind [OF finished_ok [OF frame_io_result]], rule ok_seq [OF finished_ok ok_seq [OF finished_ok [OF frame_cleanUp] ok_return]])
  show "io_frame no_start (leads n) (if b then broadcastStopBestEffort else io_return ())" for b
    by (intro frame_rules frame_broadcastStopBestEffort)
qed (auto simp: succeeded_def finished_def findMissingPeers_Nil n)

text \<open>The frames of the steps that lead to a test, without what is said of the events.\<close>

lemma frame_waitForAllReady: "io_frame no_start (leads n) waitForAllReady"
  unfolding waitForAllReady_def ready_body_def runtime_error_def Let_def by (intro frame_rules) auto

lemma frame_start:
  "io_frame (\<lambda>_. True) (leads n) (catch_exception (io_seq (sendAssignments ser as) (io_seq broadcastStart (io_return True))) (io_return False))"
  unfolding sendAssignments_def send_assignment_def broadcastStart_def Let_def runtime_error_def
  by (intro frame_rules frame_send_trigger; simp)

lemma ends_ok:
  assumes "io_frame A (leads n) p"
  shows "io_ok (\<lambda>_. True) (\<lambda>s h. leads n s) (io_bind p (\<lambda>info. io_return (info, True, g)))
     (\<lambda>(info, ends, g) s h. succeeded n t info ends s h) (\<lambda>s h. leads n s)"
  by (rule ok_weaken [OF ok_bind [OF done_ok [OF assms, where t = 0] ok_return]]) (auto simp: succeeded_def all_done_def)

lemma leader_test_succeeds:
  assumes n: "n = nat (rc_initialPeers ex)"
  shows "io_ok (\<lambda>_. True) (\<lambda>s h. leads n s \<and> all_done n t h) (leader_test env ex k base j g)
     (\<lambda>(info, ends, g) s h. succeeded n (Suc t) info ends s h) (\<lambda>s h. leads n s)"
  unfolding leader_test_def
proof (rule ok_seq [OF done_ok [OF frame_createBarrier]], rule ok_bind [OF done_ok [OF frame_waitForAllReady]], unfold Let_def)
  fix ready
  let ?info = "case ready of None \<Rightarrow> new_testReportInfo j
    | Some (ids, timedOut) \<Rightarrow> (new_testReportInfo j)\<lparr>ti_readyPeers := ids, ti_readyTimedOut := timedOut\<rparr>"
  let ?P = "\<lambda>s h. leads n s \<and> all_done n t h" and ?E = "\<lambda>s (h :: history). leads n s"
  let ?Q = "\<lambda>(info, ends, g) s h. succeeded n (Suc t) info ends s h"
  let ?fail = "\<lambda>g. io_bind (handleControlSendFailure (le_duration env j) ?info) (\<lambda>info. io_return (info, True, g))"
  let ?complete = "\<lambda>g completion. case completion of None \<Rightarrow> ?fail g
      | Some r \<Rightarrow> io_bind (finish_test env ex k base j r ?info) (\<lambda>(info, failed). io_return (info, failed, g))"
  have complete: "io_ok (\<lambda>_. True) (\<lambda>s h. leads n s \<and> (\<forall>r. c = Some r \<longrightarrow> finished n t r h)) (?complete g c) ?Q ?E" for g c
  proof (cases c)
    case None
    then show ?thesis unfolding None option.case by (intro ok_weaken [OF ends_ok [OF frame_handlers(2)]]) auto
  next
    case (Some r)
    have "io_ok (\<lambda>_. True) (\<lambda>s h. leads n s \<and> finished n t r h)
        (io_bind (finish_test env ex k base j r ?info) (\<lambda>(info, failed). io_return (info, failed, g))) ?Q ?E"
      by (rule ok_bind [OF finish_test_ok [OF n]]) (auto split: prod.splits intro!: ok_return)
    then show ?thesis unfolding Some option.case by (rule ok_weaken) auto
  qed
  have wait: "io_ok (\<lambda>_. True) ?P (catch_exception (io_bind (waitForAllDone ms) (\<lambda>r. io_return (Some r))) (io_return None))
      (\<lambda>c s h. leads n s \<and> (\<forall>r. c = Some r \<longrightarrow> finished n t r h)) ?E" for ms
    by (rule ok_catch_exception [OF ok_bind [OF waitForAllDone_ok]]) (auto intro: ok_return)
  have rest: "io_ok (\<lambda>_. True) ?P (if \<not> started then ?fail g
      else io_bind (catch_exception (io_bind (waitForAllDone (nat (rc_doneTimeoutMs ex))) (\<lambda>r. io_return (Some r))) (io_return None)) (?complete g)) ?Q ?E" for started g
    by (intro ok_if ok_weaken [OF ends_ok [OF frame_handlers(2)]] ok_bind [OF wait complete]) auto
  show "io_ok (\<lambda>_. True) ?P (if ti_readyTimedOut ?info
          then io_bind (handleReadinessTimeout (le_duration env j) (rc_initialPeers ex) ?info) (\<lambda>info. io_return (info, True, g))
          else io_bind (io_result (buildTopology (rc_topology ex) g)) (\<lambda>(assignments, g).
            io_bind (catch_exception (io_seq (sendAssignments (le_ser env) assignments) (io_seq broadcastStart (io_return True))) (io_return False)) (\<lambda>started.
            if \<not> started then ?fail g
            else io_bind (catch_exception (io_bind (waitForAllDone (nat (rc_doneTimeoutMs ex))) (\<lambda>r. io_return (Some r))) (io_return None)) (?complete g)))) ?Q ?E"
  proof (rule ok_if)
    show "io_ok (\<lambda>_. True) ?P (io_bind (handleReadinessTimeout (le_duration env j) (rc_initialPeers ex) ?info)
        (\<lambda>info. io_return (info, True, g))) ?Q ?E"
      by (rule ok_weaken [OF ends_ok [OF frame_handlers(1)]]) auto
  qed (rule ok_bind [OF done_ok [OF frame_io_result]], split prod.split, intro allI impI, rule ok_bind [OF done_ok [OF frame_start] rest])
qed

lemma leader_tests_succeed:
  assumes n: "n = nat (rc_initialPeers ex)" and d: "td_allTestsSucceeded d" "\<not> td_experimentTimedOut d"
  shows "io_ok (\<lambda>_. True) (\<lambda>s h. leads n s \<and> all_done n t h) (leader_tests env ex k base m j d g)
     (\<lambda>(d, g) s h. \<not> td_experimentTimedOut d \<longrightarrow> td_allTestsSucceeded d \<and> all_done n (t + m) h) (\<lambda>_ _. True)"
  using d
proof (induction m arbitrary: t j d g)
  case (Suc m)
  let ?Q = "\<lambda>(d, g) s (h :: history). \<not> td_experimentTimedOut d \<longrightarrow> td_allTestsSucceeded d \<and> all_done n (t + Suc m) h"
  have next_test: "io_ok (\<lambda>_. True) (succeeded n (Suc t) info ends) (let d = add_test info ends d in
      if ends then io_return (d, g) else leader_tests env ex k base m (j + 1) d g) ?Q (\<lambda>_ _. True)" for info ends g
    unfolding Let_def
  proof (rule ok_if)
    show "io_ok (\<lambda>_. True) (succeeded n (Suc t) info ends) (leader_tests env ex k base m (j + 1) (add_test info ends d) g) ?Q (\<lambda>_ _. True)"
      if e: "\<not> ends"
    proof (rule ok_conj [where b = "ti_success info"])
      assume "ti_success info"
      then have "td_allTestsSucceeded (add_test info ends d)" "\<not> td_experimentTimedOut (add_test info ends d)"
        using Suc.prems e by (simp_all add: add_test_def)
      then show ?thesis by (rule ok_weaken [OF Suc.IH [of _ "Suc t"]]) (use e in \<open>auto simp: succeeded_def\<close>)
    qed (use e in \<open>auto simp: succeeded_def\<close>)
  qed (rule ok_return, simp add: add_test_def)
  show ?case
    unfolding leader_tests.simps
  proof (rule ok_bind)
    show "io_ok (\<lambda>_. True) (\<lambda>s h. leads n s \<and> all_done n t h) (leader_test env ex k base j g)
        (\<lambda>(info, ends, g) s h. succeeded n (Suc t) info ends s h) (\<lambda>_ _. True)"
      by (rule ok_weaken [OF leader_test_succeeds [OF n]]) simp_all
    show "io_ok (\<lambda>_. True) ((\<lambda>(info, ends, g) s h. succeeded n (Suc t) info ends s h) x) (case x of (info, ends, g) \<Rightarrow>
        let d = add_test info ends d in if ends then io_return (d, g) else leader_tests env ex k base m (j + 1) d g) ?Q (\<lambda>_ _. True)" for x
      using next_test by (cases x) simp
  qed
qed (auto intro!: ok_return)

lemma put_member_found:
  assumes "is_object j"
  shows "jfind k (put_member k v j) = Some v" "is_object (put_member k v j)"
  using jset_total [OF assms, of k v] by (auto simp: put_member_def jfind_jset dest: jset_is_object)

lemma base_report_object: "makeBaseExperimentReport k ex q = Inr r \<Longrightarrow> is_object r"
  by (auto simp: makeBaseExperimentReport_def bindR_def split: sum.splits)

lemma run_experiment_succeeds:
  "io_ok (\<lambda>_. True) (\<lambda>_ _. True) (run_experiment env config path k ex q g)
     (\<lambda>(out, failed, g) s h. \<not> failed \<longrightarrow> jfind ''success'' (snd out) = Some (JBool True)
        \<and> all_done (nat (rc_initialPeers ex)) (nat (rc_tests ex)) h) (\<lambda>_ _. True)"
proof -
  let ?n = "nat (rc_initialPeers ex)" and ?base = "chooseLogFileBase config (experiment_json config k)"
  let ?Q = "\<lambda>(out :: report_file, failed, g :: rng) s h. \<not> failed \<longrightarrow> jfind ''success'' (snd out) = Some (JBool True) \<and> all_done ?n (nat (rc_tests ex)) h"
  have any: "io_ok (\<lambda>_. True) (\<lambda>_ _. True) p (\<lambda>_ _ _. True) (\<lambda>_ _. True)" for p :: "(coordinator, 'b) io"
    by (simp add: io_ok_def)
  have conf: "leads ?n (configureExperiment k (rc_initialPeerType ex) True ?n NO_PEER_ID ?base FixedRounds q s)" for s
    by (simp add: leads_def configureExperiment_def)
  have tests: "io_ok (\<lambda>_. True) (\<lambda>s h. leads ?n s) (leader_tests env ex k ?base (nat (rc_tests ex)) 0 no_tests_done g)
      (\<lambda>(d, g) s h. \<not> td_experimentTimedOut d \<longrightarrow> td_allTestsSucceeded d \<and> all_done ?n (nat (rc_tests ex)) h) (\<lambda>_ _. True)"
    by (rule ok_weaken [OF leader_tests_succeed [OF refl, where t = 0]]) (auto simp: no_tests_done_def all_done_def)
  have written: "io_ok (\<lambda>_. True) (\<lambda>s h. \<not> td_experimentTimedOut d \<longrightarrow> td_allTestsSucceeded d \<and> all_done ?n (nat (rc_tests ex)) h)
      (io_bind (writeLeaderReport (le_opens env) out (experiment_report path ex (le_duration env (nat (rc_tests ex))) d report))
        (\<lambda>out. io_return (out, td_experimentTimedOut d, g))) ?Q (\<lambda>_ _. True)" if "is_object report" for d out report g
    using put_member_found that
    by (auto simp: writeLeaderReport_def runtime_error_def io_bind_return experiment_report_def io_ok_def io_bind_def io_raise_def io_return_def
      split: prod.splits)
  have report: "io_ok (\<lambda>_. True) (\<lambda>s h. leads ?n s) (io_bind (io_result (makeBaseExperimentReport k ex q)) (\<lambda>report.
      io_bind (leader_tests env ex k ?base (nat (rc_tests ex)) 0 no_tests_done g) (\<lambda>(d, g).
      io_bind (writeLeaderReport (le_opens env) out (experiment_report path ex (le_duration env (nat (rc_tests ex))) d report))
        (\<lambda>out. io_return (out, td_experimentTimedOut d, g))))) ?Q (\<lambda>_ _. True)" for out
  proof (cases "makeBaseExperimentReport k ex q")
    case (Inr report)
    show ?thesis
      unfolding Inr io_result_def sum.case io_bind_return
    proof (rule ok_bind [OF tests])
      show "io_ok (\<lambda>_. True) ((\<lambda>(d, g) s h. \<not> td_experimentTimedOut d \<longrightarrow> td_allTestsSucceeded d \<and> all_done ?n (nat (rc_tests ex)) h) x)
        (case x of (d, g) \<Rightarrow> io_bind (writeLeaderReport (le_opens env) out (experiment_report path ex (le_duration env (nat (rc_tests ex))) d report))
          (\<lambda>out. io_return (out, td_experimentTimedOut d, g))) ?Q (\<lambda>_ _. True)" for x
        using written [OF base_report_object [OF Inr]] by (cases x) simp
    qed
  next
    case (Inl e)
    then show ?thesis by (cases e) (auto simp: io_result_def io_ok_def io_bind_def io_raise_def)
  qed
  show ?thesis
    unfolding run_experiment_def Let_def
    by (rule ok_bind [OF any ok_seq [where R = "\<lambda>s h. leads ?n s", OF ok_update]]) (rule conf, rule report)
qed

definition reported_success :: "runtimeExperimentConfig \<Rightarrow> report_file list \<Rightarrow> history \<Rightarrow> bool" where
  "reported_success ex reports h = ((\<exists>path report. reports = [(path, report)] \<and> jfind ''success'' report = Some (JBool True))
     \<and> all_done (nat (rc_initialPeers ex)) (nat (rc_tests ex)) h)"

lemma leader_experiment_succeeds:
  assumes "parseRuntimeExperiment config k = Inr ex" "\<not> lc_preflightOnly cli"
  shows "io_ok (\<lambda>_. True) (\<lambda>_ _. True) (leader_experiment env config cli k [] g)
     (\<lambda>(reports, failed, g) s h. \<not> failed \<longrightarrow> reported_success ex reports h) (\<lambda>_ _. True)"
  unfolding leader_experiment_def
proof (rule ok_catch_exception)
  let ?Q = "\<lambda>(reports, failed, g :: rng) s h. \<not> failed \<longrightarrow> reported_success ex reports h"
  let ?go = "\<lambda>(ex, q, g). if lc_preflightOnly cli then io_return ([], False, g)
        else io_bind (run_experiment env config (lc_inputPath cli) k ex q g) (\<lambda>(out, failed, g). io_return ([] @ [out], failed, g))"
  have go: "io_ok (\<lambda>_. True) (\<lambda>_ _. True) (?go (ex, q, g)) ?Q (\<lambda>_ _. True)" for q g
    unfolding prod.case
    by (rule ok_if, use assms(2) in simp, rule ok_bind [OF run_experiment_succeeds])
      (auto simp: reported_success_def split: prod.splits intro!: ok_return)
  show "io_ok (\<lambda>_. True) (\<lambda>_ _. True) (io_bind (io_result (check_experiment env config k g)) ?go) ?Q (\<lambda>_ _. True)"
  proof (cases "check_experiment env config k g")
    case (Inl e)
    then show ?thesis by (cases e) (auto simp: io_result_def io_bind_def io_raise_def io_ok_def)
  next
    case (Inr x)
    then obtain q' g' where x: "x = (ex, q', g')" using assms(1) check_experiment_parses by (cases x) fastforce
    show ?thesis using go [of q' g'] unfolding Inr x io_result_def sum.case io_bind_return .
  qed
  show "io_ok (\<lambda>_. True) (\<lambda>_ _. True) (io_seq cleanUp (io_return ([], True, g))) ?Q (\<lambda>_ _. True)"
    by (rule ok_seq [where R = "\<lambda>_ _. True"]) (auto simp: io_ok_def io_return_def)
qed simp

text \<open>Claim C38. Exit code 0. When the leader of an experiment exits with 0 it has written one report, which
  says success, and has taken from the completion queue at least as many successful completions of every peer
  as the experiment has tests.\<close>

theorem exit_zero_means_done:
  assumes args: "parseLeaderArgs argv = Some cli" "lc_experimentIndex cli = Some k" "loadRuntimeConfig (input (lc_inputPath cli)) = Some config"
      "parseRuntimeExperiment config k = Inr ex"
    and run: "leader_main env input argv g c as = (Value (0, reports), s', as', es)"
  shows "(\<exists>path report. reports = [(path, report)] \<and> jfind ''success'' report = Some (JBool True))
     \<and> (\<forall>q < nat (rc_initialPeers ex). nat (rc_tests ex) \<le> number (taken mq_done (done_message q)) es)"
proof -
  have p: "\<not> lc_preflightOnly cli" using args(1,2) by (auto simp: parseLeaderArgs_def split: list.splits if_splits option.splits prod.splits)
  let ?Q = "\<lambda>(code :: int, reports) s h. code = 0 \<longrightarrow> reported_success ex reports h"
  have one: "io_ok (\<lambda>_. True) (\<lambda>_ _. True) (leader_experiments env config cli [k] [] g) ?Q (\<lambda>_ _. True)"
    unfolding leader_experiments.simps
    by (rule ok_bind [OF leader_experiment_succeeds [OF args(4) p]]) (auto split: prod.splits intro!: ok_return)
  have "io_ok (\<lambda>_. True) (\<lambda>_ _. True) (leader_main env input argv g) ?Q (\<lambda>_ _. True)"
    by (cases "k < (case jfind ''experiments'' config of Some (JArr xs) \<Rightarrow> length xs | _ \<Rightarrow> 0)")
      (use one in \<open>simp_all add: leader_main_def args p selectExperimentIndexes_def ok_return\<close>)
  from io_okD(3) [OF this TrueI TrueI run refl, of "[]"]
  show ?thesis by (simp add: reported_success_def all_done_def dones_taken_def)
qed

end
