(* ===== verification/MqRun.thy ===== *)
theory MqRun
  imports MqSuccess
begin

text \<open>
  A complete run of the leader and one peer, with every answer of the queues: it shows that the hypotheses
  of the start barrier can hold, and that the clean-up of a test can destroy an inbox of the next.
\<close>

subsection \<open>Faultless queues\<close>

text \<open>Opening fails exactly when there is no such queue, creating is of a new name, and nothing times out.\<close>

fun faultless :: "string list \<Rightarrow> mq_event list \<Rightarrow> bool" where
  "faultless names [] = True"
| "faultless names ((Remove_queue q, a) # es) = faultless (removeAll q names) es"
| "faultless names ((Create_queue q c k, a) # es) = (q \<notin> set names \<and> a = Done \<and> faultless (q # names) es)"
| "faultless names ((Open_queue q, a) # es) = ((if q \<in> set names then a = Done else a = Failed []) \<and> faultless names es)"
| "faultless names ((Timed_send q m ms, a) # es) = (a = Accepted \<and> faultless names es)"
| "faultless names ((Timed_receive q ms, a) # es) = (a \<noteq> Expired \<and> faultless names es)"
| "faultless names (e # es) = faultless names es"

text \<open>The messages under way, as queue and message: a computation of \<open>queue_delivery\<close>.\<close>

definition put_by :: "mq_event \<Rightarrow> (string \<times> mq_message) option" where
  "put_by e = (case e of (Timed_send q m _, Accepted) \<Rightarrow> Some (q, m) | _ \<Rightarrow> None)"

definition got_by :: "mq_event \<Rightarrow> (string \<times> mq_message) option" where
  "got_by e = (case e of (Timed_receive q _, Got m) \<Rightarrow> Some (q, m) | (Receive q, Got m) \<Rightarrow> Some (q, m) | (Try_receive q, Got m) \<Rightarrow> Some (q, m)
     | _ \<Rightarrow> None)"

primrec in_flight :: "(string \<times> mq_message) list \<Rightarrow> mq_event list \<Rightarrow> bool" where
  "in_flight ms [] = True"
| "in_flight ms (e # es) = (case put_by e of Some x \<Rightarrow> in_flight (x # ms) es
     | None \<Rightarrow> (case got_by e of Some x \<Rightarrow> x \<in> set ms \<and> in_flight (remove1 x ms) es | None \<Rightarrow> in_flight ms es))"

definition messages_to :: "string \<Rightarrow> (string \<times> mq_message) list \<Rightarrow> mq_message list" where
  "messages_to q xs = map snd (filter (\<lambda>x. fst x = q) xs)"

lemma sent_in_Cons: "sent_in (e # es) q = messages_to q (case put_by e of Some x \<Rightarrow> [x] | None \<Rightarrow> []) @ sent_in es q"
proof -
  obtain c a where "e = (c, a)" by fastforce
  then show ?thesis by (cases c; simp add: sent_in_def put_by_def messages_to_def; cases a; simp)
qed

lemma taken_in_Cons: "taken_in (e # es) q = messages_to q (case got_by e of Some x \<Rightarrow> [x] | None \<Rightarrow> []) @ taken_in es q"
proof -
  obtain c a where "e = (c, a)" by fastforce
  then show ?thesis by (cases c; simp add: taken_in_def got_by_def messages_to_def; cases a; simp)
qed

lemma put_not_got: "put_by e = Some x \<Longrightarrow> got_by e = None"
  by (auto simp: put_by_def got_by_def split: prod.splits mq_call.splits mq_answer.splits)

lemma messages_to_remove: "x \<in> set ms \<Longrightarrow> mset (messages_to q ms) = mset (messages_to q [x]) + mset (messages_to q (remove1 x ms))"
  by (induction ms) (auto simp: messages_to_def)

lemma in_flight_take:
  "in_flight ms es \<Longrightarrow> mset (taken_in (take k es) q) \<subseteq># mset (sent_in (take k es) q) + mset (messages_to q ms)"
proof (induction es arbitrary: ms k)
  case Nil
  then show ?case by (simp add: taken_in_def)
next
  case (Cons e es)
  show ?case
  proof (cases k)
    case (Suc j)
    show ?thesis
    proof (cases "put_by e")
      case (Some x)
      have "mset (taken_in (take j es) q) \<subseteq># mset (sent_in (take j es) q) + mset (messages_to q (x # ms))"
        using Cons Some by simp
      then show ?thesis
        using Some put_not_got [OF Some] Suc by (auto simp: sent_in_Cons taken_in_Cons messages_to_def)
    next
      case None
      show ?thesis
      proof (cases "got_by e")
        case (Some x)
        have "mset (taken_in (take j es) q) \<subseteq># mset (sent_in (take j es) q) + mset (messages_to q (remove1 x ms))" "x \<in> set ms"
          using Cons Some None by simp_all
        then show ?thesis
          using Some None Suc messages_to_remove [of x ms q] by (simp add: sent_in_Cons taken_in_Cons)
            (simp add: messages_to_def add.left_commute mset_subset_eq_mono_add_left_cancel)
      next
        case None': None
        then show ?thesis using Cons None Suc by (simp add: sent_in_Cons taken_in_Cons messages_to_def)
      qed
    qed
  qed (simp add: taken_in_def)
qed

lemma in_flight_delivery: "in_flight [] (map snd H) \<Longrightarrow> queue_delivery H"
  using in_flight_take [of "[]" "map snd H"] by (simp add: queue_delivery_def take_map messages_to_def)

definition race_topology :: json where
  "race_topology = JObj [(''initialPeerType'', JStr ''P''), (''initialPeers'', JInt 1), (''type'', JStr ''complete'')]"

definition race_config :: json where
  "race_config = JObj [(''experiments'', JArr [JObj [(''boostMq'', JObj [(''maxMessageSizeBytes'', JInt 8)]), (''logFile'', JStr ''cout''),
     (''rounds'', JInt 1), (''tests'', JInt 2), (''topology'', race_topology)]])]"

definition race_experiment :: runtimeExperimentConfig where
  "race_experiment = \<lparr>rc_initialPeers = 1, rc_initialPeerType = ''P'', rc_topology = race_topology, rc_rounds = 1, rc_tests = 2, rc_doneTimeoutMs = 30000\<rparr>"

definition race_queues :: boostMqQueueConfig where
  "race_queues = (default_queueConfig 1)\<lparr>qc_maxMessageSizeBytes := 8\<rparr>"

definition race_leader :: leaderEnv where
  "race_leader = \<lparr>le_ser = (\<lambda>a. replicate 8 (nat (pa_id a))), le_queuesCreated = (\<lambda>_. True), le_creates = (\<lambda>_. True),
     le_opens = (\<lambda>_. True), le_file = (\<lambda>_ _. None), le_duration = (\<lambda>_. 0)\<rparr>"

definition race_peer :: "unit peerEnv" where
  "race_peer = \<lparr>pe_registry = [(''P'', \<lambda>_. ())], pe_perform = (\<lambda>_ p g. Some (p, [], g)), pe_initParameters = (\<lambda>_ ps g. Some (ps, g)),
     pe_endOfRound = (\<lambda>_. Some), pe_endOfExperiment = Some, pe_deser = (\<lambda>_. Some \<lparr>pa_id = 0, pa_topologyType = ''complete'', pa_neighbors = []\<rparr>),
     pe_save = (\<lambda>_. []), pe_load = (\<lambda>_. None), pe_creates = (\<lambda>_. True)\<rparr>"

definition idle_peer :: "unit peerProcess" where
  "idle_peer = coordinator.extend (new_coordinator FixedRounds)
     \<lparr>pp_localPeers = [], pp_rounds = rm_init, pp_rng = (\<lambda>_. 0), pp_activeTestNumber = 0, pp_metricsFile = [], pp_written = []\<rparr>"

fun race_argv :: "process_id \<Rightarrow> string list" where
  "race_argv Leader = [''leader'', ''--experiment'', ''0'', ''input'']"
| "race_argv (Peer i) = [''peer'', ''--experiment'', ''0'', ''input'', to_string i]"

text \<open>What the programs compute besides their calls.\<close>

lemma race_values:
  "loadRuntimeConfig (Some race_config) = Some race_config"
  "parseLeaderArgs (race_argv Leader) = Some \<lparr>lc_inputPath = ''input'', lc_experimentIndex = Some 0, lc_preflightOnly = False\<rparr>"
  "parseArgs (race_argv (Peer 0)) = Some \<lparr>ca_jsonPath = ''input'', ca_experimentIndex = 0, ca_peerId = 0\<rparr>"
  "parseRuntimeExperiment race_config 0 = Inr race_experiment"
  "jfind ''experiments'' race_config = Some (JArr [experiment_json race_config 0])"
  "chooseLogFileBase race_config (experiment_json race_config 0) = ''cout''"
  "value_string race_topology ''type'' ''unknown'' = Some ''complete''"
  "value_json (experiment_json race_config 0) ''parameters'' (JObj []) = Some (JObj [])"
  by code_simp+

lemma race_experiment_fields:
  "rc_initialPeers race_experiment = 1" "rc_initialPeerType race_experiment = ''P''" "rc_topology race_experiment = race_topology"
  "rc_rounds race_experiment = 1" "rc_tests race_experiment = 2" "rc_doneTimeoutMs race_experiment = 30000"
  by (simp_all add: race_experiment_def)

lemma race_queue_fields:
  "qc_controlQueueCapacity race_queues = 1" "qc_dataQueueCapacity race_queues = 1000" "qc_maxMessageSizeBytes race_queues = 8"
  "qc_readyTimeoutMs race_queues = 30000" "qc_controlSendTimeoutMs race_queues = 5000" "qc_dataSendTimeoutMs race_queues = 5"
  by (simp_all add: race_queues_def default_queueConfig_def to_size_t_def)

lemma race_leader_fields:
  "le_ser race_leader \<lparr>pa_id = 0, pa_topologyType = t, pa_neighbors = ns\<rparr> = [0, 0, 0, 0, 0, 0, 0, 0]" "le_creates race_leader = (\<lambda>_. True)"
  "le_queuesCreated race_leader = (\<lambda>_. True)" "le_opens race_leader = (\<lambda>_. True)" "le_file race_leader = (\<lambda>_ _. None)" "le_duration race_leader = (\<lambda>_. 0)"
  by (simp_all add: race_leader_def numeral_eq_Suc)

lemma race_peer_fields:
  "pe_registry race_peer = [(''P'', \<lambda>_. ())]" "pe_perform race_peer = (\<lambda>_ p g. Some (p, [], g))" "pe_initParameters race_peer = (\<lambda>_ ps g. Some (ps, g))"
  "pe_endOfRound race_peer = (\<lambda>_. Some)" "pe_endOfExperiment race_peer = Some"
  "pe_deser race_peer = (\<lambda>_. Some \<lparr>pa_id = 0, pa_topologyType = ''complete'', pa_neighbors = []\<rparr>)"
  "pe_save race_peer = (\<lambda>_. [])" "pe_load race_peer = (\<lambda>_. None)" "pe_creates race_peer = (\<lambda>_. True)"
  by (simp_all add: race_peer_def)

lemma race_plan: "buildTopology race_topology g = Inr ([\<lparr>pa_id = 0, pa_topologyType = ''complete'', pa_neighbors = []\<rparr>], g)"
proof -
  have parts: "requiredPositiveInteger race_topology ''initialPeers'' ''topology.initialPeers'' = Inr 1"
    "value_string race_topology ''identifiers'' [] = Some []" "value_string race_topology ''type'' [] = Some ''complete''"
    "plan_edges race_topology ''complete'' 1 [0] [\<lparr>pa_id = NO_PEER_ID, pa_topologyType = [], pa_neighbors = []\<rparr>]
       = Inr [\<lparr>pa_id = NO_PEER_ID, pa_topologyType = [], pa_neighbors = []\<rparr>]"
    by code_simp+
  show ?thesis by (simp add: buildTopology_def parts bindR_def of_json_def finish_plan_def empty_assignment_def Let_def)
qed

lemma race_queue_config: "parseBoostMqConfig (experiment_json race_config 0) 1 = Inr race_queues"
  by (simp add: parseBoostMqConfig_def experiment_json_def race_config_def race_queues_def positive_setting_def default_queueConfig_def bindR_def Let_def)

lemma race_check: "check_experiment race_leader race_config 0 g = Inr (race_experiment, race_queues, g)"
proof -
  have "preflightBoostMqQueues race_queues 0 True = Inr ()" "validateBoostMqAssignmentPayloads [8] race_queues 0 = Inr ()"
    by (simp_all add: preflightBoostMqQueues_def race_queues_def default_queueConfig_def to_size_t_def validateBoostMqAssignmentPayloads_def)
  then show ?thesis
    by (simp add: check_experiment_def race_values race_experiment_fields race_queue_config race_plan race_leader_def bindR_def)
qed

definition race_report :: json where
  "race_report = (case makeBaseExperimentReport 0 race_experiment race_queues of Inr r \<Rightarrow> r | Inl _ \<Rightarrow> JNull)"

definition race_summary :: json where
  "race_summary = (case summarizeTransportReliability (JObj []) of Some r \<Rightarrow> r | None \<Rightarrow> JNull)"

lemma race_names: "peerControlQueueName 0 = ''peer_0_control''" "peerDataQueueName 0 = ''peer_0_data''" "int_to_string 0 = ''0''"
  by code_simp+

lemma race_outputs:
  "makeBoostMqLeaderReportPath f ''cout'' 0 = Inr ''cout''" "makeBoostMqPeerOutputPath f ''cout'' 0 0 t = Inr ''cout''"
  "makeBaseExperimentReport 0 race_experiment race_queues = Inr race_report"
  "makePeerOutputFiles f ''cout'' 0 t 1 = Inr (JObj [(''0'', JStr ''cout'')])"
  "readPeerMetrics content (JObj [(''0'', JStr ''cout'')]) [0] = (True, JObj [])"
  "of_json (summarizeTransportReliability (JObj [])) = Inr race_summary"
  by (simp_all add: makeBoostMqLeaderReportPath_def makeBoostMqPeerOutputPath_def race_report_def makeBaseExperimentReport_def bindR_def of_json_def
    race_experiment_fields race_values race_names makePeerOutputFiles_def readPeerMetrics_def read_peer_def summarizeTransportReliability_def race_summary_def Let_def)

lemma race_tests: "[0..<2] = [0, Suc 0]"
  by (simp add: upt_rec)

lemma race_missing: "findMissingPeers 1 [0] = []" "findMissingPeers 1 [] = [0]"
  by code_simp+

lemmas exec_leader = leader_experiment_def [THEN fun_cong, THEN fun_cong]
  run_experiment_def [THEN fun_cong, THEN fun_cong]
  leader_test_def [THEN fun_cong, THEN fun_cong]
  createBarrier_def [THEN fun_cong, THEN fun_cong]
  waitForAllReady_def [THEN fun_cong, THEN fun_cong]
  ready_body_def [THEN fun_cong, THEN fun_cong]
  sendAssignments_def [THEN fun_cong, THEN fun_cong]
  send_assignment_def [THEN fun_cong, THEN fun_cong]
  broadcastStart_def [THEN fun_cong, THEN fun_cong]
  send_trigger_def [THEN fun_cong, THEN fun_cong]
  waitForAllDone_def [THEN fun_cong, THEN fun_cong]
  done_body_def [THEN fun_cong, THEN fun_cong]
  notifyPeerStopped_def [THEN fun_cong, THEN fun_cong]
  notifyPeerFailed_def [THEN fun_cong, THEN fun_cong]
  notifyPeerFinished_def [THEN fun_cong, THEN fun_cong]
  broadcastStop_def [THEN fun_cong, THEN fun_cong]
  handleControlSendFailure_def [THEN fun_cong, THEN fun_cong]
  handleReadinessTimeout_def [THEN fun_cong, THEN fun_cong]
  stop_and_clean_def [THEN fun_cong, THEN fun_cong]
  broadcastStopBestEffort_def [THEN fun_cong, THEN fun_cong]
  cleanUp_def [THEN fun_cong, THEN fun_cong]
  finish_test_def [THEN fun_cong, THEN fun_cong]
  writeLeaderReport_def [THEN fun_cong, THEN fun_cong]
  runtime_error_def [THEN fun_cong, THEN fun_cong]
  io_result_def [THEN fun_cong, THEN fun_cong]
  timedSendControlMessage_def [THEN fun_cong, THEN fun_cong]
  leader_experiments.simps [THEN fun_cong, THEN fun_cong] leader_tests.simps [THEN fun_cong, THEN fun_cong]

lemmas exec_peer = peer_experiment_def [THEN fun_cong, THEN fun_cong]
  peer_test_def [THEN fun_cong, THEN fun_cong]
  initRendezvous_def [THEN fun_cong, THEN fun_cong]
  createInbox_def [THEN fun_cong, THEN fun_cong]
  sendReady_def [THEN fun_cong, THEN fun_cong]
  waitForAssignments_def [THEN fun_cong, THEN fun_cong]
  prepareLocalPeers_def [THEN fun_cong, THEN fun_cong]
  buildLocalPeers_def [THEN fun_cong, THEN fun_cong]
  build_peer_def [THEN fun_cong, THEN fun_cong]
  mq_configure_def [THEN fun_cong, THEN fun_cong]
  waitForStart_def [THEN fun_cong, THEN fun_cong]
  peer_execute_def [THEN fun_cong, THEN fun_cong]
  initializeHooks_def [THEN fun_cong, THEN fun_cong]
  runRounds_def [THEN fun_cong, THEN fun_cong]
  round_body_def [THEN fun_cong, THEN fun_cong]
  round_of_peer_def [THEN fun_cong, THEN fun_cong]
  mq_receive_packets_def [THEN fun_cong, THEN fun_cong]
  receive_body_def [THEN fun_cong, THEN fun_cong]
  compute_peer_def [THEN fun_cong, THEN fun_cong]
  mq_send_all_def [THEN fun_cong, THEN fun_cong]
  run_hook_def [THEN fun_cong, THEN fun_cong]
  io_option_def [THEN fun_cong, THEN fun_cong]
  waitForStop_def [THEN fun_cong, THEN fun_cong]
  stop_body_def [THEN fun_cong, THEN fun_cong]
  waitForQueueRemoval_def [THEN fun_cong, THEN fun_cong]
  queueExists_def [THEN fun_cong, THEN fun_cong] at_local_def


lemma exec_attempts: "control_attempts (numeral k) q m failed expired s as = io_bind
     (catch_interprocess (io_seq (mq_open q) (timedSendControlMessage q m kControlSendWaitMs))
        (\<lambda>what. if pred_numeral k = 0 then runtime_error (failed what) else io_return False))
     (\<lambda>sent. if sent then io_return () else io_seq (mq_sleep kControlSendWaitMs) (control_attempts (pred_numeral k) q m failed expired)) s as"
   "waitForQueueRemoval_loop (numeral k) q s as = io_bind (queueExists q) (\<lambda>present. if \<not> present then io_return ()
     else io_seq (mq_sleep kControlSendWaitMs) (waitForQueueRemoval_loop (pred_numeral k) q)) s as"
   "leader_tests env ex e base (numeral k) t d g c as = io_bind (leader_test env ex e base t g) (\<lambda>(info, ends, g).
       let d = add_test info ends d in
       if ends then io_return (d, g) else leader_tests env ex e base (pred_numeral k) (t + 1) d g) c as"
  by (simp_all add: numeral_eq_Suc)

lemma race_assignment: "validateAssignment \<lparr>pa_id = 0, pa_topologyType = t, pa_neighbors = []\<rparr> 1 = Inr ()"
  by (simp add: validateAssignment_def)

lemma race_makePeer: "makePeer [(''P'', \<lambda>_. ())] ''P'' 0 NO_PEER_ID
   = Some (\<lparr>nd_iface = new_iface 0 0, nd_crashRecoveryRound = 0, nd_state = ()\<rparr>, 0)"
  by (simp add: makePeer_def NO_PEER_ID_def)

text \<open>
  The run. The leader's clean-up after the first test removes the control queue; the peer, which waited for
  that, creates its inboxes of the second test, and the leader goes on to remove the data queue.
\<close>

definition before_cleanup :: system_history where
  "before_cleanup =
    [(Leader, Remove_queue ''mq_barrier'', Done), (Leader, Remove_queue ''mq_done'', Done),
     (Leader, Create_queue ''mq_barrier'' 1 8, Done), (Leader, Create_queue ''mq_done'' 1 16, Done),
     (Peer 0, Remove_queue ''peer_0_control'', Done), (Peer 0, Remove_queue ''peer_0_data'', Done),
     (Peer 0, Create_queue ''peer_0_control'' 1 8, Done), (Peer 0, Create_queue ''peer_0_data'' 1000 8, Done),
     (Peer 0, Open_queue ''mq_barrier'', Done), (Peer 0, Timed_send ''mq_barrier'' (Id_message 0) 10, Accepted),
     (Leader, Timed_receive ''mq_barrier'' 30000, Got (Id_message 0)), (Leader, Open_queue ''peer_0_control'', Done),
     (Leader, Max_msg_size ''peer_0_control'', Size 8),
     (Leader, Timed_send ''peer_0_control'' (Archive_message [0, 0, 0, 0, 0, 0, 0, 0]) 5000, Accepted),
     (Leader, Open_queue ''peer_0_control'', Done), (Leader, Timed_send ''peer_0_control'' (Trigger_message 2) 5000, Accepted),
     (Peer 0, Receive ''peer_0_control'', Got (Archive_message [0, 0, 0, 0, 0, 0, 0, 0])), (Peer 0, Open_queue ''peer_0_data'', Done),
     (Peer 0, Receive ''peer_0_control'', Got (Trigger_message 2)), (Peer 0, Num_msg ''peer_0_data'', Size 0),
     (Peer 0, Try_receive ''peer_0_data'', Expired), (Peer 0, Open_queue ''mq_done'', Done),
     (Peer 0, Timed_send ''mq_done'' (Completion_message 0 True) 10, Accepted), (Leader, Open_queue ''mq_done'', Done),
     (Leader, Timed_receive ''mq_done'' 30000, Got (Completion_message 0 True)), (Leader, Open_queue ''peer_0_control'', Done),
     (Leader, Timed_send ''peer_0_control'' (Trigger_message 3) 5000, Accepted),
     (Peer 0, Receive ''peer_0_control'', Got (Trigger_message 3)), (Leader, Remove_queue ''mq_barrier'', Done),
     (Leader, Remove_queue ''mq_done'', Done), (Leader, Remove_queue ''peer_0_control'', Done),
     (Peer 0, Open_queue ''peer_0_control'', Failed []), (Peer 0, Remove_queue ''peer_0_control'', Done),
     (Peer 0, Remove_queue ''peer_0_data'', Done), (Peer 0, Create_queue ''peer_0_control'' 1 8, Done)]"

definition between_removals :: system_history where
  "between_removals =
    [(Leader, Remove_queue ''mq_barrier'', Done), (Leader, Remove_queue ''mq_done'', Done),
     (Leader, Create_queue ''mq_barrier'' 1 8, Done), (Leader, Create_queue ''mq_done'' 1 16, Done),
     (Peer 0, Open_queue ''mq_barrier'', Done), (Peer 0, Timed_send ''mq_barrier'' (Id_message 0) 10, Accepted),
     (Leader, Timed_receive ''mq_barrier'' 30000, Got (Id_message 0)), (Leader, Open_queue ''peer_0_control'', Done),
     (Leader, Max_msg_size ''peer_0_control'', Size 8),
     (Leader, Timed_send ''peer_0_control'' (Archive_message [0, 0, 0, 0, 0, 0, 0, 0]) 5000, Accepted),
     (Leader, Open_queue ''peer_0_control'', Done), (Leader, Timed_send ''peer_0_control'' (Trigger_message 2) 5000, Accepted),
     (Peer 0, Receive ''peer_0_control'', Got (Archive_message [0, 0, 0, 0, 0, 0, 0, 0]))]"

definition after_failure :: system_history where
  "after_failure =
    [(Peer 0, Open_queue ''mq_done'', Done), (Peer 0, Timed_send ''mq_done'' (Completion_message 0 False) 10, Accepted),
     (Peer 0, Remove_queue ''peer_0_control'', Done), (Peer 0, Remove_queue ''peer_0_data'', Done),
     (Leader, Open_queue ''mq_done'', Done), (Leader, Timed_receive ''mq_done'' 30000, Got (Completion_message 0 False)),
     (Leader, Open_queue ''peer_0_control'', Failed []), (Leader, Remove_queue ''mq_barrier'', Done),
     (Leader, Remove_queue ''mq_done'', Done), (Leader, Remove_queue ''peer_0_control'', Done),
     (Leader, Remove_queue ''peer_0_data'', Done)]"

definition race_history :: system_history where
  "race_history = before_cleanup @ (Peer 0, Create_queue ''peer_0_data'' 1000 8, Done) # (Leader, Remove_queue ''peer_0_data'', Done)
     # between_removals @ (Peer 0, Open_queue ''peer_0_data'', Failed []) # after_failure"

definition answers_of :: "process_id \<Rightarrow> system_history \<Rightarrow> mq_answer list" where
  "answers_of p H = map snd (process_events p H)"

lemmas race_history_defs = race_history_def before_cleanup_def between_removals_def after_failure_def process_events_def answers_of_def

lemma some_id: "NO_PEER_ID \<noteq> 0"
  by (simp add: NO_PEER_ID_def)

lemmas race_exec = some_id io_exec io_exec_calls exec_leader exec_peer exec_attempts race_values race_experiment_fields race_queue_fields
  race_queue_config race_outputs race_names Let_def configureExperiment_def new_coordinator_def kStartTrigger_def kStopTrigger_def
  mq_barrier_def mq_done_def insort_insert_key_def

lemma leader_run:
  "\<exists>r s'. leader_main race_leader (\<lambda>_. Some race_config) (race_argv Leader) (\<lambda>_. 0) (new_coordinator FixedRounds)
     (answers_of Leader race_history) = (Value (1, r), s', [], process_events Leader race_history)"
  apply (simp only: leader_main_def race_values option.case leaderCliArgs.simps selectExperimentIndexes_def)
  apply (simp add: race_history_defs race_exec race_check race_leader_fields race_plan race_missing no_completions_def add_test_def no_tests_done_def cong: io_exec_cong)
  done

lemma peer_run:
  "\<exists>s'. peer_main race_peer (\<lambda>_. Some race_config) (race_argv (Peer 0)) idle_peer (answers_of (Peer 0) race_history)
     = (Value 1, s', [], process_events (Peer 0) race_history)"
  apply (simp only: peer_main_def race_values option.case peerCliArgs.simps)
  apply (simp add: race_history_defs race_exec race_peer_fields race_tests race_assignment race_makePeer add_local_def new_mqNode_def clean_local_def
    reset_metrics_def mq_resetTransportMetrics_def no_metrics_def runRounds_def shouldStop_def set_nodes_def isCrashed_def
    emitFinalExperimentMetrics_def mq_now_def rm_init_def synchronous_def setLastRound_def setCurrentRound_def incrementRound_def
    currentRound_def idle_peer_def coordinator.defs peer_setup_def to_size_t_def kControlSendAttempts_def kControlSendWaitMs_def bindR_def
    cong: io_exec_cong)
  done

lemma race_faultless: "faultless [] (map snd race_history)"
  by (simp add: race_history_defs)

lemma race_delivered: "queue_delivery race_history"
  by (rule in_flight_delivery) (simp add: race_history_defs put_by_def got_by_def)


lemma runs_whole: "p s as = (r, s', as', es) \<Longrightarrow> runs p s es"
  unfolding runs_def by (metis take_all order_refl)

lemma race_system:
  "experiment_system race_leader (\<lambda>_. race_peer) (\<lambda>_. Some race_config) race_argv (\<lambda>_. 0) (new_coordinator FixedRounds) (\<lambda>_. idle_peer)
     (nat (rc_initialPeers race_experiment)) race_history"
  "experiment_arguments (\<lambda>_. Some race_config) race_argv race_experiment"
proof -
  obtain r s' s'' where run: "leader_main race_leader (\<lambda>_. Some race_config) (race_argv Leader) (\<lambda>_. 0) (new_coordinator FixedRounds)
      (answers_of Leader race_history) = (Value (1, r), s', [], process_events Leader race_history)"
    "peer_main race_peer (\<lambda>_. Some race_config) (race_argv (Peer 0)) idle_peer (answers_of (Peer 0) race_history)
      = (Value 1, s'', [], process_events (Peer 0) race_history)"
    using leader_run peer_run by blast
  have "\<forall>e\<in>set race_history. fst e = Leader \<or> fst e = Peer 0"
    by (simp add: race_history_defs)
  moreover have "runs (leader_main race_leader (\<lambda>_. Some race_config) (race_argv Leader) (\<lambda>_. 0)) (new_coordinator FixedRounds)
      (process_events Leader race_history)" by (rule runs_whole) (rule run(1))
  moreover have "runs (peer_main race_peer (\<lambda>_. Some race_config) (race_argv (Peer 0))) idle_peer (process_events (Peer 0) race_history)"
    by (rule runs_whole) (rule run(2))
  ultimately show "experiment_system race_leader (\<lambda>_. race_peer) (\<lambda>_. Some race_config) race_argv (\<lambda>_. 0) (new_coordinator FixedRounds) (\<lambda>_. idle_peer)
     (nat (rc_initialPeers race_experiment)) race_history"
    using race_delivered by (simp add: experiment_system_def race_experiment_fields)
  show "experiment_arguments (\<lambda>_. Some race_config) race_argv race_experiment"
    using race_values by (simp add: experiment_arguments_def race_experiment_fields)
qed

text \<open>Claim C37. Clean-up race. With faultless queues an experiment can fail: between the leader's removal of
  a peer's control queue and of its data queue the peer may create its inboxes of the next test, and the
  leader then removes the new data queue. There is a run in which no call fails or times out but for a queue
  that does not exist, the peer does not remove the data queue it created, and yet cannot open it; the peer
  reports the failure, and both processes exit with 1.\<close>

theorem cleanup_removes_next_inbox:
  "\<exists>lenv penv input argv ex g c s H as bs reports h1 h2 h3.
     experiment_system lenv penv input argv g c s (nat (rc_initialPeers ex)) H \<and> experiment_arguments input argv ex \<and> faultless [] (map snd H)
     \<and> fst (leader_main lenv input (argv Leader) g c as) = Value (1, reports)
     \<and> snd (snd (snd (leader_main lenv input (argv Leader) g c as))) = process_events Leader H
     \<and> fst (peer_main (penv 0) input (argv (Peer 0)) (s (0::nat) :: unit peerProcess) bs) = Value 1
     \<and> snd (snd (snd (peer_main (penv 0) input (argv (Peer 0)) (s 0) bs))) = process_events (Peer 0) H
     \<and> H = h1 @ (Peer 0, Create_queue (peerDataQueueName 0) 1000 8, Done) # (Leader, Remove_queue (peerDataQueueName 0), Done)
             # h2 @ (Peer 0, Open_queue (peerDataQueueName 0), Failed []) # h3
     \<and> \<not> list_ex (\<lambda>e. fst e = Peer 0 \<and> (case fst (snd e) of Remove_queue _ \<Rightarrow> True | _ \<Rightarrow> False)) h2
     \<and> list_ex (\<lambda>e. case e of (Peer 0, Timed_send q m _, Accepted) \<Rightarrow> q = mq_done \<and> m = Completion_message 0 False | _ \<Rightarrow> False) h3"
proof -
  obtain r s' s'' where run: "leader_main race_leader (\<lambda>_. Some race_config) (race_argv Leader) (\<lambda>_. 0) (new_coordinator FixedRounds)
      (answers_of Leader race_history) = (Value (1, r), s', [], process_events Leader race_history)"
    "peer_main race_peer (\<lambda>_. Some race_config) (race_argv (Peer 0)) idle_peer (answers_of (Peer 0) race_history)
      = (Value 1, s'', [], process_events (Peer 0) race_history)"
    using leader_run peer_run by blast
  have "\<not> list_ex (\<lambda>e. fst e = Peer 0 \<and> (case fst (snd e) of Remove_queue _ \<Rightarrow> True | _ \<Rightarrow> False)) between_removals"
    "list_ex (\<lambda>e. case e of (Peer 0, Timed_send q m _, Accepted) \<Rightarrow> q = mq_done \<and> m = Completion_message 0 False | _ \<Rightarrow> False) after_failure"
    by (simp_all add: between_removals_def after_failure_def mq_done_def)
  then show ?thesis
    using race_system race_faultless run race_history_def race_names
    by (intro exI [of _ race_leader] exI [of _ "\<lambda>_. race_peer"] exI [of _ "\<lambda>_. Some race_config"] exI [of _ race_argv]
      exI [of _ race_experiment] exI [of _ "\<lambda>_. 0"] exI [of _ "new_coordinator FixedRounds"] exI [of _ "\<lambda>_. idle_peer"]
      exI [of _ race_history] exI [of _ "answers_of Leader race_history"] exI [of _ "answers_of (Peer 0) race_history"] exI [of _ r]
      exI [of _ before_cleanup] exI [of _ between_removals] exI [of _ after_failure]) (simp add: race_experiment_fields)
qed

theorem start_after_inboxes_witness:
  "number (taken (peerControlQueueName 0) start_message) (process_events (Peer 0) (take 20 race_history))
     \<le> number (created (peerDataQueueName 0)) (process_events (Peer 0) (take 20 race_history))
   \<and> number (taken (peerControlQueueName 0) start_message) (process_events (Peer 0) (take 20 race_history)) = 1"
proof -
  have "length (le_ser race_leader a) \<noteq> 4" for a by (simp add: race_leader_def)
  then have "number (taken (peerControlQueueName (int 0)) start_message) (process_events (Peer 0) (take 20 race_history))
     \<le> number (created (peerDataQueueName (int 0))) (process_events (Peer 0) (take 20 race_history))"
    by (intro start_after_inboxes [OF race_system]) (simp_all add: race_experiment_fields)
  then show ?thesis
    by (simp add: race_history_defs race_names taken_def start_message_def kStartTrigger_def)
qed

text \<open>A run in which both tests succeed.\<close>

definition test_answers :: "mq_answer list" where
  "test_answers = [Done, Done, Done, Done, Got (Id_message 0), Done, Size 8, Accepted, Done, Accepted, Done,
     Got (Completion_message 0 True), Done, Accepted, Done, Done, Done, Done]"

lemma successful_run:
  "\<exists>reports s' es. leader_main race_leader (\<lambda>_. Some race_config) (race_argv Leader) (\<lambda>_. 0) (new_coordinator FixedRounds)
     (test_answers @ test_answers) = (Value (0, reports), s', [], es)"
  apply (simp only: leader_main_def race_values option.case leaderCliArgs.simps selectExperimentIndexes_def)
  apply (simp add: test_answers_def race_exec race_check race_leader_fields race_plan race_missing no_completions_def add_test_def no_tests_done_def
    cong: io_exec_cong)
  done

lemma exit_zero_means_done_witness:
  "\<exists>reports s' es. leader_main race_leader (\<lambda>_. Some race_config) (race_argv Leader) (\<lambda>_. 0) (new_coordinator FixedRounds)
     (test_answers @ test_answers) = (Value (0, reports), s', [], es) \<and> 2 \<le> number (taken mq_done (done_message 0)) es"
proof -
  obtain reports s' es where run: "leader_main race_leader (\<lambda>_. Some race_config) (race_argv Leader) (\<lambda>_. 0) (new_coordinator FixedRounds)
     (test_answers @ test_answers) = (Value (0, reports), s', [], es)"
    using successful_run by blast
  have "\<forall>q < nat (rc_initialPeers race_experiment). nat (rc_tests race_experiment) \<le> number (taken mq_done (done_message q)) es"
    by (rule exit_zero_means_done [THEN conjunct2, OF race_values(2) _ _ race_values(4) run]) (simp_all add: race_values)
  then show ?thesis using run by (auto simp: race_experiment_fields)
qed

end
