(* ===== verification/TcpCoordinator.thy ===== *)
theory TcpCoordinator
  imports TopologyPlanner
begin

text \<open>
  The coordinator of the TCP back end: src/quantas/Common/Concrete/Backends/TCP/ProcessCoordinator.cpp.
  Every process has one; the leader collects registrations, hands out the peers, and starts and stops the
  experiment. A handler is one step: the code runs it under \<open>_configurationMutex\<close>. Sockets, threads and
  their connections are left out: a handler yields the JSON messages it sends, with their addresses, and
  every message may be lost (\<open>sendJson\<close> gives up after 25 attempts). Logging and the environment variables
  are left out. Sums of \<open>requestedPeers\<close> are taken to fit an \<open>int\<close>.
\<close>

subsection \<open>State\<close>

record processRecord =
  pr_ip :: string
  pr_port :: int
  pr_requestedPeers :: int
  pr_assignedPeers :: "interfaceId list"
  pr_ready :: bool

record tcpAssignment =
  ta_id :: interfaceId
  ta_neighbors :: idset

record peerEndpoint =
  en_id :: interfaceId
  en_ip :: string
  en_port :: int

record processEndpointRange =
  rg_firstId :: interfaceId
  rg_lastId :: interfaceId
  rg_ip :: string
  rg_port :: int

datatype stopCondition = PeerSignals | Stop_after nat

text \<open>
  Hash maps are only looked up and updated: they are maps. \<open>tc_allPeers\<close> keeps its keys too, for its size.
  \<open>tc_rng\<close> is the generator of \<open>buildTopology\<close>, \<open>tc_now\<close> the round that packets are stamped with.
\<close>

record tcp =
  tc_rootConfig :: json
  tc_experimentConfig :: json
  tc_peerType :: string
  tc_leaderIp :: string
  tc_leaderPort :: int
  tc_leaderId :: interfaceId
  tc_experimentIndex :: nat
  tc_totalPeers :: int
  tc_peersPerProcess :: int
  tc_isLeader :: bool
  tc_myIp :: string
  tc_myPort :: int
  tc_stopCondition :: stopCondition
  tc_assignmentsReady :: bool
  tc_startSignal :: bool
  tc_stopSignal :: bool
  tc_stopTimerActive :: bool
  tc_localAssignments :: "tcpAssignment list"
  tc_processes :: "string \<rightharpoonup> processRecord"
  tc_registrationOrder :: "string list"
  tc_allPeers :: "(interfaceId \<times> peerEndpoint) list"
  tc_peerRanges :: "processEndpointRange list"
  tc_localInterfaces :: idset
  tc_inboundQueues :: "interfaceId \<rightharpoonup> packet list"
  tc_completedPeers :: idset
  tc_rng :: rng
  tc_now :: int

type_synonym tcp_send = "string \<times> int \<times> json"

text \<open>A step: its result, \<open>None\<close> for an exception, the state it leaves and the messages it sends.\<close>

type_synonym 'a act = "tcp \<Rightarrow> 'a option \<times> tcp \<times> tcp_send list"

definition act_return :: "'a \<Rightarrow> 'a act" where
  "act_return x s = (Some x, s, [])"

definition act_throw :: "'a act" where
  "act_throw s = (None, s, [])"

definition act_bind :: "'a act \<Rightarrow> ('a \<Rightarrow> 'b act) \<Rightarrow> 'b act" where
  "act_bind p f s = (case p s of (Some x, s, out) \<Rightarrow> (case f x s of (r, s, out') \<Rightarrow> (r, s, out @ out'))
     | (None, s, out) \<Rightarrow> (None, s, out))"

definition act_seq :: "unit act \<Rightarrow> 'b act \<Rightarrow> 'b act" where
  "act_seq p q = act_bind p (\<lambda>_. q)"

definition act_get :: "tcp act" where
  "act_get s = (Some s, s, [])"

definition act_update :: "(tcp \<Rightarrow> tcp) \<Rightarrow> unit act" where
  "act_update f s = (Some (), f s, [])"

definition act_read :: "'a option \<Rightarrow> 'a act" where
  "act_read r = (case r of None \<Rightarrow> act_throw | Some x \<Rightarrow> act_return x)"

primrec act_for :: "('x \<Rightarrow> unit act) \<Rightarrow> 'x list \<Rightarrow> unit act" where
  "act_for f [] = act_return ()"
| "act_for f (x # xs) = act_seq (f x) (act_for f xs)"

definition sendJson :: "string \<Rightarrow> int \<Rightarrow> json \<Rightarrow> unit act" where
  "sendJson ip port msg s = (Some (), s, [(ip, port, msg)])"

definition processKey :: "string \<Rightarrow> int \<Rightarrow> string" where
  "processKey ip port = ip @ '':'' @ int_to_string port"

subsection \<open>The topology\<close>

text \<open>
  The file has its own copy of the planner, without its checks. \<open>std::stoi\<close> reads a prefix of the key, and
  \<open>resize\<close> of a negative number throws.
\<close>

definition stoi :: "string \<Rightarrow> int option" where
  "stoi s = (case stoll s of None \<Rightarrow> None | Some (v, _) \<Rightarrow> if - (2 ^ 31) \<le> v \<and> v < 2 ^ 31 then Some v else None)"

definition tcp_destination :: "int \<Rightarrow> interfaceId list \<Rightarrow> int \<Rightarrow> json \<Rightarrow> peerAssignment list \<Rightarrow> peerAssignment list option" where
  "tcp_destination n ids idx dest as = do {
     neighborIndex \<leftarrow> map_option to_int32 (get_int dest);
     if neighborIndex < 0 \<or> neighborIndex \<ge> n then Some as
     else Some (addDirectedEdge n (ids ! nat idx) (ids ! nat neighborIndex) as) }"

definition tcp_entry :: "int \<Rightarrow> interfaceId list \<Rightarrow> string \<times> json \<Rightarrow> peerAssignment list \<Rightarrow> peerAssignment list option" where
  "tcp_entry n ids = (\<lambda>(key, value) as. do {
     idx \<leftarrow> stoi key;
     if idx < 0 \<or> idx \<ge> n then Some as
     else (case value of JArr dests \<Rightarrow> foldM (tcp_destination n ids idx) dests as | _ \<Rightarrow> Some as) })"

definition tcp_dimensions :: "json \<Rightarrow> int \<Rightarrow> (nat \<times> nat) option" where
  "tcp_dimensions topology n = do {
     height \<leftarrow> map_option to_int32 (value_int topology ''height'' 1); width \<leftarrow> map_option to_int32 (value_int topology ''width'' 1);
     if to_int32 (height * width) \<noteq> height * width then None
     else Some (if height * width \<noteq> n then (1, nat n) else (nat height, nat width)) }"

definition tcp_edges :: "json \<Rightarrow> string \<Rightarrow> int \<Rightarrow> interfaceId list \<Rightarrow> peerAssignment list \<Rightarrow> peerAssignment list option" where
  "tcp_edges topology type n ids as =
     (if type = ''complete'' then Some (undirected n ids (plan_complete (nat n)) as)
      else if type = ''star'' then Some (undirected n ids (plan_star (nat n)) as)
      else if type = ''grid'' then do { (h, w) \<leftarrow> tcp_dimensions topology n; Some (undirected n ids (plan_grid h w) as) }
      else if type = ''torus'' then do { (h, w) \<leftarrow> tcp_dimensions topology n; Some (undirected n ids (plan_torus h w) as) }
      else if type = ''chain'' then Some (undirected n ids (plan_chain (nat n)) as)
      else if type = ''ring'' then Some (undirected n ids (plan_ring (nat n)) as)
      else if type = ''unidirectionalRing'' then Some (directed n ids (plan_ring (nat n)) as)
      else if type = ''userList'' then (case jfind ''list'' topology of
           Some (JObj entries) \<Rightarrow> foldM (tcp_entry n ids) entries as | _ \<Rightarrow> Some as)
      else Some as)"

definition tcp_buildTopology :: "json \<Rightarrow> rng \<Rightarrow> (tcpAssignment list \<times> rng) option" where
  "tcp_buildTopology topology g = do {
     n \<leftarrow> map_option to_int32 (value_int topology ''initialPeers'' 0);
     if n < 0 then None else if n = 0 then Some ([], g)
     else do {
       identifiers \<leftarrow> value_string topology ''identifiers'' [];
       let ids = map int [0..<nat n];
       let (ids, g) = (if identifiers = ''random'' then shuffle ids g else (ids, g));
       type \<leftarrow> value_string topology ''type'' [];
       as \<leftarrow> tcp_edges topology type n ids (replicate (nat n) empty_assignment);
       Some (map (\<lambda>(k, a). \<lparr>ta_id = int k, ta_neighbors = pa_neighbors a\<rparr>) (zip [0..<length as] as), g) } }"

text \<open>\<open>_experimentConfig["topology"]\<close> on the member that is not constant.\<close>

definition plan :: "tcpAssignment list act" where
  "plan = act_bind act_get (\<lambda>s. act_bind (act_read (do { t \<leftarrow> jindex (tc_experimentConfig s) ''topology''; tcp_buildTopology t (tc_rng s) })) (\<lambda>(as, g).
     act_seq (act_update (\<lambda>s. s\<lparr>tc_rng := g\<rparr>)) (act_return as)))"

subsection \<open>Messages\<close>

definition register_message :: "tcp \<Rightarrow> json" where
  "register_message s = jobject [(''type'', JStr ''register''), (''experimentIndex'', JInt (int (tc_experimentIndex s))), (''ip'', JStr (tc_myIp s)),
     (''port'', JInt (tc_myPort s)), (''requestedPeers'', JInt (tc_peersPerProcess s))]"

definition ready_message_tcp :: "tcp \<Rightarrow> json" where
  "ready_message_tcp s = jobject [(''type'', JStr ''ready''), (''experimentIndex'', JInt (int (tc_experimentIndex s))), (''ip'', JStr (tc_myIp s)),
     (''port'', JInt (tc_myPort s))]"

definition start_message_tcp :: "tcp \<Rightarrow> json" where
  "start_message_tcp s = jobject [(''type'', JStr ''start''), (''experimentIndex'', JInt (int (tc_experimentIndex s)))]"

definition stop_message_tcp :: "string \<Rightarrow> tcp \<Rightarrow> json" where
  "stop_message_tcp reason s = jobject [(''type'', JStr ''stop''), (''experimentIndex'', JInt (int (tc_experimentIndex s))), (''reason'', JStr reason)]"

definition peer_done_message :: "interfaceId \<Rightarrow> tcp \<Rightarrow> json" where
  "peer_done_message i s = jobject [(''type'', JStr ''peer_done''), (''experimentIndex'', JInt (int (tc_experimentIndex s))), (''peerId'', JInt i)]"

definition unicast_message :: "interfaceId \<Rightarrow> interfaceId \<Rightarrow> json \<Rightarrow> tcp \<Rightarrow> json" where
  "unicast_message from to body s = jobject [(''type'', JStr ''message''), (''experimentIndex'', JInt (int (tc_experimentIndex s))),
     (''from_id'', JInt from), (''to_id'', JInt to), (''body'', body)]"

definition peer_entry :: "tcpAssignment list \<Rightarrow> interfaceId \<Rightarrow> json" where
  "peer_entry as i = jobject [(''id'', JInt i), (''neighbors'', JArr (map JInt (ta_neighbors (as ! nat i))))]"

definition range_entry :: "processEndpointRange \<Rightarrow> json" where
  "range_entry r = jobject [(''firstId'', JInt (rg_firstId r)), (''lastId'', JInt (rg_lastId r)), (''ip'', JStr (rg_ip r)), (''port'', JInt (rg_port r))]"

definition assignment_message :: "tcpAssignment list \<Rightarrow> interfaceId list \<Rightarrow> processEndpointRange list \<Rightarrow> tcp \<Rightarrow> json" where
  "assignment_message as ids ranges s = jobject [(''type'', JStr ''assignment''), (''experimentIndex'', JInt (int (tc_experimentIndex s))),
     (''peers'', JArr (map (peer_entry as) ids)), (''peerRanges'', JArr (map range_entry ranges))]"

subsection \<open>Assignments received\<close>

text \<open>A \<open>for\<close> over a JSON value: the items of an array, the values of an object, a primitive value itself.\<close>

fun json_items :: "json \<Rightarrow> json list" where
  "json_items (JArr xs) = xs"
| "json_items (JObj kvs) = map snd kvs"
| "json_items JNull = []"
| "json_items v = [v]"

definition read_assignment :: "json \<Rightarrow> tcpAssignment option" where
  "read_assignment item = do {
     i \<leftarrow> value_id item ''id'' NO_PEER_ID;
     ns \<leftarrow> (case jfind ''neighbors'' item of None \<Rightarrow> Some []
            | Some js \<Rightarrow> foldM (\<lambda>j ns. do { n \<leftarrow> get_id j; Some (idset_insert n ns) }) (json_items js) []);
     Some \<lparr>ta_id = i, ta_neighbors = ns\<rparr> }"

definition read_range :: "json \<Rightarrow> processEndpointRange option" where
  "read_range item = do {
     first \<leftarrow> value_id item ''firstId'' NO_PEER_ID; lst \<leftarrow> value_id item ''lastId'' NO_PEER_ID;
     ip \<leftarrow> value_string item ''ip'' []; port \<leftarrow> value_int item ''port'' (-1);
     Some \<lparr>rg_firstId = first, rg_lastId = lst, rg_ip = ip, rg_port = to_int32 port\<rparr> }"

definition in_range :: "interfaceId \<Rightarrow> processEndpointRange \<Rightarrow> bool" where
  "in_range i r = (rg_firstId r \<le> i \<and> i \<le> rg_lastId r)"

text \<open>\<open>emplace\<close> keeps an entry that is there.\<close>

definition emplace :: "'k \<Rightarrow> 'v \<Rightarrow> ('k \<times> 'v) list \<Rightarrow> ('k \<times> 'v) list" where
  "emplace k v m = (if map_of m k = None then m @ [(k, v)] else m)"

definition place_peer :: "processEndpointRange list \<Rightarrow> tcpAssignment \<Rightarrow> (interfaceId \<times> peerEndpoint) list \<Rightarrow> (interfaceId \<times> peerEndpoint) list" where
  "place_peer ranges a m = (case find (in_range (ta_id a)) ranges of None \<Rightarrow> m
     | Some r \<Rightarrow> emplace (ta_id a) \<lparr>en_id = ta_id a, en_ip = rg_ip r, en_port = rg_port r\<rparr> m)"

definition handleAssignment :: "json \<Rightarrow> unit act" where
  "handleAssignment msg = act_bind
     (case jfind ''peers'' msg of Some (JArr items) \<Rightarrow>
          act_read (foldM (\<lambda>item as. do { a \<leftarrow> read_assignment item; Some (as @ [a]) }) items [])
        | _ \<Rightarrow> act_return []) (\<lambda>assignments. act_seq
     (case jfind ''peerRanges'' msg of Some (JArr items) \<Rightarrow>
          act_seq (act_update (\<lambda>s. s\<lparr>tc_allPeers := [], tc_peerRanges := []\<rparr>))
          (act_seq (act_for (\<lambda>item. act_bind (act_read (read_range item)) (\<lambda>r. act_update (\<lambda>s. s\<lparr>tc_peerRanges := tc_peerRanges s @ [r]\<rparr>))) items)
            (act_update (\<lambda>s. s\<lparr>tc_allPeers := fold (place_peer (tc_peerRanges s)) assignments (tc_allPeers s)\<rparr>)))
        | _ \<Rightarrow> act_return ())
     (act_update (\<lambda>s. s\<lparr>tc_localAssignments := assignments, tc_assignmentsReady := True\<rparr>)))"

subsection \<open>Handing out the peers\<close>

definition sendAssignmentToProcess :: "string \<Rightarrow> processRecord \<Rightarrow> unit act" where
  "sendAssignmentToProcess key r = act_bind plan (\<lambda>as. act_bind act_get (\<lambda>s.
     if list_ex (\<lambda>i. i < 0 \<or> nat i \<ge> length as) (pr_assignedPeers r) then act_throw
     else let message = assignment_message as (pr_assignedPeers r) (tc_peerRanges s) s in
       if key = processKey (tc_myIp s) (tc_myPort s) then handleAssignment message else sendJson (pr_ip r) (pr_port r) message))"

text \<open>
  The loop over the registrations: \<open>(nextId, records, endpoints, ranges)\<close>. It stops when all peers are
  handed out; processes after that keep the peers they have.
\<close>

fun hand_out :: "int \<Rightarrow> string list \<Rightarrow> int \<times> (string \<rightharpoonup> processRecord) \<times> (interfaceId \<times> peerEndpoint) list \<times> processEndpointRange list
    \<Rightarrow> int \<times> (string \<rightharpoonup> processRecord) \<times> (interfaceId \<times> peerEndpoint) list \<times> processEndpointRange list" where
  "hand_out n [] st = st"
| "hand_out n (key # keys) (nextId, records, endpoints, ranges) = (case records key of
       None \<Rightarrow> hand_out n keys (nextId, records, endpoints, ranges)
     | Some r \<Rightarrow>
         let available = min (pr_requestedPeers r) (n - nextId);
             assigned = [nextId..nextId + available - 1];
             st = (nextId + max 0 available, records(key \<mapsto> r\<lparr>pr_assignedPeers := assigned\<rparr>),
                   fold (\<lambda>i. emplace i \<lparr>en_id = i, en_ip = pr_ip r, en_port = pr_port r\<rparr>) assigned endpoints,
                   if available > 0 then ranges @ [\<lparr>rg_firstId = nextId, rg_lastId = nextId + available - 1, rg_ip = pr_ip r, rg_port = pr_port r\<rparr>] else ranges)
         in if nextId + max 0 available \<ge> n then st else hand_out n keys st)"

definition totalRequested :: "string list \<Rightarrow> (string \<rightharpoonup> processRecord) \<Rightarrow> int" where
  "totalRequested order records = sum_list (map (\<lambda>key. case records key of None \<Rightarrow> 0 | Some r \<Rightarrow> pr_requestedPeers r) order)"

definition distributeAssignmentsIfReady :: "unit act" where
  "distributeAssignmentsIfReady = act_bind act_get (\<lambda>s. let order = tc_registrationOrder s; snapshot = tc_processes s in
     if totalRequested order snapshot < tc_totalPeers s then act_return ()
     else act_bind plan (\<lambda>_. case hand_out (tc_totalPeers s) order (0, snapshot, [], []) of (_, records, endpoints, ranges) \<Rightarrow>
       act_seq (act_update (\<lambda>s. s\<lparr>tc_processes := records, tc_allPeers := endpoints, tc_peerRanges := ranges\<rparr>))
         (act_for (\<lambda>key. case records key of None \<Rightarrow> act_return () | Some r \<Rightarrow> sendAssignmentToProcess key r) order)))"

definition handleRegister :: "string \<Rightarrow> int \<Rightarrow> json \<Rightarrow> unit act" where
  "handleRegister remoteIp remotePort msg = act_bind act_get (\<lambda>s.
     act_bind (act_read (do { ip \<leftarrow> value_string msg ''ip'' remoteIp; port \<leftarrow> value_int msg ''port'' remotePort;
         requested \<leftarrow> value_int msg ''requestedPeers'' (tc_peersPerProcess s);
         Some \<lparr>pr_ip = ip, pr_port = to_int32 port, pr_requestedPeers = to_int32 requested, pr_assignedPeers = [], pr_ready = False\<rparr> })) (\<lambda>r.
     let key = processKey (pr_ip r) (pr_port r) in
     case tc_processes s key of
       None \<Rightarrow> act_seq (act_update (\<lambda>s. s\<lparr>tc_processes := (tc_processes s)(key \<mapsto> r), tc_registrationOrder := tc_registrationOrder s @ [key]\<rparr>))
         distributeAssignmentsIfReady
     | Some old \<Rightarrow> let r = r\<lparr>pr_assignedPeers := pr_assignedPeers old, pr_ready := pr_ready old\<rparr> in
         act_seq (act_update (\<lambda>s. s\<lparr>tc_processes := (tc_processes s)(key \<mapsto> r)\<rparr>))
           (if \<not> tc_startSignal s \<and> int (length (tc_allPeers s)) \<ge> tc_totalPeers s \<and> pr_assignedPeers r \<noteq> []
            then sendAssignmentToProcess key r else distributeAssignmentsIfReady)))"

subsection \<open>Start\<close>

definition handleStart :: "unit act" where
  "handleStart = act_update (\<lambda>s. s\<lparr>tc_startSignal := True\<rparr>)"

definition signal_process :: "unit act \<Rightarrow> json \<Rightarrow> processRecord \<Rightarrow> unit act" where
  "signal_process here message r = act_bind act_get (\<lambda>s.
     if pr_ip r = tc_myIp s \<and> pr_port r = tc_myPort s then here else sendJson (pr_ip r) (pr_port r) message)"

definition registered :: "tcp \<Rightarrow> processRecord list" where
  "registered s = List.map_filter (tc_processes s) (tc_registrationOrder s)"

definition broadcastStartIfReady :: "unit act" where
  "broadcastStartIfReady = act_bind act_get (\<lambda>s. if \<not> tc_isLeader s then act_return ()
     else let records = registered s in
       if \<not> list_all pr_ready records \<or> sum_list (map pr_requestedPeers records) < tc_totalPeers s \<or> records = [] then act_return ()
       else act_seq (act_for (signal_process handleStart (start_message_tcp s)) records)
         (act_update (\<lambda>s. case tc_stopCondition s of Stop_after _ \<Rightarrow> s\<lparr>tc_stopTimerActive := True\<rparr> | PeerSignals \<Rightarrow> s)))"

definition mark_record :: "string \<Rightarrow> tcp \<Rightarrow> tcp" where
  "mark_record key s = (case tc_processes s key of None \<Rightarrow> s
     | Some r \<Rightarrow> s\<lparr>tc_processes := (tc_processes s)(key \<mapsto> r\<lparr>pr_ready := True\<rparr>)\<rparr>)"

definition handleReady :: "json \<Rightarrow> unit act" where
  "handleReady msg = act_bind (act_read (do { ip \<leftarrow> value_string msg ''ip'' []; port \<leftarrow> value_int msg ''port'' (-1); Some (ip, to_int32 port) })) (\<lambda>(ip, port).
     if ip = [] \<or> port \<le> 0 then act_return ()
     else act_seq (act_update (mark_record (processKey ip port))) broadcastStartIfReady)"

definition markReady :: "unit act" where
  "markReady = act_bind act_get (\<lambda>s. if tc_isLeader s
     then act_seq (act_update (mark_record (processKey (tc_myIp s) (tc_myPort s)))) broadcastStartIfReady
     else sendJson (tc_leaderIp s) (tc_leaderPort s) (ready_message_tcp s))"

subsection \<open>Stop\<close>

definition handleStop :: "unit act" where
  "handleStop = act_update (\<lambda>s. s\<lparr>tc_stopSignal := True\<rparr>)"

definition broadcastStop_tcp :: "string \<Rightarrow> unit act" where
  "broadcastStop_tcp reason = act_bind act_get (\<lambda>s. if tc_stopSignal s then act_return ()
     else act_seq (act_update (\<lambda>s. s\<lparr>tc_stopSignal := True\<rparr>))
       (act_for (signal_process handleStop (stop_message_tcp reason s)) (registered s)))"

definition peer_completed :: "interfaceId \<Rightarrow> unit act" where
  "peer_completed i = act_bind act_get (\<lambda>s. let completed = idset_insert i (tc_completedPeers s) in
     act_seq (act_update (\<lambda>s. s\<lparr>tc_completedPeers := completed\<rparr>))
       (if int (length completed) \<ge> tc_totalPeers s then broadcastStop_tcp ''peer_done'' else act_return ()))"

definition handlePeerDone :: "interfaceId \<Rightarrow> unit act" where
  "handlePeerDone i = (if i = NO_PEER_ID then act_return () else peer_completed i)"

definition notifyPeerStopped_tcp :: "interfaceId \<Rightarrow> unit act" where
  "notifyPeerStopped_tcp i = (if i = NO_PEER_ID then act_return () else act_bind act_get (\<lambda>s.
     if tc_isLeader s then peer_completed i else sendJson (tc_leaderIp s) (tc_leaderPort s) (peer_done_message i s)))"

definition stop_timer :: "unit act" where
  "stop_timer = act_bind act_get (\<lambda>s. case tc_stopCondition s of PeerSignals \<Rightarrow> act_return ()
     | Stop_after _ \<Rightarrow> if \<not> tc_stopSignal s then broadcastStop_tcp ''time'' else act_return ())"

subsection \<open>Messages of the algorithm\<close>

definition registerInterface :: "interfaceId \<Rightarrow> tcp \<Rightarrow> tcp" where
  "registerInterface i s = s\<lparr>tc_localInterfaces := idset_insert i (tc_localInterfaces s),
     tc_inboundQueues := (if tc_inboundQueues s i = None then (tc_inboundQueues s)(i \<mapsto> []) else tc_inboundQueues s)\<rparr>"

definition unregisterInterface :: "interfaceId \<Rightarrow> tcp \<Rightarrow> tcp" where
  "unregisterInterface i s = s\<lparr>tc_localInterfaces := removeAll i (tc_localInterfaces s), tc_inboundQueues := (tc_inboundQueues s)(i := None)\<rparr>"

definition enqueueInbound :: "interfaceId \<Rightarrow> interfaceId \<Rightarrow> json \<Rightarrow> tcp \<Rightarrow> tcp" where
  "enqueueInbound to from body s = s\<lparr>tc_inboundQueues := (tc_inboundQueues s)(to \<mapsto>
     (case tc_inboundQueues s to of None \<Rightarrow> [] | Some q \<Rightarrow> q) @ [new_packet_to (tc_now s) to from body])\<rparr>"

definition drainInbound :: "interfaceId \<Rightarrow> packet list \<Rightarrow> tcp \<Rightarrow> packet list \<times> tcp" where
  "drainInbound i target s = (case tc_inboundQueues s i of None \<Rightarrow> (target, s)
     | Some q \<Rightarrow> (target @ q, s\<lparr>tc_inboundQueues := (tc_inboundQueues s)(i \<mapsto> [])\<rparr>))"

definition handleInboundMessage :: "json \<Rightarrow> unit act" where
  "handleInboundMessage msg = act_bind (act_read (do { to \<leftarrow> value_id msg ''to_id'' NO_PEER_ID; from \<leftarrow> value_id msg ''from_id'' NO_PEER_ID;
       body \<leftarrow> value_json msg ''body'' (JObj []); Some (to, from, body) })) (\<lambda>(to, from, body).
     act_update (\<lambda>s. if to \<in> set (tc_localInterfaces s) then enqueueInbound to from body s else s))"

definition endpointForPeer :: "interfaceId \<Rightarrow> tcp \<Rightarrow> (string \<times> int) option" where
  "endpointForPeer i s = (case map_of (tc_allPeers s) i of Some e \<Rightarrow> Some (en_ip e, en_port e)
     | None \<Rightarrow> map_option (\<lambda>r. (rg_ip r, rg_port r))
         (find (\<lambda>r. rg_firstId r \<noteq> NO_PEER_ID \<and> rg_lastId r \<noteq> NO_PEER_ID \<and> in_range i r) (tc_peerRanges s)))"

definition unicast_tcp :: "interfaceId \<Rightarrow> interfaceId \<Rightarrow> json \<Rightarrow> unit act" where
  "unicast_tcp from to body = act_bind act_get (\<lambda>s. if tc_stopSignal s then act_return ()
     else if to \<in> set (tc_localInterfaces s) then act_update (enqueueInbound to from body)
     else case endpointForPeer to s of None \<Rightarrow> act_return () | Some (ip, port) \<Rightarrow> sendJson ip port (unicast_message from to body s))"

subsection \<open>Dispatch\<close>

text \<open>An exception ends the handling of the message; the connection goes on with the next.\<close>

definition processMessage :: "string \<Rightarrow> int \<Rightarrow> json \<Rightarrow> unit act" where
  "processMessage remoteIp remotePort msg = act_bind act_get (\<lambda>s.
     act_bind (act_read (do { type \<leftarrow> value_string msg ''type'' []; k \<leftarrow> map_option to_size_t (value_id msg ''experimentIndex'' (int (tc_experimentIndex s)));
         Some (type, k) })) (\<lambda>(type, k).
     if k \<noteq> int (tc_experimentIndex s) then act_return ()
     else if type = ''register'' \<and> tc_isLeader s then handleRegister remoteIp remotePort msg
     else if type = ''assignment'' \<and> \<not> tc_isLeader s then handleAssignment msg
     else if type = ''ready'' \<and> tc_isLeader s then handleReady msg
     else if type = ''start'' then handleStart
     else if type = ''stop'' then handleStop
     else if type = ''peer_done'' \<and> tc_isLeader s then act_bind (act_read (value_id msg ''peerId'' NO_PEER_ID)) handlePeerDone
     else if type = ''message'' then handleInboundMessage msg
     else act_return ()))"

subsection \<open>Configuration\<close>

definition read_stopCondition :: "json \<Rightarrow> stopCondition option" where
  "read_stopCondition stopJson = do { type \<leftarrow> value_string stopJson ''type'' ''peerSignals'';
     if type = ''time'' then do { ms \<leftarrow> map_option to_int32 (value_int stopJson ''milliseconds'' 0); Some (Stop_after (if ms < 0 then 0 else nat ms)) }
     else Some PeerSignals }"

text \<open>A member of the experiment's section \<open>concrete\<close>, or else of the root's.\<close>

definition concrete_member :: "json \<Rightarrow> json \<Rightarrow> string \<Rightarrow> json option" where
  "concrete_member rootConfig experimentConfig key = (case (case jfind ''concrete'' experimentConfig of None \<Rightarrow> None | Some c \<Rightarrow> jfind key c) of
       Some v \<Rightarrow> Some v
     | None \<Rightarrow> (case jfind ''concrete'' rootConfig of None \<Rightarrow> None | Some c \<Rightarrow> jfind key c))"

definition read_peersPerProcess :: "json \<Rightarrow> json \<Rightarrow> int \<Rightarrow> int option" where
  "read_peersPerProcess rootConfig experimentConfig override = (if override > 0 then Some override
     else case concrete_member rootConfig experimentConfig ''peersPerProcess'' of None \<Rightarrow> Some 1 | Some v \<Rightarrow> map_option to_int32 (get_int v))"

definition read_leader :: "json \<Rightarrow> json \<Rightarrow> (string \<times> int \<times> interfaceId) option" where
  "read_leader rootConfig experimentConfig =
     (let leaderJson = (case concrete_member rootConfig experimentConfig ''leader'' of Some j \<Rightarrow> j
            | None \<Rightarrow> (case jfind ''leader'' rootConfig of Some j \<Rightarrow> j | None \<Rightarrow> JNull))
      in do { ip \<leftarrow> value_string leaderJson ''ip'' []; port \<leftarrow> value_int leaderJson ''port'' (-1); i \<leftarrow> value_int leaderJson ''id'' 0;
              Some (ip, to_int32 port, to_int32 i) })"

definition reset_tcp :: "tcp \<Rightarrow> tcp" where
  "reset_tcp s = s\<lparr>tc_assignmentsReady := False, tc_startSignal := False, tc_stopSignal := False, tc_completedPeers := [],
     tc_localAssignments := [], tc_allPeers := [], tc_peerRanges := [], tc_localInterfaces := [], tc_inboundQueues := (\<lambda>_. None),
     tc_processes := (\<lambda>_. None), tc_registrationOrder := []\<rparr>"

text \<open>
  \<open>localIp\<close> and \<open>unusedPort\<close> are what \<open>get_local_ip\<close> and \<open>get_unused_port\<close> return, \<open>listens port\<close> whether the
  server socket is open or can be opened.
\<close>

record tcpHost =
  th_localIp :: string
  th_unusedPort :: int
  th_listens :: "int \<Rightarrow> bool"

definition configureProcess_tcp :: "tcpHost \<Rightarrow> json \<Rightarrow> json \<Rightarrow> string \<Rightarrow> int \<Rightarrow> bool \<Rightarrow> int option \<Rightarrow> nat \<Rightarrow> unit act" where
  "configureProcess_tcp host rootConfig experimentConfig peerType peersPerProcessOverride isLeader explicitPort experimentIndex =
     act_seq (act_update (\<lambda>s. s\<lparr>tc_rootConfig := rootConfig, tc_experimentConfig := experimentConfig, tc_peerType := peerType,
       tc_experimentIndex := experimentIndex\<rparr>))
     (act_bind (act_read (do { t \<leftarrow> jat experimentConfig ''topology''; value_int t ''initialPeers'' 0 })) (\<lambda>n.
      act_seq (act_update (\<lambda>s. (reset_tcp s)\<lparr>tc_totalPeers := to_int32 n\<rparr>))
     (if jfind ''concrete'' experimentConfig = None \<and> \<not> contains rootConfig ''concrete'' then act_throw
      else act_bind (act_read (read_peersPerProcess rootConfig experimentConfig peersPerProcessOverride)) (\<lambda>ppp.
       act_seq (act_update (\<lambda>s. s\<lparr>tc_peersPerProcess := ppp\<rparr>))
     (act_bind (act_read (case concrete_member rootConfig experimentConfig ''stopCondition'' of None \<Rightarrow> Some PeerSignals | Some j \<Rightarrow> read_stopCondition j)) (\<lambda>condition.
       act_seq (act_update (\<lambda>s. s\<lparr>tc_stopCondition := condition\<rparr>))
     (act_bind (act_read (read_leader rootConfig experimentConfig)) (\<lambda>(leaderIp, leaderPort, leaderId).
       act_seq (act_update (\<lambda>s. s\<lparr>tc_leaderIp := leaderIp, tc_leaderPort := leaderPort, tc_leaderId := leaderId, tc_myIp := th_localIp host\<rparr>))
     (if th_localIp host = [] then act_throw else
       act_seq (act_update (\<lambda>s. s\<lparr>tc_myPort := (case explicitPort of Some p \<Rightarrow> p | None \<Rightarrow> if tc_myPort s > 0 then tc_myPort s else th_unusedPort host)\<rparr>))
     (act_bind act_get (\<lambda>s. if tc_myPort s \<le> 0 then act_throw else
       act_seq (act_update (\<lambda>s. s\<lparr>tc_isLeader := (isLeader \<or> (leaderIp \<noteq> [] \<and> tc_myIp s = leaderIp \<and> tc_myPort s = leaderPort)),
         tc_processes := (tc_processes s)(processKey (tc_myIp s) (tc_myPort s) \<mapsto>
           \<lparr>pr_ip = tc_myIp s, pr_port = tc_myPort s, pr_requestedPeers = ppp, pr_assignedPeers = [], pr_ready = False\<rparr>),
         tc_registrationOrder := tc_registrationOrder s @ [processKey (tc_myIp s) (tc_myPort s)]\<rparr>))
     (if \<not> th_listens host (tc_myPort s) then act_throw
      else act_bind act_get (\<lambda>s. if tc_isLeader s then distributeAssignmentsIfReady
        else sendJson (tc_leaderIp s) (tc_leaderPort s) (register_message s))))))))))))))"

definition cleanupExperiment :: "tcp \<Rightarrow> tcp" where
  "cleanupExperiment s = s\<lparr>tc_assignmentsReady := False, tc_startSignal := False, tc_stopSignal := False, tc_completedPeers := [],
     tc_localAssignments := [], tc_localInterfaces := [], tc_inboundQueues := (\<lambda>_. None), tc_stopTimerActive := False\<rparr>"

end
