(* ===== verification/TcpPlacement.thy ===== *)
theory TcpPlacement
  imports TcpCoordinator
begin

text \<open>
  Where the peers go: each identifier is handed to one process, and every process that has handled its
  assignment knows the address of every peer.
\<close>

subsection \<open>Handing out\<close>















subsection \<open>Steps\<close>

text \<open>\<open>act_ok P p Q M\<close>: from a state in \<open>P\<close> the step, whether it throws or not, ends in \<open>Q\<close> and sends only \<open>M\<close>.\<close>

definition act_ok :: "(tcp \<Rightarrow> bool) \<Rightarrow> 'a act \<Rightarrow> (tcp \<Rightarrow> bool) \<Rightarrow> (tcp_send \<Rightarrow> bool) \<Rightarrow> bool" where
  "act_ok P p Q M = (\<forall>s r s' out. P s \<longrightarrow> p s = (r, s', out) \<longrightarrow> Q s' \<and> (\<forall>m\<in>set out. M m))"

lemma act_okD: "act_ok P p Q M \<Longrightarrow> P s \<Longrightarrow> p s = (r, s', out) \<Longrightarrow> Q s' \<and> (\<forall>m\<in>set out. M m)"
  unfolding act_ok_def by blast

lemma act_return_ok: "act_ok P (act_return x) P M"
  by (simp add: act_ok_def act_return_def)

lemma act_throw_ok: "act_ok P act_throw P M"
  by (simp add: act_ok_def act_throw_def)

lemma act_read_ok: "act_ok P (act_read r) P M"
  by (cases r) (simp_all add: act_read_def act_return_ok act_throw_ok)

lemma act_update_ok: "(\<And>s. P s \<Longrightarrow> P (f s)) \<Longrightarrow> act_ok P (act_update f) P M"
  by (simp add: act_ok_def act_update_def)

lemma act_send_ok: "M (ip, port, msg) \<Longrightarrow> act_ok P (sendJson ip port msg) P M"
  by (simp add: act_ok_def sendJson_def)

lemma act_bind_ok:
  assumes "act_ok P p P M" "\<And>x. act_ok P (f x) P M"
  shows "act_ok P (act_bind p f) P M"
  unfolding act_ok_def
proof (intro allI impI)
  fix s r s' out
  assume *: "P s" "act_bind p f s = (r, s', out)"
  obtain r1 s1 out1 where 1: "p s = (r1, s1, out1)" by (metis surj_pair)
  note A = act_okD [OF assms(1) *(1) 1]
  show "P s' \<and> (\<forall>m\<in>set out. M m)"
  proof (cases r1)
    case (Some x)
    obtain r2 s2 out2 where 2: "f x s1 = (r2, s2, out2)" by (metis surj_pair)
    show ?thesis using act_okD [OF assms(2) _ 2] A * 1 2 Some by (auto simp: act_bind_def)
  qed (use A * 1 in \<open>auto simp: act_bind_def\<close>)
qed

lemma act_seq_ok: "act_ok P p P M \<Longrightarrow> act_ok P q P M \<Longrightarrow> act_ok P (act_seq p q) P M"
  unfolding act_seq_def by (rule act_bind_ok)

lemma act_get_ok: "(\<And>x. P x \<Longrightarrow> act_ok (\<lambda>s. P s) (f x) P M) \<Longrightarrow> act_ok P (act_bind act_get f) P M"
  unfolding act_ok_def act_bind_def act_get_def
proof (intro allI impI)
  fix s r s' out
  assume ok: "\<And>x. P x \<Longrightarrow> \<forall>s r s' out. P s \<longrightarrow> f x s = (r, s', out) \<longrightarrow> P s' \<and> (\<forall>m\<in>set out. M m)" and P: "P s"
    and run: "(case (Some s, s, []) of (Some x, s, out) \<Rightarrow> (case f x s of (r, s, out') \<Rightarrow> (r, s, out @ out')) | (None, s, out) \<Rightarrow> (None, s, out)) = (r, s', out)"
  obtain r1 s1 out1 where 1: "f s s = (r1, s1, out1)" by (metis surj_pair)
  show "P s' \<and> (\<forall>m\<in>set out. M m)" using ok [OF P, rule_format, OF P 1] run 1 by simp
qed

lemma act_for_ok: "(\<And>x. x \<in> set xs \<Longrightarrow> act_ok P (f x) P M) \<Longrightarrow> act_ok P (act_for f xs) P M"
  by (induction xs) (auto intro: act_return_ok act_seq_ok)

lemma act_if_ok: "(b \<Longrightarrow> act_ok P p P M) \<Longrightarrow> (\<not> b \<Longrightarrow> act_ok P q P M) \<Longrightarrow> act_ok P (if b then p else q) P M"
  by simp

lemma act_option_ok: "(m = None \<Longrightarrow> act_ok P p P M) \<Longrightarrow> (\<And>x. m = Some x \<Longrightarrow> act_ok P (f x) P M) \<Longrightarrow> act_ok P (case m of None \<Rightarrow> p | Some x \<Rightarrow> f x) P M"
  by (cases m) auto

lemma act_prod_ok: "(\<And>x y. m = (x, y) \<Longrightarrow> act_ok P (f x y) P M) \<Longrightarrow> act_ok P (case m of (x, y) \<Rightarrow> f x y) P M"
  by (cases m) auto

lemmas act_rules = act_return_ok act_throw_ok act_read_ok act_get_ok act_seq_ok act_bind_ok act_for_ok act_if_ok act_option_ok act_prod_ok
  act_update_ok act_send_ok

subsection \<open>An assignment arrives\<close>
















subsection \<open>Every process knows every peer\<close>


























end
