(* ===== verification/TcpGate.thy ===== *)
theory TcpGate
  imports TcpPlacement
begin

text \<open>
  The start gate of the TCP back end: what a process does as a sequence of events, and when its coordinator
  sends a start message.
\<close>

subsection \<open>Events\<close>





subsection \<open>Only reports make a record ready\<close>

























subsection \<open>The gate\<close>





























end
