(* ===== verification/Spec2Isabelle.thy ===== *)
theory Spec2Isabelle
  imports NetWiring RuntimeConfig TopologyPlanner RaftReplication PBFTSafety PowPeers DataLink LinearChord Kademlia PowMetrics MqRun TcpGate
begin

text \<open>
  QUANTAS is a simulator of distributed algorithms. Peers of an algorithm run in rounds on a network
  of channels that delay, lose, duplicate and reorder packets; a round lets every peer receive what
  has arrived and then compute, and the algorithms log what they measure. This development models the
  simulator and its algorithms from the sources under src/quantas and proves what makes them correct.

  \<^bold>\<open>Conventions.\<close> An exception that nothing catches and an access the language leaves undefined are
  \<open>None\<close> in the option monad; readers of configurations return \<open>config_error + 'a\<close>. Random numbers are
  an arbitrary stream of draws, so a theorem holds for every seed. A computation of a peer returns the
  list of its sends; the network executes them. Messages are JSON values. Where an integer's width
  matters the conversion is written out (\<open>to_size_t\<close>, \<open>to_int32\<close>); elsewhere the numbers in messages and
  configurations are taken to fit the integer they are read into (\<open>get_int\<close> does not cut a number to 32
  bits, as \<open>get<int>\<close> does), and counters of rounds, terms and messages are unbounded. Hash tables are association lists or maps, and no result depends on their order.

  \<^bold>\<open>Theories.\<close>

  \<^item> \<open>Prelude\<close>: integer conversions, loops in the option monad with their invariant, frame and progress
    rules, ordered sets of identifiers, and the fact collections \<open>monad\<close>, \<open>conv\<close> and \<open>pres\<close>.
  \<^item> \<open>RandomUtil\<close>, \<open>Json_Value\<close>, \<open>Packet\<close>: Common/RandomUtil.hpp, the operations of Common/Json.hpp that
    are used, Common/Packet.hpp and RoundManager.hpp.
  \<^item> \<open>Channel\<close>: Common/Abstract/Channel.cpp with the properties factory. Throughput and capacity are
    bounds on every run, the duplication loop ends, a push appends copies with delays in range; the
    product that sets the throughput wraps.
  \<^item> \<open>Store\<close>, \<open>NetIface\<close>, \<open>Network\<close>, \<open>NetTopology\<close>, \<open>NetWiring\<close>: NetworkInterface.hpp,
    NetworkInterfaceAbstract.hpp, Peer.hpp and Network.cpp. Channels are shared objects in a store; the
    sends of the base class are proved over the locale of a virtual \<open>unicastTo\<close>. The topologies give the
    configured adjacency, every channel has one sender and one receiver, and so the receive and compute
    phases of different peers commute: the ranges handed to threads do not race. A message to a neighbour
    reaches it, except where shuffled identifiers make the wiring take identifiers for positions.
  \<^item> \<open>ConfigErrors\<close>, \<open>RuntimeConfig\<close>, \<open>TopologyPlanner\<close>: Common/Concrete/Runtime and the queue settings of
    the Boost back end. Accepted settings are in range, the preflight excludes overflow, and the planner
    plans what the abstract network builds, for all eight types of topology.
  \<^item> \<open>Committee\<close>, \<open>RaftPeer\<close>, \<open>RaftSafety\<close>, \<open>RaftReplication\<close>: Committee.hpp and RaftPeer/. Every handler,
    the peer and its metrics. One vote per term, majorities intersect (locale \<open>quorum\<close>), in every run a commit
    rests on answers of a majority of the members, starting a replication returns. An election counts votes of
    any term, so two peers can lead one term.
  \<^item> \<open>Faults\<close>: Faults.hpp, ByzantinePeer.hpp, equivocateFault.hpp, ParasiteFault.hpp. What the two faults
    send and withhold, and that a peer without faults is its algorithm.
  \<^item> \<open>PBFTPeer\<close>, \<open>PBFTSafety\<close>: PBFTPeer/ and Consensus.hpp. The five phases as functions that say whether the
    next one runs at once; the chain of phases ends, a peer commits once per slot, and in committees of
    \<open>3 f + 1\<close> decisions of one slot agree (locale \<open>quorum\<close> again, with \<open>f\<close> faulty members).
  \<^item> \<open>PoW\<close>, \<open>PoWSearch\<close>, \<open>PoWLedger\<close>: Pow.hpp, PoWBitcoin.hpp, PoWEthereum.hpp. The graph searches compute
    ancestry, ancestors and subtree sizes; a chain rule that meets the locale \<open>chain_order\<close> keeps the best
    tip the greatest block with complete ancestry. Ethereum's rule decides as Bitcoin's as long as parents
    come first.
  \<^item> \<open>PowPeers\<close>: PowPeer.hpp, BitcoinPeer.cpp, EthereumPeer.cpp. The mining peers, one model over the chain
    rule; a peer mines a transaction once, and a configuration leaves mining probabilities.
  \<^item> \<open>DataLink\<close>: StableDataLinkPeer and AltBitPeer. The stop-and-wait peers refine a one-place channel over
    a network that loses, reorders and repeats; a timeout and a round trip make progress.
  \<^item> \<open>Routing\<close>, \<open>LinearChord\<close>, \<open>Kademlia\<close>: the overlay peers LinearChordPeer and KademliaPeer. The locales
    \<open>lookup_routing\<close> and \<open>live_routing\<close> state what the handler of a lookup must promise for it to end and to
    arrive; the ring meets them with its distance and with the bits of it, the XOR overlay with its own.
  \<^item> \<open>PowMetrics\<close>: the \<open>endOfRound\<close> of the mining peers. It returns on ledgers without a cycle, and what it
    logs are lengths of paths of the merged ledger; Bitcoin's are the longest.
  \<^item> \<open>Logging\<close>: Logger.cpp, LoggingSupport.cpp. Which record a call of the logger appends where, after the
    configuration of an experiment.
  \<^item> \<open>MqService\<close>, \<open>MqTransport\<close>, \<open>MqCoordinator\<close>, \<open>MqReport\<close>, \<open>MqLeader\<close>, \<open>MqPeer\<close>: the Boost message queue back end
    under Common/Concrete/Backends/BoostMq. A program is a tree of calls to the services of the operating
    system (\<open>io\<close>), and its behaviour is over all answers. \<open>MqProtocol\<close>, \<open>MqSuccess\<close>, \<open>MqRun\<close>: runs of the
    leader with its peers; a start follows every inbox, exit code 0 means that every peer completed, and the
    clean-up of one test can remove an inbox of the next.
  \<^item> \<open>TcpCoordinator\<close>, \<open>TcpPlacement\<close>, \<open>TcpGate\<close>: ProcessCoordinator.cpp of the TCP back end. A handler is a step that
    may throw and yields the messages it sends. The leader places every peer in one process and the others
    can find it; a start is sent only when every registered process has reported.

  \<^bold>\<open>Fuel.\<close> Raft's mutual calls get one unit per known or committed request and three more
    (\<open>start_fuel\<close>, enough by \<open>tryStart_total\<close>); PBFT's phases three per recorded message and proof
    entry (\<open>phase_fuel\<close>, enough by the ranking of \<open>PBFTSafety\<close>); the ledger's searches one per entry of the table
    they walk and two more (enough by the correctness lemmas of \<open>PoWSearch\<close> and \<open>propagateUpdates_ok\<close>),
    and the memoised search of the metrics one per entry of the merged table and one more (enough on ledgers
    without a cycle, which is shown). The loops of the metrics and of the message queue programs that may not
    end are \<open>partial_function (option)\<close>; that they end is shown where a theorem needs it. The
    channel's duplication loop needs none, it ends with the room in the queue.

  \<^bold>\<open>Not modelled.\<close> Parsing and printing of JSON and the thread pool (vendored libraries), the loop of
  Simulation.hpp over the phases, the main function of the TCP back end, sockets and threads, log files and
  result files, memory statistics, launch scripts, example peers and the tests. The message queues, the
  clock and the file system of the Boost back end, and the host of the TCP back end, are arguments.
\<close>

end
